(* ===== verification/Prelude.thy ===== *)
theory Prelude
  imports Main "HOL-Library.Word" "HOL-Library.State_Monad"
begin

text \<open>
  The shared vocabulary of the development: names for the machine types of the C sources, the
  status codes of EPICS base that the modelled code returns, the collections of simplification
  rules the component theories extend, and generic lemmas on lists, options and words.
\<close>

unbundle bit_operations_syntax

section \<open>Collections of rules\<close>

named_theorems io_simps \<open>how one operating-system call changes the world\<close>
named_theorems dbl_simps \<open>evaluation of double arithmetic on special values\<close>
named_theorems rec_simps \<open>what a record operation leaves unchanged\<close>
named_theorems heap_simps \<open>reads of a pointer structure after a write\<close>

section \<open>Machine types\<close>

type_synonym u8 = "8 word"
type_synonym u16 = "16 word"
type_synonym u32 = "32 word"

text \<open>\<open>epicsEnum16\<close> of epicsTypes.h: severities, statuses and menu choices.\<close>

type_synonym enum16 = "16 word"

text \<open>The 8-bit flags of \<open>dbCommon\<close> (\<open>pact\<close>, \<open>udf\<close>, \<open>putf\<close>, ...), with \<open>TRUE\<close> and
  \<open>FALSE\<close> of dbDefs.h.\<close>

abbreviation (input) TRUE :: u8 where "TRUE \<equiv> 1"
abbreviation (input) FALSE :: u8 where "FALSE \<equiv> 0"

text \<open>A C truth value stored into an 8-bit flag.\<close>

definition flag :: "bool \<Rightarrow> u8" where
  "flag b = (if b then 1 else 0)"

lemma flag_simps [simp]: "flag True = 1" "flag False = 0" "flag b = 0 \<longleftrightarrow> \<not> b" "flag b = 1 \<longleftrightarrow> b"
  by (simp_all add: flag_def)

text \<open>The value of a plain C \<open>char\<close>: whether it is signed is the ABI's choice.\<close>

definition char_val :: "bool \<Rightarrow> u8 \<Rightarrow> int" where
  "char_val sgnd b = (if sgnd then sint b else uint b)"

lemma char_val_bounds: "- 128 \<le> char_val c b" "char_val c b < 256"
proof -
  have "- (2 ^ 7) \<le> sint b" "sint b < 2 ^ 7"
    using sint_range_size [of b] by (simp_all add: word_size)
  moreover have "- 128 \<le> uint b" "uint b < 256"
    using uint_range_size [of b] by (simp_all add: word_size order.trans [of _ 0])
  ultimately have "- 128 \<le> char_val c b \<and> char_val c b < 256"
    unfolding char_val_def by (cases c) auto
  then show "- 128 \<le> char_val c b" "char_val c b < 256" by simp_all
qed

text \<open>Division and remainder of C99: the quotient is truncated towards zero.\<close>

definition cdiv :: "int \<Rightarrow> int \<Rightarrow> int" where
  "cdiv a b = sgn a * sgn b * (\<bar>a\<bar> div \<bar>b\<bar>)"

definition crem :: "int \<Rightarrow> int \<Rightarrow> int" where
  "crem a b = a - b * cdiv a b"

lemma cdiv_nonneg [simp]: "0 \<le> a \<Longrightarrow> 0 < b \<Longrightarrow> cdiv a b = a div b"
  by (cases "a = 0") (auto simp: cdiv_def)

lemma crem_nonneg [simp]: "0 \<le> a \<Longrightarrow> 0 < b \<Longrightarrow> crem a b = a mod b"
  by (simp add: crem_def minus_mult_div_eq_mod)

section \<open>Status codes\<close>

text \<open>
  The \<open>M_xxx | n\<close> codes of the EPICS headers (errMdef.h, dbAccessDefs.h, devSup.h): the
  modelled code only stores them and compares them with 0.
\<close>

definition M_dbAccess :: int where "M_dbAccess = 501 * 65536"
definition M_devSup :: int where "M_devSup = 504 * 65536"

definition S_db_badField :: int where "S_db_badField = M_dbAccess + 15"
definition S_db_noMod :: int where "S_db_noMod = M_dbAccess + 5"
definition S_db_badChoice :: int where "S_db_badChoice = M_dbAccess + 13"
definition S_dev_noDSET :: int where "S_dev_noDSET = M_devSup + 3"
definition S_dev_missingSup :: int where "S_dev_missingSup = M_devSup + 5"
definition S_dev_badInitRet :: int where "S_dev_badInitRet = M_devSup + 11"
definition S_dev_badBus :: int where "S_dev_badBus = M_devSup + 13"

lemmas status_defs = M_dbAccess_def M_devSup_def S_db_badField_def S_db_noMod_def
  S_db_badChoice_def S_dev_noDSET_def S_dev_missingSup_def S_dev_badInitRet_def S_dev_badBus_def

section \<open>Words\<close>

lemma ucast_16_32 [simp]: "ucast (ucast (x :: 16 word) :: 32 word) = x"
  by (rule ucast_up_ucast_id) (simp add: is_up)

end
