(* ===== verification/Posix.thy ===== *)
theory Posix
  imports Prelude
begin

text \<open>
  What the drivers use of the C library and of the operating system. C strings and memory blocks
  are character lists; a write outside its block is undefined behaviour and yields \<open>None\<close>. The
  system calls are a parameter of the model (a record of functions over an abstract kernel state),
  restricted only by their types: a \<open>read\<close> that succeeds delivers the bytes it counts, and no call
  transfers more than it was asked for. Every call is recorded in a trace, so that statements on
  the order of calls (files closed, mutex released) are statements on the trace.
\<close>

section \<open>Strings and memory blocks\<close>

abbreviation NUL :: char where "NUL \<equiv> CHR 0x00"

definition cstr :: "string \<Rightarrow> string" where
  "cstr mem = takeWhile (\<lambda>c. c \<noteq> NUL) mem"

definition poke :: "string \<Rightarrow> nat \<Rightarrow> string \<Rightarrow> string option" where
  "poke mem off cs =
     (if off + length cs \<le> length mem
      then Some (take off mem @ cs @ drop (off + length cs) mem) else None)"

definition c_strcpy :: "string \<Rightarrow> nat \<Rightarrow> string \<Rightarrow> string option" where
  "c_strcpy mem off s = poke mem off (cstr s @ [NUL])"

lemma cstr_append: "NUL \<notin> set s \<Longrightarrow> cstr (s @ NUL # rest) = s"
  unfolding cstr_def by (induction s) auto

lemma cstr_no_nul: "NUL \<notin> set (cstr s)"
  by (auto simp: cstr_def dest: set_takeWhileD)

lemma cstr_id: "NUL \<notin> set s \<Longrightarrow> cstr s = s"
  unfolding cstr_def by (induction s) auto

lemma poke_append:
  assumes "length pre = off" "off + length cs \<le> length pre + length rest"
  shows "poke (pre @ rest) off cs = Some (pre @ cs @ drop (length cs) rest)"
  using assms by (simp add: poke_def)

lemma poke_length: "poke mem off cs = Some mem' \<Longrightarrow> length mem' = length mem"
  by (auto simp: poke_def split: if_splits)

section \<open>Decimal numbers\<close>

definition digit_char :: "nat \<Rightarrow> char" where
  "digit_char d = char_of (48 + d)"

definition is_digit :: "char \<Rightarrow> bool" where
  "is_digit c \<longleftrightarrow> 48 \<le> (of_char c :: nat) \<and> (of_char c :: nat) \<le> 57"

definition digit_val :: "char \<Rightarrow> nat" where
  "digit_val c = of_char c - 48"

fun show_nat :: "nat \<Rightarrow> string" where
  "show_nat n = (if n < 10 then [digit_char n] else show_nat (n div 10) @ [digit_char (n mod 10)])"

declare show_nat.simps [simp del]

text \<open>The number a digit string stands for, as \<open>strtol\<close> accumulates it.\<close>

definition read_nat :: "string \<Rightarrow> nat" where
  "read_nat ds = foldl (\<lambda>n c. 10 * n + digit_val c) 0 ds"

lemma digit_char_simps [simp]: "d < 10 \<Longrightarrow> is_digit (digit_char d)"
  "d < 10 \<Longrightarrow> digit_val (digit_char d) = d"
  by (simp_all add: is_digit_def digit_char_def digit_val_def)

lemma read_nat_snoc [simp]: "read_nat (ds @ [c]) = 10 * read_nat ds + digit_val c"
  by (simp add: read_nat_def)

lemma read_show_nat: "read_nat (show_nat n) = n"
proof (induction n rule: show_nat.induct)
  case (1 n)
  then show ?case by (cases "n < 10") (simp_all add: show_nat.simps [of n] read_nat_def)
qed

lemma show_nat_digits: "\<forall>c \<in> set (show_nat n). is_digit c"
proof (induction n rule: show_nat.induct)
  case (1 n)
  then show ?case by (cases "n < 10") (auto simp: show_nat.simps [of n])
qed

lemma show_nat_nonempty: "show_nat n \<noteq> []"
  by (subst show_nat.simps) simp

lemma nul_not_digit: "\<not> is_digit NUL"
  by (simp add: is_digit_def)

lemma show_nat_no_nul: "NUL \<notin> set (show_nat n)"
  using show_nat_digits nul_not_digit by blast

section \<open>Scanning integers\<close>

definition isspace :: "char \<Rightarrow> bool" where
  "isspace c \<longleftrightarrow> (of_char c :: nat) \<in> {9, 10, 11, 12, 13, 32}"

definition skip_space :: "string \<Rightarrow> string" where
  "skip_space s = dropWhile isspace s"

text \<open>The range of \<open>int\<close>; \<open>%d\<close> saturates where \<open>long\<close> has 32 bits, as on linux-arm.\<close>

definition sat32 :: "int \<Rightarrow> int" where
  "sat32 i = max (- (2 ^ 31)) (min (2 ^ 31 - 1) i)"

text \<open>The conversion \<open>%d\<close> of \<open>sscanf\<close>: the value and the rest of the input, or a matching failure.\<close>

definition scan_int :: "string \<Rightarrow> (int \<times> string) option" where
  "scan_int s0 =
     (let s1 = skip_space s0;
          neg = (case s1 of c # _ \<Rightarrow> c = CHR ''-'' | [] \<Rightarrow> False);
          s2 = (case s1 of c # r \<Rightarrow> if c = CHR ''-'' \<or> c = CHR ''+'' then r else s1 | [] \<Rightarrow> []);
          ds = takeWhile is_digit s2
      in if ds = [] then None
         else Some (sat32 (if neg then - int (read_nat ds) else int (read_nat ds)),
                    dropWhile is_digit s2))"

lemma sat32_bounds: "- (2 ^ 31) \<le> sat32 i" "sat32 i < 2 ^ 31"
  by (simp_all add: sat32_def)

lemma sat32_id: "- (2 ^ 31) \<le> i \<Longrightarrow> i < 2 ^ 31 \<Longrightarrow> sat32 i = i"
  by (simp add: sat32_def)

lemma digit_not_space: "is_digit c \<Longrightarrow> \<not> isspace c"
  by (auto simp: is_digit_def isspace_def)

lemma digit_not_sign: "is_digit c \<Longrightarrow> c \<noteq> CHR ''-'' \<and> c \<noteq> CHR ''+''"
  by (auto simp: is_digit_def)

lemma takeWhile_all: "\<forall>c \<in> set ds. p c \<Longrightarrow> rest = [] \<or> \<not> p (hd rest) \<Longrightarrow>
    takeWhile p (ds @ rest) = ds \<and> dropWhile p (ds @ rest) = rest"
  by (cases rest) auto

lemma scan_digits:
  assumes "ds \<noteq> []" "\<forall>c \<in> set ds. is_digit c" "int (read_nat ds) < 2 ^ 31"
    and "rest = [] \<or> \<not> is_digit (hd rest)"
  shows "scan_int (ds @ rest) = Some (int (read_nat ds), rest)"
proof -
  obtain d es where s: "ds = d # es" using assms(1) by (cases ds) auto
  then have d: "is_digit d" using assms(2) by auto
  have t: "takeWhile is_digit (ds @ rest) = ds" "dropWhile is_digit (ds @ rest) = rest"
    using takeWhile_all [OF assms(2) assms(4)] by auto
  have "skip_space (ds @ rest) = ds @ rest"
    using digit_not_space [OF d] by (simp add: s skip_space_def)
  then show ?thesis
    using digit_not_sign [OF d] t assms(3) by (simp add: scan_int_def Let_def sat32_id s)
qed

text \<open>What is printed in decimal is scanned back.\<close>

lemma scan_show_nat:
  "int n < 2 ^ 31 \<Longrightarrow> rest = [] \<or> \<not> is_digit (hd rest) \<Longrightarrow>
   scan_int (show_nat n @ rest) = Some (int n, rest)"
  using scan_digits [OF show_nat_nonempty show_nat_digits, of n rest] by (simp add: read_show_nat)

section \<open>The operating system\<close>

datatype io_event =
    EvLock | EvUnlock
  | EvOpen string
  | EvIoctl int int
  | EvWrite int "u8 list"
  | EvRead int nat
  | EvSleep nat
  | EvFopen string string
  | EvFclose nat
  | EvFgetc nat
  | EvFputc u8 nat
  | EvPrintf
  | EvUB

text \<open>
  \<open>os_write\<close> and \<open>os_read\<close> are \<open>None\<close> where the call returns \<open>-1\<close>; \<open>os_fgetc\<close> is \<open>None\<close> at
  \<open>EOF\<close>; \<open>os_fputc\<close> is \<open>False\<close> where the call returns \<open>EOF\<close>. \<open>char_signed\<close> is the ABI's choice
  for plain \<open>char\<close> (unsigned on linux-arm, signed on linux-x86_64).
\<close>

record 'k os_api =
  char_signed :: bool
  os_open :: "string \<Rightarrow> 'k \<Rightarrow> int \<times> 'k"
  os_ioctl :: "int \<Rightarrow> int \<Rightarrow> 'k \<Rightarrow> int \<times> 'k"
  os_write :: "int \<Rightarrow> u8 list \<Rightarrow> 'k \<Rightarrow> nat option \<times> 'k"
  os_read :: "int \<Rightarrow> nat \<Rightarrow> 'k \<Rightarrow> u8 list option \<times> 'k"
  os_fopen :: "string \<Rightarrow> string \<Rightarrow> 'k \<Rightarrow> nat option \<times> 'k"
  os_fgetc :: "nat \<Rightarrow> 'k \<Rightarrow> u8 option \<times> 'k"
  os_fputc :: "u8 \<Rightarrow> nat \<Rightarrow> 'k \<Rightarrow> bool \<times> 'k"
  os_fclose :: "nat \<Rightarrow> 'k \<Rightarrow> 'k"

record 'k world =
  kern :: 'k
  trace :: "io_event list"

type_synonym ('k, 'z, 'a) io = "(('k, 'z) world_scheme, 'a) state"

definition sys :: "io_event \<Rightarrow> ('k \<Rightarrow> 'a \<times> 'k) \<Rightarrow> ('k, 'z, 'a) io" where
  "sys e f = State (\<lambda>s. case f (kern s) of
     (r, k) \<Rightarrow> (r, s\<lparr>kern := k, trace := trace s @ [e]\<rparr>))"

lemma run_sys [simp]: "run_state (sys e f) s =
    (fst (f (kern s)), s\<lparr>kern := snd (f (kern s)), trace := trace s @ [e]\<rparr>)"
  by (simp add: sys_def split: prod.split)

definition c_open :: "'k os_api \<Rightarrow> string \<Rightarrow> ('k, 'z, int) io" where
  "c_open os fn = sys (EvOpen fn) (os_open os fn)"

definition c_ioctl :: "'k os_api \<Rightarrow> int \<Rightarrow> int \<Rightarrow> ('k, 'z, int) io" where
  "c_ioctl os fd arg = sys (EvIoctl fd arg) (os_ioctl os fd arg)"

definition c_write :: "'k os_api \<Rightarrow> int \<Rightarrow> u8 list \<Rightarrow> ('k, 'z, int) io" where
  "c_write os fd bs = sys (EvWrite fd bs) (\<lambda>k. case os_write os fd bs k of
     (r, k') \<Rightarrow> (case r of None \<Rightarrow> - 1 | Some n \<Rightarrow> int (min n (length bs)), k'))"

text \<open>\<open>read\<close>: the return value and the bytes stored from the start of the buffer.\<close>

definition c_read :: "'k os_api \<Rightarrow> int \<Rightarrow> nat \<Rightarrow> ('k, 'z, int \<times> u8 list) io" where
  "c_read os fd n = sys (EvRead fd n) (\<lambda>k. case os_read os fd n k of
     (r, k') \<Rightarrow> (case r of None \<Rightarrow> (- 1, [])
                  | Some bs \<Rightarrow> (int (length (take n bs)), take n bs), k'))"

definition c_fopen :: "'k os_api \<Rightarrow> string \<Rightarrow> string \<Rightarrow> ('k, 'z, nat option) io" where
  "c_fopen os fn mode = sys (EvFopen fn mode) (os_fopen os fn mode)"

definition c_fgetc :: "'k os_api \<Rightarrow> nat \<Rightarrow> ('k, 'z, int) io" where
  "c_fgetc os h = sys (EvFgetc h) (\<lambda>k. case os_fgetc os h k of
     (r, k') \<Rightarrow> (case r of None \<Rightarrow> - 1 | Some b \<Rightarrow> uint b, k'))"

definition c_fputc :: "'k os_api \<Rightarrow> u8 \<Rightarrow> nat \<Rightarrow> ('k, 'z, int) io" where
  "c_fputc os b h = sys (EvFputc b h) (\<lambda>k. case os_fputc os b h k of
     (ok, k') \<Rightarrow> (if ok then uint b else - 1, k'))"

definition c_fclose :: "'k os_api \<Rightarrow> nat \<Rightarrow> ('k, 'z, unit) io" where
  "c_fclose os h = sys (EvFclose h) (\<lambda>k. ((), os_fclose os h k))"

text \<open>Events the kernel state does not depend on: mutex, sleep, console output, and reaching
  undefined behaviour.\<close>

definition c_event :: "io_event \<Rightarrow> ('k, 'z, unit) io" where
  "c_event e = sys e (Pair ())"

lemmas c_io_defs = c_open_def c_ioctl_def c_write_def c_read_def c_fopen_def c_fgetc_def
  c_fputc_def c_fclose_def c_event_def

lemma fst_case_pair: "fst (case p of (r, k) \<Rightarrow> (f r, k)) = f (fst p)"
  "snd (case p of (r, k) \<Rightarrow> (f r, k)) = snd p"
  by (simp_all split: prod.split)

section \<open>Traces an operation may append\<close>

text \<open>
  \<open>appends P m\<close>: running \<open>m\<close> from any state extends the trace by a list that satisfies \<open>P\<close>,
  whatever the kernel does.
\<close>

definition appends :: "(io_event list \<Rightarrow> bool) \<Rightarrow> ('k, 'z, 'a) io \<Rightarrow> bool" where
  "appends P m \<longleftrightarrow> (\<forall>s. \<exists>es. trace (snd (run_state m s)) = trace s @ es \<and> P es)"

lemma appendsD: "appends P m \<Longrightarrow> \<exists>es. trace (snd (run_state m s)) = trace s @ es \<and> P es"
  by (simp add: appends_def)

lemma appends_mono: "appends P m \<Longrightarrow> (\<And>es. P es \<Longrightarrow> Q es) \<Longrightarrow> appends Q m"
  unfolding appends_def by blast

lemma appends_return [intro]: "P [] \<Longrightarrow> appends P (State_Monad.return a)"
  by (simp add: appends_def)

lemma appends_sys [intro]: "P [e] \<Longrightarrow> appends P (sys e f)"
  by (simp add: appends_def)

lemma appends_bind:
  assumes "appends P m" and "\<And>a. appends Q (f a)" and "\<And>xs ys. P xs \<Longrightarrow> Q ys \<Longrightarrow> R (xs @ ys)"
  shows "appends R (State_Monad.bind m f)"
  unfolding appends_def
proof
  fix s :: "('a, 'b) world_scheme"
  obtain a s' where m: "run_state m s = (a, s')" by (cases "run_state m s")
  obtain xs where xs: "trace s' = trace s @ xs" "P xs" using assms(1) m by (metis appendsD snd_conv)
  obtain ys where "trace (snd (run_state (f a) s')) = trace s' @ ys" "Q ys"
    using assms(2) appendsD by metis
  with xs show "\<exists>es. trace (snd (run_state (State_Monad.bind m f) s)) = trace s @ es \<and> R es"
    using assms(3) by (auto simp: m)
qed

text \<open>A list of events in which every event satisfies \<open>p\<close>: closed under sequencing.\<close>

lemma appends_all_bind:
  assumes "appends (list_all p) m" and "\<And>a. appends (list_all p) (f a)"
  shows "appends (list_all p) (State_Monad.bind m f)"
  using assms by (rule appends_bind) simp

lemma appends_all_return [simp]: "appends (list_all p) (State_Monad.return a)"
  by (simp add: appends_def)

lemma appends_all_sys [simp]: "appends (list_all p) (sys e f) \<longleftrightarrow> p e"
  by (simp add: appends_def)

end
