(* ===== verification/Gpio.thy ===== *)
theory Gpio
  imports Posix
begin

text \<open>
  dev_gpio.c: the digital inputs and outputs of the rack monitor, reached through the files
  \<open>/sys/class/gpio/gpio<n>/value\<close>.
\<close>

section \<open>Operations\<close>

definition GPIO_FILENAME_PREFIX :: string where
  "GPIO_FILENAME_PREFIX = ''/sys/class/gpio/gpio''"

text \<open>\<open>sizeof\<close> counts the terminating NUL.\<close>

definition GPIO_PREFIX_LEN :: nat where
  "GPIO_PREFIX_LEN = length GPIO_FILENAME_PREFIX + 1"

text \<open>FILENAME_MAX of the target's stdio.h.\<close>

definition FILENAME_MAX :: nat where
  "FILENAME_MAX = 4096"

text \<open>
  The digits stored through \<open>cp\<close>, in the three branches of the source.
\<close>

definition gpio_digits :: "int \<Rightarrow> string" where
  "gpio_digits gpio =
     (if gpio < 10 then [char_of (nat (48 + gpio))]
      else if gpio < 100
        then [char_of (nat (48 + gpio div 10)), char_of (nat (48 + gpio mod 10))]
      else [char_of (nat (48 + gpio div 100)), char_of (nat (48 + (gpio div 10) mod 10)),
            char_of (nat (48 + gpio mod 10))])"

text \<open>
  \<open>fnout\<close> is the caller's block (\<open>None\<close> for a null pointer) and \<open>buffsize\<close> the length the caller
  claims for it; \<open>None\<close> as a result is a write outside the block.
\<close>

definition gpio_get_path ::
  "int \<Rightarrow> string \<Rightarrow> string option \<Rightarrow> nat \<Rightarrow> (int \<times> string option) option" where
  "gpio_get_path gpio value fnout buffsize =
     (case fnout of None \<Rightarrow> Some (- 1, None)
      | Some mem \<Rightarrow> do {
          mem \<leftarrow> poke mem 0 [NUL];
          if gpio < 0 \<or> gpio > 999 then Some (- 1, Some mem)
          else if buffsize < GPIO_PREFIX_LEN + length (cstr value) + 5 then Some (- 1, Some mem)
          else do {
            mem \<leftarrow> c_strcpy mem 0 GPIO_FILENAME_PREFIX;
            let cp = GPIO_PREFIX_LEN - 1;
            mem \<leftarrow> poke mem cp (gpio_digits gpio);
            let cp = cp + length (gpio_digits gpio);
            mem \<leftarrow> poke mem cp ''/'';
            let cp = cp + 1;
            mem \<leftarrow> c_strcpy mem cp value;
            Some (0, Some mem)
          }
        })"

text \<open>The local buffer \<open>fn\<close>; \<open>gpio_get_path\<close> overwrites the part it hands out.\<close>

definition fn_buffer :: string where
  "fn_buffer = replicate FILENAME_MAX NUL"

definition gpio_read :: "'k os_api \<Rightarrow> int \<Rightarrow> ('k, 'z, int) io" where
  "gpio_read os gpio =
     (case gpio_get_path gpio ''value'' (Some fn_buffer) FILENAME_MAX of
        Some (istat, Some fn) \<Rightarrow>
          if istat < 0 then State_Monad.return (- 1)
          else do {
            f \<leftarrow> c_fopen os (cstr fn) ''r'';
            (case f of None \<Rightarrow> State_Monad.return (- 1)
             | Some h \<Rightarrow> do {
                 istat \<leftarrow> c_fgetc os h;
                 c_fclose os h;
                 if istat = 48 then State_Monad.return 0
                 else if istat = 49 then State_Monad.return 1
                 else State_Monad.return (- 1)
               })
          }
      | _ \<Rightarrow> do { c_event EvUB; State_Monad.return (- 1) })"

definition gpio_write :: "'k os_api \<Rightarrow> int \<Rightarrow> int \<Rightarrow> ('k, 'z, int) io" where
  "gpio_write os gpio st =
     (case gpio_get_path gpio ''value'' (Some fn_buffer) FILENAME_MAX of
        Some (istat, Some fn) \<Rightarrow>
          if istat < 0 then State_Monad.return (- 1)
          else do {
            f \<leftarrow> c_fopen os (cstr fn) ''w'';
            (case f of None \<Rightarrow> State_Monad.return (- 1)
             | Some h \<Rightarrow> do {
                 _ \<leftarrow> c_fputc os (if st \<noteq> 0 then 49 else 48) h;
                 istat \<leftarrow> c_fputc os 10 h;
                 c_fclose os h;
                 if istat \<noteq> 10 then State_Monad.return (- 1) else State_Monad.return 0
               })
          }
      | _ \<Rightarrow> do { c_event EvUB; State_Monad.return (- 1) })"

section \<open>The path\<close>

definition gpio_path :: "nat \<Rightarrow> string" where
  "gpio_path n = GPIO_FILENAME_PREFIX @ show_nat n @ ''/value''"

lemma gpio_digits_show:
  assumes "0 \<le> gpio" "gpio \<le> 999"
  shows "gpio_digits gpio = show_nat (nat gpio)"
proof -
  obtain n where n: "gpio = int n" "n \<le> 999"
    using assms by (metis nonneg_int_cases of_nat_le_iff of_nat_numeral)
  have "n div 10 < 10" if "n < 100" using that by linarith
  moreover have "n div 100 < 10" using n by linarith
  moreover have "n div 10 div 10 = n div 100" by (simp add: div_mult2_eq [symmetric])
  ultimately show ?thesis
    by (auto simp: n gpio_digits_def show_nat.simps [of n] show_nat.simps [of "n div 10"]
        show_nat.simps [of "n div 100"] digit_char_def nat_add_distrib nat_mod_distrib
        nat_div_distrib div_mult2_eq [symmetric])
qed

lemma show_nat_length:
  assumes "n \<le> 999"
  shows "length (show_nat n) \<le> 3"
proof -
  have "n div 10 div 10 < 10" using assms by (simp add: div_mult2_eq [symmetric]) 
  then show ?thesis
    using assms by (simp add: show_nat.simps [of n] show_nat.simps [of "n div 10"]
        show_nat.simps [of "n div 10 div 10"])
qed

text \<open>The whole computation, for a block whose first bytes are arbitrary.\<close>

lemma gpio_get_path_ok:
  assumes g: "0 \<le> gpio" "gpio \<le> 999"
    and b: "GPIO_PREFIX_LEN + length (cstr value) + 5 \<le> buffsize" "buffsize \<le> length mem"
  shows "\<exists>rest. gpio_get_path gpio value (Some mem) buffsize =
     Some (0, Some (GPIO_FILENAME_PREFIX @ show_nat (nat gpio) @ ''/'' @ cstr value @ NUL # rest))
     \<and> length rest = length mem - (length GPIO_FILENAME_PREFIX + length (show_nat (nat gpio))
                        + length (cstr value) + 2)"
proof -
  define ds where "ds = gpio_digits gpio"
  have ds: "ds = show_nat (nat gpio)" using gpio_digits_show [OF g] by (simp add: ds_def)
  have l: "length ds \<le> 3" using g show_nat_length [of "nat gpio"] by (simp add: ds)
  define P where "P = GPIO_FILENAME_PREFIX"
  have PL: "GPIO_PREFIX_LEN = length P + 1" by (simp add: P_def GPIO_PREFIX_LEN_def)
  have Pc: "cstr P = P" by (rule cstr_id) (simp add: P_def GPIO_FILENAME_PREFIX_def)
  obtain c m1 where m1: "mem = c # m1" using b PL by (cases mem) auto
  define v where "v = cstr value @ [NUL]"
  have 1: "poke mem 0 [NUL] = Some (NUL # m1)" by (simp add: poke_def m1)
  define r2 where "r2 = drop (length P) m1"
  have lm: "length P + length (cstr value) + 5 \<le> length m1" using b PL m1 by simp
  have 2: "c_strcpy (NUL # m1) 0 P = Some (P @ NUL # r2)"
    using lm by (simp add: c_strcpy_def poke_def Pc r2_def)
  have lr2: "length (cstr value) + 5 \<le> length (NUL # r2)" using lm by (simp add: r2_def)
  have 3: "poke (P @ NUL # r2) (length P) ds = Some (P @ ds @ drop (length ds) (NUL # r2))"
    using lr2 l by (intro poke_append) auto
  define r3 where "r3 = drop (length ds) (NUL # r2)"
  have lr3: "length (cstr value) + 2 \<le> length r3" using lr2 l by (simp add: r3_def del: length_Cons)
  have 4: "poke (P @ ds @ r3) (length P + length ds) ''/'' = Some (P @ ds @ ''/'' @ drop 1 r3)"
    using poke_append [of "P @ ds" _ "''/''" r3] lr3 by simp
  define r4 where "r4 = drop 1 r3"
  have lr4: "length (cstr value) + 1 \<le> length r4" using lr3 by (simp add: r4_def)
  have 5: "c_strcpy (P @ ds @ ''/'' @ r4) (length P + length ds + 1) value =
      Some (P @ ds @ ''/'' @ cstr value @ NUL # drop (length (cstr value) + 1) r4)"
    using poke_append [of "P @ ds @ ''/''" _ "cstr value @ [NUL]" r4] lr4
    by (simp add: c_strcpy_def)
  have "length (drop (length (cstr value) + 1) r4) =
      length mem - (length P + length ds + length (cstr value) + 2)"
    using lm l by (simp add: r4_def r3_def r2_def m1)
  then show ?thesis
    using g b 1 2 3 4 5 unfolding gpio_get_path_def ds_def [symmetric] P_def [symmetric]
      ds [symmetric] r3_def [symmetric] r4_def [symmetric] PL
    by (simp add: Let_def)
qed

text \<open>For a gpio number from 0 to 999 and a block as large as the caller claims and needs,
  \<open>gpio_get_path\<close> succeeds without leaving the block and leaves there the C string
  \<open>/sys/class/gpio/gpio<n>/<value>\<close>.\<close>

theorem gpio_get_path_correct:
  assumes "0 \<le> gpio" "gpio \<le> 999"
    and "GPIO_PREFIX_LEN + length (cstr value) + 5 \<le> buffsize" "buffsize \<le> length mem"
  shows "\<exists>mem'. gpio_get_path gpio value (Some mem) buffsize = Some (0, Some mem')
     \<and> length mem' = length mem
     \<and> cstr mem' = ''/sys/class/gpio/gpio'' @ show_nat (nat gpio) @ ''/'' @ cstr value"
proof -
  obtain rest where r: "gpio_get_path gpio value (Some mem) buffsize =
     Some (0, Some (GPIO_FILENAME_PREFIX @ show_nat (nat gpio) @ ''/'' @ cstr value @ NUL # rest))"
    "length rest = length mem - (length GPIO_FILENAME_PREFIX + length (show_nat (nat gpio))
                        + length (cstr value) + 2)"
    using gpio_get_path_ok [OF assms] by blast
  have "length (show_nat (nat gpio)) \<le> 3"
    using assms show_nat_length [of "nat gpio"] by simp
  then have "length GPIO_FILENAME_PREFIX + length (show_nat (nat gpio)) + length (cstr value) + 2
      \<le> length mem"
    using assms by (simp add: GPIO_PREFIX_LEN_def)
  moreover have "NUL \<notin> set (GPIO_FILENAME_PREFIX @ show_nat (nat gpio) @ ''/'' @ cstr value)"
    by (simp add: GPIO_FILENAME_PREFIX_def show_nat_no_nul cstr_no_nul)
  then have "cstr (GPIO_FILENAME_PREFIX @ show_nat (nat gpio) @ ''/'' @ cstr value @ NUL # rest) =
      GPIO_FILENAME_PREFIX @ show_nat (nat gpio) @ ''/'' @ cstr value"
    using cstr_append by (metis append.assoc)
  ultimately show ?thesis using r by (auto simp: GPIO_FILENAME_PREFIX_def)
qed

theorem gpio_get_path_correct_witness:
  "\<exists>mem'. gpio_get_path 44 ''value'' (Some (replicate 64 (CHR ''x''))) 64 = Some (0, Some mem')
     \<and> cstr mem' = ''/sys/class/gpio/gpio44/value''"
proof -
  have "show_nat 44 = ''44''" by code_simp
  then show ?thesis
    using gpio_get_path_correct [of 44 "''value''" 64 "replicate 64 (CHR ''x'')"]
    by (auto simp: GPIO_PREFIX_LEN_def GPIO_FILENAME_PREFIX_def cstr_def)
qed

lemma gpio_get_path_range:
  "\<not> (0 \<le> gpio \<and> gpio \<le> 999) \<Longrightarrow> mem \<noteq> [] \<Longrightarrow>
   gpio_get_path gpio value (Some mem) n = Some (- 1, Some (NUL # tl mem))"
  by (cases mem) (auto simp: gpio_get_path_def poke_def)

section \<open>Reading and writing a pin\<close>

lemma fn_buffer_path:
  assumes "0 \<le> gpio" "gpio \<le> 999"
  obtains fn where "gpio_get_path gpio ''value'' (Some fn_buffer) FILENAME_MAX = Some (0, Some fn)"
    and "cstr fn = gpio_path (nat gpio)"
proof -
  obtain fn where "gpio_get_path gpio ''value'' (Some fn_buffer) FILENAME_MAX = Some (0, Some fn)"
    "cstr fn = ''/sys/class/gpio/gpio'' @ show_nat (nat gpio) @ ''/'' @ cstr ''value''"
    using gpio_get_path_ok [OF assms, of "''value''" FILENAME_MAX fn_buffer]
      cstr_append [of "GPIO_FILENAME_PREFIX @ show_nat (nat gpio) @ ''/value''"]
    by (auto simp: GPIO_PREFIX_LEN_def GPIO_FILENAME_PREFIX_def FILENAME_MAX_def fn_buffer_def
        cstr_def show_nat_no_nul)
  then show ?thesis using that by (simp add: gpio_path_def GPIO_FILENAME_PREFIX_def cstr_def)
qed

lemma gpio_read_eq:
  "gpio_read os gpio =
     (if 0 \<le> gpio \<and> gpio \<le> 999 then do {
        f \<leftarrow> c_fopen os (gpio_path (nat gpio)) ''r'';
        (case f of None \<Rightarrow> State_Monad.return (- 1)
         | Some h \<Rightarrow> do {
             istat \<leftarrow> c_fgetc os h;
             c_fclose os h;
             if istat = 48 then State_Monad.return 0
             else if istat = 49 then State_Monad.return 1
             else State_Monad.return (- 1)
           })
      } else State_Monad.return (- 1))"
proof (cases "0 \<le> gpio \<and> gpio \<le> 999")
  case True
  then obtain fn where "gpio_get_path gpio ''value'' (Some fn_buffer) FILENAME_MAX = Some (0, Some fn)"
    "cstr fn = gpio_path (nat gpio)" using fn_buffer_path by blast
  with True show ?thesis by (simp add: gpio_read_def)
next
  case False
  then show ?thesis
    using gpio_get_path_range [OF False] by (auto simp: gpio_read_def fn_buffer_def FILENAME_MAX_def)
qed

lemma gpio_write_eq:
  "gpio_write os gpio st =
     (if 0 \<le> gpio \<and> gpio \<le> 999 then do {
        f \<leftarrow> c_fopen os (gpio_path (nat gpio)) ''w'';
        (case f of None \<Rightarrow> State_Monad.return (- 1)
         | Some h \<Rightarrow> do {
             _ \<leftarrow> c_fputc os (if st \<noteq> 0 then 49 else 48) h;
             istat \<leftarrow> c_fputc os 10 h;
             c_fclose os h;
             if istat \<noteq> 10 then State_Monad.return (- 1) else State_Monad.return 0
           })
      } else State_Monad.return (- 1))"
proof (cases "0 \<le> gpio \<and> gpio \<le> 999")
  case True
  then obtain fn where "gpio_get_path gpio ''value'' (Some fn_buffer) FILENAME_MAX = Some (0, Some fn)"
    "cstr fn = gpio_path (nat gpio)" using fn_buffer_path by blast
  with True show ?thesis by (simp add: gpio_write_def)
next
  case False
  then show ?thesis
    using gpio_get_path_range [OF False] by (auto simp: gpio_write_def fn_buffer_def FILENAME_MAX_def)
qed

text \<open>\<open>gpio_read\<close> returns only 0, 1 or \<open>-1\<close>; it returns 0 or 1 exactly when the pin's value file
  could be opened and its first byte is the character 0 or 1; and it closes every file it opens
  (the calls it makes are none, an open that fails, or open, read, close on one handle).\<close>

theorem gpio_read_correct:
  "case run_state (gpio_read os gpio) s of (r, s') \<Rightarrow>
     r \<in> {- 1, 0, 1} \<and>
     (r = (case os_fopen os (gpio_path (nat gpio)) ''r'' (kern s) of
             (Some h, k) \<Rightarrow> (if 0 \<le> gpio \<and> gpio \<le> 999 \<and> fst (os_fgetc os h k) = Some 48 then 0
                             else if 0 \<le> gpio \<and> gpio \<le> 999 \<and> fst (os_fgetc os h k) = Some 49 then 1
                             else - 1)
           | (None, k) \<Rightarrow> - 1)) \<and>
     (trace s' = trace s
      \<or> trace s' = trace s @ [EvFopen (gpio_path (nat gpio)) ''r'']
      \<or> (\<exists>h. trace s' = trace s @ [EvFopen (gpio_path (nat gpio)) ''r'', EvFgetc h, EvFclose h]))"
proof -
  have byte: "uint b = 48 \<longleftrightarrow> b = 48" "uint b = 49 \<longleftrightarrow> b = 49" for b :: u8
    by (auto simp: word_uint_eq_iff)
  show ?thesis
    by (auto simp: gpio_read_eq c_io_defs byte split: prod.splits option.splits)
qed

text \<open>\<open>gpio_write\<close> on a valid pin opens the pin's value file for writing, stores the character 1 for
  every nonzero state and 0 otherwise, then a newline, and closes the file; it returns 0 exactly when
  the newline could be stored, and \<open>-1\<close> otherwise. A number out of range is refused with \<open>-1\<close> and
  without any system call.\<close>

theorem gpio_write_correct:
  "case run_state (gpio_write os gpio st) s of (r, s') \<Rightarrow>
     if 0 \<le> gpio \<and> gpio \<le> 999
     then (case os_fopen os (gpio_path (nat gpio)) ''w'' (kern s) of
             (None, k) \<Rightarrow> r = - 1 \<and> trace s' = trace s @ [EvFopen (gpio_path (nat gpio)) ''w'']
           | (Some h, k) \<Rightarrow>
               r = (if fst (os_fputc os 10 h (snd (os_fputc os (if st = 0 then 48 else 49) h k)))
                    then 0 else - 1) \<and>
               trace s' = trace s @ [EvFopen (gpio_path (nat gpio)) ''w'',
                 EvFputc (if st = 0 then 48 else 49) h, EvFputc 10 h, EvFclose h])
     else r = - 1 \<and> s' = s"
  by (auto simp: gpio_write_eq c_io_defs split: prod.splits option.splits)

text \<open>Both operations only append to the trace, and never reach undefined behaviour.\<close>

lemma gpio_read_appends: "appends (list_all (\<lambda>e. e \<noteq> EvUB \<and> e \<noteq> EvLock \<and> e \<noteq> EvUnlock)) (gpio_read os g)"
  unfolding gpio_read_eq c_io_defs
  by (auto intro!: appends_all_bind split: option.split)

lemma gpio_write_appends: "appends (list_all (\<lambda>e. e \<noteq> EvUB \<and> e \<noteq> EvLock \<and> e \<noteq> EvUnlock)) (gpio_write os g v)"
  unfolding gpio_write_eq c_io_defs
  by (auto intro!: appends_all_bind split: option.split)

end
