(* ===== verification/DoubleFP.thy ===== *)
theory DoubleFP
  imports Prelude Complex_Main "HOL-Library.Log_Nat"
begin

text \<open>
  The C type \<open>double\<close> as IEEE 754 binary64 with rounding to nearest, ties to even, which is what
  the build targets of the repository (linux-arm hard float, linux-x86_64) compute with. A finite
  value is an exact rational; the negative zero is a value of its own; the payload and the sign of
  a NaN are not modelled (no modelled code reads them). Every operation is executable.
\<close>

section \<open>Values\<close>

datatype double = NaN | Infinity bool | NegZero | Fin rat

text \<open>\<open>Infinity True\<close> is \<open>-inf\<close>. \<open>dval\<close> is the number a finite double stands for.\<close>

fun dval :: "double \<Rightarrow> rat" where
  "dval (Fin q) = q"
| "dval _ = 0"

fun isnan :: "double \<Rightarrow> bool" where
  "isnan NaN = True"
| "isnan _ = False"

fun isinf :: "double \<Rightarrow> bool" where
  "isinf (Infinity _) = True"
| "isinf _ = False"

definition dfinite :: "double \<Rightarrow> bool" where
  "dfinite d \<longleftrightarrow> \<not> isnan d \<and> \<not> isinf d"

lemma dfinite_simps [simp]: "dfinite (Fin q)" "dfinite NegZero" "\<not> dfinite NaN"
  "\<not> dfinite (Infinity s)"
  by (simp_all add: dfinite_def)

fun dsign :: "double \<Rightarrow> bool" where
  "dsign (Infinity s) = s"
| "dsign NegZero = True"
| "dsign (Fin q) = (q < 0)"
| "dsign NaN = False"

section \<open>Comparison\<close>

definition dle :: "double \<Rightarrow> double \<Rightarrow> bool" where
  "dle a b \<longleftrightarrow> \<not> isnan a \<and> \<not> isnan b \<and>
     (a = Infinity True \<or> b = Infinity False \<or> dfinite a \<and> dfinite b \<and> dval a \<le> dval b)"

definition dlt :: "double \<Rightarrow> double \<Rightarrow> bool" where
  "dlt a b \<longleftrightarrow> \<not> isnan a \<and> \<not> isnan b \<and> \<not> dle b a"

definition deq :: "double \<Rightarrow> double \<Rightarrow> bool" where
  "deq a b \<longleftrightarrow> dle a b \<and> dle b a"

lemma dle_nan [simp]: "\<not> dle a NaN" "\<not> dle NaN a"
  by (simp_all add: dle_def)

lemma dlt_nan [simp]: "\<not> dlt a NaN" "\<not> dlt NaN a"
  by (simp_all add: dlt_def)

lemma deq_nan [simp]: "\<not> deq a NaN" "\<not> deq NaN a"
  by (simp_all add: deq_def)

lemma dle_finite: "dfinite a \<Longrightarrow> dfinite b \<Longrightarrow> dle a b \<longleftrightarrow> dval a \<le> dval b"
  by (auto simp: dle_def dfinite_def)

lemma dlt_finite: "dfinite a \<Longrightarrow> dfinite b \<Longrightarrow> dlt a b \<longleftrightarrow> dval a < dval b"
  by (auto simp: dlt_def dle_finite dfinite_def)

lemma deq_finite: "dfinite a \<Longrightarrow> dfinite b \<Longrightarrow> deq a b \<longleftrightarrow> dval a = dval b"
  by (auto simp: deq_def dle_finite)

lemma dle_refl: "dle a a \<longleftrightarrow> \<not> isnan a"
  by (cases a) (auto simp: dle_def)

lemma dle_trans: "dle a b \<Longrightarrow> dle b c \<Longrightarrow> dle a c"
  by (auto simp: dle_def dfinite_def)

lemma dle_total: "\<not> isnan a \<Longrightarrow> \<not> isnan b \<Longrightarrow> dle a b \<or> dle b a"
  by (cases a; cases b) (auto simp: dle_def)

lemma dlt_iff_not_dle: "\<not> isnan a \<Longrightarrow> \<not> isnan b \<Longrightarrow> dlt a b \<longleftrightarrow> \<not> dle b a"
  by (simp add: dlt_def)

lemma dlt_imp_dle: "dlt a b \<Longrightarrow> dle a b"
  using dle_total [of a b] by (auto simp: dlt_def)

lemma dle_dlt_trans: "dle a b \<Longrightarrow> dlt b c \<Longrightarrow> dlt a c"
  by (auto simp: dlt_def dest: dle_trans) (auto simp: dle_def)

lemma dlt_dle_trans: "dlt a b \<Longrightarrow> dle b c \<Longrightarrow> dlt a c"
  by (auto simp: dlt_def dest: dle_trans) (auto simp: dle_def)

section \<open>Rounding\<close>

text \<open>\<open>pow2 e\<close> is \<open>2\<^sup>e\<close>; \<open>ilog2 a\<close> is the binary exponent of a positive rational.\<close>

definition pow2 :: "int \<Rightarrow> rat" where
  "pow2 e = (if 0 \<le> e then 2 ^ nat e else 1 / 2 ^ nat (- e))"

definition ilog2 :: "rat \<Rightarrow> int" where
  "ilog2 a = (let (n, d) = quotient_of a; k = bitlen n - bitlen d
              in if pow2 k \<le> a then k else k - 1)"

text \<open>Round to the nearest integer, ties to even.\<close>

definition rne :: "rat \<Rightarrow> int" where
  "rne x = (let f = \<lfloor>x\<rfloor>; r = x - of_int f
            in if r < 1 / 2 then f else if 1 / 2 < r then f + 1 else if even f then f else f + 1)"

text \<open>The distance of neighbouring doubles at \<open>a\<close>: 53 significant bits, least exponent \<open>-1074\<close>.\<close>

definition quantum :: "rat \<Rightarrow> rat" where
  "quantum a = pow2 (max (ilog2 a - 52) (- 1074))"

definition round_pos :: "rat \<Rightarrow> rat" where
  "round_pos a = of_int (rne (a / quantum a)) * quantum a"

text \<open>The least magnitude that rounds to infinity, on the grid of doubles: \<open>2\<^sup>1\<^sup>0\<^sup>2\<^sup>4\<close>.\<close>

definition overflow :: rat where
  "overflow = 2 ^ 1024"

text \<open>The double nearest to a rational; \<open>neg0\<close> is the sign of an exact zero.\<close>

definition dround :: "bool \<Rightarrow> rat \<Rightarrow> double" where
  "dround neg0 x =
     (if x = 0 then (if neg0 then NegZero else Fin 0)
      else let y = round_pos \<bar>x\<bar>
           in if y = 0 then (if x < 0 then NegZero else Fin 0)
              else if overflow \<le> y then Infinity (x < 0)
              else Fin (sgn x * y))"

section \<open>Arithmetic\<close>

fun dneg :: "double \<Rightarrow> double" where
  "dneg NaN = NaN"
| "dneg (Infinity s) = Infinity (\<not> s)"
| "dneg NegZero = Fin 0"
| "dneg (Fin q) = (if q = 0 then NegZero else Fin (- q))"

definition dadd :: "double \<Rightarrow> double \<Rightarrow> double" where
  "dadd a b =
     (if isnan a \<or> isnan b then NaN
      else if isinf a then (if isinf b \<and> dsign a \<noteq> dsign b then NaN else a)
      else if isinf b then b
      else dround (a = NegZero \<and> b = NegZero) (dval a + dval b))"

definition dsub :: "double \<Rightarrow> double \<Rightarrow> double" where
  "dsub a b = dadd a (dneg b)"

definition dmul :: "double \<Rightarrow> double \<Rightarrow> double" where
  "dmul a b =
     (if isnan a \<or> isnan b then NaN
      else if isinf a \<or> isinf b
        then (if dfinite a \<and> dval a = 0 \<or> dfinite b \<and> dval b = 0 then NaN
              else Infinity (dsign a \<noteq> dsign b))
      else dround (dsign a \<noteq> dsign b) (dval a * dval b))"

definition ddiv :: "double \<Rightarrow> double \<Rightarrow> double" where
  "ddiv a b =
     (if isnan a \<or> isnan b then NaN
      else if isinf a then (if isinf b then NaN else Infinity (dsign a \<noteq> dsign b))
      else if isinf b then (if dsign a \<noteq> dsign b then NegZero else Fin 0)
      else if dval b = 0
        then (if dval a = 0 then NaN else Infinity (dsign a \<noteq> dsign b))
      else dround (dsign a \<noteq> dsign b) (dval a / dval b))"

text \<open>\<open>floor\<close> of math.h.\<close>

fun dfloor :: "double \<Rightarrow> double" where
  "dfloor (Fin q) = Fin (of_int \<lfloor>q\<rfloor>)"
| "dfloor d = d"

section \<open>Conversions\<close>

text \<open>
  Integer to double, and the C cast from double to a signed integer of \<open>w\<close> bits: the fraction is
  discarded, and a value out of range (or a NaN or infinity) is undefined behaviour, \<open>None\<close>.
\<close>

definition dint :: "int \<Rightarrow> double" where
  "dint i = dround False (of_int i)"

definition trunc_rat :: "rat \<Rightarrow> int" where
  "trunc_rat q = (if 0 \<le> q then \<lfloor>q\<rfloor> else - \<lfloor>- q\<rfloor>)"

definition dtoint :: "nat \<Rightarrow> double \<Rightarrow> int option" where
  "dtoint w d = (if \<not> dfinite d then None
     else let i = trunc_rat (dval d)
          in if - (2 ^ (w - 1)) \<le> i \<and> i < 2 ^ (w - 1) then Some i else None)"

section \<open>Facts on rounding\<close>

lemma pow2_powi: "pow2 e = 2 powi e"
  by (simp add: pow2_def power_int_def field_simps)

lemma pow2_pos [simp]: "0 < pow2 e"
  by (simp add: pow2_def)

lemma pow2_nonzero [simp]: "pow2 e \<noteq> 0"
  using pow2_pos [of e] by linarith

lemma pow2_add: "pow2 (a + b) = pow2 a * pow2 b"
  by (simp add: pow2_powi power_int_add)

lemma pow2_minus: "pow2 (- e) = 1 / pow2 e"
  by (simp add: pow2_powi power_int_minus field_simps)

lemma pow2_nat: "pow2 (int n) = 2 ^ n"
  by (simp add: pow2_def)

lemma pow2_mono: "a \<le> b \<Longrightarrow> pow2 a \<le> pow2 b"
  unfolding pow2_powi by (rule power_int_increasing) simp_all

lemma pow2_strict_mono: "a < b \<Longrightarrow> pow2 a < pow2 b"
  unfolding pow2_powi by (rule power_int_strict_increasing) simp_all

lemma pow2_less_iff [simp]: "pow2 a < pow2 b \<longleftrightarrow> a < b"
  by (meson linorder_not_le pow2_mono pow2_strict_mono)

lemma pow2_Suc: "pow2 (e + 1) = 2 * pow2 e"
  using pow2_add [of e 1] by (simp add: pow2_def [of 1])

lemma ilog2_bounds:
  assumes "0 < a"
  shows "pow2 (ilog2 a) \<le> a" and "a < pow2 (ilog2 a + 1)"
proof -
  obtain n d where q: "quotient_of a = (n, d)" by (cases "quotient_of a")
  have d: "0 < d" using quotient_of_denom_pos [OF q] .
  have a: "a = of_int n / of_int d" using quotient_of_div [OF q] .
  have n: "0 < n" using assms d by (simp add: a zero_less_divide_iff)
  let ?k = "bitlen n - bitlen d"
  have bn: "1 \<le> bitlen n" and bd: "1 \<le> bitlen d"
    using bitlen_nonneg [of n] bitlen_nonneg [of d] bitlen_bounds [OF n] bitlen_bounds [OF d] n d
    by (auto simp: bitlen_eq_zero_iff not_less_eq_eq[symmetric] order_less_le
        intro: ccontr dest: zero_less_imp_eq_int)
  have N: "pow2 (bitlen n - 1) \<le> of_int n" "of_int n < pow2 (bitlen n)"
    using bitlen_bounds [OF n] bn by (auto simp: pow2_def simp flip: of_int_power of_int_le_iff of_int_less_iff)
  have D: "pow2 (bitlen d - 1) \<le> of_int d" "of_int d < pow2 (bitlen d)"
    using bitlen_bounds [OF d] bd by (auto simp: pow2_def simp flip: of_int_power of_int_le_iff of_int_less_iff)
  have "a * pow2 (bitlen d - 1) \<le> of_int n"
    using D(1) d n by (simp add: a field_simps)
  also have "\<dots> < pow2 (?k + 1) * pow2 (bitlen d - 1)"
    using N(2) by (simp flip: pow2_add)
  finally have hi: "a < pow2 (?k + 1)" by simp
  have "pow2 (?k - 1) * of_int d \<le> pow2 (?k - 1) * pow2 (bitlen d)"
    using D(2) by simp
  also have "\<dots> \<le> of_int n" using N(1) by (simp flip: pow2_add)
  finally have lo: "pow2 (?k - 1) \<le> a" using d by (simp add: a field_simps)
  have l: "ilog2 a = (if pow2 ?k \<le> a then ?k else ?k - 1)"
    by (simp add: ilog2_def q)
  show "pow2 (ilog2 a) \<le> a" using lo by (simp add: l)
  show "a < pow2 (ilog2 a + 1)" using hi by (simp add: l)
qed

lemma ilog2_less: "0 < a \<Longrightarrow> a < pow2 e \<Longrightarrow> ilog2 a < e"
  using ilog2_bounds(1) [of a] pow2_less_iff by (meson le_less_trans)

lemma rne_le: "x \<le> of_int k \<Longrightarrow> rne x \<le> k"
proof -
  assume x: "x \<le> of_int k"
  show ?thesis
  proof (cases "\<lfloor>x\<rfloor> = k")
    case True
    then have "x = of_int k" using x by linarith
    then show ?thesis by (simp add: rne_def)
  next
    case False
    then have "\<lfloor>x\<rfloor> + 1 \<le> k" using x by linarith
    then show ?thesis by (simp add: rne_def Let_def)
  qed
qed

lemma rne_ge: "of_int k \<le> x \<Longrightarrow> k \<le> rne x"
  by (auto simp: rne_def Let_def) linarith+

lemma rne_of_int [simp]: "rne (of_int k) = k"
  by (simp add: rne_def)

lemma rne_error: "\<bar>of_int (rne x) - x\<bar> \<le> 1 / 2"
proof -
  have "of_int \<lfloor>x\<rfloor> \<le> x" "x < of_int \<lfloor>x\<rfloor> + 1" by linarith+
  then show ?thesis by (auto simp: rne_def Let_def)
qed

lemma quantum_pos [simp]: "0 < quantum a"
  by (simp add: quantum_def)

lemma quantum_nonzero [simp]: "quantum a \<noteq> 0"
  by (simp add: quantum_def)

lemma round_pos_error: "\<bar>round_pos a - a\<bar> \<le> quantum a / 2"
proof -
  have "round_pos a - a = (of_int (rne (a / quantum a)) - a / quantum a) * quantum a"
    using quantum_pos [of a] by (simp add: round_pos_def field_simps)
  then have "\<bar>round_pos a - a\<bar> = \<bar>of_int (rne (a / quantum a)) - a / quantum a\<bar> * quantum a"
    by (simp only: abs_mult abs_of_pos [OF quantum_pos])
  also have "\<dots> \<le> 1 / 2 * quantum a"
    by (rule mult_right_mono [OF rne_error]) (simp add: less_imp_le)
  finally show ?thesis by simp
qed

text \<open>A multiple of \<open>2\<^sup>-\<^sup>j\<close> below \<open>2\<^sup>5\<^sup>3\<^sup>-\<^sup>j\<close> is a whole number of quanta.\<close>

lemma quantum_multiple:
  assumes a: "0 < a" "a < pow2 (53 - int j)" and j: "j \<le> 1074"
  obtains n :: nat where "pow2 (- int j) = of_nat n * quantum a"
proof -
  let ?m = "max (ilog2 a - 52) (- 1074)"
  have "ilog2 a < 53 - int j" using a by (rule ilog2_less)
  then have m: "?m \<le> - int j" using j by simp
  have "pow2 (- int j) = pow2 (- int j - ?m) * pow2 ?m"
    by (simp flip: pow2_add)
  also have "pow2 (- int j - ?m) = of_nat (2 ^ nat (- int j - ?m))"
    using m by (simp add: pow2_def)
  finally show ?thesis using that unfolding quantum_def by blast
qed

lemma round_pos_exact:
  assumes k: "0 < k" "k < 2 ^ 53" and j: "j \<le> 1074"
  shows "round_pos (of_int k / 2 ^ j) = of_int k / 2 ^ j"
proof -
  define a :: rat where "a = of_int k / 2 ^ j"
  have a: "a = of_int k * pow2 (- int j)"
    by (simp add: a_def pow2_minus pow2_nat)
  have "(of_int k :: rat) < of_int (2 ^ 53)" using k(2) by (simp only: of_int_less_iff)
  then have k': "(of_int k :: rat) < pow2 53" by (simp add: pow2_def)
  have lt: "a < pow2 (53 - int j)"
    using mult_strict_right_mono [OF k' pow2_pos [of "- int j"]] unfolding a
    by (simp flip: pow2_add)
  have "0 < a" using k(1) by (simp add: a_def)
  then obtain n :: nat where n: "pow2 (- int j) = of_nat n * quantum a"
    using quantum_multiple [OF _ lt j] by blast
  have an: "a = of_int (k * int n) * quantum a"
    using a n by (simp add: mult.assoc)
  then have "a / quantum a = of_int (k * int n)"
    by (metis nonzero_mult_div_cancel_right quantum_nonzero)
  then have "round_pos a = of_int (k * int n) * quantum a"
    unfolding round_pos_def by (simp only: rne_of_int)
  then show ?thesis using an unfolding a_def by simp
qed

lemma dround_zero [simp]: "dround s 0 = (if s then NegZero else Fin 0)"
  by (simp add: dround_def)

lemma below_overflow:
  assumes "(a::rat) \<le> of_int k" "k < 2 ^ 53"
  shows "a < overflow"
proof -
  have "(of_int k :: rat) < of_int (2 ^ 53)" using assms(2) by (simp only: of_int_less_iff)
  then have "a < 2 ^ 53" using assms(1) by simp
  also have "(2::rat) ^ 53 \<le> overflow" unfolding overflow_def by (rule power_increasing) simp_all
  finally show ?thesis .
qed

lemma dround_nonzero:
  assumes "x \<noteq> 0" "round_pos \<bar>x\<bar> < overflow"
  shows "dround s x = (if round_pos \<bar>x\<bar> = 0 then (if x < 0 then NegZero else Fin 0)
           else Fin (sgn x * round_pos \<bar>x\<bar>))"
  using assms by (simp add: dround_def Let_def)

text \<open>Dyadic numbers of at most 53 bits are rounded to themselves.\<close>

lemma dround_dyadic:
  assumes k: "k \<noteq> 0" "\<bar>k\<bar> < 2 ^ 53" and j: "j \<le> 1074"
  shows "dround s (of_int k / 2 ^ j) = Fin (of_int k / 2 ^ j)"
proof -
  define a :: rat where "a = of_int \<bar>k\<bar> / 2 ^ j"
  have abs: "\<bar>of_int k / 2 ^ j\<bar> = a" by (simp add: a_def)
  have r: "round_pos a = a" unfolding a_def by (rule round_pos_exact) (use assms in auto)
  have pos: "0 < a" using k by (simp add: a_def)
  have "a \<le> of_int \<bar>k\<bar>"
    unfolding a_def using mult_left_mono [of 1 "2 ^ j :: rat" "of_int \<bar>k\<bar>"]
    by (simp add: divide_le_eq)
  then have "a < overflow" using k(2) by (rule below_overflow)
  moreover have "sgn (of_int k / 2 ^ j) * a = of_int k / (2 ^ j :: rat)"
    unfolding abs [symmetric] by (rule sgn_mult_abs)
  ultimately show ?thesis
    using k pos dround_nonzero [of "of_int k / 2 ^ j" s] unfolding abs r by simp
qed

lemma dround_of_int: "\<bar>k\<bar> < 2 ^ 53 \<Longrightarrow> dround False (of_int k) = Fin (of_int k)"
  using dround_dyadic [of k 0 False] by (cases "k = 0") simp_all

lemma dint_exact: "\<bar>k\<bar> < 2 ^ 53 \<Longrightarrow> dint k = Fin (of_int k)"
  by (simp add: dint_def dround_of_int)

lemma dadd_exact:
  assumes "dfinite a" "dfinite b" "dval a + dval b = of_int k / 2 ^ j" "\<bar>k\<bar> < 2 ^ 53" "j \<le> 1074"
  shows "dfinite (dadd a b)" and "dval (dadd a b) = dval a + dval b"
proof -
  have "dadd a b = dround (a = NegZero \<and> b = NegZero) (of_int k / 2 ^ j)"
    using assms by (simp add: dadd_def dfinite_def)
  moreover have "dround s (of_int k / 2 ^ j) = Fin (of_int k / 2 ^ j)" if "k \<noteq> 0" for s
    using dround_dyadic [OF that assms(4,5)] .
  ultimately show "dfinite (dadd a b)" "dval (dadd a b) = dval a + dval b"
    using assms(3) by (cases "k = 0"; auto)+
qed

text \<open>Rounding does not cross a whole number below \<open>2\<^sup>5\<^sup>3\<close>.\<close>

lemma round_pos_le_int:
  assumes a: "0 < a" "a \<le> of_int n" and n: "n < 2 ^ 53"
  shows "round_pos a \<le> of_int n"
proof -
  have "(of_int n :: rat) < of_int (2 ^ 53)" using n by (simp only: of_int_less_iff)
  then have "a < pow2 (53 - int 0)" using a(2) by (simp add: pow2_def)
  then obtain q :: nat where q: "pow2 (- int 0) = of_nat q * quantum a"
    using quantum_multiple [OF a(1)] by (metis zero_le)
  then have one: "1 = of_nat q * quantum a" by (simp add: pow2_def)
  have "of_int n = of_int n * (of_nat q * quantum a)" by (simp flip: one)
  then have nq: "of_int n = of_int (n * int q) * quantum a" by (simp add: mult.assoc)
  have "a / quantum a \<le> of_int (n * int q)"
    using a(2) nq quantum_pos [of a] by (simp add: pos_divide_le_eq del: of_int_mult)
  then have "rne (a / quantum a) \<le> n * int q" by (rule rne_le)
  then have "of_int (rne (a / quantum a)) * quantum a \<le> of_int (n * int q) * quantum a"
    by (intro mult_right_mono) (simp_all only: of_int_le_iff quantum_pos less_imp_le)
  then show ?thesis unfolding round_pos_def nq .
qed

lemma round_pos_nonneg: "0 \<le> a \<Longrightarrow> 0 \<le> round_pos a"
  using rne_ge [of 0 "a / quantum a"] quantum_pos [of a]
  by (simp add: round_pos_def less_imp_le)

lemma dround_le_int:
  assumes x: "\<bar>x\<bar> \<le> of_int n" and n: "n < 2 ^ 53"
  shows "dfinite (dround s x)" and "\<bar>dval (dround s x)\<bar> \<le> of_int n"
    and "0 \<le> x \<Longrightarrow> 0 \<le> dval (dround s x)" and "x \<le> 0 \<Longrightarrow> dval (dround s x) \<le> 0"
proof -
  have le: "round_pos \<bar>x\<bar> \<le> of_int n" if "x \<noteq> 0"
    using round_pos_le_int [OF _ x n] that by simp
  have lt: "round_pos \<bar>x\<bar> < overflow" if "x \<noteq> 0"
    using le [OF that] n by (rule below_overflow)
  have n0: "(0::rat) \<le> of_int n" using x by linarith
  have nn: "0 \<le> round_pos \<bar>x\<bar>" by (simp add: round_pos_nonneg)
  note eq = dround_nonzero [OF _ lt, of s]
  show "dfinite (dround s x)" by (cases "x = 0") (simp_all add: eq)
  show "\<bar>dval (dround s x)\<bar> \<le> of_int n"
    using le n0 nn by (cases "x = 0") (simp_all add: eq abs_mult abs_sgn_eq)
  show "0 \<le> x \<Longrightarrow> 0 \<le> dval (dround s x)"
    using nn by (cases "x = 0") (simp_all add: eq)
  show "x \<le> 0 \<Longrightarrow> dval (dround s x) \<le> 0"
    using nn by (cases "x = 0") (simp_all add: eq sgn_if)
qed

section \<open>Integers that stay exact\<close>

lemma dadd_Fin_int: "\<bar>a + b\<bar> < 2 ^ 53 \<Longrightarrow> dadd (Fin (of_int a)) (Fin (of_int b)) = Fin (of_int (a + b))"
  using dround_of_int [of "a + b"] by (simp add: dadd_def)

lemma dround_sign: "x \<noteq> 0 \<Longrightarrow> dround s x = dround False x"
  by (simp add: dround_def)

lemma dmul_one: "\<bar>a\<bar> < 2 ^ 53 \<Longrightarrow> dmul (Fin (of_int a)) (Fin 1) = Fin (of_int a)"
  using dround_of_int [of a] by (cases "a = 0") (simp_all add: dmul_def dround_sign [of _ "a < 0"])

lemma raw_bounds: "\<bar>sint (r :: u32)\<bar> \<le> 2 ^ 31" "\<bar>uint (r :: u32)\<bar> < 2 ^ 32"
  using sint_range_size [of r] uint_range_size [of r] by (auto simp: word_size abs_if)

end
