(* ===== verification/RefBoard.thy ===== *)
theory RefBoard
  imports Posix
begin

text \<open>
  A concrete board for the examples of the development: an i2c bus whose chips are register files
  and a sysfs directory of pin files, as an instance of the operating-system parameter. No theorem
  about the drivers depends on it; it shows that their hypotheses can be met.
\<close>

record board =
  slave :: int
  pointer :: u8
  registers :: "int \<Rightarrow> u8 \<Rightarrow> u8 list"
  opened :: "string list"
  files :: "string \<Rightarrow> u8 list"

definition board_write :: "int \<Rightarrow> u8 list \<Rightarrow> board \<Rightarrow> nat option \<times> board" where
  "board_write fd bs k = (case bs of
     [] \<Rightarrow> (Some 0, k)
   | [r] \<Rightarrow> (Some 1, k\<lparr>pointer := r\<rparr>)
   | r # vs \<Rightarrow> (Some (length bs), k\<lparr>registers := (registers k)(slave k := (registers k (slave k))(r := vs))\<rparr>))"

definition board_os :: "bool \<Rightarrow> board os_api" where
  "board_os sgnd = \<lparr>char_signed = sgnd,
     os_open = (\<lambda>fn k. (if fn = ''/dev/i2c-2'' then 3 else - 1, k)),
     os_ioctl = (\<lambda>fd a k. (0, k\<lparr>slave := a\<rparr>)),
     os_write = board_write,
     os_read = (\<lambda>fd n k. (Some (take n (registers k (slave k) (pointer k))), k)),
     os_fopen = (\<lambda>fn mode k. (Some (length (opened k)), k\<lparr>opened := opened k @ [fn]\<rparr>)),
     os_fgetc = (\<lambda>h k. (case files k (opened k ! h) of b # _ \<Rightarrow> Some b | [] \<Rightarrow> None, k)),
     os_fputc = (\<lambda>b h k. (True, k)),
     os_fclose = (\<lambda>h k. k)\<rparr>"

definition board0 :: board where
  "board0 = \<lparr>slave = 0, pointer = 0, registers = (\<lambda>_ _. [23, 128]), opened = [],
     files = (\<lambda>_. [49, 10])\<rparr>"

definition world0 :: "board world" where
  "world0 = \<lparr>kern = board0, trace = []\<rparr>"

end
