(* ===== verification/I2cBus.thy ===== *)
theory I2cBus
  imports Posix DoubleFP RefBoard
begin

text \<open>
  dev_i2c.c: DS1621 and DS75 thermometers and the fan tachometer on a Linux i2c-dev bus. A function
  that stores through a pointer argument returns the contents of that pointer beside its status;
  \<open>None\<close> is the null pointer. Locking and unlocking the mutex are events of the trace.
\<close>

section \<open>Operations\<close>

definition I2C_DS1621_ADDR_BASE :: int where "I2C_DS1621_ADDR_BASE = 0x48"
definition I2C_DS75_ADDR_BASE :: int where "I2C_DS75_ADDR_BASE = 0x48"
definition I2C_TACHOMETER_ADDR :: int where "I2C_TACHOMETER_ADDR = 0x0F"

text \<open>\<open>snprintf(filename, 16, ...)\<close> keeps 15 characters.\<close>

definition show_int :: "int \<Rightarrow> string" where
  "show_int i = (if i < 0 then CHR ''-'' # show_nat (nat (- i)) else show_nat (nat i))"

definition open_i2c_bus :: "'k os_api \<Rightarrow> int \<Rightarrow> ('k, 'z, int) io" where
  "open_i2c_bus os bus = c_open os (take 15 (''/dev/i2c-'' @ show_int bus))"

text \<open>The code at the label \<open>RETURN\<close>, at the end of each function: it unlocks the mutex and returns the
  status (with the contents of the pointer arguments). The macro \<open>RETURN(s)\<close> jumps there; a plain
  \<open>return\<close> in a function body would be \<open>State_Monad.return\<close>.\<close>

definition goto_RETURN :: "'a \<Rightarrow> ('k, 'z, 'a) io" where
  "goto_RETURN r = do { c_event EvUnlock; State_Monad.return r }"

text \<open>\<open>buf[0] + buf[1]/256.0\<close>, the elements of \<open>buf\<close> being plain \<open>char\<close>s.\<close>

definition temp_of :: "bool \<Rightarrow> u8 \<Rightarrow> u8 \<Rightarrow> double" where
  "temp_of sgnd b0 b1 = dadd (dint (char_val sgnd b0)) (ddiv (dint (char_val sgnd b1)) (dint 256))"

text \<open>\<open>(int)( (*T)*256 + 0.5 )\<close>, and its two bytes \<open>t256>>8\<close> and \<open>t256&0xff\<close>.\<close>

definition t256_of :: "double \<Rightarrow> int option" where
  "t256_of T = dtoint 32 (dadd (dmul T (dint 256)) (Fin (1 / 2)))"

definition t256_bytes :: "int \<Rightarrow> u8 \<times> u8" where
  "t256_bytes t = (word_of_int (drop_bit 8 t), word_of_int (t AND 0xff))"

definition read_temp_ds1621 ::
  "'k os_api \<Rightarrow> int \<Rightarrow> int \<Rightarrow> double \<Rightarrow> ('k, 'z, int \<times> double) io" where
  "read_temp_ds1621 os fd addr T_degC = do {
     c_event EvLock;
     status \<leftarrow> c_ioctl os fd (I2C_DS1621_ADDR_BASE + (addr AND 7));
     if status < 0 then goto_RETURN (status, T_degC)
     else do {
       status \<leftarrow> c_write os fd [0xee, 1];
       if status \<noteq> 2 then goto_RETURN (- 1, T_degC)
       else do {
         status \<leftarrow> c_write os fd [0xaa];
         if status \<noteq> 1 then goto_RETURN (- 1, T_degC)
         else do {
           (status, buf) \<leftarrow> c_read os fd 2;
           if status \<noteq> 2 then goto_RETURN (- 1, T_degC)
           else goto_RETURN (0, temp_of (char_signed os) (buf ! 0) (buf ! 1))
         }
       }
     }
   }"

text \<open>
  The blocks of the \<open>access\<close> functions: store a temperature register (three bytes, then the pause
  of 11 ms), store the configuration register, read a temperature register, read the configuration
  register. \<open>False\<close> and \<open>None\<close> stand for \<open>RETURN(-1)\<close>.
\<close>

definition write_temp_reg :: "'k os_api \<Rightarrow> int \<Rightarrow> u8 \<Rightarrow> double \<Rightarrow> ('k, 'z, bool) io" where
  "write_temp_reg os fd reg T =
     (case t256_of T of
        None \<Rightarrow> do { c_event EvUB; State_Monad.return False }
      | Some t256 \<Rightarrow> do {
          status \<leftarrow> c_write os fd [reg, fst (t256_bytes t256), snd (t256_bytes t256)];
          if status \<noteq> 3 then State_Monad.return False
          else do { c_event (EvSleep 11000000); State_Monad.return True }
        })"

definition write_cfg_reg :: "'k os_api \<Rightarrow> int \<Rightarrow> u8 \<Rightarrow> u8 \<Rightarrow> ('k, 'z, bool) io" where
  "write_cfg_reg os fd reg cfg = do {
     status \<leftarrow> c_write os fd [reg, cfg];
     if status \<noteq> 2 then State_Monad.return False
     else do { c_event (EvSleep 11000000); State_Monad.return True }
   }"

definition read_temp_reg :: "'k os_api \<Rightarrow> int \<Rightarrow> u8 \<Rightarrow> ('k, 'z, double option) io" where
  "read_temp_reg os fd reg = do {
     status \<leftarrow> c_write os fd [reg];
     (n, buf) \<leftarrow> c_read os fd 2;
     if status + n \<noteq> 3 then State_Monad.return None
     else State_Monad.return (Some (temp_of (char_signed os) (buf ! 0) (buf ! 1)))
   }"

definition read_cfg_reg :: "'k os_api \<Rightarrow> int \<Rightarrow> u8 \<Rightarrow> ('k, 'z, u8 option) io" where
  "read_cfg_reg os fd reg = do {
     status \<leftarrow> c_write os fd [reg];
     (n, buf) \<leftarrow> c_read os fd 1;
     if status + n \<noteq> 2 then State_Monad.return None
     else State_Monad.return (Some (buf ! 0))
   }"

text \<open>\<open>if (p) { ... }\<close> around a store and around a read: the block is skipped for a null pointer.\<close>

definition if_set :: "'a option \<Rightarrow> ('a \<Rightarrow> ('k, 'z, bool) io) \<Rightarrow> ('k, 'z, bool) io" where
  "if_set p f = (case p of None \<Rightarrow> State_Monad.return True | Some v \<Rightarrow> f v)"

definition if_want :: "'a option \<Rightarrow> ('k, 'z, 'a option) io \<Rightarrow> ('k, 'z, 'a option option) io" where
  "if_want p m = (case p of None \<Rightarrow> State_Monad.return (Some None)
     | Some _ \<Rightarrow> do { r \<leftarrow> m; State_Monad.return (map_option Some r) })"

type_synonym details = "int \<times> double option \<times> double option \<times> u8 option"

definition access_ds1621_details ::
  "'k os_api \<Rightarrow> int \<Rightarrow> int \<Rightarrow> double option \<Rightarrow> double option \<Rightarrow> u8 option \<Rightarrow> char
     \<Rightarrow> ('k, 'z, details) io" where
  "access_ds1621_details os fd addr TH TL cfg mode = do {
     c_event EvLock;
     status \<leftarrow> c_ioctl os fd (I2C_DS1621_ADDR_BASE + addr);
     if status < 0 then goto_RETURN (status, TH, TL, cfg)
     else if mode = CHR ''w'' then do {
       ok \<leftarrow> if_set TH (write_temp_reg os fd 0xa1);
       if \<not> ok then goto_RETURN (- 1, TH, TL, cfg) else do {
       ok \<leftarrow> if_set TL (write_temp_reg os fd 0xa2);
       if \<not> ok then goto_RETURN (- 1, TH, TL, cfg) else do {
       ok \<leftarrow> if_set cfg (write_cfg_reg os fd 0xac);
       if \<not> ok then goto_RETURN (- 1, TH, TL, cfg)
       else goto_RETURN (0, TH, TL, cfg) }}}
     else do {
       r \<leftarrow> if_want TH (read_temp_reg os fd 0xa1);
       (case r of None \<Rightarrow> goto_RETURN (- 1, TH, TL, cfg) | Some TH \<Rightarrow> do {
       r \<leftarrow> if_want TL (read_temp_reg os fd 0xa2);
       (case r of None \<Rightarrow> goto_RETURN (- 1, TH, TL, cfg) | Some TL \<Rightarrow> do {
       r \<leftarrow> if_want cfg (read_cfg_reg os fd 0xac);
       (case r of None \<Rightarrow> goto_RETURN (- 1, TH, TL, cfg)
        | Some cfg \<Rightarrow> goto_RETURN (0, TH, TL, cfg)) })})}
   }"

definition read_temp_ds75 ::
  "'k os_api \<Rightarrow> int \<Rightarrow> int \<Rightarrow> double \<Rightarrow> ('k, 'z, int \<times> double) io" where
  "read_temp_ds75 os fd addr T_degC = do {
     c_event EvLock;
     status \<leftarrow> c_ioctl os fd (I2C_DS75_ADDR_BASE + (addr AND 7));
     if status < 0 then goto_RETURN (status, T_degC)
     else do {
       status \<leftarrow> c_write os fd [0x00];
       if status \<noteq> 1 then goto_RETURN (- 1, T_degC)
       else do {
         (status, buf) \<leftarrow> c_read os fd 2;
         if status \<noteq> 2 then goto_RETURN (- 1, T_degC)
         else goto_RETURN (0, temp_of (char_signed os) (buf ! 0) (buf ! 1))
       }
     }
   }"

definition access_ds75_details ::
  "'k os_api \<Rightarrow> int \<Rightarrow> int \<Rightarrow> double option \<Rightarrow> double option \<Rightarrow> u8 option \<Rightarrow> char
     \<Rightarrow> ('k, 'z, details) io" where
  "access_ds75_details os fd addr T_OS T_HYST cfg mode = do {
     c_event EvLock;
     status \<leftarrow> c_ioctl os fd (I2C_DS75_ADDR_BASE + addr);
     if status < 0 then goto_RETURN (status, T_OS, T_HYST, cfg)
     else if mode = CHR ''w'' then do {
       ok \<leftarrow> if_set T_OS (write_temp_reg os fd 3);
       if \<not> ok then goto_RETURN (- 1, T_OS, T_HYST, cfg) else do {
       ok \<leftarrow> if_set T_HYST (write_temp_reg os fd 2);
       if \<not> ok then goto_RETURN (- 1, T_OS, T_HYST, cfg) else do {
       ok \<leftarrow> if_set cfg (write_cfg_reg os fd 1);
       if \<not> ok then goto_RETURN (- 1, T_OS, T_HYST, cfg)
       else goto_RETURN (0, T_OS, T_HYST, cfg) }}}
     else do {
       r \<leftarrow> if_want T_OS (read_temp_reg os fd 3);
       (case r of None \<Rightarrow> goto_RETURN (- 1, T_OS, T_HYST, cfg) | Some T_OS \<Rightarrow> do {
       r \<leftarrow> if_want T_HYST (read_temp_reg os fd 2);
       (case r of None \<Rightarrow> goto_RETURN (- 1, T_OS, T_HYST, cfg) | Some T_HYST \<Rightarrow> do {
       r \<leftarrow> if_want cfg (read_cfg_reg os fd 1);
       (case r of None \<Rightarrow> goto_RETURN (- 1, T_OS, T_HYST, cfg)
        | Some cfg \<Rightarrow> goto_RETURN (0, T_OS, T_HYST, cfg)) })})}
   }"

text \<open>
  The tachometer. \<open>read8\<close> is the loop over \<open>ird\<close> that fills \<open>buf\<close> a byte at a time (\<open>None\<close> for
  \<open>RETURN(-3)\<close>); \<open>sscanf_fan\<close> is \<open>sscanf(buf, "f%d=%d", ...)\<close>, defined exactly when both
  conversions succeed. The rest of the 16-byte \<open>buf\<close> is zero, so the string ends after the bytes
  read.
\<close>

fun read8 :: "'k os_api \<Rightarrow> int \<Rightarrow> nat \<Rightarrow> u8 list \<Rightarrow> ('k, 'z, u8 list option) io" where
  "read8 os fd 0 acc = State_Monad.return (Some acc)"
| "read8 os fd (Suc n) acc = do {
     (status, b) \<leftarrow> c_read os fd 1;
     if status \<noteq> 1 then State_Monad.return None else read8 os fd n (acc @ b)
   }"

definition char_of_byte :: "u8 \<Rightarrow> char" where
  "char_of_byte b = char_of (unat b)"

definition sscanf_fan :: "string \<Rightarrow> (int \<times> int) option" where
  "sscanf_fan s = (case s of
     c # r1 \<Rightarrow> if c \<noteq> CHR ''f'' then None else
       (case scan_int r1 of
          Some (ich_check, e # r2) \<Rightarrow> if e \<noteq> CHR ''='' then None else
            (case scan_int r2 of Some (rpm_read, _) \<Rightarrow> Some (ich_check, rpm_read) | None \<Rightarrow> None)
        | _ \<Rightarrow> None)
   | [] \<Rightarrow> None)"

text \<open>What the body of the loop over \<open>ich\<close> makes of the 8 bytes: a speed, or nothing, and whether
  it prints a message.\<close>

definition fan_parse :: "u8 list \<Rightarrow> nat \<Rightarrow> int option \<times> bool" where
  "fan_parse buf ich =
     (if buf ! 0 = 0x20 \<and> buf ! 1 = 0 then (None, False)
      else if buf ! 0 \<noteq> 0x66 \<or> buf ! 3 \<noteq> 0x3d then (None, True)
      else (case sscanf_fan (cstr (map char_of_byte buf)) of
              Some (ich_check, rpm_read) \<Rightarrow>
                if ich_check \<noteq> int ich + 1 then (None, True) else (Some rpm_read, False)
            | None \<Rightarrow> (None, True)))"

text \<open>The loop, over the channel numbers still to be read. An error status leaves it at once.\<close>

fun fan_loop :: "'k os_api \<Rightarrow> int \<Rightarrow> nat list \<Rightarrow> double list \<Rightarrow> nat
    \<Rightarrow> ('k, 'z, (int + nat) \<times> double list) io" where
  "fan_loop os fd [] rpm n_success = State_Monad.return (Inr n_success, rpm)"
| "fan_loop os fd (ich # ichs) rpm n_success = do {
     status \<leftarrow> c_write os fd [word_of_int I2C_TACHOMETER_ADDR, word_of_nat ich];
     if status \<noteq> 2 then State_Monad.return (Inl (- 2), rpm)
     else do {
       c_event (EvSleep 11000000);
       r \<leftarrow> read8 os fd 8 [];
       (case r of
          None \<Rightarrow> State_Monad.return (Inl (- 3), rpm)
        | Some buf \<Rightarrow> (case fan_parse buf ich of
            (Some rpm_read, _) \<Rightarrow>
              if ich < length rpm then fan_loop os fd ichs (rpm[ich := dint rpm_read]) (n_success + 1)
              else do { c_event EvUB; fan_loop os fd ichs rpm (n_success + 1) }
          | (None, msg) \<Rightarrow> do {
              (if msg then c_event EvPrintf else State_Monad.return ());
              fan_loop os fd ichs rpm n_success
            }))
     }
   }"

definition read_fan_speeds ::
  "'k os_api \<Rightarrow> int \<Rightarrow> double list \<Rightarrow> int \<Rightarrow> ('k, 'z, int \<times> double list) io" where
  "read_fan_speeds os fd rpm n_fan = do {
     c_event EvLock;
     status \<leftarrow> c_ioctl os fd I2C_TACHOMETER_ADDR;
     if status < 0 then goto_RETURN (status, rpm)
     else do {
       (r, rpm) \<leftarrow> fan_loop os fd [0..<nat n_fan] rpm 0;
       (case r of
          Inl e \<Rightarrow> goto_RETURN (e, rpm)
        | Inr n_success \<Rightarrow>
            if int n_success \<le> cdiv n_fan 2 then goto_RETURN (- 4, rpm)
            else goto_RETURN (0, rpm))
     }
   }"

section \<open>The mutex\<close>

definition no_mutex :: "io_event \<Rightarrow> bool" where
  "no_mutex e \<longleftrightarrow> e \<noteq> EvLock \<and> e \<noteq> EvUnlock"

definition critical_section :: "io_event list \<Rightarrow> bool" where
  "critical_section es \<longleftrightarrow> (\<exists>ios. es = EvLock # ios @ [EvUnlock] \<and> list_all no_mutex ios)"

lemma no_mutex_simps [simp]: "\<not> no_mutex EvLock" "\<not> no_mutex EvUnlock" "no_mutex (EvIoctl a b)"
  "no_mutex (EvWrite a c)" "no_mutex (EvRead a n)" "no_mutex (EvSleep n)" "no_mutex EvPrintf"
  "no_mutex EvUB"
  by (simp_all add: no_mutex_def)

text \<open>\<open>closing\<close>: the rest of a path that has locked the mutex, up to and including its unlocking.\<close>

definition closing :: "io_event list \<Rightarrow> bool" where
  "closing es \<longleftrightarrow> (\<exists>ios. es = ios @ [EvUnlock] \<and> list_all no_mutex ios)"

lemma goto_RETURN_closing [simp, intro]: "appends closing (goto_RETURN r)"
  by (simp add: goto_RETURN_def c_event_def appends_def closing_def)

lemma bind_closing:
  assumes "appends (list_all no_mutex) m" "\<And>r. appends closing (f r)"
  shows "appends closing (State_Monad.bind m f)"
proof (rule appends_bind [OF assms])
  fix es es' assume "list_all no_mutex es" "closing es'"
  then show "closing (es @ es')"
    unfolding closing_def by (metis append.assoc list_all_append)
qed

lemma lock_closing:
  assumes "\<And>r. appends closing (f r)"
  shows "appends critical_section (State_Monad.bind (c_event EvLock) f)"
proof -
  have "appends (\<lambda>es. es = [EvLock]) (c_event EvLock)"
    by (simp add: c_event_def appends_def)
  from appends_bind [OF this assms] show ?thesis
    by (auto simp: closing_def critical_section_def)
qed

lemma if_set_appends [intro]:
  "(\<And>v. appends (list_all p) (f v)) \<Longrightarrow> appends (list_all p) (if_set x f)"
  by (simp add: if_set_def split: option.split)

lemma if_want_appends [intro]:
  "appends (list_all p) m \<Longrightarrow> appends (list_all p) (if_want x m)"
  by (auto simp: if_want_def split: option.split intro: appends_all_bind)

lemma reg_appends [simp, intro]:
  "appends (list_all no_mutex) (write_temp_reg os fd r T)"
  "appends (list_all no_mutex) (write_cfg_reg os fd r c)"
  "appends (list_all no_mutex) (read_temp_reg os fd r)"
  "appends (list_all no_mutex) (read_cfg_reg os fd r)"
  by (auto simp: write_temp_reg_def write_cfg_reg_def read_temp_reg_def read_cfg_reg_def c_io_defs
      intro!: appends_all_bind split: option.split prod.split)

lemma read8_appends [simp, intro]: "appends (list_all no_mutex) (read8 os fd n acc)"
  by (induction n arbitrary: acc)
    (auto simp: c_io_defs intro!: appends_all_bind split: prod.split)

lemma fan_loop_appends [simp, intro]: "appends (list_all no_mutex) (fan_loop os fd ichs rpm n)"
proof (induction ichs arbitrary: rpm n)
  case (Cons ich ichs)
  have c: "appends (list_all no_mutex) (c_event e)" if "no_mutex e" for e
    using that by (simp add: c_event_def)
  show ?case
    by (auto simp: c_write_def intro!: appends_all_bind Cons c split: option.split prod.split)
qed simp

lemma bus_appends [simp, intro]:
  "appends (list_all no_mutex) (c_ioctl os fd a)" "appends (list_all no_mutex) (c_write os fd bs)"
  "appends (list_all no_mutex) (c_read os fd n)"
  by (auto simp: c_io_defs intro!: appends_all_bind split: prod.split)

text \<open>C8: each of the five operations of the i2c driver locks the mutex before its first bus call and,
  whatever the bus answers and whichever of its exits it takes, unlocks it once, after its last bus
  call, and neither locks nor unlocks it in between. The lock is the first call of each function and
  every exit is its own jump to the unlocking label, so an exit without it would break the claim.\<close>

theorem i2c_mutex_discipline:
  "appends critical_section (read_temp_ds1621 os fd addr T) \<and>
   appends critical_section (access_ds1621_details os fd addr TH TL cfg mode) \<and>
   appends critical_section (read_temp_ds75 os fd addr T) \<and>
   appends critical_section (access_ds75_details os fd addr TH TL cfg mode) \<and>
   appends critical_section (read_fan_speeds os fd rpm n_fan)"
  unfolding read_temp_ds1621_def access_ds1621_details_def read_temp_ds75_def
    access_ds75_details_def read_fan_speeds_def
  by (intro conjI lock_closing; intro bind_closing bus_appends;
      auto intro!: bind_closing if_set_appends if_want_appends split: option.split prod.split sum.split)

section \<open>Temperatures\<close>

text \<open>The temperature the register pair stands for (DS75 and DS1621 data sheets): a 16-bit two's
  complement number of 1/256 degrees.\<close>

definition ds_temp :: "u8 \<Rightarrow> u8 \<Rightarrow> rat" where
  "ds_temp hi lo = of_int (sint hi * 256 + uint lo) / 256"

lemma ddiv_256: "\<bar>k\<bar> < 2 ^ 45 \<Longrightarrow> ddiv (dint k) (dint 256) = Fin (of_int k / 256)"
proof -
  assume k: "\<bar>k\<bar> < 2 ^ 45"
  then have "dint k = Fin (of_int k)" "dint 256 = Fin 256"
    by (simp_all add: dint_exact)
  then show ?thesis
    using k dround_dyadic [of k 8 "k < 0"] by (cases "k = 0") (simp_all add: ddiv_def)
qed

text \<open>The double arithmetic of the driver is exact.\<close>

lemma temp_of_exact:
  "dfinite (temp_of c hi lo) \<and> dval (temp_of c hi lo) = of_int (char_val c hi * 256 + char_val c lo) / 256"
proof -
  note b = char_val_bounds [of c hi] char_val_bounds [of c lo]
  have lo: "ddiv (dint (char_val c lo)) (dint 256) = Fin (of_int (char_val c lo) / 256)"
    using b by (intro ddiv_256) (simp add: abs_less_iff)
  have hi: "dint (char_val c hi) = Fin (of_int (char_val c hi))"
    using b by (intro dint_exact) (simp add: abs_less_iff)
  let ?k = "char_val c hi * 256 + char_val c lo"
  have "\<bar>?k\<bar> < 2 ^ 53" using b by (simp add: abs_less_iff)
  then show ?thesis
    using dadd_exact [of "dint (char_val c hi)" "Fin (of_int (char_val c lo) / 256)" ?k 8]
    by (simp add: temp_of_def lo hi add_divide_distrib)
qed

lemma sint_uint_u8: "sint (b :: u8) = (if uint b < 128 then uint b else uint b - 256)"
proof -
  have u: "0 \<le> uint b" "uint b < 256" using uint_range_size [of b] by (simp_all add: word_size)
  have "sint b = (uint b + 128) mod 256 - 128"
    by (simp add: sint_uint signed_take_bit_eq_take_bit_shift take_bit_eq_mod)
  also have "\<dots> = (if uint b < 128 then uint b else uint b - 256)"
  proof (cases "uint b < 128")
    case True
    then show ?thesis using u by simp
  next
    case False
    then have "(uint b + 128) mod 256 = uint b - 128"
      using u mod_add_self2 [of "uint b - 128" 256] by (simp add: add.commute)
    with False show ?thesis by simp
  qed
  finally show ?thesis .
qed

lemma temp_of_ds_temp:
  "dval (temp_of c hi lo) =
     ds_temp hi lo + (if c then (if uint lo < 128 then 0 else - 1)
                      else (if uint hi < 128 then 0 else 256))"
  using temp_of_exact [of c hi lo]
  by (simp add: ds_temp_def char_val_def sint_uint_u8 [of hi] sint_uint_u8 [of lo] field_simps)

text \<open>C10: the temperature \<open>read_temp_ds75\<close> and \<open>read_temp_ds1621\<close> decode from the two bytes is the
  one the chip means exactly when, with an unsigned plain \<open>char\<close> (linux-arm), the temperature is
  not negative, and, with a signed one (linux-x86_64), the fraction byte is below 128; a negative
  temperature read on linux-arm comes out 256 degrees too high.\<close>

theorem temp_of_decodes:
  "(dval (temp_of c hi lo) = ds_temp hi lo \<longleftrightarrow> (if c then uint lo < 128 else 0 \<le> ds_temp hi lo)) \<and>
   (if ds_temp hi lo < 0 then dval (temp_of False hi lo) = ds_temp hi lo + 256
    else dval (temp_of False hi lo) = ds_temp hi lo)"
proof -
  have "0 \<le> uint lo" "uint lo < 256" "0 \<le> uint hi" "uint hi < 256"
    using uint_range_size [of lo] uint_range_size [of hi] by (simp_all add: word_size)
  then have "0 \<le> ds_temp hi lo \<longleftrightarrow> uint hi < 128"
    by (auto simp: ds_temp_def sint_uint_u8 [of hi] zero_le_divide_iff
        simp del: of_int_add of_int_mult of_int_diff)
  then show ?thesis by (auto simp: temp_of_ds_temp)
qed

text \<open>One temperature reading of a DS75 selects the chip by the low three bits of its address, points
  it at register 0 and reads two bytes. It succeeds exactly when every bus call does; then the
  destination holds the decoded temperature, and on any failure the destination is unchanged and the
  status negative.\<close>

theorem read_temp_ds75_correct:
  "case run_state (read_temp_ds75 os fd addr T) s of ((status, T'), s') \<Rightarrow>
     let (i, k1) = os_ioctl os fd (0x48 + (addr AND 7)) (kern s);
         (w, k2) = os_write os fd [0] k1;
         (r, k3) = os_read os fd 2 k2
     in if i \<ge> 0 \<and> (case w of Some n \<Rightarrow> 1 \<le> n | None \<Rightarrow> False)
           \<and> (case r of Some bs \<Rightarrow> 2 \<le> length bs | None \<Rightarrow> False)
        then status = 0 \<and> T' = temp_of (char_signed os) (the r ! 0) (the r ! 1) \<and> kern s' = k3
        else status < 0 \<and> T' = T"
  by (auto simp: read_temp_ds75_def goto_RETURN_def c_io_defs I2C_DS75_ADDR_BASE_def Let_def
      split: prod.splits option.splits if_splits)

section \<open>Thresholds\<close>

lemma dtoint_half:
  assumes "- (2 ^ 31) \<le> k" "k < 2 ^ 31 - 1"
  shows "dtoint 32 (Fin (of_int k + 1 / 2)) = Some (if 0 \<le> k then k else k + 1)"
proof -
  have "\<lfloor>of_int k + 1 / 2 :: rat\<rfloor> = k" by (simp add: floor_eq_iff)
  moreover have "\<lfloor>- (of_int k + 1 / 2) :: rat\<rfloor> = - k - 1" by (simp add: floor_eq_iff)
  moreover have "(0 :: rat) \<le> of_int k + 1 / 2 \<longleftrightarrow> 0 \<le> k"
  proof
    show "0 \<le> k" if "(0 :: rat) \<le> of_int k + 1 / 2"
      using that by (metis add.commute add_le_same_cancel1 calculation(1) zero_le_floor)
  qed simp
  ultimately have "trunc_rat (of_int k + 1 / 2) = (if 0 \<le> k then k else k + 1)"
    unfolding trunc_rat_def by simp
  then show ?thesis using assms by (simp add: dtoint_def)
qed

lemma t256_of_eq:
  assumes k: "\<bar>k\<bar> < 2 ^ 31 - 1"
  shows "t256_of (Fin (of_int k / 256)) = Some (if 0 \<le> k then k else k + 1)"
proof -
  have d: "dint 256 = Fin 256" by (simp add: dint_exact)
  have m: "dfinite (dmul (Fin (of_int k / 256)) (dint 256)) \<and>
      dval (dmul (Fin (of_int k / 256)) (dint 256)) = of_int k"
    using dround_dyadic [of k 0] k by (cases "k = 0") (simp_all add: d dmul_def)
  let ?m = "dmul (Fin (of_int k / 256)) (dint 256)"
  have "dadd ?m (Fin (1 / 2)) = dround False (of_int (2 * k + 1) / 2 ^ 1)"
    using m by (simp add: dadd_def dfinite_def add_divide_distrib)
  also have "\<dots> = Fin (of_int (2 * k + 1) / 2 ^ 1)"
  proof (rule dround_dyadic)
    show "2 * k + 1 \<noteq> 0" by presburger
    show "\<bar>2 * k + 1\<bar> < 2 ^ 53" using k by simp
  qed simp
  also have "of_int (2 * k + 1) / 2 ^ 1 = (of_int k + 1 / 2 :: rat)"
    by (simp add: add_divide_distrib)
  finally show ?thesis
    using dtoint_half [of k] k by (simp add: t256_of_def)
qed

lemma t256_bytes_decode:
  assumes "- (2 ^ 15) \<le> t" "t < 2 ^ 15"
  shows "ds_temp (fst (t256_bytes t)) (snd (t256_bytes t)) = of_int t / 256"
proof -
  have hi: "sint (word_of_int (drop_bit 8 t) :: u8) = t div 256"
  proof -
    have "- 128 \<le> t div 256" using assms(1) by simp
    moreover have "t div 256 < 128" using assms(2) by simp
    ultimately show ?thesis
      by (simp add: drop_bit_eq_div signed_take_bit_int_eq_self sint_sbintrunc')
  qed
  have lo: "uint (word_of_int (t AND 255) :: u8) = t mod 256"
    using take_bit_eq_mask [of 8 t] by (simp add: uint_word_of_int take_bit_eq_mod mask_eq_exp_minus_1 and.commute)
  show ?thesis by (simp add: ds_temp_def t256_bytes_def hi lo)
qed

text \<open>The bytes stored for a threshold of \<open>k/256\<close> degrees, as the chip reads them, are that
  threshold exactly when it is not negative; a negative threshold is stored 1/256 degree too high,
  because the C cast rounds towards zero after \<open>+ 0.5\<close>.\<close>

theorem threshold_encoding:
  assumes "- (2 ^ 15) \<le> k" "k < 2 ^ 15"
  shows "\<exists>t. t256_of (Fin (of_int k / 256)) = Some t \<and>
     ds_temp (fst (t256_bytes t)) (snd (t256_bytes t)) =
       of_int k / 256 + (if 0 \<le> k then 0 else 1 / 256)"
proof -
  have "\<bar>k\<bar> < 2 ^ 31 - 1" using assms by simp
  then have "t256_of (Fin (of_int k / 256)) = Some (if 0 \<le> k then k else k + 1)"
    by (rule t256_of_eq)
  moreover have "ds_temp (fst (t256_bytes t)) (snd (t256_bytes t)) = of_int t / 256"
    if "t = (if 0 \<le> k then k else k + 1)" for t
    using that assms by (intro t256_bytes_decode) auto
  ultimately show ?thesis by (cases "0 \<le> k") (simp_all add: add_divide_distrib)
qed

theorem threshold_encoding_witness:
  "\<exists>t. t256_of (Fin (of_int (- 640) / 256)) = Some t \<and>
     ds_temp (fst (t256_bytes t)) (snd (t256_bytes t)) = - 639 / 256"
  using threshold_encoding [of "- 640"] by simp

section \<open>Fan speeds\<close>

lemma char_of_byte_digit: "d < 10 \<Longrightarrow> char_of_byte (word_of_nat (48 + d)) = digit_char d"
  by (simp add: char_of_byte_def digit_char_def unat_of_nat take_bit_eq_mod del: of_nat_add of_nat_numeral)

text \<open>A reply in the documented form \<open>fnn=ssss\<close>, with \<open>nn\<close> the channel number plus one, is
  accepted and gives the speed \<open>ssss\<close>.\<close>

theorem fan_parse_format:
  assumes d: "d1 < 10" "d2 < 10" "10 * d1 + d2 = ich + 1"
    and e: "e1 < 10" "e2 < 10" "e3 < 10" "e4 < 10"
  shows "fan_parse [0x66, word_of_nat (48 + d1), word_of_nat (48 + d2), 0x3d,
      word_of_nat (48 + e1), word_of_nat (48 + e2), word_of_nat (48 + e3), word_of_nat (48 + e4)] ich
    = (Some (1000 * int e1 + 100 * int e2 + 10 * int e3 + int e4), False)"
proof -
  let ?D = "[digit_char d1, digit_char d2]"
  let ?E = "[digit_char e1, digit_char e2, digit_char e3, digit_char e4]"
  have nn: "digit_char x \<noteq> NUL" if "x < 10" for x
    using digit_char_simps(1) [OF that] nul_not_digit by metis
  have c: "char_of_byte 0x66 = CHR ''f''" "char_of_byte 0x3d = CHR ''=''"
    by (code_simp, code_simp)
  have s: "cstr (map char_of_byte [0x66, word_of_nat (48 + d1), word_of_nat (48 + d2), 0x3d,
      word_of_nat (48 + e1), word_of_nat (48 + e2), word_of_nat (48 + e3), word_of_nat (48 + e4)])
      = ''f'' @ ?D @ ''='' @ ?E"
    using d e nn by (simp add: char_of_byte_digit c cstr_def del: of_nat_add of_nat_numeral)
  have eq: "\<not> is_digit (CHR ''='')" by (simp add: is_digit_def)
  have r: "read_nat ?D = ich + 1" "read_nat ?E = 1000 * e1 + 100 * e2 + 10 * e3 + e4"
    using d e by (simp_all add: read_nat_def)
  have "scan_int (?D @ ''='' @ ?E) = Some (int (ich + 1), ''='' @ ?E)"
    using scan_digits [of ?D "''='' @ ?E"] d eq by (simp add: r)
  moreover have "scan_int (?E @ []) = Some (1000 * int e1 + 100 * int e2 + 10 * int e3 + int e4, [])"
    using scan_digits [of ?E "[]"] e by (simp add: r)
  ultimately show ?thesis unfolding fan_parse_def s sscanf_fan_def by simp
qed

theorem fan_parse_format_witness:
  "fan_parse [0x66, word_of_nat (48 + 0), word_of_nat (48 + 1), 0x3d, word_of_nat (48 + 3),
      word_of_nat (48 + 0), word_of_nat (48 + 1), word_of_nat (48 + 6)] 0 = (Some 3016, False)"
  using fan_parse_format [of 0 1 0 3 0 1 6] by simp

text \<open>What the loop does to the array of speeds, in terms of the list of per-channel outcomes.\<close>

definition fan_outcomes :: "nat \<Rightarrow> int option list \<Rightarrow> bool" where
  "fan_outcomes a res \<longleftrightarrow>
     list_all2 (\<lambda>i r. r = None \<or> (\<exists>buf v. r = Some v \<and> fan_parse buf i = (Some v, False)))
       [a..<a + length res] res"

definition fan_store :: "double list \<Rightarrow> nat \<Rightarrow> int option list \<Rightarrow> double list" where
  "fan_store rpm a res = map (\<lambda>i. if a \<le> i \<and> i < a + length res
     then (case res ! (i - a) of Some v \<Rightarrow> dint v | None \<Rightarrow> rpm ! i) else rpm ! i) [0..<length rpm]"

lemma fan_parse_flag: "fan_parse buf ich = (Some v, b) \<Longrightarrow> \<not> b"
  by (auto simp: fan_parse_def split: if_splits option.splits)

lemma fan_store_Nil [simp]: "fan_store rpm a [] = rpm"
  by (rule nth_equalityI) (auto simp: fan_store_def)

lemma fan_store_length [simp]: "length (fan_store rpm a res) = length rpm"
  by (simp add: fan_store_def)

lemma fan_store_Cons:
  "fan_store rpm a (r # res) =
     fan_store (case r of Some v \<Rightarrow> rpm[a := dint v] | None \<Rightarrow> rpm) (Suc a) res"
proof (rule nth_equalityI)
  fix i assume i: "i < length (fan_store rpm a (r # res))"
  consider "i < a" | "i = a" | j where "i = Suc (a + j)"
    by (metis less_imp_Suc_add linorder_neqE_nat)
  then show "fan_store rpm a (r # res) ! i =
      fan_store (case r of Some v \<Rightarrow> rpm[a := dint v] | None \<Rightarrow> rpm) (Suc a) res ! i"
    using i by cases (auto simp: fan_store_def split: option.split)
qed (simp split: option.split)

lemma fan_outcomes_Cons:
  "fan_outcomes a (r # res) \<longleftrightarrow>
     (r = None \<or> (\<exists>buf v. r = Some v \<and> fan_parse buf a = (Some v, False))) \<and> fan_outcomes (Suc a) res"
proof -
  have "[a..<a + length (r # res)] = a # [Suc a..<Suc a + length res]"
    using upt_conv_Cons [of a "a + length (r # res)"] by simp
  then show ?thesis unfolding fan_outcomes_def by (simp only: list_all2_Cons)
qed

definition n_some :: "'a option list \<Rightarrow> nat" where
  "n_some res = length (filter (\<lambda>r. r \<noteq> None) res)"

lemma n_some_simps [simp]: "n_some [] = 0" "n_some (Some v # res) = Suc (n_some res)"
  "n_some (None # res) = n_some res"
  by (simp_all add: n_some_def)

lemma fan_loop_Cons:
  assumes run: "run_state (fan_loop os fd (a # ichs) rpm n) s = ((r, rpm'), s')"
  shows "(\<exists>e \<in> {- 2, - 3}. r = Inl e \<and> rpm' = rpm) \<or>
    (\<exists>o1 s1. run_state (fan_loop os fd ichs
         (case o1 of Some v \<Rightarrow> rpm[a := dint v] | None \<Rightarrow> rpm) (n + n_some [o1])) s1 = ((r, rpm'), s') \<and>
       (o1 = None \<or> (\<exists>buf v. o1 = Some v \<and> fan_parse buf a = (Some v, False))))"
    (is ?G)
proof -
  define G where "G \<longleftrightarrow> ?G"
  have F: G if "r = Inl e" "rpm' = rpm" "e = - 2 \<or> e = - 3" for e
    using that unfolding G_def by blast
  have N: G if "run_state (fan_loop os fd ichs rpm n) s1 = ((r, rpm'), s')" for s1
    unfolding G_def by (rule disjI2, rule exI [of _ None], rule exI [of _ s1]) (simp add: that)
  have S: G if "fan_parse buf a = (Some v, b)"
    and "run_state (fan_loop os fd ichs (rpm[a := dint v]) (Suc n)) s1 = ((r, rpm'), s')" for buf v b s1
    unfolding G_def using that fan_parse_flag [OF that(1)]
    by (intro disjI2 exI [of _ "Some v"] exI [of _ s1]) auto
  have B: "rpm[a := x] = rpm" if "\<not> a < length rpm" for x
    using that by (simp add: list_update_beyond)
  have G
    using run by (simp add: c_write_def c_event_def split: prod.splits if_splits option.splits)
      (auto intro: N F S simp: B)
  then show ?thesis unfolding G_def .
qed

lemma fan_loop_spec:
  assumes "run_state (fan_loop os fd [a..<b] rpm n) s = ((r, rpm'), s')"
  shows "\<exists>res. rpm' = fan_store rpm a res \<and> fan_outcomes a res \<and>
     (case r of Inr m \<Rightarrow> length res = b - a \<and> m = n + n_some res
      | Inl e \<Rightarrow> e \<in> {- 2, - 3} \<and> length res < b - a)"
  using assms
proof (induction "b - a" arbitrary: a rpm n s)
  case 0
  then show ?case by (intro exI [of _ "[]"]) (auto simp: fan_outcomes_def)
next
  case (Suc d)
  then have u: "[a..<b] = a # [Suc a..<b]" by (simp add: upt_conv_Cons)
  consider e where "e \<in> {- 2, - 3}" "r = Inl e" "rpm' = rpm"
    | o1 s1 where "run_state (fan_loop os fd [Suc a..<b]
          (case o1 of Some v \<Rightarrow> rpm[a := dint v] | None \<Rightarrow> rpm) (n + n_some [o1])) s1 = ((r, rpm'), s')"
        "o1 = None \<or> (\<exists>buf v. o1 = Some v \<and> fan_parse buf a = (Some v, False))"
    using fan_loop_Cons [OF Suc.prems [unfolded u]] by blast
  then show ?case
  proof cases
    case (1 e)
    then show ?thesis
      using Suc.hyps(2) by (intro exI [of _ "[]"]) (simp add: fan_outcomes_def)
  next
    case (2 o1 s1)
    let ?rpm1 = "case o1 of Some v \<Rightarrow> rpm[a := dint v] | None \<Rightarrow> rpm"
    have "d = b - Suc a" using Suc.hyps(2) by simp
    from Suc.hyps(1) [OF this 2(1)] obtain res
      where "rpm' = fan_store ?rpm1 (Suc a) res" "fan_outcomes (Suc a) res"
        "case r of Inr m \<Rightarrow> length res = b - Suc a \<and> m = n + n_some [o1] + n_some res
         | Inl e \<Rightarrow> e \<in> {- 2, - 3} \<and> length res < b - Suc a"
      by blast
    then show ?thesis
      using Suc.hyps(2) 2(2)
      by (intro exI [of _ "o1 # res"])
        (cases o1; auto simp: fan_store_Cons fan_outcomes_Cons split: sum.splits)
  qed
qed

text \<open>\<open>read_fan_speeds\<close> changes a speed only where the tachometer's reply for that channel was
  well-formed (\<open>fan_outcomes\<close>), keeps the old value elsewhere, never changes the number of speeds, and
  returns 0 exactly when the bus worked throughout and more than half of the \<open>n_fan\<close> channels gave a
  speed; \<open>-4\<close> means the bus worked but at most half did, any other status that the bus failed.\<close>

theorem read_fan_speeds_correct:
  "case run_state (read_fan_speeds os fd rpm n_fan) s of ((status, rpm'), s') \<Rightarrow>
     \<exists>res. rpm' = fan_store rpm 0 res \<and> fan_outcomes 0 res \<and> length res \<le> nat n_fan \<and>
       (if fst (os_ioctl os fd 0x0F (kern s)) < 0
        then status = fst (os_ioctl os fd 0x0F (kern s)) \<and> res = []
        else if length res < nat n_fan then status \<in> {- 2, - 3}
        else status = (if int (n_some res) \<le> cdiv n_fan 2 then - 4 else 0))"
proof -
  obtain status rpm' s' where run: "run_state (read_fan_speeds os fd rpm n_fan) s = ((status, rpm'), s')"
    by (metis prod.exhaust)
  obtain i k where i: "os_ioctl os fd 0x0F (kern s) = (i, k)" by fastforce
  show ?thesis
  proof (cases "i < 0")
    case True
    then show ?thesis
      by (intro exI [of _ "[]"] case_prodI2)
        (auto simp: read_fan_speeds_def goto_RETURN_def c_io_defs I2C_TACHOMETER_ADDR_def i
          fan_outcomes_def intro!: exI [of _ "[]"] split: prod.splits)
  next
    case False
    obtain r rpm1 s1 where loop: "run_state (fan_loop os fd [0..<nat n_fan] rpm 0)
        (s\<lparr>kern := k, trace := trace s @ [EvLock, EvIoctl fd 0x0F]\<rparr>) = ((r, rpm1), s1)"
      by (metis prod.exhaust)
    from fan_loop_spec [OF loop] obtain res where res: "rpm1 = fan_store rpm 0 res" "fan_outcomes 0 res"
      "case r of Inr m \<Rightarrow> length res = nat n_fan - 0 \<and> m = 0 + n_some res
       | Inl e \<Rightarrow> e \<in> {- 2, - 3} \<and> length res < nat n_fan - 0"
      by (elim exE conjE)
    have "rpm' = rpm1 \<and> (case r of Inr m \<Rightarrow> status = (if int m \<le> cdiv n_fan 2 then - 4 else 0)
        | Inl e \<Rightarrow> status = e)"
      using run False loop
      by (auto simp: read_fan_speeds_def goto_RETURN_def c_io_defs I2C_TACHOMETER_ADDR_def i
          split: sum.splits if_splits)
    then show ?thesis
      using res False by (auto simp: run i split: sum.splits intro!: exI [of _ res])
  qed
qed

section \<open>A chip with registers\<close>

text \<open>
  What the data sheets promise of a chip on a working bus: \<open>I2C_SLAVE\<close> selects a chip; a one-byte
  write moves its register pointer; a longer write stores the further bytes in the register named by
  the first; a read delivers the bytes of the register under the pointer. \<open>sel\<close>, \<open>ptr\<close> and \<open>reg\<close>
  read the selected chip, its pointer and the registers from the kernel state.
\<close>

definition register_chip ::
  "'k os_api \<Rightarrow> int \<Rightarrow> ('k \<Rightarrow> int) \<Rightarrow> ('k \<Rightarrow> u8) \<Rightarrow> ('k \<Rightarrow> int \<Rightarrow> u8 \<Rightarrow> u8 list) \<Rightarrow> bool" where
  "register_chip os fd sel ptr reg \<longleftrightarrow>
     (\<forall>a k. \<exists>k'. os_ioctl os fd a k = (0, k') \<and> sel k' = a \<and> reg k' = reg k) \<and>
     (\<forall>r k. \<exists>k'. os_write os fd [r] k = (Some 1, k') \<and> sel k' = sel k \<and> ptr k' = r \<and> reg k' = reg k) \<and>
     (\<forall>r v vs k. \<exists>k'. os_write os fd (r # v # vs) k = (Some (length vs + 2), k') \<and> sel k' = sel k \<and>
        reg k' = (reg k)(sel k := (reg k (sel k))(r := v # vs))) \<and>
     (\<forall>n k. \<exists>k'. os_read os fd n k = (Some (take n (reg k (sel k) (ptr k))), k') \<and>
        sel k' = sel k \<and> reg k' = reg k)"

lemma register_chip_ioctl:
  assumes "register_chip os fd sel ptr reg"
  obtains k' where "os_ioctl os fd a k = (0, k')" "sel k' = a" "reg k' = reg k"
  using assms unfolding register_chip_def by meson

lemma register_chip_store:
  assumes "register_chip os fd sel ptr reg"
  shows "\<exists>k'. os_write os fd (r # v # vs) k = (Some (length vs + 2), k') \<and> sel k' = sel k \<and>
    reg k' = (reg k)(sel k := (reg k (sel k))(r := v # vs))"
  using assms unfolding register_chip_def by meson

lemma register_chip_fetch:
  assumes "register_chip os fd sel ptr reg"
  shows "\<exists>k1 k2. os_write os fd [r] k = (Some 1, k1) \<and>
    os_read os fd n k1 = (Some (take n (reg k (sel k) r)), k2) \<and> sel k2 = sel k \<and> reg k2 = reg k"
proof -
  obtain k1 where 1: "os_write os fd [r] k = (Some 1, k1)" "sel k1 = sel k" "ptr k1 = r" "reg k1 = reg k"
    using assms unfolding register_chip_def by meson
  obtain k2 where "os_read os fd n k1 = (Some (take n (reg k1 (sel k1) (ptr k1))), k2)"
    "sel k2 = sel k1" "reg k2 = reg k1"
    using assms unfolding register_chip_def by meson
  then show ?thesis using 1 by simp
qed

lemma write_temp_reg_chip:
  assumes chip: "register_chip os fd sel ptr reg" and t: "t256_of T = Some t"
  shows "\<exists>s'. run_state (write_temp_reg os fd r T) s = (True, s') \<and>
    sel (kern s') = sel (kern s) \<and> reg (kern s') = (reg (kern s))(sel (kern s) :=
       (reg (kern s) (sel (kern s)))(r := [fst (t256_bytes t), snd (t256_bytes t)]))"
proof -
  obtain k' where "os_write os fd [r, fst (t256_bytes t), snd (t256_bytes t)] (kern s) = (Some 3, k')"
    "sel k' = sel (kern s)" "reg k' = (reg (kern s))(sel (kern s) :=
       (reg (kern s) (sel (kern s)))(r := [fst (t256_bytes t), snd (t256_bytes t)]))"
    using register_chip_store [OF chip, of r "fst (t256_bytes t)" "[snd (t256_bytes t)]" "kern s"]
    by auto
  then show ?thesis by (simp add: write_temp_reg_def t c_io_defs)
qed

lemma write_cfg_reg_chip:
  assumes chip: "register_chip os fd sel ptr reg"
  shows "\<exists>s'. run_state (write_cfg_reg os fd r c) s = (True, s') \<and>
    sel (kern s') = sel (kern s) \<and> reg (kern s') = (reg (kern s))(sel (kern s) :=
       (reg (kern s) (sel (kern s)))(r := [c]))"
proof -
  obtain k' where "os_write os fd [r, c] (kern s) = (Some 2, k')"
    "sel k' = sel (kern s)" "reg k' = (reg (kern s))(sel (kern s) := (reg (kern s) (sel (kern s)))(r := [c]))"
    using register_chip_store [OF chip, of r c "[]" "kern s"] by auto
  then show ?thesis by (simp add: write_cfg_reg_def c_io_defs)
qed

lemma read_temp_reg_chip:
  assumes chip: "register_chip os fd sel ptr reg" and r: "reg (kern s) (sel (kern s)) r = [hi, lo]"
  shows "\<exists>s'. run_state (read_temp_reg os fd r) s = (Some (temp_of (char_signed os) hi lo), s') \<and>
    sel (kern s') = sel (kern s) \<and> reg (kern s') = reg (kern s)"
proof -
  obtain k1 k2 where "os_write os fd [r] (kern s) = (Some 1, k1)"
    "os_read os fd 2 k1 = (Some [hi, lo], k2)" "sel k2 = sel (kern s)" "reg k2 = reg (kern s)"
    using register_chip_fetch [OF chip, of r "kern s" 2] r by auto
  then show ?thesis by (simp add: read_temp_reg_def c_io_defs)
qed

lemma read_cfg_reg_chip:
  assumes chip: "register_chip os fd sel ptr reg" and r: "reg (kern s) (sel (kern s)) r = [c]"
  shows "\<exists>s'. run_state (read_cfg_reg os fd r) s = (Some c, s') \<and>
    sel (kern s') = sel (kern s) \<and> reg (kern s') = reg (kern s)"
proof -
  obtain k1 k2 where "os_write os fd [r] (kern s) = (Some 1, k1)"
    "os_read os fd 1 k1 = (Some [c], k2)" "sel k2 = sel (kern s)" "reg k2 = reg (kern s)"
    using register_chip_fetch [OF chip, of r "kern s" 1] r by auto
  then show ?thesis by (simp add: read_cfg_reg_def c_io_defs)
qed

lemma access_ds75_write_chip:
  assumes chip: "register_chip os fd sel ptr reg"
    and t: "t256_of T_OS = Some t1" "t256_of T_HYST = Some t2"
  shows "\<exists>s'. run_state (access_ds75_details os fd addr (Some T_OS) (Some T_HYST) (Some cfg) (CHR ''w'')) s
      = ((0, Some T_OS, Some T_HYST, Some cfg), s') \<and>
    reg (kern s') = (reg (kern s))(0x48 + addr := (reg (kern s) (0x48 + addr))
      (3 := [fst (t256_bytes t1), snd (t256_bytes t1)],
       2 := [fst (t256_bytes t2), snd (t256_bytes t2)], 1 := [cfg]))"
proof -
  define s0 where "s0 = s\<lparr>trace := trace s @ [EvLock]\<rparr>"
  obtain k1 where k1: "os_ioctl os fd (0x48 + addr) (kern s) = (0, k1)" "sel k1 = 0x48 + addr"
    "reg k1 = reg (kern s)"
    by (rule register_chip_ioctl [OF chip])
  define s1 where "s1 = s0\<lparr>kern := k1, trace := trace s0 @ [EvIoctl fd (0x48 + addr)]\<rparr>"
  have s1: "kern s1 = k1" by (simp add: s1_def)
  obtain s2 where s2: "run_state (write_temp_reg os fd 3 T_OS) s1 = (True, s2)"
    "sel (kern s2) = sel k1" "reg (kern s2) = (reg k1)(sel k1 :=
       (reg k1 (sel k1))(3 := [fst (t256_bytes t1), snd (t256_bytes t1)]))"
    using write_temp_reg_chip [OF chip t(1), of 3 s1] s1 by auto
  obtain s3 where s3: "run_state (write_temp_reg os fd 2 T_HYST) s2 = (True, s3)"
    "sel (kern s3) = sel (kern s2)" "reg (kern s3) = (reg (kern s2))(sel (kern s2) :=
       (reg (kern s2) (sel (kern s2)))(2 := [fst (t256_bytes t2), snd (t256_bytes t2)]))"
    using write_temp_reg_chip [OF chip t(2), of 2 s2] by auto
  obtain s4 where s4: "run_state (write_cfg_reg os fd 1 cfg) s3 = (True, s4)"
    "sel (kern s4) = sel (kern s3)" "reg (kern s4) = (reg (kern s3))(sel (kern s3) :=
       (reg (kern s3) (sel (kern s3)))(1 := [cfg]))"
    using write_cfg_reg_chip [OF chip, of 1 cfg s3] by auto
  have "run_state (access_ds75_details os fd addr (Some T_OS) (Some T_HYST) (Some cfg) (CHR ''w'')) s
      = ((0, Some T_OS, Some T_HYST, Some cfg), s4\<lparr>trace := trace s4 @ [EvUnlock]\<rparr>)"
    using s2(1) s3(1) s4(1)
    by (simp add: access_ds75_details_def goto_RETURN_def c_ioctl_def c_event_def
        I2C_DS75_ADDR_BASE_def if_set_def k1(1) s1_def s0_def)
  moreover have "reg (kern s4) = (reg (kern s))(0x48 + addr := (reg (kern s) (0x48 + addr))
      (3 := [fst (t256_bytes t1), snd (t256_bytes t1)],
       2 := [fst (t256_bytes t2), snd (t256_bytes t2)], 1 := [cfg]))"
    by (simp add: s4 s3 s2 k1)
  ultimately show ?thesis by simp
qed

lemma access_ds75_read_chip:
  assumes chip: "register_chip os fd sel ptr reg"
    and r: "reg (kern s) (0x48 + addr) 3 = [h1, l1]" "reg (kern s) (0x48 + addr) 2 = [h2, l2]"
      "reg (kern s) (0x48 + addr) 1 = [c]"
  shows "fst (run_state (access_ds75_details os fd addr (Some x) (Some y) (Some z) (CHR ''r'')) s)
      = (0, Some (temp_of (char_signed os) h1 l1), Some (temp_of (char_signed os) h2 l2), Some c)"
proof -
  define s0 where "s0 = s\<lparr>trace := trace s @ [EvLock]\<rparr>"
  obtain k1 where k1: "os_ioctl os fd (0x48 + addr) (kern s) = (0, k1)" "sel k1 = 0x48 + addr"
    "reg k1 = reg (kern s)"
    by (rule register_chip_ioctl [OF chip])
  define s1 where "s1 = s0\<lparr>kern := k1, trace := trace s0 @ [EvIoctl fd (0x48 + addr)]\<rparr>"
  have s1: "kern s1 = k1" by (simp add: s1_def)
  obtain s2 where s2: "run_state (read_temp_reg os fd 3) s1 = (Some (temp_of (char_signed os) h1 l1), s2)"
    "sel (kern s2) = sel k1" "reg (kern s2) = reg k1"
    using read_temp_reg_chip [OF chip, of s1 3 h1 l1] r s1 k1 by auto
  obtain s3 where s3: "run_state (read_temp_reg os fd 2) s2 = (Some (temp_of (char_signed os) h2 l2), s3)"
    "sel (kern s3) = sel k1" "reg (kern s3) = reg k1"
    using read_temp_reg_chip [OF chip, of s2 2 h2 l2] r s2 k1 by auto
  obtain s4 where s4: "run_state (read_cfg_reg os fd 1) s3 = (Some c, s4)"
    using read_cfg_reg_chip [OF chip, of s3 1 c] r s3 k1 by auto
  show ?thesis
    using s2(1) s3(1) s4
    by (simp add: access_ds75_details_def goto_RETURN_def c_ioctl_def c_event_def
        I2C_DS75_ADDR_BASE_def if_want_def k1(1) s1_def s0_def)
qed

lemma t256_bytes_unsigned:
  assumes "0 \<le> k" "k < 2 ^ 15"
  shows "dval (temp_of False (fst (t256_bytes k)) (snd (t256_bytes k))) = of_int k / 256"
proof -
  have "sint (fst (t256_bytes k)) = k div 256"
  proof -
    have "- 128 \<le> k div 256" using assms(1) by simp
    moreover have "k div 256 < 128" using assms(2) by simp
    ultimately show ?thesis
      by (simp add: t256_bytes_def drop_bit_eq_div signed_take_bit_int_eq_self sint_sbintrunc')
  qed
  then have "uint (fst (t256_bytes k)) < 128"
    using assms sint_uint_u8 [of "fst (t256_bytes k)"] uint_range_size [of "fst (t256_bytes k)"]
    by (simp add: word_size pos_imp_zdiv_nonneg_iff split: if_splits)
  then show ?thesis
    using t256_bytes_decode [of k] assms by (simp add: temp_of_ds_temp)
qed

text \<open>On a chip with registers, and with an unsigned plain \<open>char\<close>, thresholds of
  0 to 127.996 degrees and a configuration byte that \<open>access_ds75_details\<close> has written are what it
  reads back from the same chip afterwards.\<close>

theorem ds75_details_roundtrip:
  assumes chip: "register_chip os fd sel ptr reg" and uns: "\<not> char_signed os"
    and k: "0 \<le> k1" "k1 < 2 ^ 15" "0 \<le> k2" "k2 < 2 ^ 15"
  shows "case run_state (access_ds75_details os fd addr (Some (Fin (of_int k1 / 256)))
             (Some (Fin (of_int k2 / 256))) (Some cfg) (CHR ''w'')) s of ((st, _, _, _), s') \<Rightarrow> st = 0 \<and>
     (\<exists>T1 T2. fst (run_state (access_ds75_details os fd addr (Some x) (Some y) (Some z) (CHR ''r'')) s')
         = (0, Some T1, Some T2, Some cfg) \<and> dval T1 = of_int k1 / 256 \<and> dval T2 = of_int k2 / 256)"
proof -
  have t: "t256_of (Fin (of_int k1 / 256)) = Some k1" "t256_of (Fin (of_int k2 / 256)) = Some k2"
    using t256_of_eq [of k1] t256_of_eq [of k2] k by auto
  obtain s' where w: "run_state (access_ds75_details os fd addr (Some (Fin (of_int k1 / 256)))
             (Some (Fin (of_int k2 / 256))) (Some cfg) (CHR ''w'')) s
      = ((0, Some (Fin (of_int k1 / 256)), Some (Fin (of_int k2 / 256)), Some cfg), s')"
    "reg (kern s') = (reg (kern s))(0x48 + addr := (reg (kern s) (0x48 + addr))
      (3 := [fst (t256_bytes k1), snd (t256_bytes k1)],
       2 := [fst (t256_bytes k2), snd (t256_bytes k2)], 1 := [cfg]))"
    using access_ds75_write_chip [OF chip t] by blast
  have "fst (run_state (access_ds75_details os fd addr (Some x) (Some y) (Some z) (CHR ''r'')) s')
      = (0, Some (temp_of False (fst (t256_bytes k1)) (snd (t256_bytes k1))),
          Some (temp_of False (fst (t256_bytes k2)) (snd (t256_bytes k2))), Some cfg)"
    using access_ds75_read_chip [OF chip, of s' addr] uns w(2) by simp
  then show ?thesis
    using w(1) t256_bytes_unsigned k by simp
qed

theorem ds75_details_roundtrip_witness:
  "case run_state (access_ds75_details (board_os False) 3 5 (Some (Fin (of_int 7680 / 256)))
      (Some (Fin (of_int 6400 / 256))) (Some 0x60) (CHR ''w'')) world0 of ((st, _, _, _), s') \<Rightarrow> st = 0 \<and>
     (\<exists>T1 T2. fst (run_state (access_ds75_details (board_os False) 3 5 (Some NaN) (Some NaN) (Some 0)
         (CHR ''r'')) s') = (0, Some T1, Some T2, Some 0x60) \<and>
       dval T1 = of_int 7680 / 256 \<and> dval T2 = of_int 6400 / 256)"
proof -
  have "register_chip (board_os False) 3 slave pointer registers"
    by (auto simp: register_chip_def board_os_def board_write_def split: list.split)
  then show ?thesis
    by (rule ds75_details_roundtrip) (simp_all add: board_os_def)
qed

end
