(* ===== verification/RecGbl.thy ===== *)
theory RecGbl
  imports DoubleFP
begin

text \<open>
  The fields every EPICS record has (dbCommon) and the routines record support shares
  (ioc/db/recGbl.c, and the link access of ioc/db/dbLink.c that record support calls). Record
  types extend \<open>dbCommon\<close>, so each routine is polymorphic in the rest of the record. What a routine
  does outside its record (other records, Channel Access, the clock, waiting clients) goes through
  an environment that is a parameter; events posted to monitors are logged in \<open>posts\<close>.
\<close>

section \<open>Alarm constants\<close>

text \<open>alarm.h\<close>

abbreviation (input) NO_ALARM :: enum16 where "NO_ALARM \<equiv> 0"
abbreviation (input) MINOR_ALARM :: enum16 where "MINOR_ALARM \<equiv> 1"
abbreviation (input) MAJOR_ALARM :: enum16 where "MAJOR_ALARM \<equiv> 2"
abbreviation (input) INVALID_ALARM :: enum16 where "INVALID_ALARM \<equiv> 3"

abbreviation (input) HIHI_ALARM :: enum16 where "HIHI_ALARM \<equiv> 3"
abbreviation (input) HIGH_ALARM :: enum16 where "HIGH_ALARM \<equiv> 4"
abbreviation (input) LOLO_ALARM :: enum16 where "LOLO_ALARM \<equiv> 5"
abbreviation (input) LOW_ALARM :: enum16 where "LOW_ALARM \<equiv> 6"
abbreviation (input) STATE_ALARM :: enum16 where "STATE_ALARM \<equiv> 7"
abbreviation (input) COS_ALARM :: enum16 where "COS_ALARM \<equiv> 8"
abbreviation (input) LINK_ALARM :: enum16 where "LINK_ALARM \<equiv> 14"
abbreviation (input) SCAN_ALARM :: enum16 where "SCAN_ALARM \<equiv> 13"
abbreviation (input) SOFT_ALARM :: enum16 where "SOFT_ALARM \<equiv> 15"
abbreviation (input) UDF_ALARM :: enum16 where "UDF_ALARM \<equiv> 17"
abbreviation (input) DISABLE_ALARM :: enum16 where "DISABLE_ALARM \<equiv> 18"
abbreviation (input) SIMM_ALARM :: enum16 where "SIMM_ALARM \<equiv> 19"

text \<open>caeventmask.h\<close>

abbreviation (input) DBE_VALUE :: u16 where "DBE_VALUE \<equiv> 1"
abbreviation (input) DBE_LOG :: u16 where "DBE_LOG \<equiv> 2"
abbreviation (input) DBE_ALARM :: u16 where "DBE_ALARM \<equiv> 4"

section \<open>dbCommon\<close>

text \<open>
  A link field: a constant with its text (\<open>None\<close> for a null \<open>constantStr\<close>), or a link to a process
  variable, known to the environment by a number, with its option mask.
\<close>

datatype link = is_CONSTANT: CONSTANT "string option" | PV_LINK nat u16

type_synonym time_stamp = "u32 \<times> u32"

record dbCommon =
  rec_name :: string
  stat :: enum16
  sevr :: enum16
  nsta :: enum16
  nsev :: enum16
  acks :: enum16
  ackt :: enum16
  pact :: u8
  lcnt :: u8
  sdis :: link
  disa :: "16 word"
  disv :: "16 word"
  diss :: enum16
  putf :: u8
  rpro :: u8
  udf :: u8
  udfs :: enum16
  tse :: "16 word"
  tsel :: link
  rtime :: time_stamp
  flnk :: link
  ppn :: bool
  dpvt :: "nat option"
  posts :: "(string \<times> u16) list"

text \<open>
  The environment. \<open>get_dbl\<close> and \<open>get_int\<close> read a process variable into a destination that held
  the given value: a status, the destination's value, and the alarm to inherit on success. \<open>bpt_to_eng\<close> and \<open>bpt_to_raw\<close> are the breakpoint table conversions: new value,
  table pointer and last breakpoint. \<open>c_int\<close> and \<open>c_long\<close> are the platform's
  casts of a double to \<open>int\<close> and \<open>long\<close> (undefined in C when out of range), and \<open>oob_stat\<close> is what
  memory holds outside a table of status codes. \<open>event_time\<close> is \<open>epicsTimeGetEvent\<close>, and the \<open>parse\<close>
  functions are \<open>epicsParseUInt16\<close>, \<open>epicsParseUInt32\<close> and \<open>epicsParseFloat64\<close>.
\<close>

record 'w rec_env =
  get_dbl :: "nat \<Rightarrow> double \<Rightarrow> 'w \<Rightarrow> (int \<times> double \<times> (enum16 \<times> enum16) option) \<times> 'w"
  get_int :: "nat \<Rightarrow> u32 \<Rightarrow> 'w \<Rightarrow> (int \<times> u32 \<times> (enum16 \<times> enum16) option) \<times> 'w"
  put_dbl :: "nat \<Rightarrow> double \<Rightarrow> 'w \<Rightarrow> int \<times> 'w"
  scan_fwd :: "nat \<Rightarrow> 'w \<Rightarrow> 'w"
  notify_done :: "'w \<Rightarrow> 'w"
  scan_once :: "string \<Rightarrow> 'w \<Rightarrow> 'w"
  event_time :: "16 word \<Rightarrow> 'w \<Rightarrow> time_stamp option \<times> 'w"
  link_time :: "nat \<Rightarrow> 'w \<Rightarrow> time_stamp option \<times> 'w"
  time_diff :: "time_stamp \<Rightarrow> time_stamp \<Rightarrow> double"
  parse_u16 :: "string \<Rightarrow> u16 option"
  parse_u32 :: "string \<Rightarrow> u32 option"
  parse_dbl :: "string \<Rightarrow> double option"
  c_int :: "double \<Rightarrow> int"
  c_long :: "double \<Rightarrow> int"
  oob_stat :: "int \<Rightarrow> enum16"
  alarm_hook :: "(enum16 \<Rightarrow> enum16 \<Rightarrow> 'w \<Rightarrow> 'w) option"
  bpt_to_eng :: "double \<Rightarrow> enum16 \<Rightarrow> bool \<Rightarrow> nat \<times> int \<Rightarrow> int \<times> double \<times> (nat \<times> int)"
  bpt_to_raw :: "double \<Rightarrow> enum16 \<Rightarrow> bool \<Rightarrow> nat \<times> int \<Rightarrow> int \<times> double \<times> (nat \<times> int)"

section \<open>Operations\<close>

definition db_post_events :: "string \<Rightarrow> u16 \<Rightarrow> ('a dbCommon_scheme) \<Rightarrow> 'a dbCommon_scheme" where
  "db_post_events fld msk prec = prec\<lparr>posts := posts prec @ [(fld, msk)]\<rparr>"

definition recGblSetSevr ::
  "'a dbCommon_scheme \<Rightarrow> enum16 \<Rightarrow> enum16 \<Rightarrow> bool \<times> 'a dbCommon_scheme" where
  "recGblSetSevr prec new_stat new_sevr =
     (if nsev prec < new_sevr then (True, prec\<lparr>nsta := new_stat, nsev := new_sevr\<rparr>)
      else (False, prec))"

definition recGblResetAlarms ::
  "'w rec_env \<Rightarrow> 'a dbCommon_scheme \<Rightarrow> 'w \<Rightarrow> u16 \<times> 'a dbCommon_scheme \<times> 'w" where
  "recGblResetAlarms env pdbc w =
     (let prev_stat = stat pdbc;
          prev_sevr = sevr pdbc;
          new_stat = nsta pdbc;
          new_sevr = (if nsev pdbc > INVALID_ALARM then INVALID_ALARM else nsev pdbc);
          pdbc = pdbc\<lparr>stat := new_stat, sevr := new_sevr, nsta := 0, nsev := 0\<rparr>;
          stat_mask = (if prev_sevr \<noteq> new_sevr then DBE_ALARM else 0);
          pdbc = (if prev_sevr \<noteq> new_sevr then db_post_events ''SEVR'' DBE_VALUE pdbc else pdbc);
          stat_mask = (if prev_stat \<noteq> new_stat then stat_mask OR DBE_VALUE else stat_mask)
      in if stat_mask \<noteq> 0
         then let pdbc = db_post_events ''STAT'' stat_mask pdbc;
                  pdbc = (if ackt pdbc = 0 \<or> new_sevr \<ge> acks pdbc
                          then db_post_events ''ACKS'' DBE_VALUE (pdbc\<lparr>acks := new_sevr\<rparr>) else pdbc);
                  w = (case alarm_hook env of None \<Rightarrow> w | Some hook \<Rightarrow> hook prev_sevr prev_stat w)
              in (DBE_ALARM, pdbc, w)
         else (0, pdbc, w))"

definition dbScanFwdLink :: "'w rec_env \<Rightarrow> link \<Rightarrow> 'w \<Rightarrow> 'w" where
  "dbScanFwdLink env plink w = (case plink of CONSTANT _ \<Rightarrow> w | PV_LINK n _ \<Rightarrow> scan_fwd env n w)"

definition recGblFwdLink ::
  "'w rec_env \<Rightarrow> 'a dbCommon_scheme \<Rightarrow> 'w \<Rightarrow> 'a dbCommon_scheme \<times> 'w" where
  "recGblFwdLink env pdbc w =
     (let w = dbScanFwdLink env (flnk pdbc) w;
          w = (if ppn pdbc then notify_done env w else w);
          (pdbc, w) = (if rpro pdbc \<noteq> 0
             then (pdbc\<lparr>rpro := FALSE\<rparr>, scan_once env (rec_name pdbc) w) else (pdbc, w))
      in (pdbc\<lparr>putf := FALSE\<rparr>, w))"

text \<open>\<open>inherit_severity\<close> and \<open>dbGetLink\<close>, for a value of type double and for an integer: a constant
  link leaves the destination alone, a link to a process variable may raise the record's alarm.\<close>

definition inherit_severity ::
  "u16 \<Rightarrow> (enum16 \<times> enum16) option \<Rightarrow> 'a dbCommon_scheme \<Rightarrow> 'a dbCommon_scheme" where
  "inherit_severity pvlMask alarm pdest =
     (case alarm of None \<Rightarrow> pdest | Some (st, sv) \<Rightarrow>
        let mode = pvlMask AND 0x3
        in if mode = 0 then pdest
           else if mode = 2 \<and> sv < INVALID_ALARM then pdest
           else if mode = 3 then snd (recGblSetSevr pdest st sv)
           else snd (recGblSetSevr pdest LINK_ALARM sv))"

definition dbGetLink_dbl ::
  "'w rec_env \<Rightarrow> link \<Rightarrow> double \<Rightarrow> 'a dbCommon_scheme \<Rightarrow> 'w
     \<Rightarrow> int \<times> double \<times> 'a dbCommon_scheme \<times> 'w" where
  "dbGetLink_dbl env plink old prec w = (case plink of
     CONSTANT _ \<Rightarrow> (0, old, prec, w)
   | PV_LINK n msk \<Rightarrow> (case get_dbl env n old w of ((status, v, alarm), w) \<Rightarrow>
       if status \<noteq> 0 then (status, v, snd (recGblSetSevr prec LINK_ALARM INVALID_ALARM), w)
       else (0, v, inherit_severity msk alarm prec, w)))"

definition dbGetLink_int ::
  "'w rec_env \<Rightarrow> link \<Rightarrow> u32 \<Rightarrow> 'a dbCommon_scheme \<Rightarrow> 'w
     \<Rightarrow> int \<times> u32 \<times> 'a dbCommon_scheme \<times> 'w" where
  "dbGetLink_int env plink old prec w = (case plink of
     CONSTANT _ \<Rightarrow> (0, old, prec, w)
   | PV_LINK n msk \<Rightarrow> (case get_int env n old w of ((status, v, alarm), w) \<Rightarrow>
       if status \<noteq> 0 then (status, v, snd (recGblSetSevr prec LINK_ALARM INVALID_ALARM), w)
       else (0, v, inherit_severity msk alarm prec, w)))"

definition dbPutLink_dbl ::
  "'w rec_env \<Rightarrow> link \<Rightarrow> double \<Rightarrow> 'a dbCommon_scheme \<Rightarrow> 'w \<Rightarrow> int \<times> 'a dbCommon_scheme \<times> 'w" where
  "dbPutLink_dbl env plink v prec w = (case plink of
     CONSTANT _ \<Rightarrow> (0, prec, w)
   | PV_LINK n _ \<Rightarrow> (case put_dbl env n v w of (status, w) \<Rightarrow>
       (status, if status \<noteq> 0 then snd (recGblSetSevr prec LINK_ALARM INVALID_ALARM) else prec, w)))"

text \<open>\<open>dbLoadLink\<close> on a constant: no text is an error, the empty text is 0; \<open>None\<close> is any failure,
  for which \<open>recGblInitConstantLink\<close> returns FALSE.\<close>

definition dbLoadLink :: "(string \<Rightarrow> 'v option) \<Rightarrow> 'v \<Rightarrow> link \<Rightarrow> 'v option" where
  "dbLoadLink parse zero plink = (case plink of
     CONSTANT (Some txt) \<Rightarrow> (if txt = [] then Some zero else parse txt)
   | _ \<Rightarrow> None)"

text \<open>The value of the destination after \<open>recGblInitConstantLink\<close>.\<close>

definition recGblInitConstantLink :: "(string \<Rightarrow> 'v option) \<Rightarrow> 'v \<Rightarrow> link \<Rightarrow> 'v \<Rightarrow> bool \<times> 'v" where
  "recGblInitConstantLink parse zero plink old =
     (case dbLoadLink parse zero plink of None \<Rightarrow> (False, old) | Some v \<Rightarrow> (True, v))"

definition recGblGetTimeStamp ::
  "'w rec_env \<Rightarrow> 'a dbCommon_scheme \<Rightarrow> 'w \<Rightarrow> 'a dbCommon_scheme \<times> 'w" where
  "recGblGetTimeStamp env prec w =
     (let by_event = (\<lambda>prec w. if tse prec \<noteq> - 2
            then (case event_time env (tse prec) w of
                    (Some t, w) \<Rightarrow> (prec\<lparr>rtime := t\<rparr>, w) | (None, w) \<Rightarrow> (prec, w))
            else (prec, w))
      in case tsel prec of
           CONSTANT _ \<Rightarrow> by_event prec w
         | PV_LINK n msk \<Rightarrow>
             if msk AND 0x800 \<noteq> 0
             then (case link_time env n w of
                     (Some t, w) \<Rightarrow> (prec\<lparr>rtime := t\<rparr>, w) | (None, w) \<Rightarrow> (prec, w))
             else (case dbGetLink_int env (tsel prec) (ucast (tse prec)) prec w of
                     (_, v, prec, w) \<Rightarrow> by_event (prec\<lparr>tse := ucast v\<rparr>) w))"

definition recGblCheckDeadband ::
  "double \<Rightarrow> double \<Rightarrow> double \<Rightarrow> u16 \<Rightarrow> u16 \<Rightarrow> double \<times> u16" where
  "recGblCheckDeadband oldval newval deadband monitor_mask add_mask =
     (let delta =
        (if dfinite newval \<and> dfinite oldval
         then (let d = dsub oldval newval in if dlt d (Fin 0) then dneg d else d)
         else if (\<not> isnan newval) \<noteq> (\<not> isnan oldval) \<or> (\<not> isinf newval) \<noteq> (\<not> isinf oldval)
         then Infinity False
         else if isinf newval \<and> \<not> deq newval oldval then Infinity False
         else Fin 0)
      in if dlt deadband delta then (newval, monitor_mask OR add_mask) else (oldval, monitor_mask))"

section \<open>Field types and ranges\<close>

datatype dbf_type = DBF_STRING | DBF_CHAR | DBF_UCHAR | DBF_SHORT | DBF_USHORT | DBF_LONG
  | DBF_ULONG | DBF_FLOAT | DBF_DOUBLE | DBF_ENUM | DBF_MENU | DBF_DEVICE | DBF_INLINK
  | DBF_OUTLINK | DBF_FWDLINK | DBF_NOACCESS

text \<open>A field of a record: its name stands for its index, with its type and special processing.\<close>

record dbAddr =
  field :: string
  field_type :: dbf_type
  special_type :: nat

abbreviation (input) SPC_LINCONV :: nat where "SPC_LINCONV \<equiv> 102"

abbreviation (input) DB_UNITS_SIZE :: nat where "DB_UNITS_SIZE \<equiv> 16"

text \<open>\<open>strncpy\<close>: at most \<open>n\<close> characters, padded with NULs to \<open>n\<close>.\<close>

definition c_strncpy :: "nat \<Rightarrow> string \<Rightarrow> string \<Rightarrow> string" where
  "c_strncpy n src buf = take n (src @ replicate n (CHR 0x00)) @ drop n buf"

definition recGblGetPrec :: "dbAddr \<Rightarrow> int \<Rightarrow> int" where
  "recGblGetPrec paddr precision =
     (if field_type paddr \<in> {DBF_CHAR, DBF_UCHAR, DBF_SHORT, DBF_USHORT, DBF_LONG, DBF_ULONG} then 0
      else if field_type paddr \<in> {DBF_FLOAT, DBF_DOUBLE}
        then (if precision < 0 \<or> precision > 15 then 15 else precision)
      else precision)"

text \<open>\<open>CHAR_MAX\<close> and \<open>CHAR_MIN\<close> depend on the signedness of plain \<open>char\<close>.\<close>

definition getMaxRangeValues :: "bool \<Rightarrow> dbf_type \<Rightarrow> double \<times> double \<Rightarrow> double \<times> double" where
  "getMaxRangeValues sgnd ft old = (case ft of
     DBF_CHAR \<Rightarrow> if sgnd then (Fin 127, Fin (- 128)) else (Fin 255, Fin 0)
   | DBF_UCHAR \<Rightarrow> (Fin 255, Fin 0)
   | DBF_SHORT \<Rightarrow> (Fin 32767, Fin (- 32768))
   | DBF_ENUM \<Rightarrow> (Fin 65535, Fin 0)
   | DBF_USHORT \<Rightarrow> (Fin 65535, Fin 0)
   | DBF_LONG \<Rightarrow> (Fin 2147483647, Fin (- 2147483648))
   | DBF_ULONG \<Rightarrow> (Fin 4294967295, Fin 0)
   | DBF_FLOAT \<Rightarrow> (dround False (10 ^ 30), dround False (- (10 ^ 30)))
   | DBF_DOUBLE \<Rightarrow> (dround False (10 ^ 300), dround False (- (10 ^ 300)))
   | _ \<Rightarrow> old)"

text \<open>Upper and lower limits; \<open>pgd\<close> and \<open>pcd\<close> are the old contents of the result.\<close>

definition recGblGetGraphicDouble :: "bool \<Rightarrow> dbAddr \<Rightarrow> double \<times> double \<Rightarrow> double \<times> double" where
  "recGblGetGraphicDouble sgnd paddr pgd = getMaxRangeValues sgnd (field_type paddr) pgd"

definition recGblGetControlDouble :: "bool \<Rightarrow> dbAddr \<Rightarrow> double \<times> double \<Rightarrow> double \<times> double" where
  "recGblGetControlDouble sgnd paddr pcd = getMaxRangeValues sgnd (field_type paddr) pcd"

text \<open>The four alarm limits: upper alarm, upper warning, lower warning, lower alarm.\<close>

type_synonym alarm_limits = "double \<times> double \<times> double \<times> double"

definition recGblGetAlarmDouble :: "alarm_limits" where
  "recGblGetAlarmDouble = (NaN, NaN, NaN, NaN)"

section \<open>Acknowledging alarms and processing a record\<close>

text \<open>\<open>putAckt\<close> and \<open>putAcks\<close> of dbAccess.c: writes to ACKT and ACKS by an alarm handler. A post
  without a field is written with the empty name.\<close>

definition putAckt :: "u16 \<Rightarrow> 'a dbCommon_scheme \<Rightarrow> int \<times> 'a dbCommon_scheme" where
  "putAckt ptrans precord =
     (if ptrans = ackt precord then (0, precord)
      else let precord = db_post_events ''ACKT'' (DBE_VALUE OR DBE_ALARM) (precord\<lparr>ackt := ptrans\<rparr>);
               precord = (if ackt precord = 0 \<and> acks precord > sevr precord
                          then db_post_events ''ACKS'' (DBE_VALUE OR DBE_ALARM)
                                 (precord\<lparr>acks := sevr precord\<rparr>)
                          else precord)
           in (0, db_post_events [] DBE_ALARM precord))"

definition putAcks :: "u16 \<Rightarrow> 'a dbCommon_scheme \<Rightarrow> int \<times> 'a dbCommon_scheme" where
  "putAcks sev precord =
     (if sev \<ge> acks precord
      then (0, db_post_events [] DBE_ALARM
                 (db_post_events ''ACKS'' (DBE_VALUE OR DBE_ALARM) (precord\<lparr>acks := 0\<rparr>)))
      else (0, precord))"

abbreviation (input) MAX_LOCK :: u8 where "MAX_LOCK \<equiv> 10"

definition S_db_noRSET :: int where "S_db_noRSET = M_dbAccess + 31"

text \<open>
  \<open>dbProcess\<close>, with no breakpoint set in the lock set and the trace output left out. The record
  support's \<open>process\<close> is an argument, \<open>None\<close> for a record type without one.
\<close>

definition dbProcess ::
  "'w rec_env \<Rightarrow> ('a dbCommon_scheme \<Rightarrow> 'w \<Rightarrow> int \<times> 'a dbCommon_scheme \<times> 'w) option
     \<Rightarrow> 'a dbCommon_scheme \<Rightarrow> 'w \<Rightarrow> int \<times> 'a dbCommon_scheme \<times> 'w" where
  "dbProcess env rset_process precord w =
     (let completion = (\<lambda>(status, precord, w).
            (status, precord, if ppn precord then notify_done env w else w))
      in if pact precord \<noteq> 0
         then if stat precord = SCAN_ALARM then (0, precord, w)
              else let count = lcnt precord; precord = precord\<lparr>lcnt := lcnt precord + 1\<rparr>
                   in if count < MAX_LOCK \<or> sevr precord \<ge> INVALID_ALARM then (0, precord, w)
                      else let precord = snd (recGblSetSevr precord SCAN_ALARM INVALID_ALARM);
                               (monitor_mask, precord, w) = recGblResetAlarms env precord w;
                               monitor_mask = monitor_mask OR (DBE_VALUE OR DBE_LOG)
                           in (0, db_post_events ''VAL'' monitor_mask precord, w)
         else let precord = precord\<lparr>lcnt := 0\<rparr>;
                  (status, v, precord, w) =
                    dbGetLink_int env (sdis precord) (ucast (disa precord)) precord w;
                  precord = precord\<lparr>disa := ucast v\<rparr>
              in if disa precord = disv precord
                 then let precord = precord\<lparr>rpro := FALSE, putf := FALSE\<rparr>
                      in if stat precord = DISABLE_ALARM then completion (status, precord, w)
                         else let precord = precord\<lparr>sevr := diss precord, stat := DISABLE_ALARM,
                                                   nsev := 0, nsta := 0\<rparr>;
                                  precord = db_post_events ''STAT'' DBE_VALUE precord;
                                  precord = db_post_events ''SEVR'' DBE_VALUE precord;
                                  precord = db_post_events ''VAL'' (DBE_VALUE OR DBE_ALARM) precord
                              in completion (status, precord, w)
                 else (case rset_process of
                         None \<Rightarrow> completion (S_db_noRSET, precord\<lparr>pact := 1\<rparr>, w)
                       | Some process \<Rightarrow> process precord w))"

section \<open>Severity maximisation\<close>

text \<open>A list of alarm requests made of a record, and the worst of them: the first one with the
  greatest severity.\<close>

definition raise_all :: "(enum16 \<times> enum16) list \<Rightarrow> 'a dbCommon_scheme \<Rightarrow> 'a dbCommon_scheme" where
  "raise_all reqs prec = fold (\<lambda>(st, sv) p. snd (recGblSetSevr p st sv)) reqs prec"

fun worst :: "(enum16 \<times> enum16) list \<Rightarrow> enum16 \<times> enum16" where
  "worst [] = (0, 0)"
| "worst ((st, sv) # reqs) = (if sv \<noteq> 0 \<and> snd (worst reqs) \<le> sv then (st, sv) else worst reqs)"

lemma raise_all_simps [simp]:
  "raise_all [] prec = prec"
  "raise_all ((st, sv) # reqs) prec = raise_all reqs (snd (recGblSetSevr prec st sv))"
  by (simp_all add: raise_all_def)

lemma raise_all_eq:
  "raise_all reqs prec =
     (if nsev prec < snd (worst reqs)
      then prec\<lparr>nsta := fst (worst reqs), nsev := snd (worst reqs)\<rparr> else prec)"
proof (induction reqs arbitrary: prec)
  case (Cons r reqs)
  show ?case
    by (cases r) (auto simp: Cons.IH recGblSetSevr_def not_less not_le word_neq_0_conv)
qed simp

lemma fold_max: "fold max xs (m :: 'a :: linorder) = max m (fold max xs n)" if "n \<le> m"
proof -
  have gen: "fold max xs (max m n) = max m (fold max xs n)" for xs
    by (induction xs arbitrary: m n) (simp_all add: max.left_commute max.assoc)
  show ?thesis using gen [of xs] that by (simp add: max_absorb1)
qed

lemma worst_max: "snd (worst reqs) = fold max (map snd reqs) 0"
proof (induction reqs rule: worst.induct)
  case (2 st sv reqs)
  have "fold max (map snd reqs) sv = max sv (fold max (map snd reqs) 0)"
    by (rule fold_max) simp
  moreover have "max sv 0 = sv" by (simp add: max_absorb1)
  ultimately show ?case
    using 2 by (cases "snd (worst reqs) \<le> sv") (auto simp: max_absorb1 max_absorb2 not_le)
qed simp

text \<open>The severities of one processing cycle are collected by \<open>recGblSetSevr\<close> and committed by
  \<open>recGblResetAlarms\<close>.\<close>

definition alarm_cycle ::
  "'w rec_env \<Rightarrow> (enum16 \<times> enum16) list \<Rightarrow> 'a dbCommon_scheme \<times> 'w \<Rightarrow> 'a dbCommon_scheme \<times> 'w" where
  "alarm_cycle env reqs = (\<lambda>(prec, w). snd (recGblResetAlarms env (raise_all reqs prec) w))"

lemma reset_alarms_fields [simp]:
  "stat (fst (snd (recGblResetAlarms env prec w))) = nsta prec"
  "sevr (fst (snd (recGblResetAlarms env prec w))) = min 3 (nsev prec)"
  "nsta (fst (snd (recGblResetAlarms env prec w))) = 0"
  "nsev (fst (snd (recGblResetAlarms env prec w))) = 0"
  "ackt (fst (snd (recGblResetAlarms env prec w))) = ackt prec"
  "acks (fst (snd (recGblResetAlarms env prec w))) =
     (if (sevr prec \<noteq> min 3 (nsev prec) \<or> stat prec \<noteq> nsta prec) \<and>
         (ackt prec = 0 \<or> acks prec \<le> min 3 (nsev prec))
      then min 3 (nsev prec) else acks prec)"
  by (auto simp: recGblResetAlarms_def db_post_events_def Let_def min_def)


lemma alarm_cycle_fields:
  "nsev prec = 0 \<Longrightarrow> nsta prec = 0 \<Longrightarrow>
     stat (fst (alarm_cycle env reqs (prec, w))) = fst (worst reqs) \<and>
     sevr (fst (alarm_cycle env reqs (prec, w))) = min 3 (snd (worst reqs)) \<and>
     nsta (fst (alarm_cycle env reqs (prec, w))) = 0 \<and>
     nsev (fst (alarm_cycle env reqs (prec, w))) = 0 \<and>
     ackt (fst (alarm_cycle env reqs (prec, w))) = ackt prec"
  by (induction reqs rule: worst.induct) (auto simp: alarm_cycle_def raise_all_eq word_neq_0_conv)

text \<open>C3: Over one processing cycle, the committed STAT and SEVR are those of the first alarm request
  with the greatest severity (severities above INVALID are committed as INVALID), whatever the
  order and number of requests, and no pending alarm is left behind.\<close>

theorem alarm_maximize:
  "(let prec' = fst (alarm_cycle env reqs (prec\<lparr>nsta := 0, nsev := 0\<rparr>, w))
    in (stat prec', sevr prec') = (fst (worst reqs), min 3 (snd (worst reqs)))
       \<and> nsta prec' = 0 \<and> nsev prec' = 0
       \<and> snd (worst reqs) = fold max (map snd reqs) 0)"
  using alarm_cycle_fields [of "prec\<lparr>nsta := 0, nsev := 0\<rparr>" env reqs w]
  by (simp add: Let_def worst_max)

lemma latch_max: "s \<le> a \<Longrightarrow> (if (s \<noteq> m \<or> b) \<and> a \<le> m then m else a) = max m (a :: enum16)"
  by (auto simp: max_def)

text \<open>C4: With ACKT set, transient alarms are latched until acknowledged: starting from a record whose
  current severity is not acknowledged yet, after any number of processing cycles ACKS is the
  greatest severity reached in any of them (or the earlier ACKS when that is greater), and a later
  acknowledgement resets it exactly when its severity is at least that.\<close>

theorem transient_alarms_latched:
  assumes "ackt prec \<noteq> 0" "sevr prec \<le> acks prec" "nsta prec = 0" "nsev prec = 0"
  shows "(let prec' = fst (fold (alarm_cycle env) cycles (prec, w));
              latched = fold max (map (\<lambda>reqs. min 3 (snd (worst reqs))) cycles) (acks prec)
          in acks prec' = latched \<and> sevr prec' \<le> latched
             \<and> acks (snd (putAcks sev prec')) = (if sev < latched then latched else 0))"
proof -
  have "acks (fst (fold (alarm_cycle env) cycles (prec, w)))
          = fold max (map (\<lambda>reqs. min 3 (snd (worst reqs))) cycles) (acks prec)
        \<and> sevr (fst (fold (alarm_cycle env) cycles (prec, w)))
          \<le> acks (fst (fold (alarm_cycle env) cycles (prec, w)))"
    using assms
  proof (induction cycles arbitrary: prec w)
    case (Cons reqs cycles)
    obtain p1 w1 where p1: "alarm_cycle env reqs (prec, w) = (p1, w1)" by fastforce
    then have p1': "fst (snd (recGblResetAlarms env (raise_all reqs prec) w)) = p1"
      by (simp add: alarm_cycle_def)
    have f: "stat p1 = fst (worst reqs)" "sevr p1 = min 3 (snd (worst reqs))" "nsta p1 = 0"
        "nsev p1 = 0" "ackt p1 = ackt prec"
      using alarm_cycle_fields [OF Cons.prems(4,3), of env reqs w] p1 by simp_all
    have n: "nsta (raise_all reqs prec) = fst (worst reqs)"
        "nsev (raise_all reqs prec) = snd (worst reqs)" "ackt (raise_all reqs prec) = ackt prec"
        "acks (raise_all reqs prec) = acks prec" "sevr (raise_all reqs prec) = sevr prec"
      using Cons.prems by (induction reqs rule: worst.induct) (auto simp: raise_all_eq word_neq_0_conv)
    have "acks p1 = (if (sevr prec \<noteq> min 3 (snd (worst reqs)) \<or>
             stat (raise_all reqs prec) \<noteq> fst (worst reqs)) \<and> acks prec \<le> min 3 (snd (worst reqs))
           then min 3 (snd (worst reqs)) else acks prec)"
      using reset_alarms_fields(6) [of env "raise_all reqs prec" w] Cons.prems(1) p1'
      by (auto simp: n)
    then have a: "acks p1 = max (min 3 (snd (worst reqs))) (acks prec)"
      by (rule trans [OF _ latch_max [OF Cons.prems(2)]])
    show ?case
      using Cons.IH [of p1 w1] f Cons.prems a p1 by auto
  qed simp
  then show ?thesis
    by (auto simp: Let_def putAcks_def db_post_events_def)
qed


text \<open>A record and an environment for concrete inputs.\<close>

definition rec0 :: dbCommon where
  "rec0 = \<lparr>rec_name = ''R'', stat = 17, sevr = 3, nsta = 0, nsev = 0, acks = 3, ackt = 1, pact = 0,
     lcnt = 0, sdis = CONSTANT None, disa = 0, disv = 1, diss = 0, putf = 0, rpro = 0, udf = 1,
     udfs = 3, tse = 0, tsel = CONSTANT None, rtime = (0, 0), flnk = CONSTANT None, ppn = False,
     dpvt = None, posts = []\<rparr>"

definition env0 :: "nat rec_env" where
  "env0 = \<lparr>get_dbl = (\<lambda>n old w. ((0, Fin (rat_of_nat n), None), w)),
     get_int = (\<lambda>n old w. ((0, of_nat n, None), w)), put_dbl = (\<lambda>n v w. (0, w)),
     scan_fwd = (\<lambda>n w. w + 1), notify_done = (\<lambda>w. w), scan_once = (\<lambda>n w. w),
     event_time = (\<lambda>e w. (Some (of_nat w, 0), w)), link_time = (\<lambda>n w. (None, w)),
     time_diff = (\<lambda>a b. dint (uint (fst a) - uint (fst b))), parse_u16 = (\<lambda>s. None),
     parse_u32 = (\<lambda>s. None), parse_dbl = (\<lambda>s. None), c_int = (\<lambda>x. trunc_rat (dval x)),
     c_long = (\<lambda>x. trunc_rat (dval x)), oob_stat = (\<lambda>i. 0), alarm_hook = None,
     bpt_to_eng = (\<lambda>v l i p. (0, v, p)), bpt_to_raw = (\<lambda>v l i p. (0, v, p))\<rparr>"

theorem transient_alarms_latched_witness:
  "(let prec' = fst (fold (alarm_cycle env0) [[(4, 1)], [], [(3, 2), (4, 1)], []] (rec0\<lparr>sevr := 0, acks := 0\<rparr>, 0))
    in acks prec' = 2 \<and> sevr prec' \<le> 2 \<and> acks (snd (putAcks 1 prec')) = 2)"
  using transient_alarms_latched [of "rec0\<lparr>sevr := 0, acks := 0\<rparr>" env0 "[[(4, 1)], [], [(3, 2), (4, 1)], []]" 0 1]
  by (simp add: rec0_def Let_def)

section \<open>The alarm state machine\<close>

text \<open>
  The operations that touch a record's alarm fields, in any order: a request for an alarm, the commit at the
  end of a processing pass, the writes of an alarm handler, and what \<open>dbProcess\<close> does itself (reading the
  disable link, the SCAN alarm of an active record, the DISABLE alarm of a disabled one) in front of a
  record support that does nothing or is missing. \<open>other\<close> is any change that leaves the alarm fields
  and DISS alone. The steps of the record support are steps of their own (\<open>dbProcess_alarm_steps\<close>).
\<close>

definition same_alarms :: "'a dbCommon_scheme \<Rightarrow> 'a dbCommon_scheme \<Rightarrow> bool" where
  "same_alarms p q \<longleftrightarrow> stat p = stat q \<and> sevr p = sevr q \<and> nsta p = nsta q \<and> nsev p = nsev q \<and>
     acks p = acks q \<and> ackt p = ackt q \<and> diss p = diss q"

definition idle_support :: "'a dbCommon_scheme \<Rightarrow> 'w \<Rightarrow> int \<times> 'a dbCommon_scheme \<times> 'w" where
  "idle_support prec w = (0, prec, w)"

inductive alarm_step :: "'w rec_env \<Rightarrow> 'a dbCommon_scheme \<times> 'w \<Rightarrow> 'a dbCommon_scheme \<times> 'w \<Rightarrow> bool"
  for env where
  set_sevr: "alarm_step env (prec, w) (snd (recGblSetSevr prec st sv), w)"
| reset: "alarm_step env (prec, w) (snd (recGblResetAlarms env prec w))"
| ack_transient: "alarm_step env (prec, w) (snd (putAckt v prec), w)"
| acknowledge: "alarm_step env (prec, w) (snd (putAcks v prec), w)"
| process: "rset = None \<or> rset = Some idle_support \<Longrightarrow> alarm_step env (prec, w) (snd (dbProcess env rset prec w))"
| other: "same_alarms prec prec' \<Longrightarrow> alarm_step env (prec, w) (prec', w')"

inductive_cases alarm_stepE: "alarm_step env s s'"

text \<open>The processing pass of a record whose support only makes such steps is a sequence of them.\<close>

lemma dbProcess_split:
  "snd (dbProcess env (Some f) prec w) = snd (dbProcess env (Some idle_support) prec w) \<or>
   snd (dbProcess env (Some f) prec w) = (case snd (dbProcess env (Some idle_support) prec w) of (p, w) \<Rightarrow> snd (f p w))"
  by (auto simp: dbProcess_def Let_def idle_support_def split: prod.splits)

lemma dbProcess_alarm_steps:
  assumes "\<And>p w. (alarm_step env)\<^sup>*\<^sup>* (p, w) (snd (f p w))"
  shows "(alarm_step env)\<^sup>*\<^sup>* (prec, w) (snd (dbProcess env (Some f) prec w))"
proof -
  have own: "(alarm_step env)\<^sup>*\<^sup>* (prec, w) (snd (dbProcess env (Some idle_support) prec w))"
    by (rule r_into_rtranclp) (rule alarm_step.process, simp)
  obtain p w1 where p: "snd (dbProcess env (Some idle_support) prec w) = (p, w1)" by fastforce
  from dbProcess_split [of env f prec w] show ?thesis
  proof
    assume "snd (dbProcess env (Some f) prec w) = snd (dbProcess env (Some idle_support) prec w)"
    then show ?thesis using own by simp
  next
    assume "snd (dbProcess env (Some f) prec w) = (case snd (dbProcess env (Some idle_support) prec w) of (p, w) \<Rightarrow> snd (f p w))"
    then show ?thesis using rtranclp_trans [OF own [unfolded p] assms] by (simp add: p)
  qed
qed

definition alarm_inv :: "'a dbCommon_scheme \<Rightarrow> bool" where
  "alarm_inv prec \<longleftrightarrow> sevr prec \<le> 3 \<and> acks prec \<le> 3 \<and> diss prec \<le> 3 \<and>
     (ackt prec = 0 \<and> stat prec \<noteq> DISABLE_ALARM \<longrightarrow> acks prec \<le> sevr prec)"

lemma set_sevr_inv [simp]: "alarm_inv (snd (recGblSetSevr prec st sv)) = alarm_inv prec"
  by (simp add: alarm_inv_def recGblSetSevr_def)

lemma inherit_severity_inv [simp]: "alarm_inv (inherit_severity m a prec) = alarm_inv prec"
  by (auto simp: inherit_severity_def Let_def split: option.split)

lemma getLink_inv:
  "dbGetLink_int env plink old prec w = (st, v, prec', w') \<Longrightarrow> alarm_inv prec' = alarm_inv prec"
  by (auto simp: dbGetLink_int_def split: link.splits prod.splits if_splits)

lemma reset_diss [simp]: "diss (fst (snd (recGblResetAlarms env prec w))) = diss prec"
  by (simp add: recGblResetAlarms_def db_post_events_def Let_def)

lemma reset_inv: "alarm_inv prec \<Longrightarrow> alarm_inv (fst (snd (recGblResetAlarms env prec w)))"
  by (auto simp: alarm_inv_def)

lemma post_inv [simp]: "alarm_inv (db_post_events f m prec) = alarm_inv prec"
  by (simp add: alarm_inv_def db_post_events_def)

lemma field_inv [simp]:
  "alarm_inv (prec\<lparr>lcnt := a\<rparr>) = alarm_inv prec" "alarm_inv (prec\<lparr>disa := b\<rparr>) = alarm_inv prec"
  "alarm_inv (prec\<lparr>putf := c\<rparr>) = alarm_inv prec" "alarm_inv (prec\<lparr>rpro := c\<rparr>) = alarm_inv prec"
  "alarm_inv (prec\<lparr>pact := c\<rparr>) = alarm_inv prec"
  by (simp_all add: alarm_inv_def)

lemma disable_inv:
  "alarm_inv prec \<Longrightarrow> alarm_inv (prec\<lparr>sevr := diss prec, stat := DISABLE_ALARM, nsev := 0, nsta := 0\<rparr>)"
  by (simp add: alarm_inv_def)

lemma dbProcess_own_inv:
  assumes "rset = None \<or> rset = Some idle_support" "alarm_inv prec"
  shows "alarm_inv (fst (snd (dbProcess env rset prec w)))"
proof (cases "pact prec = 0")
  case False
  obtain m p' w' where r: "recGblResetAlarms env (snd (recGblSetSevr (prec\<lparr>lcnt := lcnt prec + 1\<rparr>) 13 3)) w = (m, p', w')"
    by (metis prod.exhaust)
  have "alarm_inv p'"
    using reset_inv [of "snd (recGblSetSevr (prec\<lparr>lcnt := lcnt prec + 1\<rparr>) 13 3)" env w] assms(2) r by simp
  then show ?thesis using False assms(2) r by (simp add: dbProcess_def Let_def)
next
  case True
  obtain st v p1 w1 where l: "dbGetLink_int env (sdis prec) (ucast (disa prec)) (prec\<lparr>lcnt := 0\<rparr>) w = (st, v, p1, w1)"
    by (metis prod.exhaust)
  then have p1: "alarm_inv p1" using getLink_inv [OF l] assms(2) by simp
  then show ?thesis
    using True assms(1) disable_inv [of "p1\<lparr>disa := ucast v, rpro := FALSE, putf := FALSE\<rparr>"]
    by (auto simp: dbProcess_def Let_def l idle_support_def)
qed

lemma alarm_step_inv: "alarm_step env s s' \<Longrightarrow> alarm_inv (fst s) \<Longrightarrow> alarm_inv (fst s')"
proof (erule alarm_stepE)
  fix prec w assume "s = (prec, w)" "s' = snd (recGblResetAlarms env prec w)" "alarm_inv (fst s)"
  then show "alarm_inv (fst s')" by (simp add: reset_inv)
next
  fix rset prec w
  assume "s = (prec, w)" "s' = snd (dbProcess env rset prec w)" "rset = None \<or> rset = Some idle_support" "alarm_inv (fst s)"
  then show "alarm_inv (fst s')" by (simp add: dbProcess_own_inv)
next
  fix prec w st sv assume "s = (prec, w)" "s' = (snd (recGblSetSevr prec st sv), w)" "alarm_inv (fst s)"
  then show "alarm_inv (fst s')" by simp
qed (auto simp: alarm_inv_def same_alarms_def putAckt_def putAcks_def db_post_events_def Let_def)

text \<open>C5: Whatever sequence of alarm requests, commits, acknowledgements and passes of \<open>dbProcess\<close> (which may
  disable the record) a record goes through, its severity and acknowledge severity stay among the four
  severities (when DISS is one of them), and with ACKT clear the acknowledge severity never exceeds the current
  one except while the record is disabled; the first commit after that restores it.\<close>

theorem alarm_invariant:
  assumes "(alarm_step env)\<^sup>*\<^sup>* s s'" "alarm_inv (fst s)"
  shows "sevr (fst s') \<le> 3 \<and> acks (fst s') \<le> 3 \<and>
    (ackt (fst s') = 0 \<and> stat (fst s') \<noteq> DISABLE_ALARM \<longrightarrow> acks (fst s') \<le> sevr (fst s')) \<and>
    (ackt (fst s') = 0 \<and> nsta (fst s') \<noteq> DISABLE_ALARM \<longrightarrow>
       (case recGblResetAlarms env (fst s') (snd s') of (m, prec, w) \<Rightarrow> acks prec \<le> sevr prec))"
proof -
  have inv: "alarm_inv (fst s')"
    using assms by (induction rule: rtranclp_induct) (blast intro: alarm_step_inv)+
  obtain m q w where q: "recGblResetAlarms env (fst s') (snd s') = (m, q, w)" by (metis prod.exhaust)
  have "alarm_inv q" "ackt q = ackt (fst s')" "stat q = nsta (fst s')"
    using reset_inv [OF inv, of env "snd s'"] reset_alarms_fields(1,5) [of env "fst s'" "snd s'"] by (simp_all add: q)
  then show ?thesis using inv by (simp add: q alarm_inv_def)
qed

text \<open>A record in alarm is disabled and enabled again: while it is disabled ACKS (3) exceeds SEVR (0).\<close>

theorem alarm_invariant_witness:
  "let p0 = rec0\<lparr>ackt := 0, disa := 1\<rparr>;
       (p1, w1) = snd (dbProcess env0 (Some idle_support) p0 0);
       (p2, w2) = snd (recGblResetAlarms env0 (snd (recGblSetSevr (p1\<lparr>disa := 0\<rparr>) 3 2)) w1)
   in stat p1 = 18 \<and> sevr p1 = 0 \<and> acks p1 = 3 \<and> acks p2 \<le> sevr p2 \<and> sevr p2 = 2"
proof -
  define p0 where "p0 = rec0\<lparr>ackt := 0, disa := 1\<rparr>"
  obtain p1 w1 where p1: "snd (dbProcess env0 (Some idle_support) p0 0) = (p1, w1)" by fastforce
  define p where "p = snd (recGblSetSevr (p1\<lparr>disa := 0\<rparr>) 3 2)"
  obtain p2 w2 where p2: "snd (recGblResetAlarms env0 p w1) = (p2, w2)" by fastforce
  have "(alarm_step env0)\<^sup>*\<^sup>* (p0, 0) (p1, w1)"
    using alarm_step.process [of "Some idle_support" env0 p0 0] p1 by auto
  also have "alarm_step env0 (p1, w1) (p1\<lparr>disa := 0\<rparr>, w1)"
    by (rule alarm_step.other) (simp add: same_alarms_def)
  also have "alarm_step env0 (p1\<lparr>disa := 0\<rparr>, w1) (p, w1)"
    unfolding p_def by (rule alarm_step.set_sevr)
  also have "alarm_step env0 (p, w1) (p2, w2)"
    using alarm_step.reset [of env0 p w1] p2 by simp
  finally have run: "(alarm_step env0)\<^sup>*\<^sup>* (p0, 0) (p2, w2)" .
  have f: "stat p1 = 18" "sevr p1 = 0" "acks p1 = 3" "nsev p1 = 0" "ackt p1 = 0"
    using p1 by (auto simp: p0_def rec0_def dbProcess_def dbGetLink_int_def Let_def db_post_events_def)
  have "ackt p2 = 0" "stat p2 = 3" "sevr p2 = 2"
    using reset_alarms_fields(1,2,5) [of env0 p w1] f unfolding p2 by (simp_all add: p_def recGblSetSevr_def)
  then have "acks p2 \<le> sevr p2"
    using alarm_invariant [OF run] by (simp add: p0_def rec0_def alarm_inv_def)
  then show ?thesis
    using f \<open>sevr p2 = 2\<close> p1 p2 by (simp add: Let_def p0_def p_def)
qed

section \<open>Deadbands\<close>

text \<open>The distance of two doubles that the deadband is compared with: the absolute difference of
  finite values, 0 between equal special values, and infinity otherwise.\<close>

fun ddist :: "double \<Rightarrow> double \<Rightarrow> double" where
  "ddist NaN NaN = Fin 0"
| "ddist (Infinity s) (Infinity t) = (if s = t then Fin 0 else Infinity False)"
| "ddist NaN _ = Infinity False"
| "ddist _ NaN = Infinity False"
| "ddist (Infinity _) _ = Infinity False"
| "ddist _ (Infinity _) = Infinity False"
| "ddist x y = (let d = dsub x y in if dlt d (Fin 0) then dneg d else d)"

lemma recGblCheckDeadband_eq:
  "recGblCheckDeadband oldval newval deadband m add_mask =
     (if dlt deadband (ddist oldval newval) then (newval, m OR add_mask) else (oldval, m))"
  by (cases oldval; cases newval) (auto simp: recGblCheckDeadband_def Let_def deq_def dle_def)

lemma dround_not_nan [simp]: "\<not> isnan (dround s x)" "dround s x \<noteq> NaN"
  by (auto simp: dround_def Let_def)

lemma dsub_finite_not_nan: "dfinite x \<Longrightarrow> dfinite y \<Longrightarrow> \<not> isnan (dsub x y)"
  by (cases x; cases y) (auto simp: dsub_def dadd_def)

lemma abs_nonneg: "\<not> isnan d \<Longrightarrow> dle (Fin 0) (if dlt d (Fin 0) then dneg d else d)"
  by (cases d) (auto simp: dlt_def dle_def)

lemma ddist_nonneg: "dle (Fin 0) (ddist x y)"
  using dsub_finite_not_nan [of x y] abs_nonneg
  by (cases x; cases y) (auto simp: Let_def dle_refl dle_def [of "Fin 0" "Infinity False"])

lemma ddist_self [simp]: "ddist x x = Fin 0"
  by (cases x) (auto simp: dsub_def dadd_def dround_def dlt_def dle_def)

text \<open>The values a field takes, each checked against the deadband with the value last posted: the
  posted value after each check, and whether that check posted.\<close>

fun deadband_run :: "double \<Rightarrow> double \<Rightarrow> double list \<Rightarrow> (double \<times> bool) list" where
  "deadband_run deadband posted [] = []"
| "deadband_run deadband posted (v # vs) =
     (case recGblCheckDeadband posted v deadband 0 DBE_VALUE of
        (posted', m) \<Rightarrow> (posted', m AND DBE_VALUE \<noteq> 0) # deadband_run deadband posted' vs)"

text \<open>What clients last saw is never stale: with a deadband of at least 0, after every check the
  posted value is within the deadband of the current value (infinities and NaN included: a client
  always learns that the value became or ceased to be one). A negative deadband posts every value,
  a NaN deadband none.\<close>

theorem deadband_tracks:
  "(if dle (Fin 0) deadband
    then list_all2 (\<lambda>v (p, posted). dle (ddist p v) deadband \<and> p = (if posted then v else p)) vs
           (deadband_run deadband p0 vs)
    else if isnan deadband then deadband_run deadband p0 vs = map (\<lambda>v. (p0, False)) vs
    else deadband_run deadband p0 vs = map (\<lambda>v. (v, True)) vs)"
proof (induction vs arbitrary: p0)
  case (Cons v vs)
  have nan: "\<not> dlt deadband (ddist p0 v)" if "isnan deadband"
    using that by (simp add: dlt_def)
  have near: "dle (ddist p0 v) deadband" if "dle (Fin 0) deadband" "\<not> dlt deadband (ddist p0 v)"
    using that ddist_nonneg [of p0 v] by (auto simp: dlt_def dle_def)
  have far: "dlt deadband (ddist p0 v)" if "\<not> dle (Fin 0) deadband" "\<not> isnan deadband"
    using that dlt_dle_trans [OF _ ddist_nonneg [of p0 v], of deadband] by (simp add: dlt_def)
  show ?case
    using Cons.IH [of v] Cons.IH [of p0] near far nan
    by (auto simp: recGblCheckDeadband_eq split: if_splits)
qed simp


section \<open>Processing an active record\<close>

lemma dbProcess_active:
  "pact prec \<noteq> 0 \<Longrightarrow> nsev prec = 0 \<Longrightarrow> sevr prec < 3 \<Longrightarrow> stat prec \<noteq> 13 \<Longrightarrow>
   dbProcess env process prec w =
     (if lcnt prec < 10 then (0, prec\<lparr>lcnt := lcnt prec + 1\<rparr>, w)
      else case recGblResetAlarms env (prec\<lparr>lcnt := lcnt prec + 1, nsta := 13, nsev := 3\<rparr>) w of
             (m, prec, w) \<Rightarrow> (0, db_post_events ''VAL'' (m OR 3) prec, w))"
  by (auto simp: dbProcess_def Let_def recGblSetSevr_def not_le split: prod.splits)

lemma dbProcess_scan_alarm:
  "pact prec \<noteq> 0 \<Longrightarrow> stat prec = 13 \<Longrightarrow> dbProcess env process prec w = (0, prec, w)"
  by (simp add: dbProcess_def Let_def)

definition dbProcess_times ::
  "'w rec_env \<Rightarrow> ('a dbCommon_scheme \<Rightarrow> 'w \<Rightarrow> int \<times> 'a dbCommon_scheme \<times> 'w) option
     \<Rightarrow> nat \<Rightarrow> 'a dbCommon_scheme \<times> 'w \<Rightarrow> 'a dbCommon_scheme \<times> 'w" where
  "dbProcess_times env process n = ((\<lambda>(prec, w). snd (dbProcess env process prec w)) ^^ n)"

lemma dbProcess_times_Suc:
  "dbProcess_times env process (Suc n) s =
     (case dbProcess_times env process n s of (prec, w) \<Rightarrow> snd (dbProcess env process prec w))"
  by (simp add: dbProcess_times_def)

lemma reset_alarms_pact [simp]:
  "pact (fst (snd (recGblResetAlarms env prec w))) = pact prec"
  by (simp add: recGblResetAlarms_def db_post_events_def Let_def)

lemma dbProcess_times_active:
  assumes "pact prec \<noteq> 0" "nsev prec = 0" "sevr prec < 3" "stat prec \<noteq> 13" "lcnt prec = 0" "n \<le> 10"
  shows "dbProcess_times env process n (prec, w) = (prec\<lparr>lcnt := of_nat n\<rparr>, w)"
  using assms(6)
proof (induction n)
  case 0
  then show ?case using assms(5) by (simp add: dbProcess_times_def)
next
  case (Suc n)
  then have "(of_nat n :: u8) < 10"
    by (simp add: word_less_nat_alt unat_of_nat)
  with Suc assms show ?case
    by (simp add: dbProcess_times_def dbProcess_active)
qed

text \<open>A record that stays active is never processed again: attempts to process it return without
  calling record support. The first ten leave everything but the lock count alone; the eleventh
  raises a SCAN alarm of severity INVALID, once, and later attempts change nothing.\<close>

theorem dbProcess_active_record:
  assumes "pact prec \<noteq> 0" "nsev prec = 0" "sevr prec < 3" "stat prec \<noteq> 13" "lcnt prec = 0"
  shows "(let (prec', w') = dbProcess_times env process n (prec, w)
          in if n \<le> 10 then prec' = prec\<lparr>lcnt := of_nat n\<rparr> \<and> w' = w
             else (prec', w') = dbProcess_times env None 11 (prec, w)
                  \<and> stat prec' = 13 \<and> sevr prec' = 3 \<and> pact prec' = pact prec)"
proof (cases "n \<le> 10")
  case True
  then show ?thesis using dbProcess_times_active [OF assms, of n env process w] by simp
next
  case False
  have ten: "dbProcess_times env q 10 (prec, w) = (prec\<lparr>lcnt := 10\<rparr>, w)" for q
    using dbProcess_times_active [OF assms, of 10 env q w] by simp
  obtain p1 w1 where p1: "snd (dbProcess env None (prec\<lparr>lcnt := 10\<rparr>) w) = (p1, w1)" by fastforce
  then have step: "snd (dbProcess env q (prec\<lparr>lcnt := 10\<rparr>) w) = (p1, w1)" for q
    using assms by (simp add: dbProcess_active)
  obtain m p2 w2 where reset:
    "recGblResetAlarms env (prec\<lparr>lcnt := 11, nsta := 13, nsev := 3\<rparr>) w = (m, p2, w2)"
    by (metis prod_cases3)
  then have "stat p2 = 13" "sevr p2 = 3" "pact p2 = pact prec"
    using reset_alarms_fields(1,2) [of env "prec\<lparr>lcnt := 11, nsta := 13, nsev := 3\<rparr>" w]
      reset_alarms_pact [of env "prec\<lparr>lcnt := 11, nsta := 13, nsev := 3\<rparr>" w] by simp_all
  with p1 reset assms have inv: "stat p1 = 13" "sevr p1 = 3" "pact p1 = pact prec"
    by (auto simp: dbProcess_active db_post_events_def)
  have "dbProcess_times env q (11 + k) (prec, w) = (p1, w1)" for q k
  proof (induction k)
    case 0
    then show ?case using ten [of q] step [of q] by (simp add: dbProcess_times_def numeral_eq_Suc)
  next
    case (Suc k)
    then show ?case using inv assms(1)
      by (simp only: add_Suc_right dbProcess_times_Suc) (simp add: dbProcess_scan_alarm)
  qed
  from this [of process "n - 11"] this [of None 0] False inv show ?thesis by simp
qed

theorem dbProcess_active_record_witness:
  "stat (fst (dbProcess_times env0 None 11 (rec0\<lparr>pact := 1, stat := 0, sevr := 0\<rparr>, 5))) = 13"
  using dbProcess_active_record [of "rec0\<lparr>pact := 1, stat := 0, sevr := 0\<rparr>" env0 None 11 5]
  by (simp add: rec0_def case_prod_beta Let_def)

section \<open>What the routines leave alone\<close>

lemma setSevr_rec_simps [rec_simps]:
  "stat (snd (recGblSetSevr p st sv)) = stat p"
  "sevr (snd (recGblSetSevr p st sv)) = sevr p"
  "nsev (snd (recGblSetSevr p st sv)) = max (nsev p) sv"
  "udf (snd (recGblSetSevr p st sv)) = udf p"
  "pact (snd (recGblSetSevr p st sv)) = pact p"
  "dbCommon.more (snd (recGblSetSevr p st sv)) = dbCommon.more p"
  by (auto simp: recGblSetSevr_def max_def)

lemma fwdLink_simps [rec_simps]:
  "fst (recGblFwdLink env p w) = p\<lparr>rpro := (if rpro p \<noteq> 0 then 0 else rpro p), putf := 0\<rparr>"
  by (simp add: recGblFwdLink_def Let_def)

lemma reset_udf [rec_simps]: "udf (fst (snd (recGblResetAlarms env p w))) = udf p"
  by (simp add: recGblResetAlarms_def Let_def db_post_events_def)

lemma inherit_rec_simps [rec_simps]: "pact (inherit_severity m a p) = pact p"
  by (simp add: inherit_severity_def recGblSetSevr_def Let_def split: option.split)

lemma get_link_dbl_pact [rec_simps]:
  "pact (fst (snd (snd (dbGetLink_dbl env l old p w)))) = pact p"
  by (simp add: dbGetLink_dbl_def rec_simps split: link.split prod.split)

end
