(* ===== verification/AiRecord.thy ===== *)
theory AiRecord
  imports RecGbl
begin

text \<open>
  The analog input record (std/rec/aiRecord.c): initialisation, reading a value through device
  support or simulation links, conversion to engineering units, the alarm check with its
  hysteresis and level filter, monitors, and \<open>process\<close>, which composes them. The device support
  entry table is an argument (\<open>None\<close> for a null pointer).
\<close>

section \<open>Data\<close>

record aiRecord = dbCommon +
  ai_val :: double
  ai_prec :: int
  ai_linr :: enum16
  ai_egul :: double
  ai_egu :: string
  ai_hopr :: double
  ai_lopr :: double
  ai_aoff :: double
  ai_aslo :: double
  ai_smoo :: double
  ai_hihi :: double
  ai_lolo :: double
  ai_high :: double
  ai_low :: double
  ai_hhsv :: enum16
  ai_llsv :: enum16
  ai_hsv :: enum16
  ai_lsv :: enum16
  ai_hyst :: double
  ai_aftc :: double
  ai_adel :: double
  ai_mdel :: double
  ai_lalm :: double
  ai_afvl :: double
  ai_alst :: double
  ai_mlst :: double
  ai_eslo :: double
  ai_eoff :: double
  ai_roff :: u32
  ai_brk :: "nat \<times> int"
  ai_init :: bool
  ai_rval :: u32
  ai_oraw :: u32
  ai_inp :: string
  ai_siol :: link
  ai_sval :: double
  ai_siml :: link
  ai_simm :: enum16
  ai_sims :: enum16

text \<open>menuConvert.dbd and menuSimm.dbd\<close>

abbreviation (input) menuConvertNO_CONVERSION :: enum16 where "menuConvertNO_CONVERSION \<equiv> 0"
abbreviation (input) menuConvertSLOPE :: enum16 where "menuConvertSLOPE \<equiv> 1"
abbreviation (input) menuConvertLINEAR :: enum16 where "menuConvertLINEAR \<equiv> 2"
abbreviation (input) menuSimmNO :: enum16 where "menuSimmNO \<equiv> 0"
abbreviation (input) menuSimmYES :: enum16 where "menuSimmYES \<equiv> 1"
abbreviation (input) menuSimmRAW :: enum16 where "menuSimmRAW \<equiv> 2"

text \<open>The device support entry table: a null entry is \<open>None\<close>.\<close>

record ('r, 'w) aidset =
  ai_number :: int
  ai_dev_init_record :: "('r \<Rightarrow> 'w \<Rightarrow> int \<times> 'r \<times> 'w) option"
  read_ai :: "('r \<Rightarrow> 'w \<Rightarrow> int \<times> 'r \<times> 'w) option"
  special_linconv :: "('r \<Rightarrow> int \<Rightarrow> 'w \<Rightarrow> int \<times> 'r \<times> 'w) option"

type_synonym 'w ai_dset = "(aiRecord, 'w) aidset"

section \<open>Initialisation\<close>

definition ai_init_record ::
  "'w rec_env \<Rightarrow> 'w ai_dset option \<Rightarrow> aiRecord \<Rightarrow> int \<Rightarrow> 'w \<Rightarrow> int \<times> aiRecord \<times> 'w" where
  "ai_init_record env dset prec pass w =
     (let eoff = ai_eoff prec; eslo = ai_eslo prec
      in if pass = 0 then (0, prec, w)
         else let prec = prec\<lparr>ai_simm := snd (recGblInitConstantLink (parse_u16 env) 0
                                               (ai_siml prec) (ai_simm prec))\<rparr>;
                  prec = prec\<lparr>ai_sval := snd (recGblInitConstantLink (parse_dbl env) (Fin 0)
                                               (ai_siol prec) (ai_sval prec))\<rparr>
              in case dset of
                   None \<Rightarrow> (S_dev_noDSET, prec, w)
                 | Some pdset \<Rightarrow>
                     if ai_number pdset < 6 \<or> read_ai pdset = None then (S_dev_missingSup, prec, w)
                     else let prec = prec\<lparr>ai_init := True\<rparr>;
                              prec = (if deq (ai_eslo prec) (Fin 1) \<and> deq (ai_eoff prec) (Fin 0)
                                      then prec\<lparr>ai_eoff := ai_egul prec\<rparr> else prec)
                          in case ai_dev_init_record pdset of
                               Some init_record \<Rightarrow>
                                 (case init_record prec w of (status, prec, w) \<Rightarrow>
                                    (status, if ai_linr prec = menuConvertSLOPE
                                             then prec\<lparr>ai_eoff := eoff, ai_eslo := eslo\<rparr> else prec, w))
                             | None \<Rightarrow>
                                 (0, prec\<lparr>ai_mlst := ai_val prec, ai_alst := ai_val prec,
                                          ai_lalm := ai_val prec, ai_oraw := ai_rval prec\<rparr>, w))"

section \<open>Reading\<close>

definition ai_readValue ::
  "'w rec_env \<Rightarrow> (aiRecord \<Rightarrow> 'w \<Rightarrow> int \<times> aiRecord \<times> 'w) \<Rightarrow> aiRecord \<Rightarrow> 'w
     \<Rightarrow> int \<times> aiRecord \<times> 'w" where
  "ai_readValue env read prec w =
     (if pact prec = TRUE then read prec w
      else case dbGetLink_int env (ai_siml prec) (ucast (ai_simm prec)) prec w of
        (status, v, prec, w) \<Rightarrow>
          let prec = prec\<lparr>ai_simm := ucast v\<rparr>
          in if status \<noteq> 0 then (status, prec, w)
             else if ai_simm prec = menuSimmNO then read prec w
             else if ai_simm prec = menuSimmYES
             then (case dbGetLink_dbl env (ai_siol prec) (ai_sval prec) prec w of
                     (status, v, prec, w) \<Rightarrow>
                       let prec = prec\<lparr>ai_sval := v\<rparr>;
                           prec = (if status = 0
                                   then prec\<lparr>ai_val := ai_sval prec, udf := flag (isnan (ai_sval prec))\<rparr>
                                   else prec)
                       in (2, snd (recGblSetSevr prec SIMM_ALARM (ai_sims prec)), w))
             else if ai_simm prec = menuSimmRAW
             then (case dbGetLink_dbl env (ai_siol prec) (ai_sval prec) prec w of
                     (status, v, prec, w) \<Rightarrow>
                       let prec = prec\<lparr>ai_sval := v\<rparr>;
                           prec = (if status = 0
                                   then let prec = prec\<lparr>udf := flag (isnan (ai_sval prec))\<rparr>
                                        in if udf prec = 0
                                           then prec\<lparr>ai_rval := of_int (c_long env (dfloor (ai_sval prec)))\<rparr>
                                           else prec
                                   else prec)
                       in (0, snd (recGblSetSevr prec SIMM_ALARM (ai_sims prec)), w))
             else (- 1, snd (recGblSetSevr prec SOFT_ALARM INVALID_ALARM), w))"

section \<open>Conversion\<close>

definition ai_convert :: "'w rec_env \<Rightarrow> aiRecord \<Rightarrow> aiRecord" where
  "ai_convert env prec =
     (let v = dadd (dint (sint (ai_rval prec))) (dint (uint (ai_roff prec)));
          v = (if \<not> deq (ai_aslo prec) (Fin 0) then dmul v (ai_aslo prec) else v);
          v = dadd v (ai_aoff prec);
          (v, prec) =
            (if ai_linr prec = menuConvertNO_CONVERSION then (v, prec)
             else if ai_linr prec = menuConvertLINEAR \<or> ai_linr prec = menuConvertSLOPE
             then (dadd (dmul v (ai_eslo prec)) (ai_eoff prec), prec)
             else case bpt_to_eng env v (ai_linr prec) (ai_init prec) (ai_brk prec) of
                    (status, v, brk) \<Rightarrow>
                      let prec = prec\<lparr>ai_brk := brk\<rparr>
                      in (v, if status \<noteq> 0 then snd (recGblSetSevr prec SOFT_ALARM MAJOR_ALARM)
                             else prec));
          prec =
            (if \<not> deq (ai_smoo prec) (Fin 0) \<and> dfinite (ai_val prec)
             then let prec = (if ai_init prec then prec\<lparr>ai_val := v\<rparr> else prec)
                  in prec\<lparr>ai_val := dadd (dmul v (dsub (Fin 1) (ai_smoo prec)))
                                         (dmul (ai_val prec) (ai_smoo prec))\<rparr>
             else prec\<lparr>ai_val := v\<rparr>)
      in prec\<lparr>udf := flag (isnan (ai_val prec))\<rparr>)"

section \<open>Alarms\<close>

text \<open>The ranges are numbered as in the source: 1 LOLO, 2 LOW, 3 normal, 4 HIGH, 5 HIHI. The table
  of their status codes has six entries; an index outside it reads other memory.\<close>

definition range_stat :: "'w rec_env \<Rightarrow> int \<Rightarrow> enum16" where
  "range_stat env i =
     (if 0 \<le> i \<and> i < 6 then [SOFT_ALARM, LOLO_ALARM, LOW_ALARM, NO_ALARM, HIGH_ALARM, HIHI_ALARM] ! nat i
      else oob_stat env i)"

text \<open>The limit check: the range, its severity and the alarm level.\<close>

definition ai_alarm_range :: "aiRecord \<Rightarrow> int \<times> enum16 \<times> double" where
  "ai_alarm_range prec =
     (let v = ai_val prec; hyst = ai_hyst prec; lalm = ai_lalm prec in
      if ai_hhsv prec \<noteq> 0 \<and> (dle (ai_hihi prec) v \<or>
           deq lalm (ai_hihi prec) \<and> dle (dsub (ai_hihi prec) hyst) v)
      then (5, ai_hhsv prec, ai_hihi prec)
      else if ai_llsv prec \<noteq> 0 \<and> (dle v (ai_lolo prec) \<or>
           deq lalm (ai_lolo prec) \<and> dle v (dadd (ai_lolo prec) hyst))
      then (1, ai_llsv prec, ai_lolo prec)
      else if ai_hsv prec \<noteq> 0 \<and> (dle (ai_high prec) v \<or>
           deq lalm (ai_high prec) \<and> dle (dsub (ai_high prec) hyst) v)
      then (4, ai_hsv prec, ai_high prec)
      else if ai_lsv prec \<noteq> 0 \<and> (dle v (ai_low prec) \<or>
           deq lalm (ai_low prec) \<and> dle v (dadd (ai_low prec) hyst))
      then (2, ai_lsv prec, ai_low prec)
      else (3, NO_ALARM, v))"

text \<open>\<open>THRESHOLD\<close> of the level filter is 0.6321.\<close>

definition THRESHOLD :: double where
  "THRESHOLD = dround False (6321 / 10000)"

text \<open>The level filter: the filtered level, and the range, severity and alarm level it selects.\<close>

definition ai_level_filter ::
  "'w rec_env \<Rightarrow> aiRecord \<Rightarrow> time_stamp \<Rightarrow> int \<times> enum16 \<times> double \<Rightarrow> double \<times> int \<times> enum16 \<times> double" where
  "ai_level_filter env prec lastTime = (\<lambda>(alarmRange, asev, alev).
     if dlt (Fin 0) (ai_aftc prec)
     then let aftc = ai_aftc prec; afvl = ai_afvl prec
          in if deq afvl (Fin 0) then (dint alarmRange, alarmRange, asev, alev)
             else let t = time_diff env (rtime prec) lastTime;
                      alpha = ddiv aftc (dadd t aftc);
                      afvl = dadd (dmul alpha afvl)
                               (dmul (if dlt (Fin 0) afvl then dsub (Fin 1) alpha else dsub alpha (Fin 1))
                                     (dint alarmRange));
                      afvl = (if dlt THRESHOLD (dsub afvl (dfloor afvl)) then dneg afvl else afvl);
                      alarmRange = \<bar>c_int env (dfloor afvl)\<bar>
                  in if alarmRange = 5 then (afvl, alarmRange, ai_hhsv prec, ai_hihi prec)
                     else if alarmRange = 4 then (afvl, alarmRange, ai_hsv prec, ai_high prec)
                     else if alarmRange = 3 then (afvl, alarmRange, NO_ALARM, alev)
                     else if alarmRange = 2 then (afvl, alarmRange, ai_lsv prec, ai_low prec)
                     else if alarmRange = 1 then (afvl, alarmRange, ai_llsv prec, ai_lolo prec)
                     else (afvl, alarmRange, asev, alev)
     else (Fin 0, alarmRange, asev, alev))"

definition ai_checkAlarms :: "'w rec_env \<Rightarrow> aiRecord \<Rightarrow> time_stamp \<Rightarrow> aiRecord" where
  "ai_checkAlarms env prec lastTime =
     (if udf prec \<noteq> 0
      then (snd (recGblSetSevr prec UDF_ALARM (udfs prec)))\<lparr>ai_afvl := Fin 0\<rparr>
      else case ai_level_filter env prec lastTime (ai_alarm_range prec) of
        (afvl, alarmRange, asev, alev) \<Rightarrow>
          let v = ai_val prec; prec = prec\<lparr>ai_afvl := afvl\<rparr>
          in if asev \<noteq> 0
             then (case recGblSetSevr prec (range_stat env alarmRange) asev of
                     (raised, prec) \<Rightarrow> if raised then prec\<lparr>ai_lalm := alev\<rparr> else prec)
             else prec\<lparr>ai_lalm := v\<rparr>)"

section \<open>Monitors and processing\<close>

definition ai_monitor :: "'w rec_env \<Rightarrow> aiRecord \<Rightarrow> 'w \<Rightarrow> aiRecord \<times> 'w" where
  "ai_monitor env prec w =
     (let (monitor_mask, prec, w) = recGblResetAlarms env prec w;
          (mlst, monitor_mask) =
            recGblCheckDeadband (ai_mlst prec) (ai_val prec) (ai_mdel prec) monitor_mask DBE_VALUE;
          (alst, monitor_mask) =
            recGblCheckDeadband (ai_alst prec) (ai_val prec) (ai_adel prec) monitor_mask DBE_LOG;
          prec = prec\<lparr>ai_mlst := mlst, ai_alst := alst\<rparr>;
          prec =
            (if monitor_mask \<noteq> 0
             then let prec = db_post_events ''VAL'' monitor_mask prec
                  in if ai_oraw prec \<noteq> ai_rval prec
                     then (db_post_events ''RVAL'' monitor_mask prec)\<lparr>ai_oraw := ai_rval prec\<rparr> else prec
             else prec)
      in (prec, w))"

definition ai_process ::
  "'w rec_env \<Rightarrow> 'w ai_dset option \<Rightarrow> aiRecord \<Rightarrow> 'w \<Rightarrow> int \<times> aiRecord \<times> 'w" where
  "ai_process env dset prec w =
     (case Option.bind dset read_ai of
        None \<Rightarrow> (S_dev_missingSup, prec\<lparr>pact := TRUE\<rparr>, w)
      | Some read \<Rightarrow>
          let was_active = pact prec; timeLast = rtime prec;
              (status, prec, w) = ai_readValue env read prec w
          in if was_active = 0 \<and> pact prec \<noteq> 0 then (0, prec, w)
             else let prec = prec\<lparr>pact := TRUE\<rparr>;
                      (prec, w) = recGblGetTimeStamp env prec w;
                      prec = (if status = 0 then ai_convert env prec else prec);
                      status = (if status = 2 then 0 else status);
                      prec = ai_checkAlarms env prec timeLast;
                      (prec, w) = ai_monitor env prec w;
                      (prec, w) = recGblFwdLink env prec w
                  in (status, prec\<lparr>ai_init := False, pact := FALSE\<rparr>, w))"

section \<open>Field access\<close>

definition ai_special ::
  "'w ai_dset \<Rightarrow> dbAddr \<Rightarrow> int \<Rightarrow> aiRecord \<Rightarrow> 'w \<Rightarrow> int \<times> aiRecord \<times> 'w" where
  "ai_special pdset paddr after prec w =
     (if special_type paddr = SPC_LINCONV
      then if ai_number pdset < 6 then (S_db_noMod, prec, w)
           else let prec = prec\<lparr>ai_init := True\<rparr>
                in if ai_linr prec = menuConvertLINEAR
                   then (case special_linconv pdset of
                           None \<Rightarrow> (0, prec, w)
                         | Some linconv \<Rightarrow>
                             let eoff = ai_eoff prec; eslo = ai_eslo prec;
                                 (status, prec, w) = linconv (prec\<lparr>ai_eoff := ai_egul prec\<rparr>) after w;
                                 prec = (if \<not> deq eoff (ai_eoff prec)
                                         then db_post_events ''EOFF'' (DBE_VALUE OR DBE_LOG) prec else prec);
                                 prec = (if \<not> deq eslo (ai_eslo prec)
                                         then db_post_events ''ESLO'' (DBE_VALUE OR DBE_LOG) prec else prec)
                             in (status, prec, w))
                   else (0, prec, w)
      else (S_db_badChoice, prec, w))"

definition ai_get_units :: "dbAddr \<Rightarrow> aiRecord \<Rightarrow> string \<Rightarrow> string" where
  "ai_get_units paddr prec units =
     (if field_type paddr = DBF_DOUBLE \<and> field paddr \<notin> {''ASLO'', ''AOFF'', ''SMOO''}
      then c_strncpy DB_UNITS_SIZE (ai_egu prec) units else units)"

definition ai_get_precision :: "dbAddr \<Rightarrow> aiRecord \<Rightarrow> int" where
  "ai_get_precision paddr prec =
     (if field paddr = ''VAL'' then ai_prec prec else recGblGetPrec paddr (ai_prec prec))"

text \<open>The fields that share the display range of VAL.\<close>

definition ai_val_like :: "string \<Rightarrow> bool" where
  "ai_val_like f \<longleftrightarrow>
     f \<in> {''VAL'', ''HIHI'', ''HIGH'', ''LOW'', ''LOLO'', ''LALM'', ''ALST'', ''MLST'', ''SVAL''}"

definition ai_get_graphic_double :: "bool \<Rightarrow> dbAddr \<Rightarrow> aiRecord \<Rightarrow> double \<times> double \<Rightarrow> double \<times> double" where
  "ai_get_graphic_double sgnd paddr prec pgd =
     (if ai_val_like (field paddr) then (ai_hopr prec, ai_lopr prec)
      else recGblGetGraphicDouble sgnd paddr pgd)"

definition ai_get_control_double :: "bool \<Rightarrow> dbAddr \<Rightarrow> aiRecord \<Rightarrow> double \<times> double \<Rightarrow> double \<times> double" where
  "ai_get_control_double sgnd paddr prec pcd =
     (if ai_val_like (field paddr) then (ai_hopr prec, ai_lopr prec)
      else recGblGetControlDouble sgnd paddr pcd)"

definition ai_get_alarm_double :: "dbAddr \<Rightarrow> aiRecord \<Rightarrow> alarm_limits" where
  "ai_get_alarm_double paddr prec =
     (if field paddr = ''VAL''
      then (if ai_hhsv prec \<noteq> 0 then ai_hihi prec else NaN,
            if ai_hsv prec \<noteq> 0 then ai_high prec else NaN,
            if ai_lsv prec \<noteq> 0 then ai_low prec else NaN,
            if ai_llsv prec \<noteq> 0 then ai_lolo prec else NaN)
      else recGblGetAlarmDouble)"

section \<open>What the steps leave alone\<close>

lemma ai_simm_update_id: "ai_simm p = v \<Longrightarrow> p\<lparr>ai_simm := v\<rparr> = p"
  by auto

lemma setSevr_ai_simps [rec_simps]:
  "ai_val (snd (recGblSetSevr p st sv)) = ai_val p"
  "ai_mdel (snd (recGblSetSevr p st sv)) = ai_mdel p"
  "ai_lalm (snd (recGblSetSevr p st sv)) = ai_lalm p"
  by (auto simp: recGblSetSevr_def)

lemma reset_ai_simps [rec_simps]:
  "ai_val (fst (snd (recGblResetAlarms env p w))) = ai_val p"
  "ai_mdel (fst (snd (recGblResetAlarms env p w))) = ai_mdel p"
  "ai_lalm (fst (snd (recGblResetAlarms env p w))) = ai_lalm p"
  "ai_mlst (fst (snd (recGblResetAlarms env p w))) = ai_mlst p"
  by (simp_all add: recGblResetAlarms_def Let_def db_post_events_def)

lemma check_ai_simps [rec_simps]:
  "ai_val (ai_checkAlarms env p t) = ai_val p"
  "ai_mdel (ai_checkAlarms env p t) = ai_mdel p"
  "pact (ai_checkAlarms env p t) = pact p"
  "udf (ai_checkAlarms env p t) = udf p"
  by (auto simp: ai_checkAlarms_def recGblSetSevr_def Let_def split: prod.split)

lemma monitor_ai_simps [rec_simps]:
  "ai_val (fst (ai_monitor env p w)) = ai_val p"
  "udf (fst (ai_monitor env p w)) = udf p"
  "stat (fst (ai_monitor env p w)) = nsta p"
  "sevr (fst (ai_monitor env p w)) = min 3 (nsev p)"
  "nsev (fst (ai_monitor env p w)) = 0"
  "nsta (fst (ai_monitor env p w)) = 0"
  "ai_lalm (fst (ai_monitor env p w)) = ai_lalm p"
  "ai_mlst (fst (ai_monitor env p w)) =
     (if dlt (ai_mdel p) (ddist (ai_mlst p) (ai_val p)) then ai_val p else ai_mlst p)"
proof -
  obtain m p1 w1 where r: "recGblResetAlarms env p w = (m, p1, w1)"
    by (metis prod_cases3)
  have f: "stat p1 = nsta p" "sevr p1 = min 3 (nsev p)" "nsev p1 = 0" "nsta p1 = 0"
    using reset_alarms_fields(1-4) [of env p w] r by simp_all
  have g: "ai_val p1 = ai_val p" "ai_mdel p1 = ai_mdel p" "ai_lalm p1 = ai_lalm p" "udf p1 = udf p"
      "ai_mlst p1 = ai_mlst p"
    using reset_ai_simps [of env p w] reset_udf [of env p w] r by simp_all
  note d = ai_monitor_def r recGblCheckDeadband_eq db_post_events_def Let_def
  show "ai_val (fst (ai_monitor env p w)) = ai_val p" by (simp add: d g)
  show "udf (fst (ai_monitor env p w)) = udf p" by (simp add: d g)
  show "stat (fst (ai_monitor env p w)) = nsta p" by (simp add: d f)
  show "sevr (fst (ai_monitor env p w)) = min 3 (nsev p)" by (simp add: d f)
  show "nsev (fst (ai_monitor env p w)) = 0" by (simp add: d f)
  show "nsta (fst (ai_monitor env p w)) = 0" by (simp add: d f)
  show "ai_lalm (fst (ai_monitor env p w)) = ai_lalm p" by (simp add: d g)
  show "ai_mlst (fst (ai_monitor env p w)) =
      (if dlt (ai_mdel p) (ddist (ai_mlst p) (ai_val p)) then ai_val p else ai_mlst p)"
    by (simp add: d g)
qed

lemma convert_ai_simps [rec_simps]:
  "udf (ai_convert env p) = flag (isnan (ai_val (ai_convert env p)))"
  by (simp add: ai_convert_def Let_def split: prod.split)


section \<open>Alarm limits and hysteresis\<close>

text \<open>One scan of a record in alarm check and monitor: a new value, checked and committed. The list of
  scans gives the STAT and SEVR after each.\<close>

definition ai_scan :: "'w rec_env \<Rightarrow> double \<Rightarrow> aiRecord \<times> 'w \<Rightarrow> aiRecord \<times> 'w" where
  "ai_scan env v = (\<lambda>(prec, w). ai_monitor env (ai_checkAlarms env (prec\<lparr>ai_val := v\<rparr>) (rtime prec)) w)"

fun ai_scans :: "'w rec_env \<Rightarrow> double list \<Rightarrow> aiRecord \<times> 'w \<Rightarrow> (enum16 \<times> enum16) list" where
  "ai_scans env [] s = []"
| "ai_scans env (v # vs) s =
     (case ai_scan env v s of s' \<Rightarrow> (stat (fst s'), sevr (fst s')) # ai_scans env vs s')"

text \<open>The alarm configuration, which scans leave alone.\<close>

definition ai_config where
  "ai_config p = ((ai_hihi p, ai_lolo p, ai_high p, ai_low p), (ai_hhsv p, ai_llsv p, ai_hsv p, ai_lsv p),
     ai_hyst p, ai_aftc p, udf p)"

lemma reset_config [rec_simps]: "ai_config (fst (snd (recGblResetAlarms env p w))) = ai_config p"
  by (simp add: ai_config_def recGblResetAlarms_def Let_def db_post_events_def)

lemma monitor_config [rec_simps]: "ai_config (fst (ai_monitor env p w)) = ai_config p"
proof -
  obtain m p1 w1 where r: "recGblResetAlarms env p w = (m, p1, w1)"
    by (metis prod_cases3)
  have "ai_config (fst (ai_monitor env p w)) = ai_config p1"
    by (simp add: ai_config_def ai_monitor_def r recGblCheckDeadband_eq db_post_events_def Let_def)
  then show ?thesis using reset_config [of env p w] r by simp
qed

lemma check_config [rec_simps]: "ai_config (ai_checkAlarms env p t) = ai_config p"
  by (auto simp: ai_config_def ai_checkAlarms_def recGblSetSevr_def Let_def split: prod.split)

lemma scan_config [rec_simps]: "ai_config (fst (ai_scan env v s)) = ai_config (fst s)"
proof -
  have "ai_config ((fst s)\<lparr>ai_val := v\<rparr>) = ai_config (fst s)" by (simp add: ai_config_def)
  then show ?thesis by (simp add: ai_scan_def case_prod_beta rec_simps)
qed

text \<open>Without the level filter, with nothing else pending, a scan commits the range of the value.\<close>

definition ai_quiet :: "aiRecord \<Rightarrow> bool" where
  "ai_quiet p \<longleftrightarrow> udf p = 0 \<and> \<not> dlt (Fin 0) (ai_aftc p) \<and> nsev p = 0 \<and> nsta p = 0"

lemma check_quiet:
  assumes "ai_quiet p" and "ai_alarm_range p = (rng, sev, lev)"
  shows "nsev (ai_checkAlarms env p t) = sev"
    "nsta (ai_checkAlarms env p t) = (if sev = 0 then 0 else range_stat env rng)"
    "ai_lalm (ai_checkAlarms env p t) = (if sev = 0 then ai_val p else lev)"
  using assms
  by (auto simp: ai_quiet_def ai_checkAlarms_def ai_level_filter_def recGblSetSevr_def Let_def
      word_gt_0)

lemma scan_quiet:
  assumes "ai_quiet (fst s)" and "ai_alarm_range ((fst s)\<lparr>ai_val := v\<rparr>) = (rng, sev, lev)"
  shows "stat (fst (ai_scan env v s)) = (if sev = 0 then 0 else range_stat env rng)"
    "sevr (fst (ai_scan env v s)) = min 3 sev"
    "ai_lalm (fst (ai_scan env v s)) = (if sev = 0 then v else lev)"
    "ai_quiet (fst (ai_scan env v s))"
proof -
  have q: "ai_quiet ((fst s)\<lparr>ai_val := v\<rparr>)" using assms(1) by (simp add: ai_quiet_def)
  note c = check_quiet [OF q assms(2)]
  show "stat (fst (ai_scan env v s)) = (if sev = 0 then 0 else range_stat env rng)"
    "sevr (fst (ai_scan env v s)) = min 3 sev"
    "ai_lalm (fst (ai_scan env v s)) = (if sev = 0 then v else lev)"
    by (simp_all add: ai_scan_def case_prod_beta rec_simps c)
  have "udf (fst (ai_scan env v s)) = udf (fst s)" "ai_aftc (fst (ai_scan env v s)) = ai_aftc (fst s)"
    using scan_config [of env v s] by (simp_all add: ai_config_def)
  then show "ai_quiet (fst (ai_scan env v s))"
    using assms(1) by (simp add: ai_quiet_def ai_scan_def case_prod_beta rec_simps)
qed

lemma range_stat_simps [simp]:
  "range_stat env 1 = 5" "range_stat env 2 = 6" "range_stat env 3 = 0" "range_stat env 4 = 4"
  "range_stat env 5 = 3"
  by (simp_all add: range_stat_def)

lemma scans_hold_hihi:
  assumes "ai_quiet (fst s)" "ai_hhsv (fst s) \<noteq> 0" "deq (ai_lalm (fst s)) (ai_hihi (fst s))"
    "list_all (dle (dsub (ai_hihi (fst s)) (ai_hyst (fst s)))) vs"
  shows "ai_scans env (vs @ us) s =
           replicate (length vs) (3, min 3 (ai_hhsv (fst s)))
             @ ai_scans env us (fold (ai_scan env) vs s)
         \<and> ai_quiet (fst (fold (ai_scan env) vs s))
         \<and> ai_config (fst (fold (ai_scan env) vs s)) = ai_config (fst s)
         \<and> deq (ai_lalm (fst (fold (ai_scan env) vs s))) (ai_hihi (fst s))"
  using assms
proof (induction vs arbitrary: s)
  case (Cons v vs)
  let ?s = "ai_scan env v s"
  have "ai_alarm_range ((fst s)\<lparr>ai_val := v\<rparr>) = (5, ai_hhsv (fst s), ai_hihi (fst s))"
    using Cons.prems by (simp add: ai_alarm_range_def Let_def)
  note sq = scan_quiet [OF Cons.prems(1) this, of env]
  have cfg: "ai_config (fst ?s) = ai_config (fst s)" by (simp add: rec_simps)
  then have "ai_hihi (fst ?s) = ai_hihi (fst s)" "ai_hhsv (fst ?s) = ai_hhsv (fst s)"
      "ai_hyst (fst ?s) = ai_hyst (fst s)"
    by (simp_all add: ai_config_def)
  moreover have "deq (ai_hihi (fst s)) (ai_hihi (fst s))"
    using Cons.prems(3) by (auto simp: deq_def dle_refl dle_def)
  ultimately show ?case
    using Cons.IH [of ?s] Cons.prems sq cfg by simp
qed simp

text \<open>The state that the four limits give for a value by themselves, without hysteresis.\<close>

definition limit_state :: "aiRecord \<Rightarrow> double \<Rightarrow> enum16 \<times> enum16" where
  "limit_state p v =
     (if ai_hhsv p \<noteq> 0 \<and> dle (ai_hihi p) v then (HIHI_ALARM, min 3 (ai_hhsv p))
      else if ai_llsv p \<noteq> 0 \<and> dle v (ai_lolo p) then (LOLO_ALARM, min 3 (ai_llsv p))
      else if ai_hsv p \<noteq> 0 \<and> dle (ai_high p) v then (HIGH_ALARM, min 3 (ai_hsv p))
      else if ai_lsv p \<noteq> 0 \<and> dle v (ai_low p) then (LOW_ALARM, min 3 (ai_lsv p))
      else (0, 0))"

text \<open>C6: Alarm hysteresis, for a defined record without the level filter (AFTC not above 0) and with no alarm
  pending, whose other limits are below HIHI: once the value has reached HIHI, the record stays in the HIHI
  alarm on every scan whose value is at least HIHI - HYST, so values that wander in the hysteresis band do not make
  the alarm chatter; the first value below the band and below HIHI brings exactly the state that the limits give
  for this value alone, which is no alarm inside the other limits.\<close>

theorem ai_hysteresis:
  assumes quiet: "ai_quiet prec" and sev: "ai_hhsv prec \<noteq> 0"
    and first: "dle (ai_hihi prec) v0"
    and band: "list_all (dle (dsub (ai_hihi prec) (ai_hyst prec))) vs"
    and last: "dlt v (dsub (ai_hihi prec) (ai_hyst prec))" "dlt v (ai_hihi prec)"
    and limits: "dlt (ai_high prec) (ai_hihi prec)" "dlt (ai_low prec) (ai_hihi prec)" "dlt (ai_lolo prec) (ai_hihi prec)"
  shows "ai_scans env (v0 # vs @ [v]) (prec, w)
           = replicate (Suc (length vs)) (HIHI_ALARM, min 3 (ai_hhsv prec)) @ [limit_state prec v]"
proof -
  have "ai_alarm_range (prec\<lparr>ai_val := v0\<rparr>) = (5, ai_hhsv prec, ai_hihi prec)"
    using sev first by (simp add: ai_alarm_range_def Let_def)
  then have r0: "ai_alarm_range ((fst (prec, w))\<lparr>ai_val := v0\<rparr>) = (5, ai_hhsv prec, ai_hihi prec)"
    by simp
  let ?s = "ai_scan env v0 (prec, w)"
  have "ai_quiet (fst (prec, w))" using quiet by simp
  note sq = scan_quiet [OF this r0, of env]
  have cfg: "ai_config (fst ?s) = ai_config prec" by (simp add: rec_simps)
  then have c1: "ai_hihi (fst ?s) = ai_hihi prec" "ai_hhsv (fst ?s) = ai_hhsv prec"
      "ai_hyst (fst ?s) = ai_hyst prec"
    by (simp_all add: ai_config_def)
  have refl: "deq (ai_hihi prec) (ai_hihi prec)"
    using first by (auto simp: deq_def dle_refl dle_def)
  let ?s' = "fold (ai_scan env) vs ?s"
  have hold: "ai_scans env (vs @ [v]) ?s =
           replicate (length vs) (3, min 3 (ai_hhsv prec)) @ ai_scans env [v] ?s'"
      "ai_quiet (fst ?s')" "ai_config (fst ?s') = ai_config prec"
      "deq (ai_lalm (fst ?s')) (ai_hihi prec)"
    using scans_hold_hihi [of ?s vs env "[v]"] sq sev band refl cfg c1 by auto
  have lalm: "\<not> deq (ai_lalm (fst ?s')) x" if "dlt x (ai_hihi prec)" for x
    using that hold(4) by (auto simp: deq_def dlt_def dest: dle_trans)
  have low: "\<not> dle (ai_hihi prec) v" "\<not> dle (dsub (ai_hihi prec) (ai_hyst prec)) v" using last by (simp_all add: dlt_def)
  obtain rng asev lev where r: "ai_alarm_range ((fst ?s')\<lparr>ai_val := v\<rparr>) = (rng, asev, lev)" by (metis prod.exhaust)
  have "(if asev = 0 then 0 else range_stat env rng, min 3 asev) = limit_state prec v"
    using r hold(3) low lalm [OF limits(1)] lalm [OF limits(2)] lalm [OF limits(3)]
    by (auto simp: ai_alarm_range_def ai_config_def Let_def limit_state_def split: if_splits)
  with scan_quiet [OF hold(2) r, of env] show ?thesis using hold(1) sq(1,2) sev by simp
qed


text \<open>A record for concrete inputs: limits 10, 20, 80 and 90 with a hysteresis of 5.\<close>

definition ai0 :: aiRecord where
  "ai0 = dbCommon.extend (rec0\<lparr>stat := 0, sevr := 0, acks := 0, udf := 0\<rparr>) (aiRecord.fields (Fin 0) 0 0 (Fin 0) ''C'' (Fin 100) (Fin 0) (Fin 0)
     (Fin 0) (Fin 0) (Fin 90) (Fin 10) (Fin 80) (Fin 20) 2 2 1 1 (Fin 5) (Fin 0) (Fin 0) (Fin 0)
     (Fin 0) (Fin 0) (Fin 0) (Fin 0) (Fin 1) (Fin 0) 0 (0, 0) False 0 0 ''@0'' (CONSTANT None) (Fin 0)
     (CONSTANT None) 0 0)"

lemmas ai0_simps = ai0_def rec0_def dbCommon.defs aiRecord.defs

lemma ai0_fields:
  "ai_hihi ai0 = Fin 90" "ai_hyst ai0 = Fin 5" "ai_high ai0 = Fin 80" "ai_low ai0 = Fin 20"
  "ai_lolo ai0 = Fin 10" "ai_hhsv ai0 = 2" "ai_quiet ai0"
  by (simp_all add: ai0_simps ai_quiet_def dlt_finite)

theorem ai_hysteresis_witness:
  "ai_scans env0 [Fin 95, Fin 88, Fin 86, Fin 50] (ai0, 0) = [(3, 2), (3, 2), (3, 2), (0, 0)]"
proof -
  have sub: "dsub (Fin 90) (Fin 5) = Fin 85" 
    using dround_of_int [of 85] by (simp add: dsub_def dadd_def)
  have min: "min 3 (2 :: enum16) = 2" by simp
  have "limit_state ai0 (Fin 50) = (0, 0)" by (simp add: limit_state_def ai0_fields dle_finite)
  then show ?thesis
    using ai_hysteresis [of ai0 "Fin 95" "[Fin 88, Fin 86]" "Fin 50" env0 0]
    by (simp add: ai0_fields dlt_finite dle_finite sub min del: ai_scans.simps)
qed

section \<open>Processing\<close>

lemma check_nsev:
  "nsev (ai_checkAlarms env p t) = max (nsev p)
     (if udf p \<noteq> 0 then udfs p
      else (case ai_level_filter env p t (ai_alarm_range p) of (_, _, asev, _) \<Rightarrow> asev))"
  by (auto simp: ai_checkAlarms_def recGblSetSevr_def Let_def max_def not_less word_gt_0
      split: prod.split)

lemma ai_process_sync:
  assumes "read_ai dset = Some read" "pact prec = 0" "ai_siml prec = CONSTANT c" "ai_simm prec = 0"
    and read: "read prec w = (status, r1, w1)"
    and conv: "r2 = (let r = fst (recGblGetTimeStamp env (r1\<lparr>pact := 1\<rparr>) w1)
                     in if status = 0 then ai_convert env r else r)"
  shows "(case ai_process env (Some dset) prec w of (st, p', w') \<Rightarrow>
     if pact r1 \<noteq> 0 then (st, p', w') = (0, r1, w1)
     else st = (if status = 2 then 0 else status) \<and> pact p' = 0 \<and> putf p' = 0 \<and> \<not> ai_init p'
        \<and> ai_val p' = ai_val r2 \<and> udf p' = udf r2
        \<and> sevr p' = min 3 (max (nsev r2)
             (if udf r2 \<noteq> 0 then udfs r2
              else case ai_level_filter env r2 (rtime prec) (ai_alarm_range r2) of (_, _, asev, _) \<Rightarrow> asev))
        \<and> (ai_mlst p' = ai_val p' \<or> \<not> dlt (ai_mdel r2) (ddist (ai_mlst p') (ai_val p'))))"
proof -
  have rv: "ai_readValue env read prec w = (status, r1, w1)"
    using assms(2-4) read by (simp add: ai_readValue_def dbGetLink_int_def Let_def ai_simm_update_id)
  obtain r w2 where ts: "recGblGetTimeStamp env (r1\<lparr>pact := 1\<rparr>) w1 = (r, w2)" by fastforce
  let ?c = "ai_checkAlarms env r2 (rtime prec)"
  obtain m w3 where mon: "ai_monitor env ?c w2 = (m, w3)" by fastforce
  obtain f w4 where fwd: "recGblFwdLink env m w3 = (f, w4)" by fastforce
  have res: "ai_process env (Some dset) prec w =
      (if pact r1 \<noteq> 0 then (0, r1, w1)
       else ((if status = 2 then 0 else status), f\<lparr>ai_init := False, pact := 0\<rparr>, w4))"
    using assms(1,2) rv ts conv mon fwd by (auto simp: ai_process_def Let_def)
  have f: "f = m\<lparr>rpro := (if rpro m \<noteq> 0 then 0 else rpro m), putf := 0\<rparr>"
    using fwdLink_simps [of env m w3] fwd by simp
  have "ai_val m = ai_val r2" "udf m = udf r2" "sevr m = min 3 (nsev ?c)"
      "ai_mlst m = (if dlt (ai_mdel ?c) (ddist (ai_mlst ?c) (ai_val ?c)) then ai_val ?c else ai_mlst ?c)"
      "ai_mdel ?c = ai_mdel r2" "ai_val ?c = ai_val r2"
    using monitor_ai_simps [of env ?c w2] mon by (simp_all add: rec_simps)
  then show ?thesis
    using check_nsev [of env r2 "rtime prec"] by (simp add: res f)
qed

text \<open>C7: Processing an ai record (not simulated, not active before): a device that starts an
  asynchronous operation (sets PACT) ends this pass at once, with nothing posted and no forward
  link; otherwise the record ends inactive, VAL is the device's value (status 2) or the converted
  raw value (status 0), the committed severity is the greatest of what was pending and what the
  alarm check finds (UDFS for an undefined value), and the value last posted to clients is the
  current one or within MDEL of it.\<close>

theorem ai_process_correct:
  assumes "read_ai dset = Some read" "pact prec = 0" "ai_siml prec = CONSTANT c" "ai_simm prec = 0"
    and read: "read prec w = (status, r1, w1)"
    and conv: "r2 = (let r = fst (recGblGetTimeStamp env (r1\<lparr>pact := 1\<rparr>) w1)
                     in if status = 0 then ai_convert env r else r)"
  shows "(case ai_process env (Some dset) prec w of (st, p', w') \<Rightarrow>
     if pact r1 \<noteq> 0 then (st, p', w') = (0, r1, w1)
     else st = (if status = 2 then 0 else status) \<and> pact p' = 0 \<and> putf p' = 0 \<and> \<not> ai_init p'
        \<and> ai_val p' = ai_val r2 \<and> udf p' = udf r2
        \<and> sevr p' = min 3 (max (nsev r2)
             (if udf r2 \<noteq> 0 then udfs r2
              else case ai_level_filter env r2 (rtime prec) (ai_alarm_range r2) of (_, _, asev, _) \<Rightarrow> asev))
        \<and> (ai_mlst p' = ai_val p' \<or> \<not> dlt (ai_mdel r2) (ddist (ai_mlst p') (ai_val p'))))"
  by (rule ai_process_sync [OF assms])

lemma inherit_ai_simps [rec_simps]: "ai_val (inherit_severity m a p) = ai_val p"
  by (simp add: inherit_severity_def recGblSetSevr_def Let_def split: option.split)

lemma get_link_int_ai_simps [rec_simps]:
  "ai_val (fst (snd (snd (dbGetLink_int env l old p w)))) = ai_val p"
  by (simp add: dbGetLink_int_def rec_simps split: link.split prod.split)

lemma time_stamp_ai_simps [rec_simps]:
  "ai_val (fst (recGblGetTimeStamp env p w)) = ai_val p"
proof (cases "tsel p")
  case (CONSTANT c)
  then show ?thesis by (simp add: recGblGetTimeStamp_def Let_def split: prod.split option.split)
next
  case (PV_LINK n m)
  obtain s v q u where l: "dbGetLink_int env (tsel p) (ucast (tse p)) p w = (s, v, q, u)"
    by (metis prod_cases4)
  then have "ai_val q = ai_val p"
    using get_link_int_ai_simps [of env "tsel p" "ucast (tse p)" p w] by simp
  with PV_LINK l show ?thesis
    by (simp add: recGblGetTimeStamp_def Let_def split: prod.split option.split)
qed

lemma ai_readValue_simulated:
  assumes "pact prec = 0" "ai_siml prec = CONSTANT c" "ai_simm prec \<noteq> 0"
  shows "ai_readValue env r1 prec w = ai_readValue env r2 prec w"
  using assms by (simp add: ai_readValue_def dbGetLink_int_def Let_def)

lemma ai_readValue_simm_yes:
  assumes "pact prec = 0" "ai_siml prec = CONSTANT c" "ai_simm prec = 1"
    and "dbGetLink_dbl env (ai_siol prec) (ai_sval prec) prec w = (s, v, q, u)"
  shows "\<exists>p1. ai_readValue env r prec w = (2, p1, u) \<and> pact p1 = 0
    \<and> (s = 0 \<longrightarrow> ai_val p1 = v)"
proof -
  have "pact q = 0"
    using get_link_dbl_pact [of env "ai_siol prec" "ai_sval prec" prec w] assms by simp
  then show ?thesis
    using assms
    by (simp add: ai_readValue_def dbGetLink_int_def Let_def ai_simm_update_id rec_simps)
qed

text \<open>In simulation mode the hardware is not touched: whatever the device support, a record whose
  SIMM is not NO behaves the same, and with SIMM = YES its value is the one read through SIOL.\<close>

theorem ai_simulation_isolates:
  assumes "pact prec = 0" "ai_siml prec = CONSTANT c" "ai_simm prec \<noteq> 0"
    "read_ai d1 \<noteq> None" "read_ai d2 \<noteq> None"
  shows "ai_process env (Some d1) prec w = ai_process env (Some d2) prec w
    \<and> (ai_simm prec = 1 \<longrightarrow>
        (case ai_process env (Some d1) prec w of (st, p', w') \<Rightarrow>
           case dbGetLink_dbl env (ai_siol prec) (ai_sval prec) prec w of (s, v, q, u) \<Rightarrow>
             st = 0 \<and> (s = 0 \<longrightarrow> ai_val p' = v)))"
proof (intro conjI impI)
  obtain f1 f2 where f: "read_ai d1 = Some f1" "read_ai d2 = Some f2" using assms(4,5) by auto
  show "ai_process env (Some d1) prec w = ai_process env (Some d2) prec w"
    using ai_readValue_simulated [OF assms(1-3), of env f1 w f2] f by (simp add: ai_process_def)
  assume yes: "ai_simm prec = 1"
  obtain s v q u where l: "dbGetLink_dbl env (ai_siol prec) (ai_sval prec) prec w = (s, v, q, u)"
    by (metis prod_cases4)
  obtain p1 where p1: "ai_readValue env f1 prec w = (2, p1, u)" "pact p1 = 0" "s = 0 \<longrightarrow> ai_val p1 = v"
    using ai_readValue_simm_yes [OF assms(1,2) yes l] by blast
  obtain r w2 where ts: "recGblGetTimeStamp env (p1\<lparr>pact := 1\<rparr>) u = (r, w2)" by fastforce
  obtain m w3 where mon: "ai_monitor env (ai_checkAlarms env r (rtime prec)) w2 = (m, w3)" by fastforce
  obtain g w4 where fwd: "recGblFwdLink env m w3 = (g, w4)" by fastforce
  have "ai_val g = ai_val m" using fwdLink_simps [of env m w3] fwd by simp
  also have "\<dots> = ai_val r"
    using monitor_ai_simps(1) [of env "ai_checkAlarms env r (rtime prec)" w2] mon by (simp add: rec_simps)
  also have "\<dots> = ai_val p1"
    using time_stamp_ai_simps [of env "p1\<lparr>pact := 1\<rparr>" u] ts by simp
  finally show "case ai_process env (Some d1) prec w of (st, p', w') \<Rightarrow>
      case dbGetLink_dbl env (ai_siol prec) (ai_sval prec) prec w of (s, v, q, u) \<Rightarrow>
        st = 0 \<and> (s = 0 \<longrightarrow> ai_val p' = v)"
    using f p1 ts mon fwd l assms(1) by (simp add: ai_process_def Let_def)
qed

text \<open>Device support for concrete inputs: a sensor whose reading is the state of the world.\<close>

definition dset0 :: "nat ai_dset" where
  "dset0 = \<lparr>ai_number = 6, ai_dev_init_record = None,
     read_ai = Some (\<lambda>prec w. (2, prec\<lparr>ai_val := Fin (rat_of_nat w), udf := 0\<rparr>, w)),
     special_linconv = None\<rparr>"

theorem ai_process_correct_witness:
  "sevr (fst (snd (ai_process env0 (Some dset0) ai0 85))) = 1"
  using ai_process_correct [of dset0 "\<lambda>prec w. (2, prec\<lparr>ai_val := Fin (rat_of_nat w), udf := 0\<rparr>, w)"
      ai0 None 85 2 "ai0\<lparr>ai_val := Fin 85, udf := 0\<rparr>" 85
      "ai0\<lparr>ai_val := Fin 85, udf := 0, pact := 1, rtime := (85, 0)\<rparr>" env0]
  by (simp add: dset0_def ai0_simps recGblGetTimeStamp_def env0_def ai_alarm_range_def
      ai_level_filter_def dle_finite deq_finite dlt_finite case_prod_beta Let_def)

theorem ai_simulation_isolates_witness:
  "ai_process env0 (Some dset0) (ai0\<lparr>ai_simm := 1\<rparr>) 85
     = ai_process env0 (Some (dset0\<lparr>read_ai := Some (\<lambda>prec w. (- 1, prec, 0))\<rparr>)) (ai0\<lparr>ai_simm := 1\<rparr>) 85"
  using ai_simulation_isolates [of "ai0\<lparr>ai_simm := 1\<rparr>" None dset0
      "dset0\<lparr>read_ai := Some (\<lambda>prec w. (- 1, prec, 0))\<rparr>" env0 85]
  by (simp add: dset0_def ai0_simps)

section \<open>Conversion\<close>

text \<open>Without LINR conversion and smoothing and with a unit (or zero, meaning unused) slope, no raw
  count is rounded: VAL is exactly RVAL + ROFF for all 32-bit values of both, and it is defined.\<close>

theorem ai_convert_raw_exact:
  assumes "ai_linr prec = 0" "ai_smoo prec = Fin 0" "ai_aoff prec = Fin 0"
    "ai_aslo prec = Fin 0 \<or> ai_aslo prec = Fin 1"
  shows "ai_val (ai_convert env prec) = Fin (of_int (sint (ai_rval prec) + uint (ai_roff prec)))
       \<and> udf (ai_convert env prec) = 0"
proof -
  let ?a = "sint (ai_rval prec)" and ?b = "uint (ai_roff prec)"
  have b: "\<bar>?a\<bar> < 2 ^ 53" "\<bar>?b\<bar> < 2 ^ 53" "\<bar>?a + ?b\<bar> < 2 ^ 53"
    using raw_bounds(1) [of "ai_rval prec"] raw_bounds(2) [of "ai_roff prec"] abs_triangle_ineq [of ?a ?b]
    by simp_all
  have s: "dadd (dint ?a) (dint ?b) = Fin (of_int (?a + ?b))"
    using b by (simp only: dint_exact dadd_Fin_int)
  have z: "dadd (Fin (of_int (?a + ?b))) (Fin 0) = Fin (of_int (?a + ?b))"
    using dadd_Fin_int [of "?a + ?b" 0] b by simp
  have "ai_val (ai_convert env prec) = Fin (of_int (?a + ?b))"
    using assms dmul_one [OF b(3)] s z
    by (auto simp: ai_convert_def Let_def deq_finite simp del: of_int_add)
  then show ?thesis by (simp add: convert_ai_simps)
qed

theorem ai_convert_raw_exact_witness:
  "ai_val (ai_convert env0 (ai0\<lparr>ai_rval := 4294967295, ai_roff := 4294967295\<rparr>)) = Fin 4294967294"
  using ai_convert_raw_exact [of "ai0\<lparr>ai_rval := 4294967295, ai_roff := 4294967295\<rparr>" env0]
  by (simp add: ai0_simps)

section \<open>The level filter and the clock\<close>

text \<open>The level filter assumes that time stamps do not go back. When the clock is stepped back by more
  than AFTC, the filtered level leaves the five ranges and the status is read outside the table.\<close>

lemma level_filter_clock_step:
  assumes "rtime prec = (7, 0)" "udf prec = 0" "nsev prec = 0" "ai_aftc prec = Fin 2"
    "ai_afvl prec = Fin 3" "ai_val prec = Fin 95" "ai_hihi prec = Fin 90" "ai_hhsv prec = 2"
    and clock: "time_diff env (7, 0) (10, 0) = Fin (- 3)"
    and cast: "c_int env (Fin 9) = 9"
  shows "nsta (ai_checkAlarms env prec (10, 0)) = oob_stat env 9"
proof -
  have r: "ai_alarm_range prec = (5, 2, Fin 90)"
    using assms by (simp add: ai_alarm_range_def dle_finite)
  have "dadd (Fin (- 3)) (Fin 2) = Fin (- 1)" "ddiv (Fin 2) (Fin (- 1)) = Fin (- 2)"
    "dmul (Fin (- 2)) (Fin 3) = Fin (- 6)" "dsub (Fin 1) (Fin (- 2)) = Fin 3" "dint 5 = Fin 5"
    "dmul (Fin 3) (Fin 5) = Fin 15" "dadd (Fin (- 6)) (Fin 15) = Fin 9" "dfloor (Fin 9) = Fin 9"
    "dsub (Fin 9) (Fin 9) = Fin 0"
    using dround_of_int [of "- 1"] dround_of_int [of "- 2"] dround_of_int [of "- 6"]
      dround_of_int [of 3] dround_of_int [of 5] dround_of_int [of 15] dround_of_int [of 9]
      dround_of_int [of 0]
    by (simp_all add: dadd_def dsub_def dmul_def ddiv_def dint_def dround_sign [of _ True])
  moreover have "\<not> dlt THRESHOLD (Fin 0)"
  proof -
    have "dfinite THRESHOLD" "0 \<le> dval THRESHOLD"
      unfolding THRESHOLD_def by (rule dround_le_int [of _ 1]; simp)+
    then have "dle (Fin 0) THRESHOLD" by (simp add: dle_finite)
    then show ?thesis by (simp add: dlt_def)
  qed
  ultimately have "ai_level_filter env prec (10, 0) (5, 2, Fin 90) = (Fin 9, 9, 2, Fin 90)"
    using assms by (simp add: ai_level_filter_def Let_def deq_finite dlt_finite)
  then show ?thesis
    using r assms by (simp add: ai_checkAlarms_def recGblSetSevr_def range_stat_def Let_def)
qed

end
