(* ===== verification/AoRecord.thy ===== *)
theory AoRecord
  imports RecGbl
begin

text \<open>
  The analog output record (std/rec/aoRecord.c): initialisation, fetching the desired output,
  drive limits and rate of change, conversion to a 32-bit raw value, the alarm check, the choice
  of what to do with an invalid output, writing through device support or the simulation link,
  monitors, and \<open>process\<close>.
\<close>

section \<open>Data\<close>

record aoRecord = dbCommon +
  ao_val :: double
  ao_oval :: double
  ao_pval :: double
  ao_oroc :: double
  ao_dol :: link
  ao_omsl :: enum16
  ao_oif :: enum16
  ao_prec :: int
  ao_linr :: enum16
  ao_egul :: double
  ao_roff :: u32
  ao_egu :: string
  ao_eoff :: double
  ao_eslo :: double
  ao_drvh :: double
  ao_drvl :: double
  ao_hopr :: double
  ao_lopr :: double
  ao_aoff :: double
  ao_aslo :: double
  ao_hihi :: double
  ao_lolo :: double
  ao_high :: double
  ao_low :: double
  ao_hhsv :: enum16
  ao_llsv :: enum16
  ao_hsv :: enum16
  ao_lsv :: enum16
  ao_hyst :: double
  ao_adel :: double
  ao_mdel :: double
  ao_rval :: u32
  ao_oraw :: u32
  ao_rbv :: u32
  ao_orbv :: u32
  ao_brk :: "nat \<times> int"
  ao_init :: bool
  ao_omod :: bool
  ao_lalm :: double
  ao_alst :: double
  ao_mlst :: double
  ao_out :: string
  ao_siol :: link
  ao_siml :: link
  ao_simm :: enum16
  ao_sims :: enum16
  ao_ivoa :: enum16
  ao_ivov :: double

record ('r, 'w) aodset =
  ao_number :: int
  ao_dev_init_record :: "('r \<Rightarrow> 'w \<Rightarrow> int \<times> 'r \<times> 'w) option"
  write_ao :: "('r \<Rightarrow> 'w \<Rightarrow> int \<times> 'r \<times> 'w) option"
  ao_special_linconv :: "('r \<Rightarrow> int \<Rightarrow> 'w \<Rightarrow> int \<times> 'r \<times> 'w) option"

type_synonym 'w ao_dset = "(aoRecord, 'w) aodset"

section \<open>Initialisation\<close>

text \<open>The initial value from the raw value: \<open>None\<close> when the breakpoint table fails.\<close>

definition ao_value_from_raw :: "'w rec_env \<Rightarrow> aoRecord \<Rightarrow> double option \<times> aoRecord" where
  "ao_value_from_raw env prec =
     (let v = dadd (dint (sint (ao_rval prec))) (dint (uint (ao_roff prec)));
          v = (if \<not> deq (ao_aslo prec) (Fin 0) then dmul v (ao_aslo prec) else v);
          v = dadd v (ao_aoff prec)
      in if ao_linr prec = 0 then (Some v, prec)
         else if ao_linr prec = 2 \<or> ao_linr prec = 1
         then (Some (dadd (dmul v (ao_eslo prec)) (ao_eoff prec)), prec)
         else case bpt_to_eng env v (ao_linr prec) (ao_init prec) (ao_brk prec) of
                (status, v, brk) \<Rightarrow> (if status \<noteq> 0 then None else Some v, prec\<lparr>ao_brk := brk\<rparr>))"

definition ao_init_record ::
  "'w rec_env \<Rightarrow> 'w ao_dset option \<Rightarrow> aoRecord \<Rightarrow> int \<Rightarrow> 'w \<Rightarrow> int \<times> aoRecord \<times> 'w" where
  "ao_init_record env dset prec pass w =
     (let eoff = ao_eoff prec; eslo = ao_eslo prec;
          finish = (\<lambda>prec w. (0, prec\<lparr>ao_pval := ao_val prec, ao_oval := ao_val prec,
             ao_mlst := ao_val prec, ao_alst := ao_val prec, ao_lalm := ao_val prec,
             ao_oraw := ao_rval prec, ao_orbv := ao_rbv prec\<rparr>, w))
      in if pass = 0 then (0, prec, w)
         else let prec = prec\<lparr>ao_simm := snd (recGblInitConstantLink (parse_u16 env) 0
                                               (ao_siml prec) (ao_simm prec))\<rparr>
              in case dset of
                   None \<Rightarrow> (S_dev_noDSET, prec, w)
                 | Some pdset \<Rightarrow>
                     let prec = (case recGblInitConstantLink (parse_dbl env) (Fin 0) (ao_dol prec) (ao_val prec) of
                                   (True, v) \<Rightarrow> prec\<lparr>ao_val := v, udf := flag (isnan v)\<rparr>
                                 | (False, _) \<Rightarrow> prec)
                     in if ao_number pdset < 6 \<or> write_ao pdset = None then (S_dev_missingSup, prec, w)
                        else let prec = prec\<lparr>ao_init := True\<rparr>;
                                 prec = (if deq (ao_eslo prec) (Fin 1) \<and> deq (ao_eoff prec) (Fin 0)
                                         then prec\<lparr>ao_eoff := ao_egul prec\<rparr> else prec)
                             in case ao_dev_init_record pdset of
                                  None \<Rightarrow> finish prec w
                                | Some init_record \<Rightarrow>
                                    (case init_record prec w of (status, prec, w) \<Rightarrow>
                                       let prec = (if ao_linr prec = 1
                                                   then prec\<lparr>ao_eoff := eoff, ao_eslo := eslo\<rparr> else prec)
                                       in if status = 0
                                          then (case ao_value_from_raw env prec of
                                                  (Some v, prec) \<Rightarrow>
                                                    finish (prec\<lparr>ao_val := v, udf := flag (isnan v)\<rparr>) w
                                                | (None, prec) \<Rightarrow> finish prec w)
                                          else if status = 2 then finish prec w
                                          else (S_dev_badInitRet, prec, w)))"

section \<open>The desired output\<close>

definition ao_fetch_value ::
  "'w rec_env \<Rightarrow> aoRecord \<Rightarrow> double \<Rightarrow> 'w \<Rightarrow> int \<times> double \<times> aoRecord \<times> 'w" where
  "ao_fetch_value env prec v0 w =
     (let save_pact = pact prec;
          prec = prec\<lparr>pact := TRUE, ao_val := ao_pval prec\<rparr>;
          (status, v, prec, w) = dbGetLink_dbl env (ao_dol prec) v0 prec w;
          prec = prec\<lparr>pact := save_pact\<rparr>
      in if status \<noteq> 0 then (status, v, snd (recGblSetSevr prec LINK_ALARM INVALID_ALARM), w)
         else (0, if ao_oif prec = 1 then dadd v (ao_val prec) else v, prec, w))"

text \<open>Drive limits, then the rate of change: the new VAL, and the output moved towards it by at most
  OROC.\<close>

definition ao_drive_limit :: "aoRecord \<Rightarrow> double \<Rightarrow> double" where
  "ao_drive_limit prec v =
     (if dlt (ao_drvl prec) (ao_drvh prec)
      then if dlt (ao_drvh prec) v then ao_drvh prec
           else if dlt v (ao_drvl prec) then ao_drvl prec else v
      else v)"

definition ao_rate_limit :: "aoRecord \<Rightarrow> double \<Rightarrow> double" where
  "ao_rate_limit prec v =
     (if \<not> deq (ao_oroc prec) (Fin 0)
      then let diff = dsub v (ao_oval prec)
           in if dlt diff (Fin 0)
              then if dlt (ao_oroc prec) (dneg diff) then dsub (ao_oval prec) (ao_oroc prec) else v
              else if dlt (ao_oroc prec) diff then dadd (ao_oval prec) (ao_oroc prec) else v
      else v)"

text \<open>The last step of the conversion: a double rounded to a 32-bit integer, with saturation.\<close>

definition ao_raw_round :: "'w rec_env \<Rightarrow> double \<Rightarrow> u32" where
  "ao_raw_round env v =
     (if dle (Fin 0) v
      then if dle (Fin (2147483647 - 1 / 2)) v then 0x7fffffff
           else of_int (c_int env (dadd v (Fin (1 / 2))))
      else if dlt (Fin (1 / 2 - 2147483648)) v then of_int (c_int env (dsub v (Fin (1 / 2))))
           else 0x80000000)"

definition ao_convert :: "'w rec_env \<Rightarrow> aoRecord \<Rightarrow> double \<Rightarrow> aoRecord" where
  "ao_convert env prec v =
     (let v = ao_drive_limit prec v;
          prec = prec\<lparr>ao_val := v, ao_pval := v\<rparr>;
          v = ao_rate_limit prec v;
          prec = prec\<lparr>ao_omod := \<not> deq (ao_oval prec) v, ao_oval := v\<rparr>;
          (ok, v, prec) =
            (if ao_linr prec = 0 then (True, v, prec)
             else if ao_linr prec = 2 \<or> ao_linr prec = 1
             then (True, if deq (ao_eslo prec) (Fin 0) then Fin 0
                         else ddiv (dsub v (ao_eoff prec)) (ao_eslo prec), prec)
             else case bpt_to_raw env v (ao_linr prec) (ao_init prec) (ao_brk prec) of
                    (status, v, brk) \<Rightarrow>
                      let prec = prec\<lparr>ao_brk := brk\<rparr>
                      in if status \<noteq> 0
                         then (False, v, snd (recGblSetSevr prec SOFT_ALARM MAJOR_ALARM))
                         else (True, v, prec))
      in if \<not> ok then prec
         else let v = dsub v (ao_aoff prec);
                  v = (if \<not> deq (ao_aslo prec) (Fin 0) then ddiv v (ao_aslo prec) else v);
                  v = dsub v (dint (uint (ao_roff prec)))
              in prec\<lparr>ao_rval := ao_raw_round env v\<rparr>)"

section \<open>Alarms, output and monitors\<close>

definition ao_checkAlarms :: "aoRecord \<Rightarrow> aoRecord" where
  "ao_checkAlarms prec =
     (let v = ao_val prec; hyst = ao_hyst prec; lalm = ao_lalm prec;
          report = (\<lambda>st asev alev. case recGblSetSevr prec st asev of
             (raised, prec) \<Rightarrow> if raised then prec\<lparr>ao_lalm := alev\<rparr> else prec)
      in if udf prec \<noteq> 0 then snd (recGblSetSevr prec UDF_ALARM (udfs prec))
         else if ao_hhsv prec \<noteq> 0 \<and> (dle (ao_hihi prec) v \<or>
              deq lalm (ao_hihi prec) \<and> dle (dsub (ao_hihi prec) hyst) v)
         then report HIHI_ALARM (ao_hhsv prec) (ao_hihi prec)
         else if ao_llsv prec \<noteq> 0 \<and> (dle v (ao_lolo prec) \<or>
              deq lalm (ao_lolo prec) \<and> dle v (dadd (ao_lolo prec) hyst))
         then report LOLO_ALARM (ao_llsv prec) (ao_lolo prec)
         else if ao_hsv prec \<noteq> 0 \<and> (dle (ao_high prec) v \<or>
              deq lalm (ao_high prec) \<and> dle (dsub (ao_high prec) hyst) v)
         then report HIGH_ALARM (ao_hsv prec) (ao_high prec)
         else if ao_lsv prec \<noteq> 0 \<and> (dle v (ao_low prec) \<or>
              deq lalm (ao_low prec) \<and> dle v (dadd (ao_low prec) hyst))
         then report LOW_ALARM (ao_lsv prec) (ao_low prec)
         else prec\<lparr>ao_lalm := v\<rparr>)"

definition ao_writeValue ::
  "'w rec_env \<Rightarrow> (aoRecord \<Rightarrow> 'w \<Rightarrow> int \<times> aoRecord \<times> 'w) \<Rightarrow> aoRecord \<Rightarrow> 'w
     \<Rightarrow> int \<times> aoRecord \<times> 'w" where
  "ao_writeValue env wr prec w =
     (if pact prec = TRUE then wr prec w
      else case dbGetLink_int env (ao_siml prec) (ucast (ao_simm prec)) prec w of
        (status, v, prec, w) \<Rightarrow>
          let prec = prec\<lparr>ao_simm := ucast v\<rparr>
          in if status \<noteq> 0 then (status, prec, w)
             else if ao_simm prec = 0 then wr prec w
             else if ao_simm prec = 1
             then (case dbPutLink_dbl env (ao_siol prec) (ao_oval prec) prec w of
                     (status, prec, w) \<Rightarrow>
                       (status, snd (recGblSetSevr prec SIMM_ALARM (ao_sims prec)), w))
             else (- 1, snd (recGblSetSevr prec SOFT_ALARM INVALID_ALARM), w))"

definition ao_monitor :: "'w rec_env \<Rightarrow> aoRecord \<Rightarrow> 'w \<Rightarrow> aoRecord \<times> 'w" where
  "ao_monitor env prec w =
     (let (monitor_mask, prec, w) = recGblResetAlarms env prec w;
          (mlst, monitor_mask) =
            recGblCheckDeadband (ao_mlst prec) (ao_val prec) (ao_mdel prec) monitor_mask DBE_VALUE;
          (alst, monitor_mask) =
            recGblCheckDeadband (ao_alst prec) (ao_val prec) (ao_adel prec) monitor_mask DBE_LOG;
          prec = prec\<lparr>ao_mlst := mlst, ao_alst := alst\<rparr>;
          prec = (if monitor_mask \<noteq> 0 then db_post_events ''VAL'' monitor_mask prec else prec);
          monitor_mask = (if ao_omod prec then monitor_mask OR (DBE_VALUE OR DBE_LOG) else monitor_mask);
          prec =
            (if monitor_mask \<noteq> 0
             then let prec = db_post_events ''OVAL'' monitor_mask (prec\<lparr>ao_omod := False\<rparr>);
                      prec = (if ao_oraw prec \<noteq> ao_rval prec
                              then (db_post_events ''RVAL'' (monitor_mask OR DBE_VALUE OR DBE_LOG) prec)
                                     \<lparr>ao_oraw := ao_rval prec\<rparr> else prec)
                  in if ao_orbv prec \<noteq> ao_rbv prec
                     then (db_post_events ''RBV'' (monitor_mask OR DBE_VALUE OR DBE_LOG) prec)
                            \<lparr>ao_orbv := ao_rbv prec\<rparr> else prec
             else prec)
      in (prec, w))"

text \<open>\<open>process\<close>: the part up to the alarm check, the output, and the whole. \<open>v0\<close> is the uninitialised
  local \<open>value\<close>, which a DOL link overwrites; the status of a failed DOL link is kept when the
  output is not driven.\<close>

definition ao_desired ::
  "'w rec_env \<Rightarrow> aoRecord \<Rightarrow> double \<Rightarrow> 'w \<Rightarrow> int \<times> aoRecord \<times> 'w" where
  "ao_desired env prec v0 w =
     (if pact prec = FALSE
      then let (status, v, prec, w) =
                 (if \<not> is_CONSTANT (ao_dol prec) \<and> ao_omsl prec = 1
                  then ao_fetch_value env prec v0 w else (0, ao_val prec, prec, w));
               prec = (if status = 0 then ao_convert env prec v else prec)
           in (status, prec\<lparr>udf := flag (isnan (ao_val prec))\<rparr>, w)
      else (0, prec, w))"

definition ao_output ::
  "'w rec_env \<Rightarrow> (aoRecord \<Rightarrow> 'w \<Rightarrow> int \<times> aoRecord \<times> 'w) \<Rightarrow> int \<Rightarrow> aoRecord \<Rightarrow> 'w
     \<Rightarrow> int \<times> aoRecord \<times> 'w" where
  "ao_output env wr status prec w =
     (if nsev prec < INVALID_ALARM then ao_writeValue env wr prec w
      else if ao_ivoa prec = 0 then ao_writeValue env wr prec w
      else if ao_ivoa prec = 1 then (status, prec, w)
      else if ao_ivoa prec = 2
      then let prec = (if pact prec = FALSE
                       then ao_convert env (prec\<lparr>ao_val := ao_ivov prec\<rparr>) (ao_ivov prec) else prec)
           in ao_writeValue env wr prec w
      else (- 1, prec, w))"

definition ao_process ::
  "'w rec_env \<Rightarrow> 'w ao_dset option \<Rightarrow> double \<Rightarrow> aoRecord \<Rightarrow> 'w \<Rightarrow> int \<times> aoRecord \<times> 'w" where
  "ao_process env dset v0 prec w =
     (case Option.bind dset write_ao of
        None \<Rightarrow> (S_dev_missingSup, prec\<lparr>pact := TRUE\<rparr>, w)
      | Some wr \<Rightarrow>
          let was_active = pact prec;
              (status, prec, w) = ao_desired env prec v0 w;
              prec = ao_checkAlarms prec;
              (status, prec, w) = ao_output env wr status prec w
          in if was_active = 0 \<and> pact prec \<noteq> 0 then (0, prec, w)
             else let prec = prec\<lparr>pact := TRUE\<rparr>;
                      (prec, w) = recGblGetTimeStamp env prec w;
                      (prec, w) = ao_monitor env prec w;
                      (prec, w) = recGblFwdLink env prec w
                  in (status, prec\<lparr>ao_init := False, pact := FALSE\<rparr>, w))"

section \<open>Field access\<close>

definition ao_special ::
  "'w ao_dset \<Rightarrow> dbAddr \<Rightarrow> int \<Rightarrow> aoRecord \<Rightarrow> 'w \<Rightarrow> int \<times> aoRecord \<times> 'w" where
  "ao_special pdset paddr after prec w =
     (if special_type paddr = SPC_LINCONV
      then if ao_number pdset < 6 then (S_db_noMod, prec, w)
           else let prec = prec\<lparr>ao_init := True\<rparr>
                in if ao_linr prec = 2
                   then (case ao_special_linconv pdset of
                           None \<Rightarrow> (0, prec, w)
                         | Some linconv \<Rightarrow>
                             let eoff = ao_eoff prec; eslo = ao_eslo prec;
                                 (status, prec, w) = linconv (prec\<lparr>ao_eoff := ao_egul prec\<rparr>) after w;
                                 prec = (if \<not> deq eoff (ao_eoff prec)
                                         then db_post_events ''EOFF'' (DBE_VALUE OR DBE_LOG) prec else prec);
                                 prec = (if \<not> deq eslo (ao_eslo prec)
                                         then db_post_events ''ESLO'' (DBE_VALUE OR DBE_LOG) prec else prec)
                             in (status, prec, w))
                   else (0, prec, w)
      else (S_db_badChoice, prec, w))"

definition ao_get_units :: "dbAddr \<Rightarrow> aoRecord \<Rightarrow> string \<Rightarrow> string" where
  "ao_get_units paddr prec units =
     (if field_type paddr = DBF_DOUBLE \<and> field paddr \<notin> {''ASLO'', ''AOFF''}
      then c_strncpy DB_UNITS_SIZE (ao_egu prec) units else units)"

definition ao_get_precision :: "dbAddr \<Rightarrow> aoRecord \<Rightarrow> int" where
  "ao_get_precision paddr prec =
     (if field paddr \<in> {''VAL'', ''OVAL'', ''PVAL''} then ao_prec prec
      else recGblGetPrec paddr (ao_prec prec))"

definition ao_val_like :: "string \<Rightarrow> bool" where
  "ao_val_like f \<longleftrightarrow> f \<in> {''VAL'', ''OVAL'', ''PVAL'', ''HIHI'', ''HIGH'', ''LOW'', ''LOLO'', ''LALM'',
     ''ALST'', ''MLST''}"

definition ao_get_graphic_double :: "bool \<Rightarrow> dbAddr \<Rightarrow> aoRecord \<Rightarrow> double \<times> double \<Rightarrow> double \<times> double" where
  "ao_get_graphic_double sgnd paddr prec pgd =
     (if ao_val_like (field paddr) \<or> field paddr = ''IVOV'' then (ao_hopr prec, ao_lopr prec)
      else recGblGetGraphicDouble sgnd paddr pgd)"

definition ao_get_control_double :: "bool \<Rightarrow> dbAddr \<Rightarrow> aoRecord \<Rightarrow> double \<times> double \<Rightarrow> double \<times> double" where
  "ao_get_control_double sgnd paddr prec pcd =
     (if ao_val_like (field paddr) then (ao_drvh prec, ao_drvl prec)
      else recGblGetControlDouble sgnd paddr pcd)"

definition ao_get_alarm_double :: "dbAddr \<Rightarrow> aoRecord \<Rightarrow> alarm_limits" where
  "ao_get_alarm_double paddr prec =
     (if field paddr = ''VAL''
      then (if ao_hhsv prec \<noteq> 0 then ao_hihi prec else NaN,
            if ao_hsv prec \<noteq> 0 then ao_high prec else NaN,
            if ao_lsv prec \<noteq> 0 then ao_low prec else NaN,
            if ao_llsv prec \<noteq> 0 then ao_lolo prec else NaN)
      else recGblGetAlarmDouble)"

section \<open>Rounding to the raw value\<close>

text \<open>Casts that C defines have their defined value.\<close>

definition casts_defined :: "'w rec_env \<Rightarrow> bool" where
  "casts_defined env \<longleftrightarrow> (\<forall>x i. dtoint 32 x = Some i \<longrightarrow> c_int env x = i)"

lemma dtoint_finite:
  "dfinite x \<Longrightarrow> - 2147483648 \<le> trunc_rat (dval x) \<Longrightarrow> trunc_rat (dval x) \<le> 2147483647 \<Longrightarrow>
   dtoint 32 x = Some (trunc_rat (dval x))"
  by (simp add: dtoint_def)

lemma trunc_nonneg: "0 \<le> q \<Longrightarrow> q \<le> of_int n \<Longrightarrow> 0 \<le> trunc_rat q \<and> trunc_rat q \<le> n"
  by (simp add: trunc_rat_def floor_le_iff)

lemma trunc_nonpos: "q \<le> 0 \<Longrightarrow> - of_int n \<le> q \<Longrightarrow> - n \<le> trunc_rat q \<and> trunc_rat q \<le> 0"
  using trunc_nonneg [of "- q" n] by (auto simp: trunc_rat_def)

lemma finite_between: "dle (Fin a) v \<Longrightarrow> \<not> dle (Fin b) v \<Longrightarrow> dfinite v \<and> a \<le> dval v \<and> dval v < b"
  by (cases v) (auto simp: dle_def)

lemma finite_between': "\<not> dle (Fin b) v \<Longrightarrow> dlt (Fin a) v \<Longrightarrow> dfinite v \<and> a < dval v \<and> dval v < b"
  by (cases v) (auto simp: dle_def dlt_def)

lemma round_up_cast:
  assumes "dle (Fin 0) v" "\<not> dle (Fin (2147483647 - 1 / 2)) v"
  shows "\<exists>i. 0 \<le> i \<and> i \<le> 2147483647 \<and> dtoint 32 (dadd v (Fin (1 / 2))) = Some i"
proof -
  have v: "dfinite v" "0 \<le> dval v" "dval v < 2147483647 - 1 / 2"
    using finite_between [OF assms] by simp_all
  define x where "x = dval v + 1 / 2"
  have x: "0 \<le> x" "\<bar>x\<bar> \<le> of_int 2147483647" using v by (simp_all add: x_def)
  have eq: "dadd v (Fin (1 / 2)) = dround False x"
    using v(1) by (cases v) (simp_all add: dadd_def x_def)
  have "dfinite (dround False x)" "\<bar>dval (dround False x)\<bar> \<le> of_int 2147483647"
      "0 \<le> dval (dround False x)"
    using dround_le_int [OF x(2)] x(1) by simp_all
  moreover from this have "0 \<le> trunc_rat (dval (dround False x)) \<and> trunc_rat (dval (dround False x)) \<le> 2147483647"
    using trunc_nonneg [of "dval (dround False x)" 2147483647] by simp
  ultimately show ?thesis
    using dtoint_finite [of "dround False x"] by (auto simp: eq)
qed

lemma round_down_cast:
  assumes "\<not> dle (Fin 0) v" "dlt (Fin (1 / 2 - 2147483648)) v"
  shows "\<exists>i. - 2147483648 \<le> i \<and> i \<le> 0 \<and> dtoint 32 (dsub v (Fin (1 / 2))) = Some i"
proof -
  have v: "dfinite v" "dval v < 0" "1 / 2 - 2147483648 < dval v"
    using finite_between' [OF assms] by simp_all
  define x where "x = dval v - 1 / 2"
  have x: "x \<le> 0" "\<bar>x\<bar> \<le> of_int 2147483648" using v by (simp_all add: x_def)
  have eq: "dsub v (Fin (1 / 2)) = dround False x"
    using v(1) by (cases v) (simp_all add: dsub_def dadd_def x_def)
  have "dfinite (dround False x)" "\<bar>dval (dround False x)\<bar> \<le> of_int 2147483648"
      "dval (dround False x) \<le> 0"
    using dround_le_int [OF x(2)] x(1) by simp_all
  moreover from this have "- 2147483648 \<le> trunc_rat (dval (dround False x)) \<and> trunc_rat (dval (dround False x)) \<le> 0"
    using trunc_nonpos [of "dval (dround False x)" 2147483648] by simp
  ultimately show ?thesis
    using dtoint_finite [of "dround False x"] by (auto simp: eq)
qed

text \<open>The conversion to the 32-bit raw value has no undefined behaviour: for every double, NaN and
  the infinities included, either it saturates or the cast it makes is in the range of the type;
  too large values give the largest integer, too small ones and NaN the smallest.\<close>

theorem ao_raw_round_defined:
  "(if dle (Fin 0) v
    then if dle (Fin (2147483647 - 1 / 2)) v then sint (ao_raw_round env v) = 2147483647
         else \<exists>i. 0 \<le> i \<and> i \<le> 2147483647 \<and> dtoint 32 (dadd v (Fin (1 / 2))) = Some i
    else if dlt (Fin (1 / 2 - 2147483648)) v
         then \<exists>i. - 2147483648 \<le> i \<and> i \<le> 0 \<and> dtoint 32 (dsub v (Fin (1 / 2))) = Some i
         else sint (ao_raw_round env v) = - 2147483648)"
  using round_up_cast [of v] round_down_cast [of v] by (simp add: ao_raw_round_def)

lemma sint_of_int_32: "- 2147483648 \<le> i \<Longrightarrow> i \<le> 2147483647 \<Longrightarrow> sint (of_int i :: u32) = i"
  by (simp add: sint_word_ariths signed_take_bit_int_eq_self_iff signed_of_int)

text \<open>Rounding half away from zero, with saturation to 32 bits.\<close>

definition round_clamp :: "rat \<Rightarrow> int" where
  "round_clamp q = max (- 2147483648) (min 2147483647
     (if 0 \<le> q then \<lfloor>q + 1 / 2\<rfloor> else - \<lfloor>1 / 2 - q\<rfloor>))"


lemma clamp_neg: "0 \<le> i \<Longrightarrow> i \<le> 2147483648 \<Longrightarrow> max (- 2147483648) (min 2147483647 (- i)) = - (i :: int)"
  by (auto simp: max_def min_def)

lemma clamp_low: "2147483648 \<le> i \<Longrightarrow> max (- 2147483648) (min 2147483647 (- i)) = - (2147483648 :: int)"
  by (auto simp: max_def min_def)

lemma half_exact:
  fixes k :: int and j :: nat
  assumes "\<bar>k\<bar> < 2 ^ 51" "j \<le> 21" "q = of_int k / 2 ^ j"
  shows "dfinite (dadd (Fin q) (Fin (1 / 2)))" "dval (dadd (Fin q) (Fin (1 / 2))) = q + 1 / 2"
    "dfinite (dsub (Fin q) (Fin (1 / 2)))" "dval (dsub (Fin q) (Fin (1 / 2))) = q - 1 / 2"
proof -
  have j: "(2 :: int) ^ j \<le> 2 ^ 21" using assms(2) by (rule power_increasing) simp
  define m :: int where "m = 2 ^ j"
  have "0 \<le> m" "m \<le> 2 ^ 21" using j by (simp_all add: m_def)
  then have "\<bar>2 * k + m\<bar> < 2 ^ 53" "\<bar>2 * k - m\<bar> < 2 ^ 53" using assms(1) by auto
  then have b: "\<bar>2 * k + 2 ^ j\<bar> < 2 ^ 53" "\<bar>2 * k - 2 ^ j\<bar> < 2 ^ 53" by (simp_all add: m_def)
  have e: "q + 1 / 2 = of_int (2 * k + 2 ^ j) / 2 ^ Suc j" "q - 1 / 2 = of_int (2 * k - 2 ^ j) / 2 ^ Suc j"
    using assms(3) by (simp_all add: field_simps)
  show "dfinite (dadd (Fin q) (Fin (1 / 2)))" "dval (dadd (Fin q) (Fin (1 / 2))) = q + 1 / 2"
    using dadd_exact [of "Fin q" "Fin (1 / 2)" "2 * k + 2 ^ j" "Suc j"] b e assms(2) by simp_all
  show "dfinite (dsub (Fin q) (Fin (1 / 2)))" "dval (dsub (Fin q) (Fin (1 / 2))) = q - 1 / 2"
    using dadd_exact [of "Fin q" "Fin (- 1 / 2)" "2 * k - 2 ^ j" "Suc j"] b e assms(2)
    by (simp_all add: dsub_def)
qed

text \<open>On values with up to 21 fractional bits (so that adding one half is exact) the raw value is
  the nearest 32-bit integer, halves rounded away from zero, saturating at the ends of the range.\<close>

theorem ao_raw_round_nearest:
  fixes k :: int and j :: nat
  assumes env: "casts_defined env" and k: "\<bar>k\<bar> < 2 ^ 51" "j \<le> 21"
  shows "sint (ao_raw_round env (Fin (of_int k / 2 ^ j))) = round_clamp (of_int k / 2 ^ j)"
proof -
  define q :: rat where "q = of_int k / 2 ^ j"
  note ex = half_exact [OF k q_def]
  have "sint (ao_raw_round env (Fin q)) = round_clamp q"
  proof (cases "0 \<le> q")
    case True
    show ?thesis
    proof (cases "2147483647 - 1 / 2 \<le> q")
      case True
      then have "2147483647 \<le> \<lfloor>q + 1 / 2\<rfloor>" by linarith
      then show ?thesis using True \<open>0 \<le> q\<close>
        by (simp add: ao_raw_round_def dle_finite round_clamp_def)
    next
      case False
      have t: "trunc_rat (q + 1 / 2) = \<lfloor>q + 1 / 2\<rfloor>" using \<open>0 \<le> q\<close> by (simp add: trunc_rat_def)
      have r: "0 \<le> \<lfloor>q + 1 / 2\<rfloor>" "\<lfloor>q + 1 / 2\<rfloor> \<le> 2147483647" using False \<open>0 \<le> q\<close> by linarith+
      then have "c_int env (dadd (Fin q) (Fin (1 / 2))) = \<lfloor>q + 1 / 2\<rfloor>"
        using env dtoint_finite [of "dadd (Fin q) (Fin (1 / 2))"] ex t by (simp add: casts_defined_def)
      then show ?thesis
        using False \<open>0 \<le> q\<close> r by (simp add: ao_raw_round_def dle_finite round_clamp_def sint_of_int_32)
    qed
  next
    case False
    show ?thesis
    proof (cases "1 / 2 - 2147483648 < q")
      case True
      have t: "trunc_rat (q - 1 / 2) = - \<lfloor>1 / 2 - q\<rfloor>" using False by (simp add: trunc_rat_def)
      have r: "0 \<le> \<lfloor>1 / 2 - q\<rfloor>" "\<lfloor>1 / 2 - q\<rfloor> \<le> 2147483648" using False True by linarith+
      have "- 2147483648 \<le> trunc_rat (dval (dsub (Fin q) (Fin (1 / 2))))"
          "trunc_rat (dval (dsub (Fin q) (Fin (1 / 2)))) \<le> 2147483647"
        unfolding ex(4) t using r by linarith+
      then have "dtoint 32 (dsub (Fin q) (Fin (1 / 2))) = Some (- \<lfloor>1 / 2 - q\<rfloor>)"
        using dtoint_finite [OF ex(3)] by (simp only: ex(4) t)
      then have "c_int env (dsub (Fin q) (Fin (1 / 2))) = - \<lfloor>1 / 2 - q\<rfloor>"
        using env by (simp add: casts_defined_def)
      then have "ao_raw_round env (Fin q) = of_int (- \<lfloor>1 / 2 - q\<rfloor>)"
        using False True by (simp add: ao_raw_round_def dle_finite dlt_finite del: of_int_minus)
      moreover have "round_clamp q = - \<lfloor>1 / 2 - q\<rfloor>"
        unfolding round_clamp_def if_not_P [OF False] by (rule clamp_neg [OF r])
      moreover have "sint (of_int (- \<lfloor>1 / 2 - q\<rfloor>) :: u32) = - \<lfloor>1 / 2 - q\<rfloor>"
        using r by (intro sint_of_int_32) linarith+
      ultimately show ?thesis by simp
    next
      case False
      then have "2147483648 \<le> \<lfloor>1 / 2 - q\<rfloor>" by linarith
      then have "round_clamp q = - 2147483648"
        unfolding round_clamp_def if_not_P [OF \<open>\<not> 0 \<le> q\<close>] by (rule clamp_low)
      then show ?thesis using False \<open>\<not> 0 \<le> q\<close>
        by (simp add: ao_raw_round_def dle_finite dlt_finite)
    qed
  qed
  then show ?thesis by (simp add: q_def)
qed

lemma env0_casts: "casts_defined env0"
  by (auto simp: casts_defined_def env0_def dtoint_def Let_def split: if_splits)

theorem ao_raw_round_nearest_witness:
  "sint (ao_raw_round env0 (Fin (- 5 / 2))) = - 3"
proof -
  have "round_clamp (- 5 / 2) = - 3" by (simp add: round_clamp_def)
  then show ?thesis using ao_raw_round_nearest [of env0 "- 5" 1] env0_casts by simp
qed

section \<open>Drive limits and rate of change\<close>

lemma ao_convert_fields [rec_simps]:
  "ao_val (ao_convert env p v) = ao_drive_limit p v"
  "ao_pval (ao_convert env p v) = ao_drive_limit p v"
  "ao_oval (ao_convert env p v) = ao_rate_limit p (ao_drive_limit p v)"
  "ao_oroc (ao_convert env p v) = ao_oroc p"
  "ao_drvh (ao_convert env p v) = ao_drvh p"
  "ao_drvl (ao_convert env p v) = ao_drvl p"
  by (simp_all add: ao_convert_def ao_rate_limit_def recGblSetSevr_def Let_def split: prod.split)

text \<open>With DRVL below DRVH, whatever is written to the record, VAL and PVAL end up between the drive
  limits; values that are within them already are kept.\<close>

theorem ao_drive_limits:
  assumes "dlt (ao_drvl p) (ao_drvh p)" "\<not> isnan v"
  shows "dle (ao_drvl p) (ao_val (ao_convert env p v)) \<and> dle (ao_val (ao_convert env p v)) (ao_drvh p)
       \<and> ao_pval (ao_convert env p v) = ao_val (ao_convert env p v)
       \<and> (if dle (ao_drvl p) v \<and> dle v (ao_drvh p) then ao_val (ao_convert env p v) = v
          else ao_val (ao_convert env p v) \<in> {ao_drvl p, ao_drvh p})"
proof -
  have n: "\<not> isnan (ao_drvl p)" "\<not> isnan (ao_drvh p)" using assms(1) by (auto simp: dlt_def)
  have "dle (ao_drvl p) (ao_drvh p)" using assms(1) by (rule dlt_imp_dle)
  then show ?thesis
    using assms n by (auto simp: rec_simps ao_drive_limit_def dlt_def dle_refl)
qed

text \<open>The output after \<open>n\<close> conversions to the same value.\<close>

definition ao_ramp :: "'w rec_env \<Rightarrow> double \<Rightarrow> nat \<Rightarrow> aoRecord \<Rightarrow> aoRecord" where
  "ao_ramp env v n p = ((\<lambda>q. ao_convert env q v) ^^ n) p"

definition ramp_spec :: "int \<Rightarrow> int \<Rightarrow> int \<Rightarrow> nat \<Rightarrow> int" where
  "ramp_spec a b c n = (if a \<le> b then min b (a + int n * c) else max b (a - int n * c))"

text \<open>The double with the value \<open>i\<close> units of \<open>1 / 2\<^sup>k\<close>.\<close>

definition units :: "nat \<Rightarrow> int \<Rightarrow> double" where
  "units k i = Fin (of_int i / 2 ^ k)"

lemma units_order [simp]:
  "dlt (units k a) (units k b) \<longleftrightarrow> a < b" "deq (units k a) (Fin 0) \<longleftrightarrow> a = 0" "dlt (units k a) (Fin 0) \<longleftrightarrow> a < 0"
  by (simp_all add: units_def dlt_finite deq_finite divide_less_cancel divide_less_0_iff)

lemma round_units: "\<bar>i\<bar> < 2 ^ 53 \<Longrightarrow> k \<le> 1074 \<Longrightarrow> dround False (of_int i / 2 ^ k) = units k i"
  using dround_dyadic [of i k False] by (cases "i = 0") (simp_all add: units_def dround_def)

lemma units_arith:
  assumes "k \<le> 1074"
  shows "\<bar>a + b\<bar> < 2 ^ 53 \<Longrightarrow> dadd (units k a) (units k b) = units k (a + b)"
    and "\<bar>a - b\<bar> < 2 ^ 53 \<Longrightarrow> dsub (units k a) (units k b) = units k (a - b)"
    and "a \<noteq> 0 \<Longrightarrow> dneg (units k a) = units k (- a)"
  using round_units [of "a + b" k] round_units [of "a - b" k] assms
  by (auto simp: units_def dsub_def dadd_def add_divide_distrib diff_divide_distrib)

lemma rate_limit_units:
  assumes "ao_oroc p = units k c" "ao_oval p = units k a" "0 < c" "c < 2 ^ 51" "\<bar>a\<bar> < 2 ^ 51" "\<bar>b\<bar> < 2 ^ 51" "k \<le> 1074"
  shows "ao_rate_limit p (units k b) = units k (if b < a then max b (a - c) else min b (a + c))"
proof -
  have "\<bar>b - a\<bar> < 2 ^ 53" "\<bar>a - c\<bar> < 2 ^ 53" "\<bar>a + c\<bar> < 2 ^ 53" using assms by auto
  then have e: "dsub (units k b) (units k a) = units k (b - a)" "dsub (units k a) (units k c) = units k (a - c)"
      "dadd (units k a) (units k c) = units k (a + c)"
    using units_arith(1,2) [OF assms(7)] by blast+
  have n: "b < a \<Longrightarrow> dneg (units k (b - a)) = units k (a - b)" using units_arith(3) [OF assms(7), of "b - a"] by simp
  show ?thesis
    using assms(1-3) by (auto simp: ao_rate_limit_def e n Let_def max_def min_def intro!: arg_cong [where f = "units k"])
qed

text \<open>C9: The rate of change limit OROC, in fixed-point values: let the output, OROC and the value written, after the
  drive limits, be multiples a, c > 0 and b of a common unit 1/2^k, each below 2^51 units. Then repeated conversions
  to this value move the output towards b by exactly c per conversion without overshooting, and it arrives
  after |b - a| / c steps, rounded up, and stays. (Doubles that are not on such a grid are rounded at each step.)\<close>

theorem ao_ramp_reaches:
  assumes "ao_oroc p = units k c" "ao_oval p = units k a" "ao_drive_limit p v = units k b"
    and "0 < c" "c < 2 ^ 51" "\<bar>a\<bar> < 2 ^ 51" "\<bar>b\<bar> < 2 ^ 51" "k \<le> 1074"
  shows "ao_oval (ao_ramp env v n p) = units k (ramp_spec a b c n) \<and> (\<bar>b - a\<bar> \<le> int n * c \<longrightarrow> ramp_spec a b c n = b)"
proof -
  have inv: "ao_oval (ao_ramp env v n p) = units k (ramp_spec a b c n) \<and> ao_oroc (ao_ramp env v n p) = ao_oroc p
      \<and> ao_drvl (ao_ramp env v n p) = ao_drvl p \<and> ao_drvh (ao_ramp env v n p) = ao_drvh p"
  proof (induction n)
    case 0
    then show ?case using assms(2) by (simp add: ao_ramp_def ramp_spec_def)
  next
    case (Suc n)
    let ?q = "ao_ramp env v n p"
    have q: "ao_ramp env v (Suc n) p = ao_convert env ?q v" by (simp add: ao_ramp_def)
    have bound: "\<bar>ramp_spec a b c n\<bar> < 2 ^ 51"
    proof -
      define m where "m = int n * c"
      have "0 \<le> m" using assms(4) by (simp add: m_def)
      then show ?thesis
        using assms(6,7) by (auto simp: ramp_spec_def min_def max_def simp flip: m_def)
    qed
    have step: "(if b < ramp_spec a b c n then max b (ramp_spec a b c n - c)
        else min b (ramp_spec a b c n + c)) = ramp_spec a b c (Suc n)"
      using assms(4) by (auto simp: ramp_spec_def min_def max_def algebra_simps)
    have "ao_drive_limit ?q v = ao_drive_limit p v" using Suc by (simp only: ao_drive_limit_def)
    then have "ao_drive_limit ?q v = units k b" using assms(3) by simp
    moreover have "ao_rate_limit ?q (units k b) = units k (ramp_spec a b c (Suc n))"
      using rate_limit_units [of ?q k c "ramp_spec a b c n" b] Suc assms bound step by simp
    ultimately show ?case using Suc by (simp add: q rec_simps)
  qed
  have "\<bar>b - a\<bar> \<le> int n * c \<Longrightarrow> ramp_spec a b c n = b"
    by (auto simp: ramp_spec_def)
  with inv show ?thesis by blast
qed

text \<open>A record for concrete inputs: no drive limits, a rate of 3 per conversion, outputs not driven
  when invalid.\<close>

definition ao0 :: aoRecord where
  "ao0 = dbCommon.extend (rec0\<lparr>stat := 0, sevr := 0, acks := 0, udf := 0\<rparr>)
     (aoRecord.fields (Fin 0) (Fin 0) (Fin 0) (Fin 3) (CONSTANT None) 0 0 0 0 (Fin 0) 0 ''C'' (Fin 0)
       (Fin 1) (Fin 0) (Fin 0) (Fin 100) (Fin 0) (Fin 0) (Fin 0) (Fin 90) (Fin 10) (Fin 80) (Fin 20)
       2 2 1 1 (Fin 5) (Fin 0) (Fin 0) 0 0 0 0 (0, 0) False False (Fin 0) (Fin 0) (Fin 0) ''@0 H''
       (CONSTANT None) (CONSTANT None) 0 0 1 (Fin 0))"

lemmas ao0_simps = ao0_def rec0_def dbCommon.defs aoRecord.defs

text \<open>A rate of a quarter, towards 3 with a drive limit of 1.\<close>

theorem ao_ramp_reaches_witness:
  "ao_oval (ao_ramp env0 (Fin 3) 3 (ao0\<lparr>ao_oroc := Fin (1 / 4), ao_drvh := Fin 1\<rparr>)) = Fin (3 / 4)
    \<and> ao_oval (ao_ramp env0 (Fin 3) 6 (ao0\<lparr>ao_oroc := Fin (1 / 4), ao_drvh := Fin 1\<rparr>)) = Fin 1"
proof -
  let ?p = "ao0\<lparr>ao_oroc := Fin (1 / 4), ao_drvh := Fin 1\<rparr>"
  have p: "ao_oroc ?p = units 2 1" "ao_oval ?p = units 2 0" "ao_drive_limit ?p (Fin 3) = units 2 4"
    by (simp_all add: units_def ao_drive_limit_def ao0_simps dlt_finite)
  show ?thesis
    using ao_ramp_reaches [OF p, of env0 3] ao_ramp_reaches [OF p, of env0 6] by (simp add: units_def ramp_spec_def)
qed

theorem ao_drive_limits_witness:
  "dle (ao_val (ao_convert env0 (ao0\<lparr>ao_drvh := Fin 50\<rparr>) (Infinity False))) (Fin 50)"
  using ao_drive_limits [of "ao0\<lparr>ao_drvh := Fin 50\<rparr>" "Infinity False" env0] by (simp add: ao0_simps dlt_finite)

section \<open>Invalid outputs\<close>

lemma ao_check_udf:
  "udf p \<noteq> 0 \<Longrightarrow> nsev (ao_checkAlarms p) = max (nsev p) (udfs p)"
  "ao_ivoa (ao_checkAlarms p) = ao_ivoa p"
  by (simp_all add: ao_checkAlarms_def Let_def rec_simps)
     (simp add: recGblSetSevr_def)

lemma ao_convert_common [rec_simps]:
  "udfs (ao_convert env p v) = udfs p" "ao_ivoa (ao_convert env p v) = ao_ivoa p"
  by (simp_all add: ao_convert_def recGblSetSevr_def Let_def split: prod.split)

text \<open>An undefined output does not reach the hardware when IVOA says "don't drive outputs" and UDFS is
  INVALID: with VAL a NaN (and no DOL link), processing never calls the device's write routine, so
  its result is the same for every device support.\<close>

theorem ao_nan_not_written:
  assumes "pact p = 0" "ao_dol p = CONSTANT c" "ao_val p = NaN" "ao_ivoa p = 1" "udfs p = 3"
    "write_ao d1 \<noteq> None" "write_ao d2 \<noteq> None"
  shows "ao_process env (Some d1) v0 p w = ao_process env (Some d2) v0 p w"
proof -
  define q where "q = (ao_convert env p NaN)\<lparr>udf := 1\<rparr>"
  have "ao_drive_limit p NaN = NaN" by (simp add: ao_drive_limit_def)
  then have des: "ao_desired env p v0 w = (0, q, w)"
    using assms(1-3) by (simp add: ao_desired_def q_def Let_def rec_simps)
  have "nsev (ao_checkAlarms q) = max (nsev q) 3"
    using ao_check_udf(1) [of q] assms(5) by (simp add: q_def rec_simps)
  moreover have "ao_ivoa (ao_checkAlarms q) = 1"
    using ao_check_udf(2) [of q] assms(4) by (simp add: q_def rec_simps)
  ultimately have out: "ao_output env wr 0 (ao_checkAlarms q) w = (0, ao_checkAlarms q, w)" for wr
    by (simp add: ao_output_def)
  obtain f1 f2 where "write_ao d1 = Some f1" "write_ao d2 = Some f2" using assms(6,7) by auto
  then show ?thesis by (simp add: ao_process_def des out)
qed

definition ao_dset0 :: "nat ao_dset" where
  "ao_dset0 = \<lparr>ao_number = 6, ao_dev_init_record = None, write_ao = Some (\<lambda>prec w. (0, prec, w + 1)),
     ao_special_linconv = None\<rparr>"

theorem ao_nan_not_written_witness:
  "ao_process env0 (Some ao_dset0) NaN (ao0\<lparr>ao_val := NaN\<rparr>) 0 =
   ao_process env0 (Some (ao_dset0\<lparr>write_ao := Some (\<lambda>prec w. (- 1, prec, w + 7))\<rparr>)) NaN (ao0\<lparr>ao_val := NaN\<rparr>) 0"
  using ao_nan_not_written [of "ao0\<lparr>ao_val := NaN\<rparr>" None ao_dset0
      "ao_dset0\<lparr>write_ao := Some (\<lambda>prec w. (- 1, prec, w + 7))\<rparr>" env0 NaN 0]
  by (simp add: ao0_simps ao_dset0_def)

end
