(* ===== verification/RackTemp.thy ===== *)
theory RackTemp
  imports Gpio I2cBus AiRecord AoRecord RefBoard
begin

text \<open>
  Device support for the rack thermometers (RackmonIocApp/src/devAiRackTemp.c): selection of the
  I2C bus stub, parsing of the INP and OUT text, the table of private data the records share, and
  the routines of the ai and ao records. A null \<open>dpvt\<close> is dereferenced by the read and write
  routines as it stands: that is logged as undefined behaviour in the trace.
\<close>

section \<open>State\<close>

definition MAX_ISTUB :: int where "MAX_ISTUB = 7"
definition MAX_DS75_ADDRESS :: int where "MAX_DS75_ADDRESS = 7"
definition NCH_RACKTEMP :: nat where "NCH_RACKTEMP = nat ((MAX_ISTUB + 1) * (MAX_DS75_ADDRESS + 1))"

lemma NCH_RACKTEMP_eq [simp]: "NCH_RACKTEMP = 64"
  by (simp add: NCH_RACKTEMP_def MAX_ISTUB_def MAX_DS75_ADDRESS_def)

text \<open>The file-scope variables of the drivers: the bus file descriptor, the private data (address and
  what to read), and the heartbeat counter. \<open>stack_cfg\<close> is the indeterminate value of an
  uninitialised local \<open>cfg\<close>.\<close>

record 'k rackmon = "'k world" +
  global_fd_i2c :: int
  private_data :: "(int \<times> char) list"
  hb_sequence_counter :: u32
  stack_cfg :: u8

type_synonym ('k, 'a) rio = "('k rackmon, 'a) state"

definition get_fd :: "('k, int) rio" where "get_fd = State (\<lambda>s. (global_fd_i2c s, s))"
definition set_fd :: "int \<Rightarrow> ('k, unit) rio" where "set_fd fd = State (\<lambda>s. ((), s\<lparr>global_fd_i2c := fd\<rparr>))"
definition get_private :: "nat \<Rightarrow> ('k, int \<times> char) rio" where
  "get_private i = State (\<lambda>s. (private_data s ! i, s))"
definition set_private :: "nat \<Rightarrow> int \<times> char \<Rightarrow> ('k, unit) rio" where
  "set_private i d = State (\<lambda>s. ((), s\<lparr>private_data := (private_data s)[i := d]\<rparr>))"
definition get_stack_cfg :: "('k, u8) rio" where "get_stack_cfg = State (\<lambda>s. (stack_cfg s, s))"

lemmas rackmon_defs = get_fd_def set_fd_def get_private_def set_private_def get_stack_cfg_def

text \<open>A device routine as record support calls it.\<close>

definition dev_routine :: "('r \<Rightarrow> ('s, int \<times> 'r) state) \<Rightarrow> 'r \<Rightarrow> 's \<Rightarrow> int \<times> 'r \<times> 's" where
  "dev_routine f prec s = (case run_state (f prec) s of ((status, prec), s) \<Rightarrow> (status, prec, s))"

section \<open>Common operations\<close>

definition select_probe :: "'k os_api \<Rightarrow> int \<Rightarrow> ('k, 'z, int) io" where
  "select_probe os istub =
     (if istub < 0 \<or> istub > 7 then State_Monad.return (- 1)
      else do {
        r \<leftarrow> gpio_write os 26 (istub AND 1);
        if r < 0 then State_Monad.return (- 1) else do {
        r \<leftarrow> gpio_write os 46 (istub AND 2);
        if r < 0 then State_Monad.return (- 1) else do {
        r \<leftarrow> gpio_write os 65 (istub AND 4);
        if r < 0 then State_Monad.return (- 1) else State_Monad.return 0 }}})"

text \<open>\<open>sscanf(inp, "%d %c", &inp_value, &inp_char)\<close>: \<open>None\<close> when the number does not convert; the
  character keeps its initial blank when nothing follows.\<close>

definition scan_inp :: "string \<Rightarrow> (int \<times> char) option" where
  "scan_inp inp = (case scan_int inp of None \<Rightarrow> None
     | Some (v, rest) \<Rightarrow> Some (v, case skip_space rest of [] \<Rightarrow> CHR '' '' | c # _ \<Rightarrow> c))"

definition private_index :: "int \<Rightarrow> char \<Rightarrow> nat" where
  "private_index v c = nat v + (if c = CHR ''H'' then NCH_RACKTEMP
     else if c = CHR ''L'' then 2 * NCH_RACKTEMP
     else if c = CHR ''C'' then 3 * NCH_RACKTEMP else 0)"

definition init_record_common ::
  "'k os_api \<Rightarrow> string \<Rightarrow> 'a dbCommon_scheme \<Rightarrow> ('k, int \<times> 'a dbCommon_scheme) rio" where
  "init_record_common os inp prec = do {
     fd \<leftarrow> get_fd;
     fd \<leftarrow> (if fd < 0 then do { fd \<leftarrow> open_i2c_bus os 2; set_fd fd; State_Monad.return fd }
           else State_Monad.return fd);
     if fd < 0 then State_Monad.return (S_dev_badBus, prec)
     else (case scan_inp inp of
         None \<Rightarrow> State_Monad.return (S_db_badField, prec)
       | Some (v, c) \<Rightarrow>
           if v < 0 \<or> v \<ge> int NCH_RACKTEMP then State_Monad.return (S_db_badField, prec)
           else do {
             set_private (private_index v c) (v, c);
             State_Monad.return (0, prec\<lparr>dpvt := Some (private_index v c)\<rparr>)
           })
   }"

section \<open>Analog input\<close>

definition init_record_ai :: "'k os_api \<Rightarrow> aiRecord \<Rightarrow> ('k, int \<times> aiRecord) rio" where
  "init_record_ai os prec = init_record_common os (ai_inp prec) prec"

text \<open>The reading proper: an error code and the value, after the stub has been selected.\<close>

definition read_ai_value :: "'k os_api \<Rightarrow> int \<Rightarrow> char \<Rightarrow> double \<Rightarrow> ('k, int \<times> double) rio" where
  "read_ai_value os address what v = do {
     let addr = cdiv address (MAX_ISTUB + 1);
     let istub = crem address (MAX_ISTUB + 1);
     fd \<leftarrow> get_fd;
     ok \<leftarrow> select_probe os istub;
     if ok < 0 then State_Monad.return (- 1, v)
     else if what = CHR '' '' then read_temp_ds75 os fd addr v
     else if what = CHR ''S'' then do {
       (ierr, T, _, _) \<leftarrow> access_ds75_details os fd addr (Some v) None None (CHR ''r'');
       State_Monad.return (ierr, the T) }
     else if what = CHR ''Y'' then do {
       (ierr, _, T, _) \<leftarrow> access_ds75_details os fd addr None (Some v) None (CHR ''r'');
       State_Monad.return (ierr, the T) }
     else if what = CHR ''C'' then do {
       cfg \<leftarrow> get_stack_cfg;
       (ierr, _, _, cfg) \<leftarrow> access_ds75_details os fd addr None None (Some cfg) (CHR ''r'');
       State_Monad.return (ierr, dint (uint (the cfg))) }
     else State_Monad.return (1, v)
   }"

definition rack_read_ai :: "'k os_api \<Rightarrow> aiRecord \<Rightarrow> ('k, int \<times> aiRecord) rio" where
  "rack_read_ai os prec = (case dpvt prec of
     None \<Rightarrow> do { c_event EvUB; State_Monad.return (- 1, prec) }
   | Some i \<Rightarrow> do {
       (address, what) \<leftarrow> get_private i;
       (ierr, v) \<leftarrow> read_ai_value os address what (ai_val prec);
       if ierr = 0 then State_Monad.return (2, prec\<lparr>ai_val := v, udf := FALSE\<rparr>)
       else State_Monad.return (- 1, prec\<lparr>ai_val := v, udf := TRUE\<rparr>)
     })"

definition devAiRackTemp :: "'k os_api \<Rightarrow> 'k rackmon ai_dset" where
  "devAiRackTemp os = \<lparr>ai_number = 6, ai_dev_init_record = Some (dev_routine (init_record_ai os)),
     read_ai = Some (dev_routine (rack_read_ai os)), special_linconv = None\<rparr>"

section \<open>Analog output\<close>

definition init_record_ao :: "'k os_api \<Rightarrow> aoRecord \<Rightarrow> ('k, int \<times> aoRecord) rio" where
  "init_record_ao os prec = do {
     (status, prec) \<leftarrow> init_record_common os (ao_out prec) prec;
     if status \<noteq> 0 then State_Monad.return (status, prec)
     else do {
       fd \<leftarrow> get_fd;
       (addr, what) \<leftarrow> get_private (the (dpvt prec));
       if what = CHR '' '' then State_Monad.return (S_db_badField, prec)
       else do {
         (status, v) \<leftarrow>
           (if what = CHR ''S'' then do {
              (ierr, T, _, _) \<leftarrow> access_ds75_details os fd addr (Some (ao_val prec)) None None (CHR ''r'');
              State_Monad.return (ierr, the T) }
            else if what = CHR ''Y'' then do {
              (ierr, _, T, _) \<leftarrow> access_ds75_details os fd addr None (Some (ao_val prec)) None (CHR ''r'');
              State_Monad.return (ierr, the T) }
            else if what = CHR ''C'' then do {
              cfg \<leftarrow> get_stack_cfg;
              (ierr, _, _, cfg) \<leftarrow> access_ds75_details os fd addr None None (Some cfg) (CHR ''r'');
              State_Monad.return (ierr, dint (uint (the cfg))) }
            else State_Monad.return (1, ao_val prec));
         if status = 0
         then State_Monad.return (2, prec\<lparr>ao_val := v, udf := FALSE, sevr := NO_ALARM, stat := NO_ALARM\<rparr>)
         else State_Monad.return (2, prec\<lparr>ao_val := v, udf := TRUE\<rparr>)
       }
     }
   }"

text \<open>\<open>(unsigned char)(int)(0.5+prec->val)\<close>, for a value between 0 and 255.\<close>

definition cfg_of :: "double \<Rightarrow> u8 option" where
  "cfg_of v = map_option word_of_int (dtoint 32 (dadd (Fin (1 / 2)) v))"

definition write_ao_value :: "'k os_api \<Rightarrow> int \<Rightarrow> char \<Rightarrow> double \<Rightarrow> ('k, int) rio" where
  "write_ao_value os address what v = do {
     let addr = cdiv address (MAX_ISTUB + 1);
     let istub = crem address (MAX_ISTUB + 1);
     fd \<leftarrow> get_fd;
     ok \<leftarrow> select_probe os istub;
     if ok < 0 then State_Monad.return (- 1)
     else if what = CHR ''H'' then do {
       (ierr, _) \<leftarrow> access_ds75_details os fd addr (Some v) None None (CHR ''w'');
       State_Monad.return ierr }
     else if what = CHR ''L'' then do {
       (ierr, _) \<leftarrow> access_ds75_details os fd addr None (Some v) None (CHR ''w'');
       State_Monad.return ierr }
     else if what = CHR ''C'' then
       (if dlt v (Fin 0) \<or> dlt (Fin 255) v then State_Monad.return 1
        else (case cfg_of v of
            None \<Rightarrow> do { c_event EvUB; State_Monad.return 1 }
          | Some cfg \<Rightarrow> do {
              (ierr, _) \<leftarrow> access_ds75_details os fd addr None None (Some cfg) (CHR ''w'');
              State_Monad.return ierr }))
     else State_Monad.return 1
   }"

definition rack_write_ao :: "'k os_api \<Rightarrow> aoRecord \<Rightarrow> ('k, int \<times> aoRecord) rio" where
  "rack_write_ao os prec = (case dpvt prec of
     None \<Rightarrow> do { c_event EvUB; State_Monad.return (- 1, prec) }
   | Some i \<Rightarrow> do {
       (address, what) \<leftarrow> get_private i;
       ierr \<leftarrow> write_ao_value os address what (ao_val prec);
       if ierr = 0 then State_Monad.return (0, prec\<lparr>udf := FALSE\<rparr>)
       else State_Monad.return (- 1, prec\<lparr>udf := TRUE\<rparr>)
     })"

definition devAoRackTemp :: "'k os_api \<Rightarrow> 'k rackmon ao_dset" where
  "devAoRackTemp os = \<lparr>ao_number = 6, ao_dev_init_record = Some (dev_routine (init_record_ao os)),
     write_ao = Some (dev_routine (rack_write_ao os)), ao_special_linconv = None\<rparr>"

section \<open>Parsing INP and the private data\<close>

lemma private_index_bound: "0 \<le> v \<Longrightarrow> v < 64 \<Longrightarrow> private_index v c < 256"
  by (auto simp: private_index_def)

text \<open>The four kinds of channel the initialisation tells apart.\<close>

definition known_kind :: "char \<Rightarrow> bool" where
  "known_kind c \<longleftrightarrow> c \<in> {CHR '' '', CHR ''H'', CHR ''L'', CHR ''C''}"

definition kind_no :: "char \<Rightarrow> nat" where
  "kind_no c = (if c = CHR ''H'' then 1 else if c = CHR ''L'' then 2 else if c = CHR ''C'' then 3 else 0)"

lemma private_index_kind: "private_index v c = nat v + 64 * kind_no c"
  by (simp add: private_index_def kind_no_def)

lemma kind_no_inj: "known_kind c \<Longrightarrow> known_kind c' \<Longrightarrow> kind_no c = kind_no c' \<longleftrightarrow> c = c'"
  by (auto simp: known_kind_def kind_no_def)

lemma private_index_inj:
  assumes "0 \<le> v" "v < 64" "0 \<le> v'" "v' < 64" "known_kind c" "known_kind c'"
  shows "private_index v c = private_index v' c' \<longleftrightarrow> v = v' \<and> c = c'"
proof -
  have "nat v < 64" "nat v' < 64" using assms by auto
  then have "nat v = (nat v + 64 * kind_no c) mod 64" "nat v' = (nat v' + 64 * kind_no c') mod 64"
      "kind_no c = (nat v + 64 * kind_no c) div 64" "kind_no c' = (nat v' + 64 * kind_no c') div 64"
    by simp_all
  then have "nat v + 64 * kind_no c = nat v' + 64 * kind_no c' \<longleftrightarrow> nat v = nat v' \<and> kind_no c = kind_no c'"
    by metis
  then show ?thesis
    using assms kind_no_inj by (simp add: private_index_kind eq_nat_nat_iff)
qed

text \<open>The INP text of a channel.\<close>

definition inp_text :: "nat \<Rightarrow> char \<Rightarrow> string" where
  "inp_text n c = (if c = CHR '' '' then show_nat n else show_nat n @ [CHR '' '', c])"

lemma scan_inp_text:
  assumes "n < 64" "known_kind c \<or> c \<in> {CHR ''S'', CHR ''Y''}"
  shows "scan_inp (inp_text n c) = Some (int n, c)"
proof -
  have c: "c = CHR '' '' \<or> \<not> isspace c" using assms(2) by (auto simp: known_kind_def isspace_def)
  have d: "\<not> is_digit (CHR '' '')" "isspace (CHR '' '')" by (simp_all add: is_digit_def isspace_def)
  have "scan_int (show_nat n) = Some (int n, [])"
    using scan_show_nat [of n "[]"] assms(1) by simp
  moreover have "scan_int (show_nat n @ [CHR '' '', c]) = Some (int n, [CHR '' '', c])"
    using scan_show_nat [of n "[CHR '' '', c]"] assms(1) d by simp
  ultimately show ?thesis
    using c d by (auto simp: scan_inp_def inp_text_def skip_space_def)
qed

lemma init_record_common_open:
  assumes "global_fd_i2c s \<ge> 0"
  shows "run_state (init_record_common os inp prec) s =
     (case scan_inp inp of
        None \<Rightarrow> ((S_db_badField, prec), s)
      | Some (v, c) \<Rightarrow>
          if v < 0 \<or> v \<ge> 64 then ((S_db_badField, prec), s)
          else ((0, prec\<lparr>dpvt := Some (private_index v c)\<rparr>),
                s\<lparr>private_data := (private_data s)[private_index v c := (v, c)]\<rparr>))"
  using assms
  by (simp add: init_record_common_def rackmon_defs split: option.split prod.split)

text \<open>Initialising a record with a well-formed INP (a channel from 0 to 63, alone or followed by
  H, L or C) gives it an entry of the private table that is inside the table, holds that channel
  and kind, and is not shared with a record of any other channel or kind, whatever records were
  initialised before.\<close>

theorem init_record_private:
  assumes "global_fd_i2c s \<ge> 0" "length (private_data s) = 256" "n < 64" "known_kind c"
  shows "(case run_state (init_record_common os (inp_text n c) prec) s of ((status, prec'), s') \<Rightarrow>
     status = 0 \<and> (\<exists>i < 256. dpvt prec' = Some i \<and> private_data s' ! i = (int n, c)
       \<and> (\<forall>n' c'. n' < 64 \<and> known_kind c' \<and> (n', c') \<noteq> (n, c) \<longrightarrow>
            private_index (int n') c' \<noteq> i \<and>
            private_data s' ! private_index (int n') c' = private_data s ! private_index (int n') c')))"
proof -
  let ?i = "private_index (int n) c"
  have i: "?i < 256" using assms(3) by (intro private_index_bound) auto
  have other: "private_index (int n') c' \<noteq> ?i" if "n' < 64" "known_kind c'" "(n', c') \<noteq> (n, c)" for n' c'
    using private_index_inj [of "int n'" "int n" c' c] that assms(3,4) by auto
  have run: "run_state (init_record_common os (inp_text n c) prec) s =
      ((0, prec\<lparr>dpvt := Some ?i\<rparr>), s\<lparr>private_data := (private_data s)[?i := (int n, c)]\<rparr>)"
    using init_record_common_open [OF assms(1), of os "inp_text n c" prec] scan_inp_text [of n c] assms(3,4)
    by simp
  have "private_data s ! private_index (int n') c' = (private_data s)[?i := (int n, c)] ! private_index (int n') c'"
    if "n' < 64" "known_kind c'" "(n', c') \<noteq> (n, c)" for n' c'
    using other [OF that] by simp
  then show ?thesis
    unfolding run using i other assms(2) by (simp add: nth_list_update)
qed

definition rack0 :: "board rackmon" where
  "rack0 = \<lparr>kern = board0, trace = [], global_fd_i2c = 3,
     private_data = replicate 256 (0, CHR 0x00), hb_sequence_counter = 0, stack_cfg = 170\<rparr>"

theorem init_record_private_witness:
  "(case run_state (init_record_common (board_os False) ''5 H'' ai0) rack0 of ((status, prec'), s') \<Rightarrow> status = 0)"
proof -
  have "inp_text 5 (CHR ''H'') = ''5 H''" by code_simp
  then show ?thesis
    using init_record_private [of rack0 5 "CHR ''H''" "board_os False" ai0]
    by (auto simp: rack0_def known_kind_def split: prod.splits)
qed

text \<open>An INP that does not start with a number, or whose number is not between 0 and 63, is refused:
  the record gets no private data and the table is unchanged. (Reading such a record would then
  dereference a null pointer.)\<close>

theorem init_record_refuses:
  assumes "global_fd_i2c s \<ge> 0" "case scan_inp inp of None \<Rightarrow> True | Some (v, c) \<Rightarrow> v < 0 \<or> v \<ge> 64"
  shows "run_state (init_record_common os inp prec) s = ((S_db_badField, prec), s)
    \<and> (dpvt ai = None \<longrightarrow> EvUB \<in> set (trace (snd (run_state (rack_read_ai os ai) s))))"
proof
  show "run_state (init_record_common os inp prec) s = ((S_db_badField, prec), s)"
    using assms(2) unfolding init_record_common_open [OF assms(1)]
    by (cases "scan_inp inp") auto
  show "dpvt ai = None \<longrightarrow> EvUB \<in> set (trace (snd (run_state (rack_read_ai os ai) s)))"
    by (simp add: rack_read_ai_def c_io_defs)
qed

theorem init_record_refuses_witness:
  "run_state (init_record_common (board_os False) ''64'' ai0) rack0 = ((S_db_badField, ai0), rack0)"
proof -
  have "scan_inp ''64'' = Some (64, CHR '' '')"
    by (simp add: scan_inp_def scan_int_def skip_space_def isspace_def is_digit_def read_nat_def
        digit_val_def sat32_def)
  then show ?thesis
    using init_record_refuses [of rack0 "''64''" "board_os False" ai0 ai0] by (simp add: rack0_def)
qed


section \<open>Selecting the bus stub\<close>

definition gpio_write_events :: "nat \<Rightarrow> u8 \<Rightarrow> nat \<Rightarrow> io_event list" where
  "gpio_write_events g b h = [EvFopen (gpio_path g) ''w'', EvFputc b h, EvFputc 10 h, EvFclose h]"

lemma gpio_write_ok:
  assumes "run_state (gpio_write os g v) s = (r, s')" "0 \<le> r"
  shows "r = 0 \<and> (\<exists>h. trace s' = trace s @ gpio_write_events (nat g) (if v \<noteq> 0 then 49 else 48) h)"
  using assms
  by (auto simp: gpio_write_eq c_io_defs gpio_write_events_def split: prod.splits option.splits if_splits)

lemma gpio_write_result: "fst (run_state (gpio_write os g v) s) \<in> {- 1, 0}"
  by (auto simp: gpio_write_eq c_io_defs split: prod.splits option.splits)

text \<open>The logic level a byte sets on a line.\<close>

definition level :: "u8 \<Rightarrow> int" where
  "level b = (if b = 49 then 1 else 0)"

lemma stub_bits:
  assumes "0 \<le> istub" "istub \<le> 7"
  shows "level (if istub AND 1 \<noteq> 0 then 49 else 48) + 2 * level (if istub AND 2 \<noteq> 0 then 49 else 48)
       + 4 * level (if istub AND 4 \<noteq> 0 then 49 else 48) = istub"
proof -
  have "istub \<in> {0, 1, 2, 3, 4, 5, 6, 7}" using assms by auto
  then show ?thesis by (auto simp: level_def)
qed

text \<open>Selecting a bus stub either fails with -1, or writes the three binary digits of the stub
  number to the lines GPIO 26, 46 and 65 in that order, closing each file; stub numbers outside 0
  to 7 are refused.\<close>

theorem select_probe_correct:
  "case run_state (select_probe os istub) s of (r, s') \<Rightarrow>
     if r = 0
     then 0 \<le> istub \<and> istub \<le> 7 \<and>
       (\<exists>b0 b1 b2 h0 h1 h2. level b0 + 2 * level b1 + 4 * level b2 = istub \<and>
         trace s' = trace s @ gpio_write_events 26 b0 h0 @ gpio_write_events 46 b1 h1
                            @ gpio_write_events 65 b2 h2)
     else r = - 1"
proof (cases "istub < 0 \<or> istub > 7")
  case True
  then show ?thesis by (auto simp: select_probe_def)
next
  case False
  obtain r1 s1 where w1: "run_state (gpio_write os 26 (istub AND 1)) s = (r1, s1)" by fastforce
  obtain r2 s2 where w2: "run_state (gpio_write os 46 (istub AND 2)) s1 = (r2, s2)" by fastforce
  obtain r3 s3 where w3: "run_state (gpio_write os 65 (istub AND 4)) s2 = (r3, s3)" by fastforce
  have run: "run_state (select_probe os istub) s =
     (if r1 < 0 then (- 1, s1) else if r2 < 0 then (- 1, s2) else if r3 < 0 then (- 1, s3) else (0, s3))"
    using False by (simp add: select_probe_def w1 w2 w3)
  show ?thesis
  proof (cases "r1 < 0 \<or> r2 < 0 \<or> r3 < 0")
    case True
    then show ?thesis by (auto simp: run)
  next
    case ok: False
    obtain h0 h1 h2 where
      "trace s1 = trace s @ gpio_write_events 26 (if istub AND 1 \<noteq> 0 then 49 else 48) h0"
      "trace s2 = trace s1 @ gpio_write_events 46 (if istub AND 2 \<noteq> 0 then 49 else 48) h1"
      "trace s3 = trace s2 @ gpio_write_events 65 (if istub AND 4 \<noteq> 0 then 49 else 48) h2"
      using gpio_write_ok [OF w1] gpio_write_ok [OF w2] gpio_write_ok [OF w3] ok by force
    then have "trace s3 = trace s @ gpio_write_events 26 (if istub AND 1 \<noteq> 0 then 49 else 48) h0
        @ gpio_write_events 46 (if istub AND 2 \<noteq> 0 then 49 else 48) h1
        @ gpio_write_events 65 (if istub AND 4 \<noteq> 0 then 49 else 48) h2"
      by simp
    moreover have "level (if istub AND 1 \<noteq> 0 then 49 else 48) + 2 * level (if istub AND 2 \<noteq> 0 then 49 else 48)
        + 4 * level (if istub AND 4 \<noteq> 0 then 49 else 48) = istub"
      using False stub_bits [of istub] by simp
    ultimately have "\<exists>b0 b1 b2 h0 h1 h2. level b0 + 2 * level b1 + 4 * level b2 = istub \<and>
         trace s3 = trace s @ gpio_write_events 26 b0 h0 @ gpio_write_events 46 b1 h1
                            @ gpio_write_events 65 b2 h2" by blast
    then show ?thesis using False ok by (simp add: run)
  qed
qed

section \<open>Reading\<close>

lemma time_stamp_constant:
  assumes "tsel p = CONSTANT c"
  shows "\<exists>t. fst (recGblGetTimeStamp env p w) = p\<lparr>rtime := t\<rparr>"
proof (cases "tse p \<noteq> - 2 \<and> fst (event_time env (tse p) w) \<noteq> None")
  case True
  then obtain t where "fst (event_time env (tse p) w) = Some t" by blast
  then have "fst (recGblGetTimeStamp env p w) = p\<lparr>rtime := t\<rparr>"
    using True assms by (cases "event_time env (tse p) w") (simp add: recGblGetTimeStamp_def Let_def)
  then show ?thesis by blast
next
  case False
  then have "fst (recGblGetTimeStamp env p w) = p\<lparr>rtime := rtime p\<rparr>"
    using assms by (cases "event_time env (tse p) w") (auto simp: recGblGetTimeStamp_def Let_def split: option.split)
  then show ?thesis by blast
qed

text \<open>The contract of an ai device that completes at once: it changes VAL and UDF only, and reports
  either a defined value that needs no conversion or an error.\<close>

locale ai_device =
  fixes read :: "aiRecord \<Rightarrow> 'w \<Rightarrow> int \<times> aiRecord \<times> 'w"
  assumes frame: "read p w = (st, q, w') \<Longrightarrow> q = p\<lparr>ai_val := ai_val q, udf := udf q\<rparr>"
    and outcome: "read p w = (st, q, w') \<Longrightarrow> st = 2 \<and> udf q = 0 \<or> st = - 1"
begin

lemma keeps: "read p w = (st, q, w') \<Longrightarrow> pact q = pact p \<and> nsev q = nsev p \<and> udfs q = udfs p
    \<and> ai_aftc q = ai_aftc p \<and> tsel q = tsel p"
  using arg_cong [OF frame, of p w st q w' pact] arg_cong [OF frame, of p w st q w' nsev]
    arg_cong [OF frame, of p w st q w' udfs] arg_cong [OF frame, of p w st q w' ai_aftc]
    arg_cong [OF frame, of p w st q w' tsel] by simp

lemma keeps_range: "read p w = (st, q, w') \<Longrightarrow> ai_alarm_range q = ai_alarm_range (p\<lparr>ai_val := ai_val q\<rparr>)"
proof -
  assume r: "read p w = (st, q, w')"
  have "ai_alarm_range q = ai_alarm_range (p\<lparr>ai_val := ai_val q, udf := udf q\<rparr>)"
    using arg_cong [OF frame [OF r], of ai_alarm_range] .
  then show ?thesis by (simp add: ai_alarm_range_def Let_def)
qed

text \<open>Processing a record with such a device, without simulation, level filter and time stamp link.\<close>

lemma process:
  assumes d: "read_ai dset = Some read" and p: "pact p = 0" "ai_siml p = CONSTANT c" "ai_simm p = 0"
    "tsel p = CONSTANT c'" "\<not> dlt (Fin 0) (ai_aftc p)" and r: "read p w = (st, q, w1)"
  shows "(case ai_process env (Some dset) p w of (st', p', w') \<Rightarrow>
     st' = (if st = 2 then 0 else - 1) \<and> pact p' = 0 \<and> ai_val p' = ai_val q \<and> udf p' = udf q
     \<and> sevr p' = min 3 (max (nsev p) (if udf q \<noteq> 0 then udfs p
           else fst (snd (ai_alarm_range (p\<lparr>ai_val := ai_val q\<rparr>))))))"
proof -
  note k = keeps [OF r]
  have st: "st = 2 \<or> st = - 1" using outcome [OF r] by auto
  obtain t where t: "fst (recGblGetTimeStamp env (q\<lparr>pact := 1\<rparr>) w1) = q\<lparr>pact := 1, rtime := t\<rparr>"
    using time_stamp_constant [of "q\<lparr>pact := 1\<rparr>" c' env w1] k p(4) by auto
  let ?r2 = "q\<lparr>pact := 1, rtime := t\<rparr>"
  have "ai_level_filter env ?r2 (rtime p) (ai_alarm_range ?r2) = (case ai_alarm_range q of (a, b, c) \<Rightarrow> (Fin 0, a, b, c))"
    using k p(5) by (simp add: ai_level_filter_def ai_alarm_range_def Let_def)
  then have f: "(case ai_level_filter env ?r2 (rtime p) (ai_alarm_range ?r2) of (_, _, asev, _) \<Rightarrow> asev)
      = fst (snd (ai_alarm_range (p\<lparr>ai_val := ai_val q\<rparr>)))"
    using keeps_range [OF r] by (simp split: prod.split)
  have "?r2 = (let r = fst (recGblGetTimeStamp env (q\<lparr>pact := 1\<rparr>) w1)
                     in if st = 0 then ai_convert env r else r)"
    using st t by (auto simp: Let_def)
  from ai_process_sync [OF d p(1-3) r this] show ?thesis
    using k st p(1) f by (auto split: prod.splits)
qed

end

lemma rack_read_ai_frame:
  assumes "run_state (rack_read_ai os p) s = ((st, q), s')"
  shows "q = p\<lparr>ai_val := ai_val q, udf := udf q\<rparr>" "st = 2 \<and> udf q = 0 \<or> st = - 1"
  using assms by (auto simp: rack_read_ai_def c_io_defs split: option.splits prod.splits if_splits)

interpretation rack_temp: ai_device "dev_routine (rack_read_ai os)"
proof
  fix p st q w' and w :: "'a rackmon"
  assume "dev_routine (rack_read_ai os) p w = (st, q, w')"
  then have "run_state (rack_read_ai os p) w = ((st, q), w')"
    by (auto simp: dev_routine_def split: prod.splits)
  from rack_read_ai_frame [OF this]
  show "q = p\<lparr>ai_val := ai_val q, udf := udf q\<rparr>" "st = 2 \<and> udf q = 0 \<or> st = - 1" .
qed


lemma rack_read_ai_run:
  assumes "dpvt p = Some i" "private_data s ! i = (address, what)"
    "run_state (read_ai_value os address what (ai_val p)) s = ((ierr, v), s1)"
  shows "dev_routine (rack_read_ai os) p s =
    (if ierr = 0 then (2, p\<lparr>ai_val := v, udf := 0\<rparr>, s1) else (- 1, p\<lparr>ai_val := v, udf := 1\<rparr>, s1))"
  using assms by (simp add: rack_read_ai_def dev_routine_def get_private_def)

lemma rack_temp_result:
  assumes "pact p = 0" "ai_siml p = CONSTANT c" "ai_simm p = 0" "tsel p = CONSTANT c'"
    "\<not> dlt (Fin 0) (ai_aftc p)" "dpvt p = Some i" "private_data s ! i = (address, what)"
    and reading: "run_state (read_ai_value os address what (ai_val p)) s = ((ierr, v), s1)"
  shows "(case ai_process env (Some (devAiRackTemp os)) p s of (st, p', s') \<Rightarrow>
     pact p' = 0 \<and> ai_val p' = v \<and>
     (if ierr = 0
      then st = 0 \<and> udf p' = 0 \<and>
           sevr p' = min 3 (max (nsev p) (fst (snd (ai_alarm_range (p\<lparr>ai_val := v\<rparr>)))))
      else st = - 1 \<and> udf p' = 1 \<and> sevr p' = min 3 (max (nsev p) (udfs p))))"
proof -
  have d: "read_ai (devAiRackTemp os) = Some (dev_routine (rack_read_ai os))"
    by (simp add: devAiRackTemp_def)
  note run = rack_read_ai_run [OF assms(6,7) reading]
  show ?thesis
  proof (cases "ierr = 0")
    case True
    with run have r: "dev_routine (rack_read_ai os) p s = (2, p\<lparr>ai_val := v, udf := 0\<rparr>, s1)" by simp
    from rack_temp.process [OF d assms(1-5) r, of env] True show ?thesis by (auto split: prod.splits)
  next
    case False
    with run have r: "dev_routine (rack_read_ai os) p s = (- 1, p\<lparr>ai_val := v, udf := 1\<rparr>, s1)" by simp
    from rack_temp.process [OF d assms(1-5) r, of env] False show ?thesis by (auto split: prod.splits)
  qed
qed

text \<open>C2: Processing a rack thermometer record: when the transaction with the sensor succeeds the record
  is defined, its VAL is the reading and its severity that of the alarm range of the reading (or
  what was pending, when greater); when any step fails the record is undefined and its severity is
  at least UDFS, so a stale reading is never shown as good. Either way the record ends inactive.\<close>

theorem rack_temp_process:
  assumes "pact p = 0" "ai_siml p = CONSTANT c" "ai_simm p = 0" "tsel p = CONSTANT c'"
    "\<not> dlt (Fin 0) (ai_aftc p)" "dpvt p = Some i" "private_data s ! i = (address, what)"
    and reading: "run_state (read_ai_value os address what (ai_val p)) s = ((ierr, v), s1)"
  shows "(case ai_process env (Some (devAiRackTemp os)) p s of (st, p', s') \<Rightarrow>
     pact p' = 0 \<and> ai_val p' = v \<and>
     (if ierr = 0
      then st = 0 \<and> udf p' = 0 \<and>
           sevr p' = min 3 (max (nsev p) (fst (snd (ai_alarm_range (p\<lparr>ai_val := v\<rparr>)))))
      else st = - 1 \<and> udf p' = 1 \<and> sevr p' = min 3 (max (nsev p) (udfs p))))"
  by (rule rack_temp_result [OF assms])

lemma read_ai_value_limit:
  assumes "what = CHR ''H'' \<or> what = CHR ''L''"
  shows "\<exists>ierr s1. run_state (read_ai_value os address what v) s = ((ierr, v), s1) \<and> ierr \<noteq> 0"
proof -
  obtain r s1 where "run_state (select_probe os (crem address (MAX_ISTUB + 1))) s = (r, s1)" by fastforce
  then show ?thesis using assms by (auto simp: read_ai_value_def get_fd_def Let_def)
qed

definition env_os :: "'w rec_env" where
  "env_os = \<lparr>get_dbl = (\<lambda>n old w. ((0, old, None), w)), get_int = (\<lambda>n old w. ((0, old, None), w)),
     put_dbl = (\<lambda>n v w. (0, w)), scan_fwd = (\<lambda>n w. w), notify_done = (\<lambda>w. w), scan_once = (\<lambda>n w. w),
     event_time = (\<lambda>e w. (None, w)), link_time = (\<lambda>n w. (None, w)), time_diff = (\<lambda>a b. Fin 0),
     parse_u16 = (\<lambda>s. None), parse_u32 = (\<lambda>s. None), parse_dbl = (\<lambda>s. None), c_int = (\<lambda>x. 0),
     c_long = (\<lambda>x. 0), oob_stat = (\<lambda>i. 0), alarm_hook = None,
     bpt_to_eng = (\<lambda>v l i p. (0, v, p)), bpt_to_raw = (\<lambda>v l i p. (0, v, p))\<rparr>"

theorem rack_temp_process_witness:
  "sevr (fst (snd (ai_process env_os (Some (devAiRackTemp (board_os False)))
     (ai0\<lparr>dpvt := Some 0\<rparr>) (rack0\<lparr>private_data := [(5, CHR ''H'')]\<rparr>)))) = 3"
proof -
  let ?s = "rack0\<lparr>private_data := [(5, CHR ''H'')]\<rparr>"
  obtain ierr s2 where run: "run_state (read_ai_value (board_os False) 5 (CHR ''H'') (Fin 0)) ?s = ((ierr, Fin 0), s2)"
      and "ierr \<noteq> 0"
    using read_ai_value_limit [of "CHR ''H''" "board_os False" 5 "Fin 0" ?s] by blast
  then show ?thesis
    using rack_temp_process [of "ai0\<lparr>dpvt := Some 0\<rparr>" None None 0 ?s 5 "CHR ''H''" "board_os False" ierr "Fin 0" s2 env_os] run
    by (auto simp: ai0_simps rack0_def dlt_finite split: prod.splits)
qed

text \<open>C11: The limit channels of the ai records do not work: a record whose INP ends in H or L (as those of
  the rack monitor's database do) is never given a value. Whatever the hardware answers, reading
  it reports an error and leaves the record undefined.\<close>

theorem limit_channels_undefined:
  assumes "dpvt p = Some i" "private_data s ! i = (address, what)" "what = CHR ''H'' \<or> what = CHR ''L''"
  shows "(case run_state (rack_read_ai os p) s of ((st, q), s') \<Rightarrow> st = - 1 \<and> udf q = 1 \<and> ai_val q = ai_val p)"
  using assms(1,2) read_ai_value_limit [OF assms(3), of os address "ai_val p" s]
  by (auto simp: rack_read_ai_def get_private_def)

theorem limit_channels_undefined_witness:
  "fst (fst (run_state (rack_read_ai (board_os False) (ai0\<lparr>dpvt := Some 0\<rparr>)) (rack0\<lparr>private_data := [(5, CHR ''H'')]\<rparr>))) = - 1"
  using limit_channels_undefined [of "ai0\<lparr>dpvt := Some 0\<rparr>" 0 "rack0\<lparr>private_data := [(5, CHR ''H'')]\<rparr>" 5 "CHR ''H''" "board_os False"]
  by (auto split: prod.splits)

section \<open>Limit outputs\<close>

text \<open>The ao records for the limits (OUT "n H" and "n L") are initialised without reading the
  sensor's present limit: no system call is made, the record gets its private data, and it is
  left undefined.\<close>

theorem ao_limits_not_read_back:
  assumes "global_fd_i2c s \<ge> 0" "length (private_data s) = 256" "n < 64" "c = CHR ''H'' \<or> c = CHR ''L''"
    and out: "ao_out p = inp_text n c"
  shows "(case run_state (init_record_ao os p) s of ((st, q), s') \<Rightarrow>
     st = 2 \<and> udf q = 1 \<and> ao_val q = ao_val p \<and> dpvt q = Some (private_index (int n) c)
     \<and> s' = s\<lparr>private_data := (private_data s)[private_index (int n) c := (int n, c)]\<rparr>)"
proof -
  have kind: "known_kind c" using assms(4) by (auto simp: known_kind_def)
  have i: "private_index (int n) c < 256" using assms(3) by (intro private_index_bound) auto
  have init: "run_state (init_record_common os (inp_text n c) p) s =
      ((0, p\<lparr>dpvt := Some (private_index (int n) c)\<rparr>),
       s\<lparr>private_data := (private_data s)[private_index (int n) c := (int n, c)]\<rparr>)"
    using init_record_common_open [OF assms(1), of os "inp_text n c" p] scan_inp_text [of n c] assms(3) kind
    by simp
  have "c \<noteq> CHR '' ''" "c \<noteq> CHR ''S''" "c \<noteq> CHR ''Y''" "c \<noteq> CHR ''C''" using assms(4) by auto
  then show ?thesis
    using assms(2) i by (simp add: init_record_ao_def out init get_private_def get_fd_def)
qed

theorem ao_limits_not_read_back_witness:
  "fst (fst (run_state (init_record_ao (board_os False) (ao0\<lparr>ao_out := inp_text 3 (CHR ''H'')\<rparr>)) rack0)) = 2"
  using ao_limits_not_read_back [of rack0 3 "CHR ''H''" "ao0\<lparr>ao_out := inp_text 3 (CHR ''H'')\<rparr>" "board_os False"]
  by (simp add: rack0_def case_prod_beta)

end
