(* ===== verification/BiRecord.thy ===== *)
theory BiRecord
  imports RecGbl
begin

text \<open>
  The binary input record (std/rec/biRecord.c): initialisation, reading through device support or
  the simulation links, state and change-of-state alarms, monitors, processing, and the state
  names. Strings are the contents of C strings, without the terminating NUL.
\<close>

section \<open>Data\<close>

record biRecord = dbCommon +
  bi_val :: enum16
  bi_zsv :: enum16
  bi_osv :: enum16
  bi_cosv :: enum16
  bi_znam :: string
  bi_onam :: string
  bi_rval :: u32
  bi_oraw :: u32
  bi_lalm :: u16
  bi_mlst :: u16
  bi_siol :: link
  bi_sval :: u32
  bi_siml :: link
  bi_simm :: enum16
  bi_sims :: enum16

record ('r, 'w) bidset =
  bi_number :: int
  bi_dev_init_record :: "('r \<Rightarrow> 'w \<Rightarrow> int \<times> 'r \<times> 'w) option"
  read_bi :: "('r \<Rightarrow> 'w \<Rightarrow> int \<times> 'r \<times> 'w) option"

type_synonym 'w bi_dset = "(biRecord, 'w) bidset"

section \<open>Operations\<close>

text \<open>The constant SIOL is loaded as 16 bits into the 32-bit SVAL: on a little-endian machine its low
  half.\<close>

definition load_low_half :: "u32 \<Rightarrow> u16 \<Rightarrow> u32" where
  "load_low_half old v = (old AND 0xFFFF0000) OR ucast v"

definition bi_init_record ::
  "'w rec_env \<Rightarrow> 'w bi_dset option \<Rightarrow> biRecord \<Rightarrow> int \<Rightarrow> 'w \<Rightarrow> int \<times> biRecord \<times> 'w" where
  "bi_init_record env dset prec pass w =
     (if pass = 0 then (0, prec, w)
      else let prec = prec\<lparr>bi_simm := snd (recGblInitConstantLink (parse_u16 env) 0
                                            (bi_siml prec) (bi_simm prec))\<rparr>;
               prec = (case dbLoadLink (parse_u16 env) 0 (bi_siol prec) of
                         None \<Rightarrow> prec | Some v \<Rightarrow> prec\<lparr>bi_sval := load_low_half (bi_sval prec) v\<rparr>)
           in case dset of
                None \<Rightarrow> (S_dev_noDSET, prec, w)
              | Some pdset \<Rightarrow>
                  if bi_number pdset < 5 \<or> read_bi pdset = None then (S_dev_missingSup, prec, w)
                  else let (status, prec, w) =
                             (case bi_dev_init_record pdset of None \<Rightarrow> (0, prec, w)
                              | Some init_record \<Rightarrow> init_record prec w)
                       in if status \<noteq> 0 then (status, prec, w)
                          else (0, prec\<lparr>bi_mlst := bi_val prec, bi_lalm := bi_val prec,
                                        bi_oraw := bi_rval prec\<rparr>, w))"

definition bi_readValue ::
  "'w rec_env \<Rightarrow> (biRecord \<Rightarrow> 'w \<Rightarrow> int \<times> biRecord \<times> 'w) \<Rightarrow> biRecord \<Rightarrow> 'w
     \<Rightarrow> int \<times> biRecord \<times> 'w" where
  "bi_readValue env read prec w =
     (if pact prec = TRUE then read prec w
      else case dbGetLink_int env (bi_siml prec) (ucast (bi_simm prec)) prec w of
        (status, v, prec, w) \<Rightarrow>
          let prec = prec\<lparr>bi_simm := ucast v\<rparr>
          in if status \<noteq> 0 then (status, prec, w)
             else if bi_simm prec = 0 then read prec w
             else if bi_simm prec = 1
             then (case dbGetLink_int env (bi_siol prec) (bi_sval prec) prec w of
                     (status, v, prec, w) \<Rightarrow>
                       let prec = prec\<lparr>bi_sval := v\<rparr>;
                           prec = (if status = 0 then prec\<lparr>bi_val := ucast (bi_sval prec), udf := FALSE\<rparr>
                                   else prec)
                       in (2, snd (recGblSetSevr prec SIMM_ALARM (bi_sims prec)), w))
             else if bi_simm prec = 2
             then (case dbGetLink_int env (bi_siol prec) (bi_sval prec) prec w of
                     (status, v, prec, w) \<Rightarrow>
                       let prec = prec\<lparr>bi_sval := v\<rparr>;
                           prec = (if status = 0 then prec\<lparr>bi_rval := bi_sval prec, udf := FALSE\<rparr>
                                   else prec)
                       in (0, snd (recGblSetSevr prec SIMM_ALARM (bi_sims prec)), w))
             else (- 1, snd (recGblSetSevr prec SOFT_ALARM INVALID_ALARM), w))"

definition bi_checkAlarms :: "biRecord \<Rightarrow> biRecord" where
  "bi_checkAlarms prec =
     (let v = bi_val prec
      in if udf prec = TRUE then snd (recGblSetSevr prec UDF_ALARM (udfs prec))
         else if v > 1 then prec
         else let prec = (if v = 0 then snd (recGblSetSevr prec STATE_ALARM (bi_zsv prec))
                          else snd (recGblSetSevr prec STATE_ALARM (bi_osv prec)))
              in if v = bi_lalm prec then prec
                 else (snd (recGblSetSevr prec COS_ALARM (bi_cosv prec)))\<lparr>bi_lalm := v\<rparr>)"

definition bi_monitor :: "'w rec_env \<Rightarrow> biRecord \<Rightarrow> 'w \<Rightarrow> biRecord \<times> 'w" where
  "bi_monitor env prec w =
     (let (monitor_mask, prec, w) = recGblResetAlarms env prec w;
          (monitor_mask, prec) =
            (if bi_mlst prec \<noteq> bi_val prec
             then (monitor_mask OR (DBE_VALUE OR DBE_LOG), prec\<lparr>bi_mlst := bi_val prec\<rparr>)
             else (monitor_mask, prec));
          prec = (if monitor_mask \<noteq> 0 then db_post_events ''VAL'' monitor_mask prec else prec);
          prec = (if bi_oraw prec \<noteq> bi_rval prec
                  then (db_post_events ''RVAL'' (monitor_mask OR DBE_VALUE OR DBE_LOG) prec)
                         \<lparr>bi_oraw := bi_rval prec\<rparr>
                  else prec)
      in (prec, w))"

definition bi_process ::
  "'w rec_env \<Rightarrow> 'w bi_dset option \<Rightarrow> biRecord \<Rightarrow> 'w \<Rightarrow> int \<times> biRecord \<times> 'w" where
  "bi_process env dset prec w =
     (case Option.bind dset read_bi of
        None \<Rightarrow> (S_dev_missingSup, prec\<lparr>pact := TRUE\<rparr>, w)
      | Some read \<Rightarrow>
          let was_active = pact prec;
              (status, prec, w) = bi_readValue env read prec w
          in if was_active = 0 \<and> pact prec \<noteq> 0 then (0, prec, w)
             else let prec = prec\<lparr>pact := TRUE\<rparr>;
                      (prec, w) = recGblGetTimeStamp env prec w;
                      prec = (if status = 0
                              then prec\<lparr>bi_val := (if bi_rval prec = 0 then 0 else 1), udf := FALSE\<rparr>
                              else prec);
                      status = (if status = 2 then 0 else status);
                      prec = bi_checkAlarms prec;
                      (prec, w) = bi_monitor env prec w;
                      (prec, w) = recGblFwdLink env prec w
                  in (status, prec\<lparr>pact := FALSE\<rparr>, w))"

text \<open>State names: \<open>sizeof(prec->znam)\<close> is 26.\<close>

definition bi_get_enum_str :: "dbAddr \<Rightarrow> biRecord \<Rightarrow> string" where
  "bi_get_enum_str paddr prec =
     (if field paddr \<noteq> ''VAL'' then ''Illegal_Value''
      else if bi_val prec = 0 then take 26 (bi_znam prec)
      else if bi_val prec = 1 then take 26 (bi_onam prec)
      else ''Illegal_Value'')"

definition bi_get_enum_strs :: "biRecord \<Rightarrow> nat \<times> string list" where
  "bi_get_enum_strs prec =
     (let no_str = 2;
          no_str = (if bi_znam prec \<noteq> [] then 1 else no_str);
          no_str = (if bi_onam prec \<noteq> [] then 2 else no_str)
      in (no_str, [take 26 (bi_znam prec), take 26 (bi_onam prec)]))"

definition bi_put_enum_str :: "string \<Rightarrow> biRecord \<Rightarrow> int \<times> biRecord" where
  "bi_put_enum_str pstring prec =
     (if take 26 pstring = take 26 (bi_znam prec) then (0, prec\<lparr>bi_val := 0, udf := FALSE\<rparr>)
      else if take 26 pstring = take 26 (bi_onam prec) then (0, prec\<lparr>bi_val := 1, udf := FALSE\<rparr>)
      else (S_db_badChoice, prec))"

section \<open>Correctness\<close>

lemma bi_simm_update_id: "bi_simm p = v \<Longrightarrow> p\<lparr>bi_simm := v\<rparr> = p"
  by auto

lemma setSevr_bi_simps [rec_simps]:
  "bi_val (snd (recGblSetSevr p st sv)) = bi_val p"
  "bi_lalm (snd (recGblSetSevr p st sv)) = bi_lalm p"
  "bi_zsv (snd (recGblSetSevr p st sv)) = bi_zsv p"
  "bi_osv (snd (recGblSetSevr p st sv)) = bi_osv p"
  "bi_cosv (snd (recGblSetSevr p st sv)) = bi_cosv p"
  by (simp_all add: recGblSetSevr_def)

lemma reset_bi_simps [rec_simps]:
  "bi_val (fst (snd (recGblResetAlarms env p w))) = bi_val p"
  "bi_lalm (fst (snd (recGblResetAlarms env p w))) = bi_lalm p"
  by (simp_all add: recGblResetAlarms_def Let_def db_post_events_def)

lemma monitor_bi_simps [rec_simps]:
  "bi_val (fst (bi_monitor env p w)) = bi_val p"
  "bi_mlst (fst (bi_monitor env p w)) = bi_val p"
  "bi_lalm (fst (bi_monitor env p w)) = bi_lalm p"
  "bi_oraw (fst (bi_monitor env p w)) = bi_rval (fst (bi_monitor env p w))"
  "stat (fst (bi_monitor env p w)) = nsta p"
  "sevr (fst (bi_monitor env p w)) = min 3 (nsev p)"
  "udf (fst (bi_monitor env p w)) = udf p"
proof -
  obtain m p1 w1 where r: "recGblResetAlarms env p w = (m, p1, w1)"
    by (metis prod_cases3)
  have f: "stat p1 = nsta p" "sevr p1 = min 3 (nsev p)" "udf p1 = udf p"
    using reset_alarms_fields(1,2) [of env p w] reset_udf [of env p w] r by simp_all
  have g: "bi_val p1 = bi_val p" "bi_lalm p1 = bi_lalm p"
    using reset_bi_simps [of env p w] r by simp_all
  note d = bi_monitor_def r db_post_events_def Let_def
  show "bi_val (fst (bi_monitor env p w)) = bi_val p" by (simp add: d g)
  show "bi_mlst (fst (bi_monitor env p w)) = bi_val p" by (simp add: d g)
  show "bi_lalm (fst (bi_monitor env p w)) = bi_lalm p" by (simp add: d g)
  show "bi_oraw (fst (bi_monitor env p w)) = bi_rval (fst (bi_monitor env p w))" by (simp add: d g)
  show "stat (fst (bi_monitor env p w)) = nsta p" by (simp add: d f)
  show "sevr (fst (bi_monitor env p w)) = min 3 (nsev p)" by (simp add: d f)
  show "udf (fst (bi_monitor env p w)) = udf p" by (simp add: d f)
qed

lemma check_bi_simps [rec_simps]:
  "bi_val (bi_checkAlarms p) = bi_val p" "udf (bi_checkAlarms p) = udf p"
  by (auto simp: bi_checkAlarms_def recGblSetSevr_def Let_def)

text \<open>The severity the alarm check adds.\<close>

definition bi_severity :: "biRecord \<Rightarrow> enum16" where
  "bi_severity p =
     (if udf p = 1 then udfs p
      else if bi_val p > 1 then 0
      else max (if bi_val p = 0 then bi_zsv p else bi_osv p) (if bi_val p = bi_lalm p then 0 else bi_cosv p))"

lemma check_bi_nsev [rec_simps]: "nsev (bi_checkAlarms p) = max (nsev p) (bi_severity p)"
proof -
  have "0 \<le> nsev p" "\<And>s. max s (0 :: enum16) = s" by (simp_all add: max_absorb1)
  then show ?thesis
    by (simp add: bi_checkAlarms_def bi_severity_def Let_def rec_simps max.assoc)
qed

text \<open>Processing a bi record (not simulated, not active before), for a device that completes at
  once: the record ends inactive, VAL is the device's value (status 2) or 0/1 by RVAL (status 0),
  the committed severity is the greatest of what was pending, the state's severity and, on a change
  since the last alarm check, the change-of-state severity (UDFS for an undefined value), and
  monitors have been sent the current value and raw value.\<close>

theorem bi_process_correct:
  assumes "read_bi dset = Some read" "pact prec = 0" "bi_siml prec = CONSTANT c" "bi_simm prec = 0"
    and read: "read prec w = (status, r1, w1)" and sync: "pact r1 = 0"
    and conv: "r2 = (let r = fst (recGblGetTimeStamp env (r1\<lparr>pact := 1\<rparr>) w1)
                     in if status = 0 then r\<lparr>bi_val := (if bi_rval r = 0 then 0 else 1), udf := 0\<rparr> else r)"
  shows "(case bi_process env (Some dset) prec w of (st, p', w') \<Rightarrow>
     st = (if status = 2 then 0 else status) \<and> pact p' = 0 \<and> putf p' = 0
     \<and> bi_val p' = bi_val r2 \<and> udf p' = udf r2
     \<and> sevr p' = min 3 (max (nsev r2) (bi_severity r2))
     \<and> bi_mlst p' = bi_val p' \<and> bi_oraw p' = bi_rval p')"
proof -
  have rv: "bi_readValue env read prec w = (status, r1, w1)"
    using assms(2-4) read by (simp add: bi_readValue_def dbGetLink_int_def Let_def bi_simm_update_id)
  obtain r w2 where ts: "recGblGetTimeStamp env (r1\<lparr>pact := 1\<rparr>) w1 = (r, w2)" by fastforce
  let ?c = "bi_checkAlarms r2"
  obtain m w3 where mon: "bi_monitor env ?c w2 = (m, w3)" by fastforce
  obtain f w4 where fwd: "recGblFwdLink env m w3 = (f, w4)" by fastforce
  have res: "bi_process env (Some dset) prec w =
      ((if status = 2 then 0 else status), f\<lparr>pact := 0\<rparr>, w4)"
    using assms(1) sync rv ts conv mon fwd by (auto simp: bi_process_def Let_def)
  have f: "f = m\<lparr>rpro := (if rpro m \<noteq> 0 then 0 else rpro m), putf := 0\<rparr>"
    using fwdLink_simps [of env m w3] fwd by simp
  have "bi_val m = bi_val r2" "udf m = udf r2" "sevr m = min 3 (nsev ?c)" "bi_mlst m = bi_val r2"
      "bi_oraw m = bi_rval m"
    using monitor_bi_simps [of env ?c w2] mon by (simp_all add: rec_simps)
  then show ?thesis by (simp add: res f rec_simps)
qed

text \<open>A record with the configuration of the rack protection status, for concrete inputs.\<close>

definition bi0 :: biRecord where
  "bi0 = dbCommon.extend (rec0\<lparr>stat := 0, sevr := 0, acks := 0, udf := 0\<rparr>)
     (biRecord.fields 1 2 0 0 ''NOT_GOOD'' ''Good'' 0 0 1 1 (CONSTANT None) 0 (CONSTANT None) 0 0)"

lemmas bi0_simps = bi0_def rec0_def dbCommon.defs biRecord.defs

definition bi_dset0 :: "nat bi_dset" where
  "bi_dset0 = \<lparr>bi_number = 5, bi_dev_init_record = None,
     read_bi = Some (\<lambda>prec w. (0, prec\<lparr>bi_rval := of_nat w\<rparr>, w))\<rparr>"

theorem bi_process_correct_witness:
  "sevr (fst (snd (bi_process env0 (Some bi_dset0) bi0 0))) = 2"
  using bi_process_correct [of bi_dset0 "\<lambda>prec w. (0, prec\<lparr>bi_rval := of_nat w\<rparr>, w)" bi0 None 0 0
      "bi0\<lparr>bi_rval := 0\<rparr>" 0 "bi0\<lparr>bi_rval := 0, pact := 1, rtime := (0, 0), bi_val := 0, udf := 0\<rparr>" env0]
  by (simp add: bi_dset0_def bi0_simps recGblGetTimeStamp_def env0_def case_prod_beta Let_def
      bi_severity_def)

lemma word_le_1_cases: "x \<le> (1 :: enum16) \<Longrightarrow> x = 0 \<or> x = 1"
  by (metis word_le_less_eq word_less_1)

text \<open>The state names round trip: writing the name the record shows for its state sets that state,
  provided the two names differ within their 26 characters; any other string is refused and
  changes nothing.\<close>

theorem bi_names_roundtrip:
  assumes "take 26 (bi_znam prec) \<noteq> take 26 (bi_onam prec)"
  shows "(bi_val prec \<le> 1 \<longrightarrow>
           bi_put_enum_str (bi_get_enum_str \<lparr>field = ''VAL'', field_type = DBF_ENUM, special_type = 0\<rparr> prec)
             (prec\<lparr>bi_val := v\<rparr>) = (0, prec\<lparr>udf := 0\<rparr>))
       \<and> (case bi_put_enum_str s prec of (st, p') \<Rightarrow>
            if take 26 s \<in> set (snd (bi_get_enum_strs prec))
            then st = 0 \<and> snd (bi_get_enum_strs prec) ! unat (bi_val p') = take 26 s
            else st = S_db_badChoice \<and> p' = prec)"
proof (intro conjI impI)
  assume "bi_val prec \<le> 1"
  then consider "bi_val prec = 0" | "bi_val prec = 1"
    using word_le_1_cases by blast
  then show "bi_put_enum_str (bi_get_enum_str \<lparr>field = ''VAL'', field_type = DBF_ENUM, special_type = 0\<rparr> prec)
      (prec\<lparr>bi_val := v\<rparr>) = (0, prec\<lparr>udf := 0\<rparr>)"
    using assms by cases (simp_all add: bi_put_enum_str_def bi_get_enum_str_def)
next
  show "case bi_put_enum_str s prec of (st, p') \<Rightarrow>
      if take 26 s \<in> set (snd (bi_get_enum_strs prec))
      then st = 0 \<and> snd (bi_get_enum_strs prec) ! unat (bi_val p') = take 26 s
      else st = S_db_badChoice \<and> p' = prec"
    using assms by (simp add: bi_put_enum_str_def bi_get_enum_strs_def Let_def)
qed

theorem bi_names_roundtrip_witness:
  "bi_put_enum_str ''Good'' (bi0\<lparr>bi_val := 0\<rparr>) = (0, bi0)"
  using bi_names_roundtrip [of bi0 0 "''Good''"]
  by (simp add: bi0_simps bi_get_enum_str_def bi_get_enum_strs_def)

end
