(* ===== verification/RackProt.thy ===== *)
theory RackProt
  imports RackTemp BiRecord
begin

text \<open>
  Device support for the rack protection status (RackmonIocApp/src/devBiRackProt.c): the status bit
  on GPIO 44, and the heartbeat on GPIO 45, which toggles while reading succeeds and follows a
  pattern of period 21 while it fails.
\<close>

section \<open>Operations\<close>

definition hb_tick :: "('k, u32) rio" where
  "hb_tick = State (\<lambda>s. (hb_sequence_counter s + 1,
     s\<lparr>hb_sequence_counter := hb_sequence_counter s + 1\<rparr>))"

text \<open>\<open>(308404&(1<<(20-hb_sequence_counter%21)))!=0\<close>\<close>

definition hb_pattern :: "u32 \<Rightarrow> bool" where
  "hb_pattern n = bit (308404 :: int) (20 - unat (n mod 21))"

definition init_record_bi :: "'k os_api \<Rightarrow> biRecord \<Rightarrow> ('k, int \<times> biRecord) rio" where
  "init_record_bi os prec = State_Monad.return (0, prec)"

definition rack_read_bi :: "'k os_api \<Rightarrow> biRecord \<Rightarrow> ('k, int \<times> biRecord) rio" where
  "rack_read_bi os prec = do {
     istat \<leftarrow> gpio_read os 44;
     if istat \<ge> 0 then do {
       (if istat = 0 \<and> bi_val prec \<noteq> 0 then c_event EvPrintf else State_Monad.return ());
       n \<leftarrow> hb_tick;
       _ \<leftarrow> gpio_write os 45 (uint (n mod 2));
       State_Monad.return (2, prec\<lparr>bi_val := word_of_int istat, udf := FALSE\<rparr>)
     } else do {
       n \<leftarrow> hb_tick;
       _ \<leftarrow> gpio_write os 45 (if hb_pattern n then 1 else 0);
       State_Monad.return (- 1, prec\<lparr>udf := TRUE\<rparr>)
     }
   }"

definition devBiRackProt :: "'k os_api \<Rightarrow> 'k rackmon bi_dset" where
  "devBiRackProt os = \<lparr>bi_number = 5, bi_dev_init_record = Some (dev_routine (init_record_bi os)),
     read_bi = Some (dev_routine (rack_read_bi os))\<rparr>"

section \<open>Correctness\<close>

lemma sys_frame:
  "hb_sequence_counter (snd (run_state (sys e f) s)) = hb_sequence_counter s"
  by (simp split: prod.split)

lemma gpio_write_frame:
  "hb_sequence_counter (snd (run_state (gpio_write os g v) s)) = hb_sequence_counter s"
  by (simp add: gpio_write_eq c_io_defs split: prod.split option.split)

lemma gpio_read_frame:
  "hb_sequence_counter (snd (run_state (gpio_read os g) s)) = hb_sequence_counter s"
  by (simp add: gpio_read_eq c_io_defs split: prod.split option.split)

lemma gpio_read_result: "fst (run_state (gpio_read os g) s) \<in> {- 1, 0, 1}"
  by (auto simp: gpio_read_eq c_io_defs split: prod.split option.split)

lemma gpio_write_trace:
  assumes "run_state (gpio_write os g v) s = (r, s')" "0 \<le> r"
  shows "\<exists>h. trace s' = trace s @ gpio_write_events (nat g) (if v \<noteq> 0 then 49 else 48) h"
  using gpio_write_ok [OF assms] by blast

text \<open>One read: the status line decides the result, and the counter advances.\<close>

lemma rack_read_bi_run:
  assumes r: "run_state (gpio_read os 44) s = (r, s1)"
  shows "fst (run_state (rack_read_bi os p) s) =
      (if r \<ge> 0 then (2, p\<lparr>bi_val := word_of_int r, udf := 0\<rparr>) else (- 1, p\<lparr>udf := 1\<rparr>))"
    and "hb_sequence_counter (snd (run_state (rack_read_bi os p) s)) = hb_sequence_counter s + 1"
proof -
  have f1: "hb_sequence_counter s1 = hb_sequence_counter s"
    using gpio_read_frame [of os 44 s] r by simp
  show "fst (run_state (rack_read_bi os p) s) =
      (if r \<ge> 0 then (2, p\<lparr>bi_val := word_of_int r, udf := 0\<rparr>) else (- 1, p\<lparr>udf := 1\<rparr>))"
    using r by (simp add: rack_read_bi_def hb_tick_def c_event_def case_prod_beta)
  show "hb_sequence_counter (snd (run_state (rack_read_bi os p) s)) = hb_sequence_counter s + 1"
    using r f1 by (simp add: rack_read_bi_def hb_tick_def c_event_def case_prod_beta gpio_write_frame)
qed

text \<open>Reading the rack protection status: the record is 0 or 1 as GPIO 44 reads and defined, without
  conversion; when the line cannot be read the record is undefined and keeps its value, so the
  protection is never reported good by default. Every read, good or bad, advances the heartbeat
  counter by one, modulo 2 to the 32.\<close>

theorem rack_read_bi_correct:
  "(case run_state (rack_read_bi os p) s of ((st, q), s') \<Rightarrow>
     case run_state (gpio_read os 44) s of (r, s1) \<Rightarrow>
       hb_sequence_counter s' = hb_sequence_counter s + 1 \<and>
       (if r = 0 \<or> r = 1 then st = 2 \<and> udf q = 0 \<and> uint (bi_val q) = r
        else st = - 1 \<and> udf q = 1 \<and> bi_val q = bi_val p))"
proof -
  obtain r s1 where r: "run_state (gpio_read os 44) s = (r, s1)" by fastforce
  then have "r = - 1 \<or> r = 0 \<or> r = 1" using gpio_read_result [of os 44 s] by simp
  with rack_read_bi_run [OF r, of p] r show ?thesis by (auto simp: case_prod_beta)
qed

section \<open>The heartbeat\<close>

text \<open>The level of the heartbeat line after a read with counter \<open>n\<close>.\<close>

definition hb_level :: "bool \<Rightarrow> u32 \<Rightarrow> bool" where
  "hb_level good n = (if good then n mod 2 \<noteq> 0 else hb_pattern n)"

lemma word_mod_2_suc: "((n :: u32) + 1) mod 2 \<noteq> 0 \<longleftrightarrow> n mod 2 = 0"
proof -
  have "even (n + 1) \<longleftrightarrow> \<not> even n" by simp
  then show ?thesis by (simp add: even_iff_mod_2_eq_zero)
qed

text \<open>What a read may write to the heartbeat file: the level and the newline.\<close>

definition hb_event :: "bool \<Rightarrow> u32 \<Rightarrow> io_event \<Rightarrow> bool" where
  "hb_event good n e = (case e of
     EvFputc b h \<Rightarrow> b = 10 \<or> b = (if hb_level good n then 49 else 48) | _ \<Rightarrow> True)"

lemma hb_event_simps [simp]:
  "hb_event g n (EvFopen a b)" "hb_event g n (EvFclose h)" "hb_event g n (EvFgetc h)"
  "hb_event g n EvPrintf" "hb_event g n (EvFputc 10 h)"
  "hb_event g n (EvFputc 49 h) \<longleftrightarrow> hb_level g n" "hb_event g n (EvFputc 48 h) \<longleftrightarrow> \<not> hb_level g n"
  by (simp_all add: hb_event_def)

lemma gpio_read_hb: "appends (list_all (hb_event g n)) (gpio_read os 44)"
  unfolding gpio_read_eq c_io_defs by (auto intro!: appends_all_bind split: option.split)

lemma gpio_write_hb: "(v \<noteq> 0) = hb_level g n \<Longrightarrow> appends (list_all (hb_event g n)) (gpio_write os 45 v)"
  unfolding gpio_write_eq c_io_defs by (auto intro!: appends_all_bind split: option.split)

text \<open>The heartbeat: all a read writes to the heartbeat line is the level for the new counter value;
  while reads succeed that level toggles with every read, at the wrap-around of the 32-bit counter
  too; while they fail it follows a fixed irregular pattern of period 21.\<close>

theorem heartbeat_correct:
  "(case run_state (rack_read_bi os p) s of ((st, q), s') \<Rightarrow>
      \<exists>es. trace s' = trace s @ es \<and> list_all (hb_event (st = 2) (hb_sequence_counter s')) es) \<and>
   hb_level True (n + 1) \<noteq> hb_level True n \<and>
   map (\<lambda>i. if hb_level False (of_nat i) then 1 else (0 :: int)) [0..<21] =
     [0, 0, 1, 0, 0, 1, 0, 1, 1, 0, 1, 0, 0, 1, 0, 1, 1, 0, 1, 0, 0]"
proof (intro conjI)
  obtain r s1 where r: "run_state (gpio_read os 44) s = (r, s1)" by fastforce
  define n where "n = hb_sequence_counter s + 1"
  have cnt: "hb_sequence_counter (snd (run_state (rack_read_bi os p) s)) = n"
    using rack_read_bi_run(2) [OF r] by (simp add: n_def)
  have n1: "hb_sequence_counter s1 + 1 = n"
    using gpio_read_frame [of os 44 s] r by (simp add: n_def)
  define s2 where "s2 = (if r = 0 \<and> bi_val p \<noteq> 0 then s1\<lparr>trace := trace s1 @ [EvPrintf]\<rparr> else s1)
     \<lparr>hb_sequence_counter := n\<rparr>"
  obtain es1 where es1: "trace s1 = trace s @ es1" "list_all (hb_event (r \<ge> 0) n) es1"
    using appendsD [OF gpio_read_hb, of os s "r \<ge> 0" n] r by auto
  have t2: "\<exists>es2. trace s2 = trace s1 @ es2 \<and> list_all (hb_event (r \<ge> 0) n) es2"
    by (simp add: s2_def)
  define v where "v = (if r \<ge> 0 then uint (n mod 2) else if hb_pattern n then 1 else 0)"
  have "(v \<noteq> 0) = hb_level (r \<ge> 0) n"
    by (simp add: v_def hb_level_def uint_0_iff)
  then obtain es3 where es3: "trace (snd (run_state (gpio_write os 45 v) s2)) = trace s2 @ es3"
      "list_all (hb_event (r \<ge> 0) n) es3"
    using appendsD [OF gpio_write_hb [of v "r \<ge> 0" n os], of s2] by auto
  have fin: "snd (run_state (rack_read_bi os p) s) = snd (run_state (gpio_write os 45 v) s2)"
    using r n1 by (simp add: rack_read_bi_def hb_tick_def c_event_def case_prod_beta v_def s2_def)
  have "fst (fst (run_state (rack_read_bi os p) s)) = 2 \<longleftrightarrow> r \<ge> 0"
    using rack_read_bi_run(1) [OF r] by simp
  then show "case run_state (rack_read_bi os p) s of ((st, q), s') \<Rightarrow>
      \<exists>es. trace s' = trace s @ es \<and> list_all (hb_event (st = 2) (hb_sequence_counter s')) es"
    using t2 es1 es3 cnt fin by (auto simp: case_prod_beta)
  show "hb_level True (n' + 1) \<noteq> hb_level True n'" for n'
    using word_mod_2_suc [of n'] by (simp add: hb_level_def)
  show "map (\<lambda>i. if hb_level False (of_nat i) then 1 else (0 :: int)) [0..<21] =
     [0, 0, 1, 0, 0, 1, 0, 1, 1, 0, 1, 0, 0, 1, 0, 1, 1, 0, 1, 0, 0]"
    by code_simp
qed

end
