(* ===== verification/RingBytes.thy ===== *)
theory RingBytes
  imports Prelude
begin

text \<open>
  The byte ring buffer (libCom/ring/epicsRingBytes.c) and the pointer ring buffer
  (libCom/ring/epicsRingPointer.h) of EPICS base, as implementations of a bounded FIFO queue. The
  contract is the locale \<open>fifo\<close>, interpreted on both. The spin lock of a locked ring makes each
  operation atomic and has no other effect.
\<close>

section \<open>The contract of a bounded queue\<close>

text \<open>A run of operations, with the result of each: the number of elements a put accepted, the elements a get
  returned.\<close>

datatype 'a queue_op = Put "'a list" | Get nat | Flush
datatype 'a queue_result = Accepted nat | Returned "'a list" | Done

fun queue_run :: "('q \<Rightarrow> 'a list \<Rightarrow> nat \<times> 'q) \<Rightarrow> ('q \<Rightarrow> nat \<Rightarrow> 'a list \<times> 'q) \<Rightarrow> ('q \<Rightarrow> 'q) \<Rightarrow> 'q
    \<Rightarrow> 'a queue_op list \<Rightarrow> 'a queue_result list \<times> 'q" where
  "queue_run put get flush q [] = ([], q)"
| "queue_run put get flush q (Put xs # ops) = (case put q xs of (n, q') \<Rightarrow>
     case queue_run put get flush q' ops of (rs, q'') \<Rightarrow> (Accepted n # rs, q''))"
| "queue_run put get flush q (Get n # ops) = (case get q n of (ys, q') \<Rightarrow>
     case queue_run put get flush q' ops of (rs, q'') \<Rightarrow> (Returned ys # rs, q''))"
| "queue_run put get flush q (Flush # ops) =
     (case queue_run put get flush (flush q) ops of (rs, q'') \<Rightarrow> (Done # rs, q''))"

text \<open>What a bounded queue does, on its contents \<open>q\<close>: a put is accepted whole or not at all, a get returns the
  oldest elements, as many as it asks for or there are.\<close>

fun bounded_run :: "nat \<Rightarrow> 'a list \<Rightarrow> 'a queue_op list \<Rightarrow> 'a queue_result list \<times> 'a list" where
  "bounded_run cap q [] = ([], q)"
| "bounded_run cap q (Put xs # ops) =
     (if length q + length xs \<le> cap
      then (case bounded_run cap (q @ xs) ops of (rs, q') \<Rightarrow> (Accepted (length xs) # rs, q'))
      else (case bounded_run cap q ops of (rs, q') \<Rightarrow> (Accepted 0 # rs, q')))"
| "bounded_run cap q (Get n # ops) =
     (case bounded_run cap (drop n q) ops of (rs, q') \<Rightarrow> (Returned (take n q) # rs, q'))"
| "bounded_run cap q (Flush # ops) = (case bounded_run cap [] ops of (rs, q') \<Rightarrow> (Done # rs, q'))"

locale fifo =
  fixes inv :: "'q \<Rightarrow> bool" and elems :: "'q \<Rightarrow> 'a list" and cap :: "'q \<Rightarrow> nat"
    and put :: "'q \<Rightarrow> 'a list \<Rightarrow> nat \<times> 'q" and get :: "'q \<Rightarrow> nat \<Rightarrow> 'a list \<times> 'q" and flush :: "'q \<Rightarrow> 'q"
  assumes put_ok: "inv q \<Longrightarrow> length (elems q) + length xs \<le> cap q \<Longrightarrow> put q xs = (n, q') \<Longrightarrow>
      n = length xs \<and> inv q' \<and> elems q' = elems q @ xs \<and> cap q' = cap q"
    and put_full: "inv q \<Longrightarrow> cap q < length (elems q) + length xs \<Longrightarrow> put q xs = (0, q)"
    and get_ok: "inv q \<Longrightarrow> get q n = (ys, q') \<Longrightarrow>
      ys = take n (elems q) \<and> inv q' \<and> elems q' = drop n (elems q) \<and> cap q' = cap q"
    and flush_ok: "inv q \<Longrightarrow> inv (flush q) \<and> elems (flush q) = [] \<and> cap (flush q) = cap q"
begin

lemma run_bounded:
  "inv q \<Longrightarrow> queue_run put get flush q ops = (rs, q') \<Longrightarrow>
     bounded_run (cap q) (elems q) ops = (rs, elems q') \<and> inv q' \<and> cap q' = cap q"
proof (induction ops arbitrary: q rs q')
  case (Cons op ops)
  show ?case
  proof (cases op)
    case (Put xs)
    obtain n q1 where p: "put q xs = (n, q1)" by fastforce
    obtain rs1 q2 where e: "queue_run put get flush q1 ops = (rs1, q2)" by fastforce
    show ?thesis
    proof (cases "length (elems q) + length xs \<le> cap q")
      case True
      then show ?thesis using put_ok [OF Cons.prems(1) True p] Cons.IH [OF _ e] Cons.prems(2) p e Put by simp
    next
      case False
      then show ?thesis using put_full [OF Cons.prems(1), of xs] Cons.IH [OF _ e] Cons.prems p e Put by simp
    qed
  next
    case (Get n)
    obtain ys q1 where g: "get q n = (ys, q1)" by fastforce
    obtain rs1 q2 where e: "queue_run put get flush q1 ops = (rs1, q2)" by fastforce
    show ?thesis using get_ok [OF Cons.prems(1) g] Cons.IH [OF _ e] Cons.prems(2) g e Get by simp
  next
    case Flush
    obtain rs1 q2 where e: "queue_run put get flush (flush q) ops = (rs1, q2)" by fastforce
    show ?thesis using flush_ok [OF Cons.prems(1)] Cons.IH [OF _ e] Cons.prems(2) e Flush by simp
  qed
qed simp

end

text \<open>The contract of a queue of single elements, which a queue of blocks gives.\<close>

locale fifo1 =
  fixes inv :: "'q \<Rightarrow> bool" and elems :: "'q \<Rightarrow> 'a list" and cap :: "'q \<Rightarrow> nat"
    and push :: "'q \<Rightarrow> 'a \<Rightarrow> bool \<times> 'q" and pop :: "'q \<Rightarrow> 'a option \<times> 'q"
  assumes push_spec: "inv q \<Longrightarrow> push q x = (ok, q') \<Longrightarrow> inv q' \<and> cap q' = cap q \<and>
      (if length (elems q) < cap q then ok \<and> elems q' = elems q @ [x] else \<not> ok \<and> q' = q)"
    and pop_spec: "inv q \<Longrightarrow> pop q = (r, q') \<Longrightarrow> inv q' \<and> cap q' = cap q \<and>
      (case elems q of [] \<Rightarrow> r = None \<and> elems q' = [] | x # xs \<Rightarrow> r = Some x \<and> elems q' = xs)"
begin

lemma push_pop:
  assumes "inv q" "elems q = []" "0 < cap q"
  shows "fst (pop (snd (push q x))) = Some x"
proof -
  obtain ok q1 where p: "push q x = (ok, q1)" by fastforce
  obtain r q2 where g: "pop q1 = (r, q2)" by fastforce
  show ?thesis using push_spec [OF assms(1) p] pop_spec [OF _ g] assms(2,3) p g by auto
qed

end

sublocale fifo \<subseteq> single: fifo1 inv elems cap "\<lambda>q x. (fst (put q [x]) = 1, snd (put q [x]))"
    "\<lambda>q. (case fst (get q 1) of [] \<Rightarrow> None | y # _ \<Rightarrow> Some y, snd (get q 1))"
proof
  fix q x ok q'
  assume q: "inv q" and p: "(fst (put q [x]) = 1, snd (put q [x])) = (ok, q')"
  show "inv q' \<and> cap q' = cap q \<and>
      (if length (elems q) < cap q then ok \<and> elems q' = elems q @ [x] else \<not> ok \<and> q' = q)"
  proof (cases "length (elems q) < cap q")
    case True
    then show ?thesis using put_ok [OF q, of "[x]" "fst (put q [x])" "snd (put q [x])"] p by auto
  next
    case False
    then show ?thesis using put_full [OF q, of "[x]"] p q by auto
  qed
next
  fix q r q'
  assume q: "inv q" and g: "(case fst (get q 1) of [] \<Rightarrow> None | y # _ \<Rightarrow> Some y, snd (get q 1)) = (r, q')"
  show "inv q' \<and> cap q' = cap q \<and>
      (case elems q of [] \<Rightarrow> r = None \<and> elems q' = [] | x # xs \<Rightarrow> r = Some x \<and> elems q' = xs)"
    using get_ok [OF q, of 1 "fst (get q 1)" "snd (get q 1)"] g
    by (auto simp: take_Suc drop_Suc split: list.splits)
qed

section \<open>The byte ring\<close>

definition SLOP :: nat where "SLOP = 16"

record ringPvt =
  lock :: bool
  nextPut :: nat
  nextGet :: nat
  size :: nat
  buffer :: "u8 list"

text \<open>\<open>memcpy\<close> into and out of the buffer.\<close>

definition memcpy_in :: "'a list \<Rightarrow> nat \<Rightarrow> 'a list \<Rightarrow> 'a list" where
  "memcpy_in buf off bs = take off buf @ bs @ drop (off + length bs) buf"

definition memcpy_out :: "'a list \<Rightarrow> nat \<Rightarrow> nat \<Rightarrow> 'a list" where
  "memcpy_out buf off n = take n (drop off buf)"

text \<open>The contents of a new buffer are what \<open>malloc\<close> returns.\<close>

definition epicsRingBytesCreate :: "nat \<Rightarrow> u8 list \<Rightarrow> ringPvt" where
  "epicsRingBytesCreate n mem =
     \<lparr>lock = False, nextPut = 0, nextGet = 0, size = n + SLOP, buffer = take (n + SLOP) mem\<rparr>"

definition epicsRingBytesLockedCreate :: "nat \<Rightarrow> u8 list \<Rightarrow> ringPvt" where
  "epicsRingBytesLockedCreate n mem = (epicsRingBytesCreate n mem)\<lparr>lock := True\<rparr>"

definition epicsRingBytesGet :: "ringPvt \<Rightarrow> nat \<Rightarrow> u8 list \<times> ringPvt" where
  "epicsRingBytesGet pring nbytes =
     (let nextG = nextGet pring; nextP = nextPut pring; sz = size pring
      in if nextG \<le> nextP
         then let count = nextP - nextG;
                  nbytes = (if count < nbytes then count else nbytes)
              in (memcpy_out (buffer pring) nextG nbytes, pring\<lparr>nextGet := nextG + nbytes\<rparr>)
         else let count = sz - nextG;
                  count = (if count > nbytes then nbytes else count);
                  value1 = memcpy_out (buffer pring) nextG count;
                  nextG = nextG + count
              in if nextG = sz
                 then let nLeft = nbytes - count;
                          nLeft = (if nLeft > nextP then nextP else nLeft)
                      in (value1 @ memcpy_out (buffer pring) 0 nLeft, pring\<lparr>nextGet := nLeft\<rparr>)
                 else (value1, pring\<lparr>nextGet := nextG\<rparr>))"

definition epicsRingBytesPut :: "ringPvt \<Rightarrow> u8 list \<Rightarrow> nat \<times> ringPvt" where
  "epicsRingBytesPut pring value =
     (let nextG = nextGet pring; nextP = nextPut pring; sz = size pring; nbytes = length value
      in if nextP < nextG
         then let freeCount = int nextG - int nextP - int SLOP
              in if int nbytes > freeCount then (0, pring)
                 else (nbytes, pring\<lparr>buffer := memcpy_in (buffer pring) nextP value,
                                    nextPut := nextP + nbytes\<rparr>)
         else let freeCount = int sz - int nextP + int nextG - int SLOP
              in if int nbytes > freeCount then (0, pring)
                 else let topCount = sz - nextP;
                          copyCount = (if nbytes > topCount then topCount else nbytes);
                          buf = memcpy_in (buffer pring) nextP (take copyCount value);
                          nextP = nextP + copyCount
                      in if nextP = sz
                         then let nLeft = nbytes - copyCount
                              in (nbytes, pring\<lparr>buffer := memcpy_in buf 0 (drop copyCount value),
                                                nextPut := nLeft\<rparr>)
                         else (nbytes, pring\<lparr>buffer := buf, nextPut := nextP\<rparr>))"

definition epicsRingBytesFlush :: "ringPvt \<Rightarrow> ringPvt" where
  "epicsRingBytesFlush pring = pring\<lparr>nextGet := nextPut pring\<rparr>"

definition epicsRingBytesFreeBytes :: "ringPvt \<Rightarrow> int" where
  "epicsRingBytesFreeBytes pring =
     (if nextPut pring < nextGet pring then int (nextGet pring) - int (nextPut pring) - int SLOP
      else int (size pring) - int (nextPut pring) + int (nextGet pring) - int SLOP)"

definition epicsRingBytesUsedBytes :: "ringPvt \<Rightarrow> int" where
  "epicsRingBytesUsedBytes pring =
     (let used = int (nextPut pring) - int (nextGet pring)
      in if used < 0 then used + int (size pring) else used)"

definition epicsRingBytesSize :: "ringPvt \<Rightarrow> int" where
  "epicsRingBytesSize pring = int (size pring) - int SLOP"

definition epicsRingBytesIsEmpty :: "ringPvt \<Rightarrow> bool" where
  "epicsRingBytesIsEmpty pring = (nextPut pring = nextGet pring)"

definition epicsRingBytesIsFull :: "ringPvt \<Rightarrow> bool" where
  "epicsRingBytesIsFull pring = (epicsRingBytesFreeBytes pring \<le> 0)"

section \<open>Correctness of the byte ring\<close>

definition ring_contents :: "ringPvt \<Rightarrow> u8 list" where
  "ring_contents r =
     (if nextGet r \<le> nextPut r then take (nextPut r - nextGet r) (drop (nextGet r) (buffer r))
      else drop (nextGet r) (buffer r) @ take (nextPut r) (buffer r))"

definition ring_cap :: "ringPvt \<Rightarrow> nat" where
  "ring_cap r = size r - SLOP"

definition ring_inv :: "ringPvt \<Rightarrow> bool" where
  "ring_inv r \<longleftrightarrow> length (buffer r) = size r \<and> SLOP \<le> size r \<and> nextPut r < size r \<and> nextGet r < size r
     \<and> length (ring_contents r) \<le> ring_cap r"

lemma ring_length:
  "length (buffer r) = size r \<Longrightarrow> nextPut r < size r \<Longrightarrow> nextGet r < size r \<Longrightarrow>
   length (ring_contents r) =
     (if nextGet r \<le> nextPut r then nextPut r - nextGet r else size r - nextGet r + nextPut r)"
  by (simp add: ring_contents_def)


lemma epicsRingBytesPut_mid:
  assumes "nextGet r \<le> nextPut r" "length xs < size r - nextPut r"
    "int (length xs) \<le> int (size r) - int (nextPut r) + int (nextGet r) - int SLOP"
  shows "epicsRingBytesPut r xs =
     (length xs, r\<lparr>buffer := memcpy_in (buffer r) (nextPut r) xs, nextPut := nextPut r + length xs\<rparr>)"
proof -
  have "(if length xs > size r - nextPut r then size r - nextPut r else length xs) = length xs"
      "nextPut r + length xs \<noteq> size r" "\<not> nextPut r < nextGet r"
    using assms by auto
  then show ?thesis using assms(3) by (simp add: epicsRingBytesPut_def Let_def)
qed

lemma epicsRingBytesPut_wrap:
  assumes "nextGet r \<le> nextPut r" "size r - nextPut r \<le> length xs"
    "int (length xs) \<le> int (size r) - int (nextPut r) + int (nextGet r) - int SLOP" "nextPut r \<le> size r"
  shows "epicsRingBytesPut r xs = (let c = size r - nextPut r in
     (length xs, r\<lparr>buffer := memcpy_in (memcpy_in (buffer r) (nextPut r) (take c xs)) 0 (drop c xs),
                   nextPut := length xs - c\<rparr>))"
proof -
  have "(if length xs > size r - nextPut r then size r - nextPut r else length xs) = size r - nextPut r"
      "nextPut r + (size r - nextPut r) = size r" "\<not> nextPut r < nextGet r"
    using assms by auto
  then show ?thesis using assms(3) by (simp add: epicsRingBytesPut_def Let_def)
qed

lemma ring_put_ok:
  assumes inv: "ring_inv r" and fits: "length (ring_contents r) + length xs \<le> ring_cap r"
    and put: "epicsRingBytesPut r xs = (n, r')"
  shows "n = length xs \<and> ring_inv r' \<and> ring_contents r' = ring_contents r @ xs \<and> ring_cap r' = ring_cap r"
proof -
  let ?P = "nextPut r" and ?G = "nextGet r" and ?b = "buffer r" and ?s = "size r" and ?n = "length xs"
  have b: "length ?b = ?s" "SLOP \<le> ?s" "?P < ?s" "?G < ?s" using inv by (simp_all add: ring_inv_def)
  note len = ring_length [OF b(1,3,4)]
  have slop: "0 < SLOP" by (simp add: SLOP_def)
  consider (below) "?P < ?G" | (mid) "?G \<le> ?P" "?n < ?s - ?P" | (wrap) "?G \<le> ?P" "?s - ?P \<le> ?n" by linarith
  then show ?thesis
  proof cases
    case below
    then have f: "?P + ?n + SLOP \<le> ?G" using fits len b by (simp add: ring_cap_def)
    then have r': "r' = r\<lparr>buffer := memcpy_in ?b ?P xs, nextPut := ?P + ?n\<rparr>" "n = ?n"
      using put below by (auto simp: epicsRingBytesPut_def Let_def)
    have c: "ring_contents r' = ring_contents r @ xs"
      using below f slop b by (simp add: r' ring_contents_def memcpy_in_def)
    show ?thesis using r' c f fits b slop by (simp add: ring_inv_def ring_cap_def memcpy_in_def)
  next
    case mid
    then have f: "int ?n \<le> int ?s - int ?P + int ?G - int SLOP" using fits len b by (simp add: ring_cap_def)
    then have r': "r' = r\<lparr>buffer := memcpy_in ?b ?P xs, nextPut := ?P + ?n\<rparr>" "n = ?n"
      using put epicsRingBytesPut_mid [OF mid f] by auto
    have c: "ring_contents r' = ring_contents r @ xs"
      using mid b by (simp add: r' ring_contents_def memcpy_in_def drop_take)
    show ?thesis using r' c mid fits b by (simp add: ring_inv_def ring_cap_def memcpy_in_def)
  next
    case wrap
    define c where "c = ?s - ?P"
    have f: "int ?n \<le> int ?s - int ?P + int ?G - int SLOP" using wrap(1) fits len b by (simp add: ring_cap_def)
    then have l: "?n - c + SLOP \<le> ?G" using wrap b by (simp add: c_def)
    have r': "r' = r\<lparr>buffer := memcpy_in (memcpy_in ?b ?P (take c xs)) 0 (drop c xs), nextPut := ?n - c\<rparr>"
        "n = ?n"
      using put epicsRingBytesPut_wrap [OF wrap f less_imp_le [OF b(3)]] by (auto simp: c_def Let_def)
    have c: "c \<le> ?n" "?P + c = ?s" "\<not> ?G \<le> ?n - c" "?n - c \<le> ?G"
      using wrap(2) b l slop by (auto simp: c_def)
    define buf where "buf = take ?P ?b @ take c xs"
    have buf: "memcpy_in ?b ?P (take c xs) = buf" "length buf = ?s"
      using c b by (simp_all add: memcpy_in_def buf_def)
    have "ring_contents r' = drop ?G buf @ drop c xs"
      using c buf by (simp add: r' ring_contents_def memcpy_in_def)
    also have "\<dots> = take (?P - ?G) (drop ?G ?b) @ take c xs @ drop c xs"
      using wrap(1) b by (simp add: buf_def drop_take)
    finally have c': "ring_contents r' = ring_contents r @ xs"
      using wrap(1) by (simp add: ring_contents_def)
    have "length (buffer r') = ?s" "nextPut r' < ?s"
      using c buf b r' by (simp_all add: memcpy_in_def)
    then show ?thesis using r' c' fits b by (simp add: ring_inv_def ring_cap_def)
  qed
qed

lemma ring_put_full:
  assumes "ring_inv r" "ring_cap r < length (ring_contents r) + length xs"
  shows "epicsRingBytesPut r xs = (0, r)"
  using assms ring_length [of r]
  by (auto simp: epicsRingBytesPut_def Let_def ring_inv_def ring_cap_def split: if_splits)

lemma ring_get_ok:
  assumes inv: "ring_inv r" and get: "epicsRingBytesGet r n = (ys, r')"
  shows "ys = take n (ring_contents r) \<and> ring_inv r' \<and> ring_contents r' = drop n (ring_contents r)
       \<and> ring_cap r' = ring_cap r"
proof -
  have b: "length (buffer r) = size r" "SLOP \<le> size r" "nextPut r < size r" "nextGet r < size r"
      "length (ring_contents r) \<le> ring_cap r"
    using inv by (simp_all add: ring_inv_def)
  let ?P = "nextPut r" and ?G = "nextGet r" and ?s = "size r"
  have slop: "0 < SLOP" by (simp add: SLOP_def)
  note len = ring_length [OF b(1,3,4)]
  consider (mid) "?G \<le> ?P" | (top) "?P < ?G" "n < ?s - ?G" | (wrap) "?P < ?G" "?s - ?G \<le> n" by linarith
  then have main: "ys = take n (ring_contents r) \<and> ring_contents r' = drop n (ring_contents r)
      \<and> size r' = size r \<and> buffer r' = buffer r \<and> nextPut r' = nextPut r \<and> nextGet r' < size r"
  proof cases
    case mid
    define m where "m = min n (?P - ?G)"
    have "(if ?P - ?G < n then ?P - ?G else n) = m" by (simp add: m_def)
    then have "ys = memcpy_out (buffer r) ?G m" "r' = r\<lparr>nextGet := ?G + m\<rparr>"
      using get mid by (simp_all add: epicsRingBytesGet_def Let_def)
    moreover have "m \<le> ?P - ?G" "?G + m \<le> ?P" using mid by (simp_all add: m_def)
    moreover have "drop n (take (?P - ?G) (drop ?G (buffer r))) = take (?P - (?G + m)) (drop (?G + m) (buffer r))"
      by (simp add: drop_take m_def add.commute min_def)
    ultimately show ?thesis
      using mid b by (auto simp: ring_contents_def memcpy_out_def m_def)
  next
    case top
    then have "(if ?s - ?G > n then n else ?s - ?G) = n" "?G + n \<noteq> ?s" "\<not> ?G \<le> ?P" by auto
    then have "ys = memcpy_out (buffer r) ?G n" "r' = r\<lparr>nextGet := ?G + n\<rparr>"
      using get by (simp_all add: epicsRingBytesGet_def Let_def)
    then show ?thesis
      using top b by (simp add: ring_contents_def memcpy_out_def add.commute [of ?G n])
  next
    case wrap
    obtain c where c: "?s = ?G + c" using le_Suc_ex [OF less_imp_le [OF b(4)]] by blast
    define m where "m = (if ?P < n - c then ?P else n - c)"
    have "\<not> ?G \<le> ?P" "(if c > n then n else c) = c" using wrap c by auto
    then have r': "ys = memcpy_out (buffer r) ?G c @ memcpy_out (buffer r) 0 m" "r' = r\<lparr>nextGet := m\<rparr>"
      using get by (auto simp: epicsRingBytesGet_def Let_def c m_def)
    have m: "m = min (n - (?s - ?G)) ?P" by (auto simp: m_def c)
    have "ys = take n (ring_contents r)"
      using wrap b by (simp add: r' ring_contents_def memcpy_out_def m c min.commute)
    moreover have "ring_contents r' = drop n (ring_contents r)"
      using wrap b by (simp add: r' ring_contents_def m min_def drop_take)
    ultimately show ?thesis using r' b wrap by (simp add: m)
  qed
  then show ?thesis using b by (auto simp: ring_inv_def ring_cap_def)
qed

lemma ring_flush_ok:
  "ring_inv r \<Longrightarrow> ring_inv (epicsRingBytesFlush r) \<and> ring_contents (epicsRingBytesFlush r) = []
     \<and> ring_cap (epicsRingBytesFlush r) = ring_cap r"
  by (auto simp: epicsRingBytesFlush_def ring_inv_def ring_contents_def ring_cap_def)

interpretation byte_ring: fifo ring_inv ring_contents ring_cap epicsRingBytesPut epicsRingBytesGet epicsRingBytesFlush
  by unfold_locales (use ring_put_ok ring_put_full ring_get_ok ring_flush_ok in blast)+

lemma create_inv:
  "n + SLOP \<le> length mem \<Longrightarrow> ring_inv (epicsRingBytesCreate n mem)
     \<and> ring_contents (epicsRingBytesCreate n mem) = [] \<and> ring_cap (epicsRingBytesCreate n mem) = n"
  by (simp add: epicsRingBytesCreate_def ring_inv_def ring_contents_def ring_cap_def SLOP_def)

text \<open>C12: The byte ring is a bounded FIFO queue: over every sequence of puts, gets and flushes on a ring created
  for \<open>n\<close> bytes, each operation gives exactly the result of a queue of capacity \<open>n\<close>: a put stores all its
  bytes and says so when they fit, and otherwise stores none and returns 0; a get returns the oldest bytes, as
  many as asked for or present; and the ring holds what this queue holds, never more than \<open>n\<close> bytes.\<close>

theorem byte_ring_fifo:
  assumes "n + SLOP \<le> length mem"
    and "queue_run epicsRingBytesPut epicsRingBytesGet epicsRingBytesFlush (epicsRingBytesCreate n mem) ops = (rs, r')"
  shows "bounded_run n [] ops = (rs, ring_contents r') \<and> length (ring_contents r') \<le> n \<and> ring_inv r'"
proof -
  note c = create_inv [OF assms(1)]
  from byte_ring.run_bounded [OF conjunct1 [OF c] assms(2)] c
  have "bounded_run n [] ops = (rs, ring_contents r')" "ring_inv r'" "ring_cap r' = n" by simp_all
  then show ?thesis by (simp add: ring_inv_def)
qed

theorem byte_ring_fifo_witness:
  "fst (queue_run epicsRingBytesPut epicsRingBytesGet epicsRingBytesFlush (epicsRingBytesCreate 3 (replicate 19 0))
      [Put [1, 2], Put [3, 4], Get 1, Put [3, 4], Get 9, Put [5], Flush, Get 1])
    = [Accepted 2, Accepted 0, Returned [1], Accepted 2, Returned [2, 3, 4], Accepted 1, Done, Returned []]"
proof -
  let ?ops = "[Put [1, 2], Put [3, 4], Get 1, Put [3, 4], Get 9, Put [5], Flush, Get 1]"
  obtain rs r' where r: "queue_run epicsRingBytesPut epicsRingBytesGet epicsRingBytesFlush
      (epicsRingBytesCreate 3 (replicate 19 0)) ?ops = (rs, r')" by fastforce
  from byte_ring_fifo [OF _ r] have "bounded_run 3 [] ?ops = (rs, ring_contents r')" by (simp add: SLOP_def)
  then show ?thesis unfolding r by (auto simp: numeral_2_eq_2)
qed

text \<open>The counters agree with the contents: bytes used, bytes free, empty and full are what the queue
  holds, and a put is accepted exactly when it fits in the free bytes.\<close>

theorem byte_ring_counts:
  assumes "ring_inv r"
  shows "epicsRingBytesUsedBytes r = int (length (ring_contents r))
    \<and> epicsRingBytesFreeBytes r + epicsRingBytesUsedBytes r = epicsRingBytesSize r
    \<and> (epicsRingBytesIsEmpty r \<longleftrightarrow> ring_contents r = [])
    \<and> (epicsRingBytesIsFull r \<longleftrightarrow> int (length (ring_contents r)) = epicsRingBytesSize r)
    \<and> ring_contents (epicsRingBytesFlush r) = []
    \<and> fst (epicsRingBytesPut r xs) = (if int (length xs) \<le> epicsRingBytesFreeBytes r then length xs else 0)"
proof -
  have b: "length (buffer r) = size r" "nextPut r < size r" "nextGet r < size r" "SLOP \<le> size r"
      "length (ring_contents r) \<le> ring_cap r"
    using assms by (simp_all add: ring_inv_def)
  note len = ring_length [OF b(1-3)]
  have used: "epicsRingBytesUsedBytes r = int (length (ring_contents r))"
    using b len by (simp add: epicsRingBytesUsedBytes_def)
  have free: "epicsRingBytesFreeBytes r + int (length (ring_contents r)) = epicsRingBytesSize r"
    using b len by (simp add: epicsRingBytesFreeBytes_def epicsRingBytesSize_def)
  have cap: "int (ring_cap r) = epicsRingBytesSize r"
    using b(4) by (simp add: ring_cap_def epicsRingBytesSize_def)
  have empty: "epicsRingBytesIsEmpty r \<longleftrightarrow> ring_contents r = []"
  proof -
    have "ring_contents r = [] \<longleftrightarrow> length (ring_contents r) = 0" by simp
    then show ?thesis using len b by (auto simp: epicsRingBytesIsEmpty_def)
  qed
  have put: "fst (epicsRingBytesPut r xs) = (if int (length xs) \<le> epicsRingBytesFreeBytes r then length xs else 0)"
  proof (cases "length (ring_contents r) + length xs \<le> ring_cap r")
    case True
    then have "fst (epicsRingBytesPut r xs) = length xs"
      using ring_put_ok [OF assms True] by (metis prod.collapse)
    moreover have "int (length xs) \<le> epicsRingBytesFreeBytes r" using True free cap by linarith
    ultimately show ?thesis by simp
  next
    case False
    then have "fst (epicsRingBytesPut r xs) = 0" using ring_put_full [OF assms, of xs] by simp
    moreover have "\<not> int (length xs) \<le> epicsRingBytesFreeBytes r" using False free cap by linarith
    ultimately show ?thesis by simp
  qed
  have "ring_contents (epicsRingBytesFlush r) = []"
    by (simp add: epicsRingBytesFlush_def ring_contents_def)
  moreover have "epicsRingBytesIsFull r \<longleftrightarrow> int (length (ring_contents r)) = epicsRingBytesSize r"
    using free cap b(5) by (auto simp: epicsRingBytesIsFull_def)
  ultimately show ?thesis using used free empty put by simp
qed

theorem byte_ring_counts_witness:
  "fst (epicsRingBytesPut (epicsRingBytesCreate 3 (replicate 19 0)) [1, 2, 3, 4]) = 0"
  using byte_ring_counts [of "epicsRingBytesCreate 3 (replicate 19 0)" "[1, 2, 3, 4]"]
    create_inv [of 3 "replicate 19 0"]
  by (simp add: SLOP_def epicsRingBytesCreate_def epicsRingBytesFreeBytes_def)

section \<open>The pointer ring\<close>

text \<open>Space for one more element than the capacity; \<open>pop\<close> returns the null pointer on an empty ring.\<close>

record 'a ringPointer =
  nextPush :: nat
  nextPop :: nat
  rp_size :: nat
  rp_buffer :: "'a list"

definition epicsRingPointerCreate :: "nat \<Rightarrow> 'a list \<Rightarrow> 'a ringPointer" where
  "epicsRingPointerCreate sz mem =
     \<lparr>nextPush = 0, nextPop = 0, rp_size = sz + 1, rp_buffer = take (sz + 1) mem\<rparr>"

definition epicsRingPointerPush :: "'a ringPointer \<Rightarrow> 'a \<Rightarrow> bool \<times> 'a ringPointer" where
  "epicsRingPointerPush ring p =
     (let next = nextPush ring; newNext = next + 1;
          newNext = (if newNext \<ge> rp_size ring then 0 else newNext)
      in if newNext = nextPop ring then (False, ring)
         else (True, ring\<lparr>rp_buffer := (rp_buffer ring)[next := p], nextPush := newNext\<rparr>))"

definition epicsRingPointerPop :: "'a ringPointer \<Rightarrow> 'a option \<times> 'a ringPointer" where
  "epicsRingPointerPop ring =
     (let next = nextPop ring
      in if next = nextPush ring then (None, ring)
         else let p = rp_buffer ring ! next; next = next + 1;
                  next = (if next \<ge> rp_size ring then 0 else next)
              in (Some p, ring\<lparr>nextPop := next\<rparr>))"

definition epicsRingPointerFlush :: "'a ringPointer \<Rightarrow> 'a ringPointer" where
  "epicsRingPointerFlush ring = ring\<lparr>nextPop := 0, nextPush := 0\<rparr>"

definition epicsRingPointerGetFree :: "'a ringPointer \<Rightarrow> int" where
  "epicsRingPointerGetFree ring =
     (let n = int (nextPop ring) - int (nextPush ring) - 1 in if n < 0 then n + int (rp_size ring) else n)"

definition epicsRingPointerGetUsed :: "'a ringPointer \<Rightarrow> int" where
  "epicsRingPointerGetUsed ring =
     (let n = int (nextPush ring) - int (nextPop ring) in if n < 0 then n + int (rp_size ring) else n)"

definition epicsRingPointerGetSize :: "'a ringPointer \<Rightarrow> int" where
  "epicsRingPointerGetSize ring = int (rp_size ring) - 1"

definition epicsRingPointerIsEmpty :: "'a ringPointer \<Rightarrow> bool" where
  "epicsRingPointerIsEmpty ring = (nextPush ring = nextPop ring)"

definition epicsRingPointerIsFull :: "'a ringPointer \<Rightarrow> bool" where
  "epicsRingPointerIsFull ring =
     (let count = int (nextPush ring) - int (nextPop ring) + 1
      in count = 0 \<or> count = int (rp_size ring))"


section \<open>One writer and one reader without a lock\<close>

text \<open>
  epicsRingPointer.h notes that a single writer and a single reader need no lock. The steps below are
  the accesses of \<open>push\<close> and \<open>pop\<close> to shared memory, one at a time, in any interleaving (with
  sequentially consistent memory): the writer checks for space, stores the element, publishes the
  new \<open>nextPush\<close>; the reader checks for an element, loads it, publishes the new \<open>nextPop\<close>.
\<close>

datatype 'a writer = PIdle | PChecked 'a | PWrote 'a
datatype 'a reader = CIdle | CChecked | CRead 'a

record 'a spsc =
  ring :: "'a ringPointer"
  wr :: "'a writer"
  rd :: "'a reader"
  accepted :: "'a list"
  delivered :: "'a list"

definition succ_index :: "'a ringPointer \<Rightarrow> nat \<Rightarrow> nat" where
  "succ_index r i = (if i + 1 \<ge> rp_size r then 0 else i + 1)"

inductive spsc_step :: "'a spsc \<Rightarrow> 'a spsc \<Rightarrow> bool" where
  p_full: "wr s = PIdle \<Longrightarrow> succ_index (ring s) (nextPush (ring s)) = nextPop (ring s) \<Longrightarrow> spsc_step s s"
| p_check: "wr s = PIdle \<Longrightarrow> succ_index (ring s) (nextPush (ring s)) \<noteq> nextPop (ring s) \<Longrightarrow>
    spsc_step s (s\<lparr>wr := PChecked x\<rparr>)"
| p_store: "wr s = PChecked x \<Longrightarrow>
    spsc_step s (s\<lparr>wr := PWrote x, ring := (ring s)\<lparr>rp_buffer := (rp_buffer (ring s))[nextPush (ring s) := x]\<rparr>\<rparr>)"
| p_publish: "wr s = PWrote x \<Longrightarrow>
    spsc_step s (s\<lparr>wr := PIdle, ring := (ring s)\<lparr>nextPush := succ_index (ring s) (nextPush (ring s))\<rparr>,
                   accepted := accepted s @ [x]\<rparr>)"
| c_empty: "rd s = CIdle \<Longrightarrow> nextPop (ring s) = nextPush (ring s) \<Longrightarrow> spsc_step s s"
| c_check: "rd s = CIdle \<Longrightarrow> nextPop (ring s) \<noteq> nextPush (ring s) \<Longrightarrow> spsc_step s (s\<lparr>rd := CChecked\<rparr>)"
| c_load: "rd s = CChecked \<Longrightarrow> spsc_step s (s\<lparr>rd := CRead (rp_buffer (ring s) ! nextPop (ring s))\<rparr>)"
| c_publish: "rd s = CRead y \<Longrightarrow>
    spsc_step s (s\<lparr>rd := CIdle, ring := (ring s)\<lparr>nextPop := succ_index (ring s) (nextPop (ring s))\<rparr>,
                   delivered := delivered s @ [y]\<rparr>)"

inductive_cases spsc_stepE: "spsc_step s s'"

definition rp_contents :: "'a ringPointer \<Rightarrow> 'a list" where
  "rp_contents r =
     (if nextPop r \<le> nextPush r then take (nextPush r - nextPop r) (drop (nextPop r) (rp_buffer r))
      else drop (nextPop r) (rp_buffer r) @ take (nextPush r) (rp_buffer r))"

definition rp_inv :: "'a ringPointer \<Rightarrow> bool" where
  "rp_inv r \<longleftrightarrow> length (rp_buffer r) = rp_size r \<and> nextPush r < rp_size r \<and> nextPop r < rp_size r"

text \<open>The steps, one at a time, as they change the contents.\<close>

lemma rp_length:
  "rp_inv r \<Longrightarrow> length (rp_contents r) =
     (if nextPop r \<le> nextPush r then nextPush r - nextPop r else rp_size r - nextPop r + nextPush r)"
  by (auto simp: rp_contents_def rp_inv_def)

lemma rp_store_contents:
  "rp_inv r \<Longrightarrow> rp_contents (r\<lparr>rp_buffer := (rp_buffer r)[nextPush r := x]\<rparr>) = rp_contents r"
  by (simp add: rp_contents_def rp_inv_def drop_update_swap take_update_swap not_le
      list_update_beyond)

lemma rp_nonempty: "rp_inv r \<Longrightarrow> rp_contents r \<noteq> [] \<longleftrightarrow> nextPop r \<noteq> nextPush r"
  using rp_length [of r] by (auto simp: rp_inv_def simp flip: length_greater_0_conv)

lemma rp_head: "rp_inv r \<Longrightarrow> nextPop r \<noteq> nextPush r \<Longrightarrow> hd (rp_contents r) = rp_buffer r ! nextPop r"
  by (auto simp: rp_contents_def rp_inv_def hd_drop_conv_nth hd_append)

lemma take_Suc_drop:
  "G \<le> P \<Longrightarrow> P < length b \<Longrightarrow> take (Suc P - G) (drop G b) = take (P - G) (drop G b) @ [b ! P]"
  using take_Suc_conv_app_nth [of "P - G" "drop G b"] by (simp add: Suc_diff_le)

lemma rp_advance_push:
  assumes "rp_inv r" "succ_index r (nextPush r) \<noteq> nextPop r"
  shows "rp_contents (r\<lparr>nextPush := succ_index r (nextPush r)\<rparr>) = rp_contents r @ [rp_buffer r ! nextPush r]"
    and "rp_inv (r\<lparr>nextPush := succ_index r (nextPush r)\<rparr>)"
proof -
  let ?P = "nextPush r" and ?G = "nextPop r" and ?b = "rp_buffer r" and ?s = "rp_size r"
  have b: "length ?b = ?s" "?P < ?s" "?G < ?s" using assms(1) by (simp_all add: rp_inv_def)
  consider (mid) "?G \<le> ?P" "Suc ?P < ?s" | (top) "?G \<le> ?P" "Suc ?P = ?s" | (low) "?P < ?G" using b(2) by linarith
  then show "rp_contents (r\<lparr>nextPush := succ_index r (nextPush r)\<rparr>) = rp_contents r @ [?b ! ?P]"
  proof cases
    case mid
    then show ?thesis using b take_Suc_drop [of ?G ?P ?b] by (simp add: rp_contents_def succ_index_def)
  next
    case top
    then have "?G \<noteq> 0" using assms(2) by (simp add: succ_index_def)
    moreover have "drop ?G ?b = take (?P - ?G) (drop ?G ?b) @ [?b ! ?P]"
      using top b take_Suc_drop [of ?G ?P ?b] by simp
    ultimately show ?thesis using top by (simp add: rp_contents_def succ_index_def)
  next
    case low
    then have "Suc ?P < ?G" using assms(2) b by (simp add: succ_index_def)
    then show ?thesis using low b by (simp add: rp_contents_def succ_index_def take_Suc_conv_app_nth)
  qed
  show "rp_inv (r\<lparr>nextPush := succ_index r (nextPush r)\<rparr>)"
    using b by (auto simp: rp_inv_def succ_index_def)
qed

lemma rp_advance_pop:
  assumes "rp_inv r" "nextPop r \<noteq> nextPush r"
  shows "rp_contents (r\<lparr>nextPop := succ_index r (nextPop r)\<rparr>) = tl (rp_contents r)"
    and "rp_inv (r\<lparr>nextPop := succ_index r (nextPop r)\<rparr>)"
proof -
  let ?P = "nextPush r" and ?G = "nextPop r" and ?b = "rp_buffer r" and ?s = "rp_size r"
  have b: "length ?b = ?s" "?P < ?s" "?G < ?s" using assms(1) by (simp_all add: rp_inv_def)
  have tl: "tl (drop ?G ?b) = drop (Suc ?G) ?b" by (simp add: drop_Suc drop_tl)
  consider (mid) "?G < ?P" | (low) "?P < ?G" "Suc ?G < ?s" | (top) "?P < ?G" "Suc ?G = ?s"
    using b(3) assms(2) by linarith
  then show "rp_contents (r\<lparr>nextPop := succ_index r (nextPop r)\<rparr>) = tl (rp_contents r)"
  proof cases
    case mid
    then have "take (?P - Suc ?G) (drop (Suc ?G) ?b) = tl (take (?P - ?G) (drop ?G ?b))"
      by (simp add: tl_take tl)
    then show ?thesis using mid b by (simp add: rp_contents_def succ_index_def)
  next
    case low
    then show ?thesis using b tl by (simp add: rp_contents_def succ_index_def tl_append2)
  next
    case top
    then show ?thesis using b tl by (simp add: rp_contents_def succ_index_def tl_append2)
  qed
  show "rp_inv (r\<lparr>nextPop := succ_index r (nextPop r)\<rparr>)"
    using b by (auto simp: rp_inv_def succ_index_def)
qed

definition spsc_inv :: "'a spsc \<Rightarrow> bool" where
  "spsc_inv s \<longleftrightarrow> rp_inv (ring s) \<and> accepted s = delivered s @ rp_contents (ring s) \<and>
     (case wr s of PIdle \<Rightarrow> True
      | PChecked x \<Rightarrow> succ_index (ring s) (nextPush (ring s)) \<noteq> nextPop (ring s)
      | PWrote x \<Rightarrow> succ_index (ring s) (nextPush (ring s)) \<noteq> nextPop (ring s)
          \<and> rp_buffer (ring s) ! nextPush (ring s) = x) \<and>
     (case rd s of CIdle \<Rightarrow> True
      | CChecked \<Rightarrow> rp_contents (ring s) \<noteq> []
      | CRead y \<Rightarrow> rp_contents (ring s) \<noteq> [] \<and> y = hd (rp_contents (ring s)))"

text \<open>The reader moves \<open>nextPop\<close> away from the slot the writer would fill.\<close>

lemma pop_keeps_space:
  assumes "rp_inv r" "nextPop r \<noteq> nextPush r" "succ_index r (nextPush r) \<noteq> nextPop r"
  shows "succ_index r (nextPush r) \<noteq> succ_index r (nextPop r)"
  using assms by (auto simp: succ_index_def rp_inv_def split: if_splits)

lemma spsc_step_inv: "spsc_step s s' \<Longrightarrow> spsc_inv s \<Longrightarrow> spsc_inv s'"
proof (induction rule: spsc_step.induct)
  case (p_store s x)
  then have inv: "rp_inv (ring s)" by (simp add: spsc_inv_def)
  have "nextPush (ring s) < length (rp_buffer (ring s))" using inv by (simp add: rp_inv_def)
  then show ?case
    using p_store rp_store_contents [OF inv, of x]
    by (auto simp: spsc_inv_def rp_inv_def succ_index_def split: reader.splits)
next
  case (p_publish s x)
  then have inv: "rp_inv (ring s)" and sp: "succ_index (ring s) (nextPush (ring s)) \<noteq> nextPop (ring s)"
    by (simp_all add: spsc_inv_def)
  show ?case
    using p_publish rp_advance_push [OF inv sp]
    by (auto simp: spsc_inv_def hd_append split: reader.splits)
next
  case (c_check s)
  then show ?case using rp_nonempty [of "ring s"] by (auto simp: spsc_inv_def split: writer.splits)
next
  case (c_load s)
  then show ?case using rp_nonempty [of "ring s"] rp_head [of "ring s"] by (auto simp: spsc_inv_def split: writer.splits)
next
  case (c_publish s y)
  then have inv: "rp_inv (ring s)" and ne: "nextPop (ring s) \<noteq> nextPush (ring s)"
      and y: "rp_contents (ring s) = y # tl (rp_contents (ring s))"
    using rp_nonempty [of "ring s"] by (auto simp: spsc_inv_def)
  show ?case
    using c_publish rp_advance_pop [OF inv ne] y pop_keeps_space [OF inv ne]
    by (auto simp: spsc_inv_def succ_index_def split: writer.splits)
qed (auto simp: spsc_inv_def split: writer.splits reader.splits)

text \<open>C13: One writer and one reader may use the pointer ring without a lock: in every interleaving of their
  memory accesses, what the reader has got is a prefix of what the writer has put, in order, with
  nothing lost, repeated or read before it was stored, and never more than the capacity in the
  ring.\<close>

theorem spsc_ring_safe:
  assumes "(spsc_step)\<^sup>*\<^sup>* \<lparr>ring = epicsRingPointerCreate n mem, wr = PIdle, rd = CIdle, accepted = [], delivered = []\<rparr> s"
    and "n < length mem"
  shows "accepted s = delivered s @ rp_contents (ring s) \<and> length (rp_contents (ring s)) < rp_size (ring s)"
proof -
  have "spsc_inv s"
    using assms(1)
  proof (induction rule: rtranclp_induct)
    case base
    then show ?case using assms(2)
      by (simp add: spsc_inv_def rp_inv_def epicsRingPointerCreate_def rp_contents_def)
  qed (rule spsc_step_inv)
  then show ?thesis using rp_length [of "ring s"] by (auto simp: spsc_inv_def rp_inv_def)
qed

theorem spsc_ring_safe_witness:
  "accepted \<lparr>ring = epicsRingPointerCreate 3 [0, 0, 0, 0 :: nat], wr = PChecked 7, rd = CIdle, accepted = [], delivered = []\<rparr> = []"
proof -
  let ?s = "\<lparr>ring = epicsRingPointerCreate 3 [0, 0, 0, 0 :: nat], wr = PIdle, rd = CIdle, accepted = [], delivered = []\<rparr>"
  have "spsc_step ?s (?s\<lparr>wr := PChecked 7\<rparr>)"
    by (rule spsc_step.p_check) (simp_all add: epicsRingPointerCreate_def succ_index_def)
  then have "spsc_step\<^sup>*\<^sup>* ?s (?s\<lparr>wr := PChecked 7\<rparr>)" by blast
  from spsc_ring_safe [OF this] show ?thesis by simp
qed


text \<open>Used by one thread, or under the lock, the pointer ring is a queue of single elements.\<close>

lemma push_as_steps:
  "epicsRingPointerPush r x =
     (if succ_index r (nextPush r) = nextPop r then (False, r)
      else (True, r\<lparr>rp_buffer := (rp_buffer r)[nextPush r := x], nextPush := succ_index r (nextPush r)\<rparr>))"
  by (simp add: epicsRingPointerPush_def succ_index_def Let_def)

lemma pop_as_steps:
  "epicsRingPointerPop r =
     (if nextPop r = nextPush r then (None, r)
      else (Some (rp_buffer r ! nextPop r), r\<lparr>nextPop := succ_index r (nextPop r)\<rparr>))"
  by (simp add: epicsRingPointerPop_def succ_index_def Let_def)

lemma rp_full: "rp_inv r \<Longrightarrow> succ_index r (nextPush r) = nextPop r \<longleftrightarrow> \<not> length (rp_contents r) < rp_size r - 1"
  using rp_length [of r] by (auto simp: succ_index_def rp_inv_def split: if_splits)

interpretation pointer_ring: fifo1 rp_inv rp_contents "\<lambda>r. rp_size r - 1"
    epicsRingPointerPush epicsRingPointerPop
proof
  fix r :: "'a ringPointer" and x ok r'
  assume inv: "rp_inv r" and p: "epicsRingPointerPush r x = (ok, r')"
  show "rp_inv r' \<and> rp_size r' - 1 = rp_size r - 1 \<and>
      (if length (rp_contents r) < rp_size r - 1 then ok \<and> rp_contents r' = rp_contents r @ [x]
       else \<not> ok \<and> r' = r)"
  proof (cases "succ_index r (nextPush r) = nextPop r")
    case True
    then show ?thesis using rp_full [OF inv] p inv by (auto simp: push_as_steps)
  next
    case False
    let ?r = "r\<lparr>rp_buffer := (rp_buffer r)[nextPush r := x]\<rparr>"
    have inv': "rp_inv ?r" and sp: "succ_index ?r (nextPush ?r) \<noteq> nextPop ?r"
      using inv False by (simp_all add: rp_inv_def succ_index_def)
    have "rp_buffer ?r ! nextPush ?r = x" using inv by (simp add: rp_inv_def)
    then have "rp_contents r' = rp_contents r @ [x]" "rp_inv r'" "ok" "rp_size r' = rp_size r"
      using rp_advance_push [OF inv' sp] rp_store_contents [OF inv, of x] p False
      by (auto simp: push_as_steps succ_index_def)
    then show ?thesis using False rp_full [OF inv] by simp
  qed
next
  fix r :: "'a ringPointer" and x r'
  assume inv: "rp_inv r" and p: "epicsRingPointerPop r = (x, r')"
  show "rp_inv r' \<and> rp_size r' - 1 = rp_size r - 1 \<and>
      (case rp_contents r of [] \<Rightarrow> x = None \<and> rp_contents r' = [] | y # ys \<Rightarrow> x = Some y \<and> rp_contents r' = ys)"
    using rp_nonempty [OF inv] rp_head [OF inv] rp_advance_pop [OF inv] p inv
    by (auto simp: pop_as_steps split: list.splits if_splits)
qed

text \<open>The counters of the pointer ring agree with its contents.\<close>

lemma pointer_ring_counts:
  assumes "rp_inv r"
  shows "epicsRingPointerGetUsed r = int (length (rp_contents r))
    \<and> epicsRingPointerGetFree r + epicsRingPointerGetUsed r = epicsRingPointerGetSize r
    \<and> (epicsRingPointerIsEmpty r \<longleftrightarrow> rp_contents r = [])
    \<and> (epicsRingPointerIsFull r \<longleftrightarrow> \<not> fst (epicsRingPointerPush r x))"
  using assms rp_length [OF assms] rp_nonempty [OF assms]
  by (auto simp: rp_inv_def epicsRingPointerGetUsed_def epicsRingPointerGetFree_def Let_def
      epicsRingPointerGetSize_def epicsRingPointerIsEmpty_def epicsRingPointerIsFull_def push_as_steps
      succ_index_def)

end
