(* ===== verification/EllLib.thy ===== *)
theory EllLib
  imports Prelude "HOL-Library.Monad_Syntax" "HOL-Library.Multiset"
begin

text \<open>
  The doubly linked lists of EPICS base (libCom/ellLib/ellLib.c, ellLib.h) and their stable merge
  sort (ellSort.c) on an explicit store of nodes and list headers. A program returns \<open>None\<close> when it
  follows a null or dangling pointer, fails an assertion, or does not return; every theorem shows
  the value \<open>Some\<close>. \<open>ell_rep\<close> relates a list header to the sequence of its nodes, and each operation
  is shown to act on that sequence and to leave all other lists alone.
\<close>

section \<open>Nodes, headers and the store\<close>

text \<open>Nodes and headers have separate addresses; the null pointer is \<open>None\<close>. The field \<open>next\<close> of a node is \<open>nnext\<close>; the fields of the
  \<open>node\<close> inside a header are \<open>first\<close> (\<open>node.next\<close>) and \<open>lasts\<close> (\<open>node.previous\<close>). The count is an
  \<open>int\<close> that cannot reach its bound before memory is full.\<close>

type_synonym ptr = "nat option"

record ELLNODE =
  nnext :: ptr
  previous :: ptr

record ELLLIST =
  first :: ptr
  lasts :: ptr
  count :: int

record ell_mem =
  nodes :: "nat \<rightharpoonup> ELLNODE"
  lists :: "nat \<Rightarrow> ELLLIST"

definition get_node :: "ell_mem \<Rightarrow> ptr \<Rightarrow> ELLNODE option" where
  "get_node m p = Option.bind p (nodes m)"

definition upd_node :: "(ELLNODE \<Rightarrow> ELLNODE) \<Rightarrow> ptr \<Rightarrow> ell_mem \<Rightarrow> ell_mem option" where
  "upd_node f p m = do {
     a \<leftarrow> p;
     nd \<leftarrow> nodes m a;
     Some (m\<lparr>nodes := (nodes m)(a \<mapsto> f nd)\<rparr>) }"

definition get_next :: "ell_mem \<Rightarrow> ptr \<Rightarrow> ptr option" where
  "get_next m p = map_option nnext (get_node m p)"

definition get_prev :: "ell_mem \<Rightarrow> ptr \<Rightarrow> ptr option" where
  "get_prev m p = map_option previous (get_node m p)"

definition set_next :: "ptr \<Rightarrow> ptr \<Rightarrow> ell_mem \<Rightarrow> ell_mem option" where
  "set_next p v = upd_node (nnext_update (\<lambda>_. v)) p"

definition set_prev :: "ptr \<Rightarrow> ptr \<Rightarrow> ell_mem \<Rightarrow> ell_mem option" where
  "set_prev p v = upd_node (previous_update (\<lambda>_. v)) p"

definition upd_list :: "(ELLLIST \<Rightarrow> ELLLIST) \<Rightarrow> nat \<Rightarrow> ell_mem \<Rightarrow> ell_mem" where
  "upd_list f l m = m\<lparr>lists := (lists m)(l := f (lists m l))\<rparr>"

section \<open>Operations\<close>

definition ellInit :: "nat \<Rightarrow> ell_mem \<Rightarrow> ell_mem" where
  "ellInit l = upd_list (\<lambda>_. \<lparr>first = None, lasts = None, count = 0\<rparr>) l"

definition ellAdd :: "nat \<Rightarrow> ptr \<Rightarrow> ell_mem \<Rightarrow> ell_mem option" where
  "ellAdd pList pNode m = do {
     m \<leftarrow> set_next pNode None m;
     m \<leftarrow> set_prev pNode (lasts (lists m pList)) m;
     m \<leftarrow> (if count (lists m pList) \<noteq> 0
           then set_next (lasts (lists m pList)) pNode m
           else Some (upd_list (first_update (\<lambda>_. pNode)) pList m));
     let m = upd_list (lasts_update (\<lambda>_. pNode)) pList m;
     Some (upd_list (count_update (\<lambda>n. n + 1)) pList m) }"

definition ellConcat :: "nat \<Rightarrow> nat \<Rightarrow> ell_mem \<Rightarrow> ell_mem option" where
  "ellConcat pDstList pAddList m =
     (if count (lists m pAddList) = 0 then Some m
      else do {
        m \<leftarrow> (if count (lists m pDstList) = 0 then
                let m = upd_list (first_update (\<lambda>_. first (lists m pAddList))) pDstList m;
                    m = upd_list (lasts_update (\<lambda>_. lasts (lists m pAddList))) pDstList m
                in Some (upd_list (count_update (\<lambda>_. count (lists m pAddList))) pDstList m)
              else do {
                m \<leftarrow> set_next (lasts (lists m pDstList)) (first (lists m pAddList)) m;
                m \<leftarrow> set_prev (first (lists m pAddList)) (lasts (lists m pDstList)) m;
                let m = upd_list (lasts_update (\<lambda>_. lasts (lists m pAddList))) pDstList m;
                Some (upd_list (count_update (\<lambda>n. n + count (lists m pAddList))) pDstList m) });
        let m = upd_list (count_update (\<lambda>_. 0)) pAddList m;
        let m = upd_list (first_update (\<lambda>_. None)) pAddList m;
        Some (upd_list (lasts_update (\<lambda>_. None)) pAddList m) })"

definition ellDelete :: "nat \<Rightarrow> ptr \<Rightarrow> ell_mem \<Rightarrow> ell_mem option" where
  "ellDelete pList pNode m = do {
     m \<leftarrow> (if lasts (lists m pList) = pNode then do {
             v \<leftarrow> get_prev m pNode;
             Some (upd_list (lasts_update (\<lambda>_. v)) pList m) }
           else do {
             n \<leftarrow> get_next m pNode;
             v \<leftarrow> get_prev m pNode;
             set_prev n v m });
     m \<leftarrow> (if first (lists m pList) = pNode then do {
             v \<leftarrow> get_next m pNode;
             Some (upd_list (first_update (\<lambda>_. v)) pList m) }
           else do {
             p \<leftarrow> get_prev m pNode;
             v \<leftarrow> get_next m pNode;
             set_next p v m });
     Some (upd_list (count_update (\<lambda>n. n - 1)) pList m) }"

text \<open>The counting loop of \<open>ellExtract\<close>: the number of nodes from the first to the last.\<close>

partial_function (option) count_to :: "ell_mem \<Rightarrow> ptr \<Rightarrow> ptr \<Rightarrow> int \<Rightarrow> int option" where
  "count_to m pnode pEndNode n =
     (if pnode = pEndNode then Some n
      else do { p \<leftarrow> get_next m pnode; count_to m p pEndNode (n + 1) })"

definition ellExtract :: "nat \<Rightarrow> ptr \<Rightarrow> ptr \<Rightarrow> nat \<Rightarrow> ell_mem \<Rightarrow> ell_mem option" where
  "ellExtract pSrcList pStartNode pEndNode pDstList m = do {
     sp \<leftarrow> get_prev m pStartNode;
     en \<leftarrow> get_next m pEndNode;
     m \<leftarrow> (if sp \<noteq> None then set_next sp en m
           else Some (upd_list (first_update (\<lambda>_. en)) pSrcList m));
     en \<leftarrow> get_next m pEndNode;
     sp \<leftarrow> get_prev m pStartNode;
     m \<leftarrow> (if en \<noteq> None then do {
             m \<leftarrow> set_prev en sp m;
             set_next pEndNode None m }
           else Some (upd_list (lasts_update (\<lambda>_. sp)) pSrcList m));
     m \<leftarrow> set_prev pStartNode (lasts (lists m pDstList)) m;
     m \<leftarrow> (if count (lists m pDstList) \<noteq> 0 then set_next (lasts (lists m pDstList)) pStartNode m
           else Some (upd_list (first_update (\<lambda>_. pStartNode)) pDstList m));
     let m = upd_list (lasts_update (\<lambda>_. pEndNode)) pDstList m;
     n \<leftarrow> count_to m pStartNode pEndNode 1;
     let m = upd_list (count_update (\<lambda>k. k - n)) pSrcList m;
     Some (upd_list (count_update (\<lambda>k. k + n)) pDstList m) }"

definition ellGet :: "nat \<Rightarrow> ell_mem \<Rightarrow> (ptr \<times> ell_mem) option" where
  "ellGet pList m = (let pnode = first (lists m pList) in
     if pnode \<noteq> None then do { m \<leftarrow> ellDelete pList pnode m; Some (pnode, m) } else Some (pnode, m))"

definition ellPop :: "nat \<Rightarrow> ell_mem \<Rightarrow> (ptr \<times> ell_mem) option" where
  "ellPop pList m = (let pnode = lasts (lists m pList) in
     if pnode \<noteq> None then do { m \<leftarrow> ellDelete pList pnode m; Some (pnode, m) } else Some (pnode, m))"

definition ellInsert :: "nat \<Rightarrow> ptr \<Rightarrow> ptr \<Rightarrow> ell_mem \<Rightarrow> ell_mem option" where
  "ellInsert plist pPrev pNode m = do {
     m \<leftarrow> (if pPrev \<noteq> None then do {
             m \<leftarrow> set_prev pNode pPrev m;
             v \<leftarrow> get_next m pPrev;
             m \<leftarrow> set_next pNode v m;
             set_next pPrev pNode m }
           else do {
             m \<leftarrow> set_prev pNode None m;
             m \<leftarrow> set_next pNode (first (lists m plist)) m;
             Some (upd_list (first_update (\<lambda>_. pNode)) plist m) });
     nx \<leftarrow> get_next m pNode;
     m \<leftarrow> (if nx = None then Some (upd_list (lasts_update (\<lambda>_. pNode)) plist m)
           else set_prev nx pNode m);
     Some (upd_list (count_update (\<lambda>n. n + 1)) plist m) }"

text \<open>\<open>while (n) { pnode = pnode->previous; n--; }\<close> and its twin along \<open>next\<close>.\<close>

primrec walk :: "(ell_mem \<Rightarrow> ptr \<Rightarrow> ptr option) \<Rightarrow> ell_mem \<Rightarrow> nat \<Rightarrow> ptr \<Rightarrow> ptr option" where
  "walk step m 0 p = Some p"
| "walk step m (Suc n) p = do { p \<leftarrow> step m p; walk step m n p }"

definition ellNth :: "nat \<Rightarrow> int \<Rightarrow> ell_mem \<Rightarrow> ptr option" where
  "ellNth pList nodeNum m =
     (let c = count (lists m pList) in
      if nodeNum < 1 \<or> c = 0 then Some None
      else if nodeNum > cdiv c 2 then
        if nodeNum > c then Some None
        else walk get_prev m (nat (c - nodeNum)) (lasts (lists m pList))
      else walk get_next m (nat (nodeNum - 1)) (first (lists m pList)))"

text \<open>\<open>while ((pNode != NULL) && nStep)\<close>.\<close>

primrec walk_safe :: "(ell_mem \<Rightarrow> ptr \<Rightarrow> ptr option) \<Rightarrow> ell_mem \<Rightarrow> nat \<Rightarrow> ptr \<Rightarrow> ptr option" where
  "walk_safe step m 0 p = Some p"
| "walk_safe step m (Suc n) p = (if p = None then Some p else do { p \<leftarrow> step m p; walk_safe step m n p })"

definition ellNStep :: "ptr \<Rightarrow> int \<Rightarrow> ell_mem \<Rightarrow> ptr option" where
  "ellNStep pNode nStep m =
     (if nStep > 0 then walk_safe get_next m (nat nStep) pNode
      else walk_safe get_prev m (nat (- nStep)) pNode)"

partial_function (option) find_loop :: "ell_mem \<Rightarrow> ptr \<Rightarrow> ptr \<Rightarrow> int \<Rightarrow> (ptr \<times> int) option" where
  "find_loop m got pNode n =
     (if got \<noteq> pNode \<and> got \<noteq> None then do { g \<leftarrow> get_next m got; find_loop m g pNode (n + 1) }
      else Some (got, n))"

definition ellFind :: "nat \<Rightarrow> ptr \<Rightarrow> ell_mem \<Rightarrow> int option" where
  "ellFind pList pNode m = do {
     (got, n) \<leftarrow> find_loop m (first (lists m pList)) pNode 1;
     Some (if got = None then - 1 else n) }"

partial_function (option) free_loop :: "(nat \<Rightarrow> ell_mem \<Rightarrow> ell_mem) \<Rightarrow> ptr \<Rightarrow> ell_mem \<Rightarrow> ell_mem option" where
  "free_loop freeFunc nnode m = (case nnode of
     None \<Rightarrow> Some m
   | Some pnode \<Rightarrow> do {
       nn \<leftarrow> get_next m nnode;
       free_loop freeFunc nn (freeFunc pnode m) })"

definition ellFree2 :: "(nat \<Rightarrow> ell_mem \<Rightarrow> ell_mem) \<Rightarrow> nat \<Rightarrow> ell_mem \<Rightarrow> ell_mem option" where
  "ellFree2 freeFunc pList m = do {
     m \<leftarrow> free_loop freeFunc (first (lists m pList)) m;
     Some (ellInit pList m) }"

text \<open>\<open>free\<close> makes the node inaccessible.\<close>

definition free_node :: "nat \<Rightarrow> ell_mem \<Rightarrow> ell_mem" where
  "free_node a m = m\<lparr>nodes := (nodes m)(a := None)\<rparr>"

text \<open>The loop of \<open>ellVerify\<close>: the last node and the number of nodes, or a failed assertion.\<close>

partial_function (option) verify_loop :: "ell_mem \<Rightarrow> ptr \<Rightarrow> int \<Rightarrow> (ptr \<times> int) option" where
  "verify_loop m pNode n = do {
     pNext \<leftarrow> get_next m pNode;
     if pNext = None then Some (pNode, n + 1)
     else do {
       v \<leftarrow> get_prev m pNext;
       if v = pNode then verify_loop m pNext (n + 1) else None } }"

definition ellVerify :: "nat \<Rightarrow> ell_mem \<Rightarrow> unit option" where
  "ellVerify pList m = do {
     let pNode = first (lists m pList);
     (pNode, n) \<leftarrow> (if pNode \<noteq> None then do {
         v \<leftarrow> get_prev m pNode;
         if v = None then verify_loop m pNode 0 else None }
       else Some (pNode, 0));
     if pNode = lasts (lists m pList) \<and> n = count (lists m pList) then Some () else None }"

section \<open>The sequence of nodes of a list\<close>

definition hdp :: "nat list \<Rightarrow> ptr \<Rightarrow> ptr" where
  "hdp xs n = (case xs of [] \<Rightarrow> n | x # _ \<Rightarrow> Some x)"

definition lastp :: "ptr \<Rightarrow> nat list \<Rightarrow> ptr" where
  "lastp p xs = (if xs = [] then p else Some (last xs))"

lemma hdp_simps [simp]: "hdp [] n = n" "hdp (x # xs) n = Some x" "hdp (xs @ ys) n = hdp xs (hdp ys n)"
  by (auto simp: hdp_def split: list.splits)

lemma lastp_simps [simp]: "lastp p [] = p" "lastp p (x # xs) = lastp (Some x) xs"
    "lastp p (xs @ ys) = lastp (lastp p xs) ys"
  by (auto simp: lastp_def)

text \<open>\<open>seg h p xs n\<close>: the nodes \<open>xs\<close> are linked both ways, with \<open>p\<close> before and \<open>n\<close> after them.\<close>

primrec seg :: "(nat \<rightharpoonup> ELLNODE) \<Rightarrow> ptr \<Rightarrow> nat list \<Rightarrow> ptr \<Rightarrow> bool" where
  "seg h p [] n = True"
| "seg h p (x # xs) n \<longleftrightarrow> h x = Some \<lparr>nnext = hdp xs n, previous = p\<rparr> \<and> seg h (Some x) xs n"

lemma seg_append [simp]: "seg h p (xs @ ys) n \<longleftrightarrow> seg h p xs (hdp ys n) \<and> seg h (lastp p xs) ys n"
  by (induction xs arbitrary: p) auto

lemma seg_frame [simp]: "a \<notin> set xs \<Longrightarrow> seg (h(a := v)) p xs n = seg h p xs n"
  by (induction xs arbitrary: p) auto

lemma seg_cong: "(\<And>a. a \<in> set xs \<Longrightarrow> h a = h' a) \<Longrightarrow> seg h p xs n = seg h' p xs n"
  by (induction xs arbitrary: p) auto

definition ell_rep :: "ell_mem \<Rightarrow> nat \<Rightarrow> nat list \<Rightarrow> bool" where
  "ell_rep m l xs \<longleftrightarrow> distinct xs \<and> seg (nodes m) None xs None \<and>
     lists m l = \<lparr>first = hdp xs None, lasts = lastp None xs, count = int (length xs)\<rparr>"

text \<open>What an operation may have changed: nodes in \<open>A\<close> and headers in \<open>L\<close>.\<close>

definition frame :: "nat set \<Rightarrow> nat set \<Rightarrow> ell_mem \<Rightarrow> ell_mem \<Rightarrow> bool" where
  "frame A L m m' \<longleftrightarrow> (\<forall>a. a \<notin> A \<longrightarrow> nodes m' a = nodes m a) \<and> (\<forall>l. l \<notin> L \<longrightarrow> lists m' l = lists m l)
     \<and> dom (nodes m') = dom (nodes m)"

lemma frame_refl [simp]: "frame A L m m"
  by (simp add: frame_def)

lemma frame_trans: "frame A L m m' \<Longrightarrow> frame A' L' m' m'' \<Longrightarrow> frame (A \<union> A') (L \<union> L') m m''"
  by (simp add: frame_def)

lemma frame_mono: "frame A L m m' \<Longrightarrow> A \<subseteq> A' \<Longrightarrow> L \<subseteq> L' \<Longrightarrow> frame A' L' m m'"
  by (auto simp: frame_def)

lemma frame_chain: "frame A L m m' \<Longrightarrow> frame A L m' m'' \<Longrightarrow> frame A L m m''"
  by (simp add: frame_def)

lemma ell_rep_frame: "frame A L m m' \<Longrightarrow> ell_rep m l xs \<Longrightarrow> l \<notin> L \<Longrightarrow> set xs \<inter> A = {} \<Longrightarrow> ell_rep m' l xs"
  unfolding ell_rep_def frame_def using seg_cong [of xs "nodes m'" "nodes m"] by (auto simp: disjoint_iff)

lemma ell_rep_distinct: "ell_rep m l xs \<Longrightarrow> distinct xs"
  by (simp add: ell_rep_def)

lemma seg_dom: "seg h p xs n \<Longrightarrow> set xs \<subseteq> dom h"
  by (induction xs arbitrary: p) auto

lemma ell_rep_dom: "ell_rep m l xs \<Longrightarrow> set xs \<subseteq> dom (nodes m)"
  by (auto simp: ell_rep_def dest: seg_dom)

lemma ell_rep_list: "ell_rep m l xs \<Longrightarrow> lists m l = \<lparr>first = hdp xs None, lasts = lastp None xs, count = int (length xs)\<rparr>"
  by (simp add: ell_rep_def)

lemma ell_rep_header: "ell_rep m l xs \<Longrightarrow> count (lists m l) = int (length xs)"
    "ell_rep m l xs \<Longrightarrow> first (lists m l) = hdp xs None" "ell_rep m l xs \<Longrightarrow> lasts (lists m l) = lastp None xs"
  by (simp_all add: ell_rep_def)

text \<open>Reads and writes of a node that is there.\<close>

lemma access [heap_simps]:
  "get_next m (Some a) = map_option nnext (nodes m a)"
  "get_prev m (Some a) = map_option previous (nodes m a)"
  "get_next m None = None" "get_prev m None = None"
  "nodes m a = Some nd \<Longrightarrow> set_next (Some a) v m = Some (m\<lparr>nodes := (nodes m)(a \<mapsto> nd\<lparr>nnext := v\<rparr>)\<rparr>)"
  "nodes m a = Some nd \<Longrightarrow> set_prev (Some a) v m = Some (m\<lparr>nodes := (nodes m)(a \<mapsto> nd\<lparr>previous := v\<rparr>)\<rparr>)"
  by (simp_all add: get_next_def get_prev_def get_node_def set_next_def set_prev_def upd_node_def)

lemma upd_list_simps [heap_simps]:
  "nodes (upd_list f l m) = nodes m" "lists (upd_list f l m) = (lists m)(l := f (lists m l))"
  by (simp_all add: upd_list_def)

lemma ellInit_rep [simp]: "ell_rep (ellInit l m) l []"
  by (simp add: ellInit_def ell_rep_def heap_simps)

lemma ellInit_frame: "frame {} {l} m (ellInit l m)"
  by (auto simp: ellInit_def frame_def heap_simps)

section \<open>What the operations do\<close>


lemma ellAdd_spec:
  assumes r: "ell_rep m l xs" and x: "x \<in> dom (nodes m)" "x \<notin> set xs"
  obtains m' where "ellAdd l (Some x) m = Some m'" "ell_rep m' l (xs @ [x])" "frame (insert x (set xs)) {l} m m'"
proof -
  from x(1) obtain a b where nx: "nodes m x = Some \<lparr>nnext = a, previous = b\<rparr>"
    by (metis ELLNODE.cases domD)
  let ?L = "(lists m)(l := \<lparr>first = hdp (xs @ [x]) None, lasts = Some x, count = int (length xs) + 1\<rparr>)"
  let ?N = "(nodes m)(x \<mapsto> \<lparr>nnext = None, previous = lastp None xs\<rparr>)"
  show thesis
  proof (cases xs rule: rev_cases)
    case Nil
    have "ellAdd l (Some x) m = Some (m\<lparr>nodes := ?N, lists := ?L\<rparr>)"
      using r nx Nil by (simp add: ellAdd_def ell_rep_def heap_simps)
    then show ?thesis
      using r x Nil by (intro that [of "m\<lparr>nodes := ?N, lists := ?L\<rparr>"]) (auto simp: ell_rep_def frame_def)
  next
    case (snoc ys y)
    let ?N' = "?N(y \<mapsto> \<lparr>nnext = Some x, previous = lastp None ys\<rparr>)"
    have "ellAdd l (Some x) m = Some (m\<lparr>nodes := ?N', lists := ?L\<rparr>)"
      using r nx x snoc by (simp add: ellAdd_def ell_rep_def heap_simps)
    then show ?thesis
      using r x snoc by (intro that [of "m\<lparr>nodes := ?N', lists := ?L\<rparr>"]) (auto simp: ell_rep_def frame_def)
  qed
qed

text \<open>The node at \<open>p\<close> gets a new successor, the node at \<open>n\<close> a new predecessor; a null pointer stands for
  the header.\<close>

definition link_next :: "ptr \<Rightarrow> ptr \<Rightarrow> (nat \<rightharpoonup> ELLNODE) \<Rightarrow> (nat \<rightharpoonup> ELLNODE)" where
  "link_next p v h = (case p of None \<Rightarrow> h | Some a \<Rightarrow> h(a := map_option (nnext_update (\<lambda>_. v)) (h a)))"

definition link_prev :: "ptr \<Rightarrow> ptr \<Rightarrow> (nat \<rightharpoonup> ELLNODE) \<Rightarrow> (nat \<rightharpoonup> ELLNODE)" where
  "link_prev p v h = (case p of None \<Rightarrow> h | Some a \<Rightarrow> h(a := map_option (previous_update (\<lambda>_. v)) (h a)))"

lemma seg_link_next: "seg h p xs n \<Longrightarrow> distinct xs \<Longrightarrow> seg (link_next (lastp None xs) v h) p xs v"
  by (cases xs rule: rev_cases) (auto simp: link_next_def)

lemma seg_link_prev: "seg h p xs n \<Longrightarrow> distinct xs \<Longrightarrow> seg (link_prev (hdp xs None) v h) v xs n"
  by (cases xs) (auto simp: link_prev_def)

lemma seg_link_other:
  "lastp None ys = p \<Longrightarrow> set xs \<inter> set ys = {} \<Longrightarrow> seg (link_next p v h) q xs n = seg h q xs n"
  "hdp ys None = p \<Longrightarrow> set xs \<inter> set ys = {} \<Longrightarrow> seg (link_prev p v h) q xs n = seg h q xs n"
  by (cases ys rule: rev_cases; force simp: link_next_def) (cases ys; force simp: link_prev_def)

lemma link_frame: "a \<noteq> b \<Longrightarrow> link_next (Some a) v h b = h b" "a \<noteq> b \<Longrightarrow> link_prev (Some a) v h b = h b"
    "link_next None v h = h" "link_prev None v h = h"
    "dom (link_next p v h) = dom h" "dom (link_prev p v h) = dom h"
  by (auto simp: link_next_def link_prev_def split: option.splits if_splits)

lemma access_link [heap_simps]:
  "p \<noteq> None \<Longrightarrow> the p \<in> dom (nodes m) \<Longrightarrow> set_next p v m = Some (m\<lparr>nodes := link_next p v (nodes m)\<rparr>)"
  "p \<noteq> None \<Longrightarrow> the p \<in> dom (nodes m) \<Longrightarrow> set_prev p v m = Some (m\<lparr>nodes := link_prev p v (nodes m)\<rparr>)"
  by (auto simp: set_next_def set_prev_def upd_node_def link_next_def link_prev_def)

lemma end_simps: "x \<notin> set ys \<Longrightarrow> lastp p ys = Some x \<longleftrightarrow> ys = [] \<and> p = Some x"
    "x \<notin> set xs \<Longrightarrow> hdp xs n = Some x \<longleftrightarrow> xs = [] \<and> n = Some x"
    "hdp xs None = None \<longleftrightarrow> xs = []" "lastp None xs = None \<longleftrightarrow> xs = []"
    "hdp xs (Some x) \<noteq> None" "lastp (Some x) xs \<noteq> None"
    "xs \<noteq> [] \<Longrightarrow> hdp xs n = Some (hd xs)" "xs \<noteq> [] \<Longrightarrow> lastp p xs = Some (last xs)"
  by (auto simp: hdp_def lastp_def split: list.splits)

lemma link_other: "p \<noteq> Some a \<Longrightarrow> link_next p v h a = h a" "p \<noteq> Some a \<Longrightarrow> link_prev p v h a = h a"
  by (auto simp: link_next_def link_prev_def split: option.splits)

lemma link_off: "a \<notin> set xs \<Longrightarrow> link_next (lastp None xs) v h a = h a" "a \<notin> set ys \<Longrightarrow> link_prev (hdp ys None) v h a = h a"
  by (rule link_other, simp add: end_simps)+

text \<open>Taking a stretch out of the middle.\<close>

lemma unlink_rep:
  assumes r: "ell_rep m l (xs @ zs @ ys)"
    and m': "nodes m' = link_next (lastp None xs) (hdp ys None) (link_prev (hdp ys None) (lastp None xs) (nodes m))"
      "lists m' l = \<lparr>first = hdp (xs @ ys) None, lasts = lastp None (xs @ ys), count = int (length (xs @ ys))\<rparr>"
  shows "ell_rep m' l (xs @ ys)"
proof -
  let ?h = "link_prev (hdp ys None) (lastp None xs) (nodes m)"
  from r have d: "distinct xs" "distinct ys" "set xs \<inter> set ys = {}" "set ys \<inter> set xs = {}"
    and sx: "seg (nodes m) None xs (hdp (zs @ ys) None)" and sy: "seg (nodes m) (lastp None (xs @ zs)) ys None"
    by (auto simp: ell_rep_def)
  have "seg ?h None xs (hdp (zs @ ys) None)"
    using sx seg_link_other(2) [of ys _ xs] d by simp
  then have "seg (nodes m') None xs (hdp ys None)"
    unfolding m' by (rule seg_link_next [OF _ d(1)])
  moreover have "seg ?h (lastp None xs) ys None"
    by (rule seg_link_prev [OF sy d(2)])
  then have "seg (nodes m') (lastp None xs) ys None"
    unfolding m' using seg_link_other(1) [of xs _ ys] d by simp
  ultimately show ?thesis
    using d m'(2) by (simp add: ell_rep_def)
qed

lemma ellDelete_spec:
  assumes r: "ell_rep m l (xs @ x # ys)"
  obtains m' where "ellDelete l (Some x) m = Some m'" "ell_rep m' l (xs @ ys)" "frame (set xs \<union> set ys) {l} m m'"
proof -
  let ?n = "hdp ys None" and ?p = "lastp None xs"
  let ?h = "link_next ?p ?n (link_prev ?n ?p (nodes m))"
  let ?L = "(lists m)(l := \<lparr>first = hdp (xs @ ys) None, lasts = lastp None (xs @ ys), count = int (length (xs @ ys))\<rparr>)"
  let ?m = "m\<lparr>nodes := ?h, lists := ?L\<rparr>"
  from r have nx: "nodes m x = Some \<lparr>nnext = ?n, previous = ?p\<rparr>"
    and d: "x \<notin> set xs" "x \<notin> set ys" by (auto simp: ell_rep_def)
  have dm: "ys \<noteq> [] \<Longrightarrow> hd ys \<in> dom (nodes m)" "xs \<noteq> [] \<Longrightarrow> last xs \<in> dom (nodes m)"
    using ell_rep_dom [OF r] by (auto simp: subset_iff)
  have ne: "ys \<noteq> [] \<Longrightarrow> hd ys \<noteq> x \<and> last ys \<noteq> x" "xs \<noteq> [] \<Longrightarrow> hd xs \<noteq> x \<and> last xs \<noteq> x"
    using d by auto
  have "ellDelete l (Some x) m = Some ?m"
    using nx d dm ne
    by (cases "xs = []"; cases "ys = []")
      (simp_all add: ellDelete_def ell_rep_list [OF r] access access_link end_simps link_frame link_other upd_list_def)
  moreover have "ell_rep ?m l (xs @ ys)"
    using unlink_rep [of m l xs "[x]" ys ?m] r by simp
  moreover have "frame (set xs \<union> set ys) {l} m ?m"
    by (auto simp: frame_def link_frame link_off)
  ultimately show thesis by (rule that)
qed

lemma ellGet_spec:
  assumes r: "ell_rep m l (x # xs)"
  obtains m' where "ellGet l m = Some (Some x, m')" "ell_rep m' l xs" "frame (set xs) {l} m m'"
proof -
  obtain m' where m': "ellDelete l (Some x) m = Some m'" "ell_rep m' l xs" "frame (set xs) {l} m m'"
    using ellDelete_spec [of m l "[]" x xs] r by auto
  then show thesis
    by (intro that [of m']) (simp_all add: ellGet_def ell_rep_header [OF r])
qed

lemma ellGet_empty: "ell_rep m l [] \<Longrightarrow> ellGet l m = Some (None, m)"
  by (simp add: ellGet_def ell_rep_header)

lemma ellPop_spec:
  assumes r: "ell_rep m l (xs @ [x])"
  obtains m' where "ellPop l m = Some (Some x, m')" "ell_rep m' l xs" "frame (set xs) {l} m m'"
proof -
  obtain m' where m': "ellDelete l (Some x) m = Some m'" "ell_rep m' l xs" "frame (set xs) {l} m m'"
    using ellDelete_spec [of m l xs x "[]"] r by auto
  then show thesis
    by (intro that [of m']) (simp_all add: ellPop_def ell_rep_header [OF r])
qed

lemma ellPop_empty: "ell_rep m l [] \<Longrightarrow> ellPop l m = Some (None, m)"
  by (simp add: ellPop_def ell_rep_header)

text \<open>Putting a stretch that is linked in itself between two parts of a list.\<close>

lemma link_rep:
  assumes x: "seg (nodes m) None xs n" and y: "seg (nodes m) p ys None" and z: "seg (nodes m) (lastp None xs) zs (hdp ys None)"
    and d: "distinct (xs @ zs @ ys)" "zs \<noteq> []"
    and m': "nodes m' = link_prev (hdp ys None) (lastp None zs) (link_next (lastp None xs) (hdp zs None) (nodes m))"
      "lists m' l = \<lparr>first = hdp (xs @ zs @ ys) None, lasts = lastp None (xs @ zs @ ys), count = int (length (xs @ zs @ ys))\<rparr>"
  shows "ell_rep m' l (xs @ zs @ ys)"
proof -
  let ?h = "link_next (lastp None xs) (hdp zs None) (nodes m)"
  from d have e: "distinct xs" "distinct ys" "set xs \<inter> set ys = {}" "set ys \<inter> set xs = {}" "set zs \<inter> set xs = {}" "set zs \<inter> set ys = {}"
    by auto
  have "seg ?h p ys None" using y seg_link_other(1) [of xs _ ys] e by simp
  then have "seg (nodes m') (lastp None zs) ys None" unfolding m' by (rule seg_link_prev [OF _ e(2)])
  moreover have "seg (nodes m') None xs (hdp zs None)"
    unfolding m' using seg_link_other(2) [of ys _ xs] e seg_link_next [OF x e(1)] by simp
  moreover have "seg (nodes m') (lastp None xs) zs (hdp ys None)"
    unfolding m' using seg_link_other(1) [of xs _ zs] seg_link_other(2) [of ys _ zs] z e by simp
  ultimately show ?thesis
    using d m'(2) by (cases zs) (simp_all add: ell_rep_def)
qed

lemma ellInsert_spec:
  assumes r: "ell_rep m l (xs @ ys)" and x: "x \<in> dom (nodes m)" "x \<notin> set (xs @ ys)"
  obtains m' where "ellInsert l (lastp None xs) (Some x) m = Some m'" "ell_rep m' l (xs @ x # ys)"
    "frame (insert x (set xs \<union> set ys)) {l} m m'"
proof -
  let ?n = "hdp ys None" and ?p = "lastp None xs"
  let ?base = "m\<lparr>nodes := (nodes m)(x \<mapsto> \<lparr>nnext = ?n, previous = ?p\<rparr>)\<rparr>"
  let ?h = "link_prev ?n (Some x) (link_next ?p (Some x) (nodes ?base))"
  let ?L = "(lists m)(l := \<lparr>first = hdp (xs @ x # ys) None, lasts = lastp None (xs @ x # ys), count = int (length (xs @ x # ys))\<rparr>)"
  let ?m = "m\<lparr>nodes := ?h, lists := ?L\<rparr>"
  from x(1) obtain a b where nx: "nodes m x = Some \<lparr>nnext = a, previous = b\<rparr>"
    by (metis ELLNODE.cases domD)
  from r have sg: "seg (nodes m) None xs ?n" "seg (nodes m) ?p ys None" and d: "distinct (xs @ ys)"
    by (auto simp: ell_rep_def)
  have nl: "nodes m (last xs) = Some \<lparr>nnext = ?n, previous = lastp None (butlast xs)\<rparr>" "last xs \<noteq> x" if "xs \<noteq> []"
    using sg(1) that x by (cases xs rule: rev_cases; simp)+
  have ny: "nodes m (hd ys) = Some \<lparr>nnext = hdp (tl ys) None, previous = ?p\<rparr>" "hd ys \<noteq> x" if "ys \<noteq> []"
    using sg(2) that x by (cases ys; simp)+
  have nz: "hd ys \<noteq> last xs" if "xs \<noteq> []" "ys \<noteq> []"
    using d that by (metis disjoint_iff distinct_append hd_in_set last_in_set)
  have "ellInsert l ?p (Some x) m = Some ?m"
    using nx nl ny nz
    by (cases "xs = []"; cases "ys = []")
      (simp_all add: ellInsert_def ell_rep_list [OF r] access end_simps link_next_def link_prev_def upd_list_def ac_simps)
  moreover have "ell_rep ?m l (xs @ [x] @ ys)"
    by (rule link_rep [where m = ?base and n = ?n and p = ?p]) (use sg d x in simp_all)
  moreover have "frame (insert x (set xs \<union> set ys)) {l} m ?m"
    using x by (auto simp: frame_def link_frame link_off)
  ultimately show thesis using that [of ?m] by simp
qed

lemma ellConcat_spec:
  assumes r: "ell_rep m l xs" "ell_rep m k ys" and ne: "l \<noteq> k" "set xs \<inter> set ys = {}"
  obtains m' where "ellConcat l k m = Some m'" "ell_rep m' l (xs @ ys)" "ell_rep m' k []"
    "frame (set xs \<union> set ys) {l, k} m m'"
proof (cases "ys = []")
  case True
  with r show ?thesis by (intro that [of m]) (simp_all add: ellConcat_def ell_rep_header)
next
  case y: False
  let ?L = "(lists m)(l := \<lparr>first = hdp (xs @ ys) None, lasts = lastp None (xs @ ys), count = int (length (xs @ ys))\<rparr>,
                      k := \<lparr>first = None, lasts = None, count = 0\<rparr>)"
  let ?h = "link_prev (hdp ys None) (lastp None xs) (link_next (lastp None xs) (hdp ys None) (nodes m))"
  let ?m = "m\<lparr>nodes := ?h, lists := ?L\<rparr>"
  from r have sg: "seg (nodes m) None xs None" "seg (nodes m) None ys None" and d: "distinct (xs @ ys)"
    using ne by (auto simp: ell_rep_def)
  have nl: "nodes m (last xs) = Some \<lparr>nnext = None, previous = lastp None (butlast xs)\<rparr>" if "xs \<noteq> []"
    using sg(1) that by (cases xs rule: rev_cases; simp)
  have ny: "nodes m (hd ys) = Some \<lparr>nnext = hdp (tl ys) None, previous = None\<rparr>"
    using sg(2) y by (cases ys; simp)
  have nz: "hd ys \<noteq> last xs" if "xs \<noteq> []"
    using d that y by (metis disjoint_iff distinct_append hd_in_set last_in_set)
  have e: "lists m l = \<lparr>first = hdp xs None, lasts = lastp None xs, count = int (length xs)\<rparr>"
      "lists m k = \<lparr>first = hdp ys None, lasts = lastp None ys, count = int (length ys)\<rparr>"
    using r by (auto simp: ell_rep_def)
  have "ellConcat l k m = Some ?m"
  proof (cases "xs = []")
    case True
    have "(nodes m)(hd ys := map_option (previous_update (\<lambda>_. None)) (nodes m (hd ys))) = nodes m"
      using ny by (simp add: fun_upd_idem)
    then show ?thesis
      using True y ne e by (simp add: ellConcat_def end_simps link_next_def link_prev_def upd_list_def)
  next
    case False
    then show ?thesis
      using y ne e nl ny nz by (simp add: ellConcat_def access end_simps link_next_def link_prev_def upd_list_def)
  qed
  moreover have "ell_rep ?m l (xs @ ys)"
  proof -
    have "seg ?h None xs (hdp ys None)"
      using seg_link_next [OF sg(1)] seg_link_other(2) [of ys _ xs] d ne by (simp add: Int_commute)
    moreover have "seg (link_next (lastp None xs) (hdp ys None) (nodes m)) None ys None"
      using sg(2) seg_link_other(1) [of xs _ ys] ne by (simp add: Int_commute)
    then have "seg ?h (lastp None xs) ys None" using d by (intro seg_link_prev) auto
    ultimately show ?thesis using d ne by (simp add: ell_rep_def)
  qed
  moreover have "ell_rep ?m k []" using ne by (simp add: ell_rep_def)
  moreover have "frame (set xs \<union> set ys) {l, k} m ?m"
    by (auto simp: frame_def link_frame link_off)
  ultimately show ?thesis by (rule that)
qed

lemma count_to_seg:
  "seg (nodes m) p (x # zs) n \<Longrightarrow> distinct (x # zs) \<Longrightarrow> count_to m (Some x) (lastp (Some x) zs) c = Some (c + int (length zs))"
proof (induction zs arbitrary: x p c)
  case Nil
  then show ?case by (simp add: count_to.simps)
next
  case (Cons z zs)
  then have "count_to m (Some z) (lastp (Some z) zs) (c + 1) = Some (c + 1 + int (length zs))" by simp
  moreover have "Some x \<noteq> lastp (Some z) zs" using Cons.prems end_simps(1) [of x zs "Some z"] by auto
  ultimately show ?case using Cons.prems by (simp add: count_to.simps [of m "Some x"] access)
qed

lemma seg_link_simps:
  "set xs \<inter> set ys = {} \<Longrightarrow> seg (link_next (lastp None ys) v h) q xs n = seg h q xs n"
  "set xs \<inter> set ys = {} \<Longrightarrow> seg (link_prev (hdp ys None) v h) q xs n = seg h q xs n"
  "set ys \<inter> set xs = {} \<Longrightarrow> seg (link_next (lastp None ys) v h) q xs n = seg h q xs n"
  "set ys \<inter> set xs = {} \<Longrightarrow> seg (link_prev (hdp ys None) v h) q xs n = seg h q xs n"
  using seg_link_other by (simp_all add: Int_commute)

text \<open>The nodes after \<open>ellExtract\<close> has moved \<open>zs\<close> from between \<open>xs\<close> and \<open>ys\<close> to the end of \<open>ds\<close>.\<close>

definition moved :: "nat list \<Rightarrow> nat list \<Rightarrow> nat list \<Rightarrow> nat list \<Rightarrow> (nat \<rightharpoonup> ELLNODE) \<Rightarrow> (nat \<rightharpoonup> ELLNODE)" where
  "moved xs zs ys ds h =
     (let h = link_next (lastp None xs) (hdp ys None) h;
          h = (if ys = [] then h
               else link_next (lastp None zs) None (link_prev (hdp ys None) (lastp None xs) h));
          h = link_prev (hdp zs None) (lastp None ds) h
      in link_next (lastp None ds) (hdp zs None) h)"

lemma moved_seg:
  assumes s: "seg h None (xs @ zs @ ys) None" "seg h None ds None" and d: "distinct (ds @ xs @ zs @ ys)"
  shows "seg (moved xs zs ys ds h) None (xs @ ys) None" "seg (moved xs zs ys ds h) None (ds @ zs) None"
proof -
  note [simp] = seg_link_simps
  have e: "distinct xs" "distinct ys" "distinct zs" "distinct ds" "set xs \<inter> set ys = {}" "set xs \<inter> set zs = {}"
      "set zs \<inter> set ys = {}" "set ds \<inter> set xs = {}" "set ds \<inter> set ys = {}" "set ds \<inter> set zs = {}"
    using d by auto
  let ?h = "link_next (lastp None xs) (hdp ys None) h"
  from s have sx: "seg h None xs (hdp zs (hdp ys None))" and sz: "seg h (lastp None xs) zs (hdp ys None)"
    and sy: "seg h (lastp None (xs @ zs)) ys None" by auto
  have x: "seg ?h None xs (hdp ys None)" by (rule seg_link_next [OF sx e(1)])
  have y: "seg (link_prev (hdp ys None) (lastp None xs) ?h) (lastp None xs) ys None"
    by (rule seg_link_prev [OF _ e(2)]) (use sy e in simp)
  show "seg (moved xs zs ys ds h) None (xs @ ys) None"
    using x y e by (cases "ys = []") (simp_all add: moved_def Let_def)
  have z: "seg (if ys = [] then ?h else link_next (lastp None zs) None (link_prev (hdp ys None) (lastp None xs) ?h))
      (lastp None xs) zs None"
    using sz e by (auto intro!: seg_link_next)
  then have "seg (link_prev (hdp zs None) (lastp None ds)
      (if ys = [] then ?h else link_next (lastp None zs) None (link_prev (hdp ys None) (lastp None xs) ?h))) (lastp None ds) zs None"
    by (rule seg_link_prev [OF _ e(3)])
  then have "seg (moved xs zs ys ds h) (lastp None ds) zs None"
    using e by (simp add: moved_def Let_def)
  moreover have "seg (moved xs zs ys ds h) None ds (hdp zs None)"
    unfolding moved_def Let_def by (rule seg_link_next [OF _ e(4)]) (use s e in simp)
  ultimately show "seg (moved xs zs ys ds h) None (ds @ zs) None" by simp
qed

lemma moved_frame: "a \<notin> set (ds @ xs @ zs @ ys) \<Longrightarrow> moved xs zs ys ds h a = h a" "dom (moved xs zs ys ds h) = dom h"
  by (simp_all add: moved_def Let_def link_off link_frame)

lemma ellExtract_spec:
  assumes r: "ell_rep m l (xs @ zs @ ys)" "ell_rep m k ds" and z: "zs \<noteq> []"
    and ne: "l \<noteq> k" "set ds \<inter> set (xs @ zs @ ys) = {}"
  obtains m' where "ellExtract l (Some (hd zs)) (Some (last zs)) k m = Some m'" "ell_rep m' l (xs @ ys)"
    "ell_rep m' k (ds @ zs)" "frame (set (ds @ xs @ zs @ ys)) {l, k} m m'"
proof -
  let ?hdr = "\<lambda>xs. \<lparr>first = hdp xs None, lasts = lastp None xs, count = int (length xs)\<rparr>"
  let ?m = "m\<lparr>nodes := moved xs zs ys ds (nodes m), lists := (lists m)(l := ?hdr (xs @ ys), k := ?hdr (ds @ zs))\<rparr>"
  have d: "distinct (ds @ xs @ zs @ ys)" using r ne by (auto simp: ell_rep_def)
  have sg: "seg (nodes ?m) None (xs @ ys) None" "seg (nodes ?m) None (ds @ zs) None"
    using moved_seg [OF _ _ d] r by (simp_all add: ell_rep_def)
  then have rm: "ell_rep ?m l (xs @ ys)" "ell_rep ?m k (ds @ zs)"
    using d ne by (auto simp: ell_rep_def)
  obtain a as where zs: "zs = a # as" using z by (cases zs) auto
  have cnt: "count_to m' (Some (hd zs)) (Some (last zs)) 1 = Some (int (length zs))"
    if "nodes m' = moved xs zs ys ds (nodes m)" for m'
    using count_to_seg [of m' _ a as None 1] sg(2) d zs that by (auto simp: lastp_def)
  have na: "nodes m (hd zs) = Some \<lparr>nnext = hdp (tl zs) (hdp ys None), previous = lastp None xs\<rparr>"
    using r(1) zs by (simp add: ell_rep_def)
  have nb: "nodes m (last zs) = Some \<lparr>nnext = hdp ys None, previous = lastp (lastp None xs) (butlast zs)\<rparr>"
    using r(1) z by (cases zs rule: rev_cases) (simp_all add: ell_rep_def)
  have dm: "ys \<noteq> [] \<Longrightarrow> hd ys \<in> dom (nodes m)" "xs \<noteq> [] \<Longrightarrow> last xs \<in> dom (nodes m)" "ds \<noteq> [] \<Longrightarrow> last ds \<in> dom (nodes m)"
    "hd zs \<in> dom (nodes m)" "last zs \<in> dom (nodes m)"
    using ell_rep_dom [OF r(1)] ell_rep_dom [OF r(2)] z by (auto simp: subset_iff)
  have off: "link_next (lastp None xs) v h (hd zs) = h (hd zs)" "link_next (lastp None xs) v h (last zs) = h (last zs)" for v h
    using d z by (auto intro!: link_off)
  have "ellExtract l (Some (hd zs)) (Some (last zs)) k m = Some ?m"
    using z ne dm na nb cnt off
    by (cases "xs = []"; cases "ys = []"; cases "ds = []")
      (simp_all add: ellExtract_def ell_rep_list [OF r(1)] ell_rep_list [OF r(2)] access access_link end_simps
        link_frame upd_list_def moved_def fun_upd_twist)
  moreover have "frame (set (ds @ xs @ zs @ ys)) {l, k} m ?m"
    by (auto simp: frame_def moved_frame)
  ultimately show thesis using rm that by blast
qed

section \<open>Lookup\<close>

lemma seg_nth: "seg h p xs n \<Longrightarrow> i < length xs \<Longrightarrow>
    h (xs ! i) = Some \<lparr>nnext = if Suc i < length xs then Some (xs ! Suc i) else n,
                       previous = if i = 0 then p else Some (xs ! (i - 1))\<rparr>"
proof (induction xs arbitrary: p i)
  case (Cons x xs)
  show ?case
  proof (cases i)
    case 0
    with Cons.prems show ?thesis by (cases xs) auto
  next
    case (Suc j)
    then show ?thesis using Cons.IH [of "Some x" j] Cons.prems by (cases j) auto
  qed
qed simp

lemma step_nth:
  assumes "ell_rep m l xs" "i < length xs"
  shows "get_next m (Some (xs ! i)) = Some (if Suc i < length xs then Some (xs ! Suc i) else None)"
    "get_prev m (Some (xs ! i)) = Some (if i = 0 then None else Some (xs ! (i - 1)))"
  using seg_nth [of "nodes m" None xs None i] assms by (simp_all add: ell_rep_def access)

lemma walk_nth:
  assumes r: "ell_rep m l xs"
  shows "i + n < length xs \<Longrightarrow> walk get_next m n (Some (xs ! i)) = Some (Some (xs ! (i + n)))"
    "n \<le> i \<Longrightarrow> i < length xs \<Longrightarrow> walk get_prev m n (Some (xs ! i)) = Some (Some (xs ! (i - n)))"
    "i < length xs \<Longrightarrow> walk_safe get_next m n (Some (xs ! i)) = Some (if i + n < length xs then Some (xs ! (i + n)) else None)"
    "i < length xs \<Longrightarrow> walk_safe get_prev m n (Some (xs ! i)) = Some (if n \<le> i then Some (xs ! (i - n)) else None)"
proof (induction n arbitrary: i)
  case (Suc n)
  { case 1 then show ?case using Suc(1) [of "Suc i"] by (simp add: step_nth [OF r]) }
  { case 2 then show ?case using Suc(2) [of "i - 1"] by (simp add: step_nth [OF r]) }
  { case 3
    have "walk_safe get_next m n None = Some None" by (cases n) simp_all
    with 3 show ?case using Suc(3) [of "Suc i"] by (simp add: step_nth [OF r]) }
  { case 4
    have "walk_safe get_prev m n None = Some None" by (cases n) simp_all
    with 4 show ?case using Suc(4) [of "i - 1"] by (cases i) (simp_all add: step_nth [OF r]) }
qed simp_all

lemma ellNth_spec:
  assumes r: "ell_rep m l xs"
  shows "ellNth l k m = Some (if 1 \<le> k \<and> k \<le> int (length xs) then Some (xs ! nat (k - 1)) else None)"
proof (cases "1 \<le> k \<and> k \<le> int (length xs)")
  case True
  then have ne: "xs \<noteq> []" by auto
  have f: "hdp xs None = Some (xs ! 0)" "lastp None xs = Some (xs ! (length xs - 1))"
    using ne by (simp_all add: end_simps hd_conv_nth last_conv_nth)
  have "length xs - 1 - nat (int (length xs) - k) = nat (k - 1)" using True by linarith
  then show ?thesis
    using True ne walk_nth(1) [OF r, of 0 "nat (k - 1)"] walk_nth(2) [OF r, of "nat (int (length xs) - k)" "length xs - 1"]
    by (auto simp: ellNth_def ell_rep_list [OF r] f Let_def)
next
  case False
  moreover have "int (length xs) div 2 < k" if "int (length xs) < k" using that by linarith
  ultimately show ?thesis by (auto simp: ellNth_def ell_rep_list [OF r] Let_def not_le)
qed

lemma ellNStep_spec:
  assumes r: "ell_rep m l xs" and i: "i < length xs"
  shows "ellNStep (Some (xs ! i)) k m =
    Some (if 0 \<le> int i + k \<and> int i + k < int (length xs) then Some (xs ! nat (int i + k)) else None)"
proof (cases "k > 0")
  case True
  then have "nat (int i + k) = i + nat k" by simp
  then show ?thesis using True walk_nth(3) [OF r i, of "nat k"] by (auto simp: ellNStep_def)
next
  case False
  then have "nat (int i + k) = i - nat (- k)" by simp
  then show ?thesis using False i walk_nth(4) [OF r i, of "nat (- k)"] by (auto simp: ellNStep_def)
qed

definition position :: "nat \<Rightarrow> nat list \<Rightarrow> nat" where
  "position x xs = length (takeWhile (\<lambda>y. y \<noteq> x) xs)"

lemma find_loop_seg:
  "seg (nodes m) p xs None \<Longrightarrow>
    find_loop m (hdp xs None) (Some x) c = Some (if x \<in> set xs then Some x else None, c + int (position x xs))"
proof (induction xs arbitrary: p c)
  case Nil
  then show ?case by (simp add: find_loop.simps position_def)
next
  case (Cons y ys)
  then show ?case
    using Cons.IH [of "Some y" "c + 1"] by (auto simp: find_loop.simps [of m "Some y"] access position_def)
qed

lemma ellFind_spec:
  "ell_rep m l xs \<Longrightarrow> ellFind l (Some x) m = Some (if x \<in> set xs then int (position x xs) + 1 else - 1)"
  using find_loop_seg [of m None xs x 1] by (auto simp: ellFind_def ell_rep_def)

lemma position_nth: "distinct xs \<Longrightarrow> i < length xs \<Longrightarrow> position (xs ! i) xs = i"
proof (induction xs arbitrary: i)
  case (Cons y ys)
  then show ?case by (cases i) (auto simp: position_def)
qed simp

lemma position_split: "x \<in> set xs \<Longrightarrow> xs = take (position x xs) xs @ x # drop (Suc (position x xs)) xs"
  by (induction xs) (auto simp: position_def)

section \<open>Freeing and verifying\<close>

lemma free_loop_seg:
  assumes f: "\<And>a b m. a \<noteq> b \<Longrightarrow> nodes (f a m) b = nodes m b"
  shows "seg (nodes m) p xs None \<Longrightarrow> distinct xs \<Longrightarrow> free_loop f (hdp xs None) m = Some (fold f xs m)"
proof (induction xs arbitrary: p m)
  case Nil
  then show ?case by (simp add: free_loop.simps)
next
  case (Cons x xs)
  have "seg (nodes (f x m)) (Some x) xs None"
    using Cons.prems f seg_cong [of xs "nodes (f x m)" "nodes m"] by (metis distinct.simps(2) seg.simps(2))
  then show ?case using Cons by (simp add: free_loop.simps [of f "Some x"] access)
qed

lemma seg_det: "seg h p xs None \<Longrightarrow> seg h q ys None \<Longrightarrow> hdp xs None = hdp ys None \<Longrightarrow> xs = ys"
proof (induction xs arbitrary: p q ys)
  case Nil
  then show ?case by (cases ys) auto
next
  case (Cons x xs)
  then obtain zs where "ys = x # zs" by (cases ys) auto
  with Cons show ?case by auto
qed

lemma seg_distinct: "seg h p xs None \<Longrightarrow> distinct xs"
proof (induction xs arbitrary: p)
  case (Cons x xs)
  have "x \<notin> set xs"
  proof
    assume "x \<in> set xs"
    then obtain as bs where xs: "xs = as @ x # bs" by (meson split_list)
    have "seg h (lastp (Some x) as) (x # bs) None" using Cons.prems xs by auto
    then have "x # xs = x # bs" by (intro seg_det [OF Cons.prems]) simp_all
    with xs show False by simp
  qed
  with Cons show ?case by auto
qed simp

lemma verify_loop_complete:
  "seg (nodes m) p (x # xs) None \<Longrightarrow> verify_loop m (Some x) n = Some (lastp (Some x) xs, n + 1 + int (length xs))"
proof (induction xs arbitrary: p x n)
  case Nil
  then show ?case by (simp add: verify_loop.simps access)
next
  case (Cons y ys)
  then show ?case by (simp add: verify_loop.simps [of m "Some x"] access)
qed

lemma verify_loop_sound:
  "verify_loop m pn n = Some y \<Longrightarrow> \<forall>p. get_prev m pn = Some p \<longrightarrow>
    (\<exists>xs. hdp xs None = pn \<and> xs \<noteq> [] \<and> seg (nodes m) p xs None \<and> y = (lastp None xs, n + int (length xs)))"
proof (erule verify_loop.raw_induct [rotated])
  fix loop :: "ell_mem \<Rightarrow> ptr \<Rightarrow> int \<Rightarrow> (ptr \<times> int) option" and m pn n y
  assume 1: "\<And>m pn n y. loop m pn n = Some y \<Longrightarrow> \<forall>p. get_prev m pn = Some p \<longrightarrow>
      (\<exists>xs. hdp xs None = pn \<and> xs \<noteq> [] \<and> seg (nodes m) p xs None \<and> y = (lastp None xs, n + int (length xs)))"
    "do { pNext \<leftarrow> get_next m pn; if pNext = None then Some (pn, n + 1)
      else do { v \<leftarrow> get_prev m pNext; if v = pn then loop m pNext (n + 1) else None } } = Some y"
  show "\<forall>p. get_prev m pn = Some p \<longrightarrow>
      (\<exists>xs. hdp xs None = pn \<and> xs \<noteq> [] \<and> seg (nodes m) p xs None \<and> y = (lastp None xs, n + int (length xs)))"
  proof (intro allI impI)
    fix p assume p: "get_prev m pn = Some p"
    then obtain a nd where a: "pn = Some a" "nodes m a = Some nd" "previous nd = p"
      by (auto simp: get_prev_def get_node_def bind_eq_Some_conv)
    show "\<exists>xs. hdp xs None = pn \<and> xs \<noteq> [] \<and> seg (nodes m) p xs None \<and> y = (lastp None xs, n + int (length xs))"
    proof (cases "nnext nd")
      case None
      then show ?thesis
        using 1(2) a by (intro exI [of _ "[a]"]) (simp add: access)
    next
      case (Some b)
      with 1(2) a have "get_prev m (Some b) = Some (Some a)" "loop m (Some b) (n + 1) = Some y"
        by (auto simp: access bind_eq_Some_conv split: if_splits)
      then obtain xs where "hdp xs None = Some b" "xs \<noteq> []" "seg (nodes m) (Some a) xs None" "y = (lastp None xs, n + 1 + int (length xs))"
        using 1(1) by blast
      then show ?thesis
        using a Some by (intro exI [of _ "a # xs"]) (simp add: lastp_def)
    qed
  qed
qed

section \<open>Several lists in one store\<close>

text \<open>\<open>sim L m R\<close>: the headers in \<open>L\<close> hold the sequences \<open>R\<close>, and no node is in two lists.\<close>

definition sim :: "nat set \<Rightarrow> ell_mem \<Rightarrow> (nat \<Rightarrow> nat list) \<Rightarrow> bool" where
  "sim L m R \<longleftrightarrow> (\<forall>l\<in>L. ell_rep m l (R l)) \<and> (\<forall>l\<in>L. \<forall>k\<in>L. l \<noteq> k \<longrightarrow> set (R l) \<inter> set (R k) = {})"

definition members :: "nat set \<Rightarrow> (nat \<Rightarrow> nat list) \<Rightarrow> nat set" where
  "members L R = (\<Union>l\<in>L. set (R l))"

lemma sim_rep: "sim L m R \<Longrightarrow> l \<in> L \<Longrightarrow> ell_rep m l (R l)"
  by (simp add: sim_def)

lemma sim_disjoint: "sim L m R \<Longrightarrow> l \<in> L \<Longrightarrow> k \<in> L \<Longrightarrow> l \<noteq> k \<Longrightarrow> set (R l) \<inter> set (R k) = {}"
  by (simp add: sim_def)

lemma sim_members: "sim L m R \<Longrightarrow> members L R \<subseteq> dom (nodes m)"
  using ell_rep_dom by (fastforce simp: sim_def members_def)

lemma sim_step1:
  assumes s: "sim L m R" and l: "l \<in> L" and f: "frame A {l} m m'" and r: "ell_rep m' l xs"
    and a: "A \<subseteq> set (R l) \<union> B" "set xs \<subseteq> set (R l) \<union> B" "B \<inter> members L R = {}"
  shows "sim L m' (R(l := xs))"
proof -
  have d: "set (R k) \<inter> (set (R l) \<union> B) = {}" if "k \<in> L" "k \<noteq> l" for k
    using sim_disjoint [OF s that(1) l that(2)] a(3) that(1) by (auto simp: members_def)
  have o: "ell_rep m' k (R k)" if "k \<in> L" "k \<noteq> l" for k
    using ell_rep_frame [OF f sim_rep [OF s that(1)]] d [OF that] a that by blast
  have e: "set (R i) \<inter> set xs = {}" "set xs \<inter> set (R i) = {}" if "i \<in> L" "i \<noteq> l" for i
    using d [OF that] a(2) by blast+
  have "set ((R(l := xs)) i) \<inter> set ((R(l := xs)) k) = {}" if "i \<in> L" "k \<in> L" "i \<noteq> k" for i k
    using that e [of i] e [of k] sim_disjoint [OF s that] by (cases "i = l"; cases "k = l") simp_all
  with o r show ?thesis by (simp add: sim_def)
qed

lemma sim_step2:
  assumes s: "sim L m R" and l: "l \<in> L" "k \<in> L" "l \<noteq> k" and f: "frame (set (R l) \<union> set (R k)) {l, k} m m'"
    and r: "ell_rep m' l xs" "ell_rep m' k ys"
    and a: "set xs \<union> set ys \<subseteq> set (R l) \<union> set (R k)" "set xs \<inter> set ys = {}"
  shows "sim L m' (R(l := xs, k := ys))"
proof -
  have d: "set (R i) \<inter> (set (R l) \<union> set (R k)) = {}" if "i \<in> L" "i \<noteq> l" "i \<noteq> k" for i
    using sim_disjoint [OF s] that l by blast
  have o: "ell_rep m' i (R i)" if "i \<in> L" "i \<noteq> l" "i \<noteq> k" for i
    using ell_rep_frame [OF f sim_rep [OF s that(1)]] d [OF that] that by blast
  let ?R = "R(l := xs, k := ys)"
  have e: "set (R i) \<inter> set xs = {}" "set xs \<inter> set (R i) = {}" "set (R i) \<inter> set ys = {}" "set ys \<inter> set (R i) = {}"
    if "i \<in> L" "i \<noteq> l" "i \<noteq> k" for i
    using d [OF that] a(1) by blast+
  have "set (?R i) \<inter> set (?R j) = {}" if "i \<in> L" "j \<in> L" "i \<noteq> j" for i j
    using that e [of i] e [of j] a(2) sim_disjoint [OF s that] l(3)
    by (cases "i = l"; cases "i = k"; cases "j = l"; cases "j = k") (simp_all add: Int_commute)
  with o r l(3) show ?thesis by (simp add: sim_def)
qed

lemma sim_add:
  assumes s: "sim L m R" and l: "l \<in> L" and x: "x \<in> dom (nodes m)" "x \<notin> members L R"
  obtains m' where "ellAdd l (Some x) m = Some m'" "sim L m' (R(l := R l @ [x]))" "frame (insert x (members L R)) L m m'"
proof -
  have "x \<notin> set (R l)" using x l by (auto simp: members_def)
  then obtain m' where m': "ellAdd l (Some x) m = Some m'" "ell_rep m' l (R l @ [x])" "frame (insert x (set (R l))) {l} m m'"
    using ellAdd_spec [OF sim_rep [OF s l] x(1)] by blast
  have "sim L m' (R(l := R l @ [x]))" by (rule sim_step1 [OF s l m'(3,2), of "{x}"]) (use x in auto)
  moreover have "frame (insert x (members L R)) L m m'" by (rule frame_mono [OF m'(3)]) (use l in \<open>auto simp: members_def\<close>)
  ultimately show thesis using m'(1) that by blast
qed

lemma sim_get:
  assumes s: "sim L m R" and l: "l \<in> L" and x: "R l = x # xs"
  obtains m' where "ellGet l m = Some (Some x, m')" "sim L m' (R(l := xs))" "frame (members L R) L m m'"
proof -
  obtain m' where m': "ellGet l m = Some (Some x, m')" "ell_rep m' l xs" "frame (set xs) {l} m m'"
    using ellGet_spec [of m l x xs] sim_rep [OF s l] x by auto
  have "sim L m' (R(l := xs))" by (rule sim_step1 [OF s l m'(3,2), of "{}"]) (use x in auto)
  moreover have "frame (members L R) L m m'" by (rule frame_mono [OF m'(3)]) (use l x in \<open>auto simp: members_def\<close>)
  ultimately show thesis using m'(1) that by blast
qed

lemma sim_concat:
  assumes s: "sim L m R" and l: "l \<in> L" "k \<in> L" "l \<noteq> k"
  obtains m' where "ellConcat l k m = Some m'" "sim L m' (R(l := R l @ R k, k := []))" "frame (members L R) L m m'"
proof -
  obtain m' where m': "ellConcat l k m = Some m'" "ell_rep m' l (R l @ R k)" "ell_rep m' k []"
      "frame (set (R l) \<union> set (R k)) {l, k} m m'"
    using ellConcat_spec [OF sim_rep [OF s l(1)] sim_rep [OF s l(2)] l(3) sim_disjoint [OF s l]] by blast
  have "sim L m' (R(l := R l @ R k, k := []))" by (rule sim_step2 [OF s l m'(4,2,3)]) auto
  moreover have "frame (members L R) L m m'" by (rule frame_mono [OF m'(4)]) (use l in \<open>auto simp: members_def\<close>)
  ultimately show thesis using m'(1) that by blast
qed

section \<open>The abstract lists\<close>

text \<open>The operations on an abstract state that assigns each header its sequence of nodes, and when they
  may be called.\<close>

datatype ell_op = OpAdd nat nat | OpInsert nat ptr nat | OpDelete nat nat | OpGet nat | OpPop nat
  | OpConcat nat nat | OpExtract nat nat nat nat | OpFree nat

fun exec_op :: "ell_op \<Rightarrow> ell_mem \<Rightarrow> (ptr \<times> ell_mem) option" where
  "exec_op (OpAdd l x) m = map_option (Pair None) (ellAdd l (Some x) m)"
| "exec_op (OpInsert l p x) m = map_option (Pair None) (ellInsert l p (Some x) m)"
| "exec_op (OpDelete l x) m = map_option (Pair None) (ellDelete l (Some x) m)"
| "exec_op (OpGet l) m = ellGet l m"
| "exec_op (OpPop l) m = ellPop l m"
| "exec_op (OpConcat l k) m = map_option (Pair None) (ellConcat l k m)"
| "exec_op (OpExtract l a b k) m = map_option (Pair None) (ellExtract l (Some a) (Some b) k m)"
| "exec_op (OpFree l) m = map_option (Pair None) (ellFree2 free_node l m)"

definition insert_after :: "ptr \<Rightarrow> nat \<Rightarrow> nat list \<Rightarrow> nat list" where
  "insert_after p x xs = (case p of None \<Rightarrow> x # xs
     | Some y \<Rightarrow> take (Suc (position y xs)) xs @ x # drop (Suc (position y xs)) xs)"

fun spec_op :: "ell_op \<Rightarrow> (nat \<Rightarrow> nat list) \<Rightarrow> ptr \<times> (nat \<Rightarrow> nat list)" where
  "spec_op (OpAdd l x) R = (None, R(l := R l @ [x]))"
| "spec_op (OpInsert l p x) R = (None, R(l := insert_after p x (R l)))"
| "spec_op (OpDelete l x) R = (None, R(l := remove1 x (R l)))"
| "spec_op (OpGet l) R = (hdp (R l) None, R(l := tl (R l)))"
| "spec_op (OpPop l) R = (lastp None (R l), R(l := butlast (R l)))"
| "spec_op (OpConcat l k) R = (None, R(l := R l @ R k, k := []))"
| "spec_op (OpExtract l a b k) R =
     (let i = position a (R l); j = Suc (position b (R l))
      in (None, R(l := take i (R l) @ drop j (R l), k := R k @ drop i (take j (R l)))))"
| "spec_op (OpFree l) R = (None, R(l := []))"

fun allowed :: "nat set \<Rightarrow> ell_mem \<Rightarrow> (nat \<Rightarrow> nat list) \<Rightarrow> ell_op \<Rightarrow> bool" where
  "allowed L m R (OpAdd l x) \<longleftrightarrow> l \<in> L \<and> x \<in> dom (nodes m) \<and> x \<notin> members L R"
| "allowed L m R (OpInsert l p x) \<longleftrightarrow>
     l \<in> L \<and> x \<in> dom (nodes m) \<and> x \<notin> members L R \<and> (p = None \<or> the p \<in> set (R l))"
| "allowed L m R (OpDelete l x) \<longleftrightarrow> l \<in> L \<and> x \<in> set (R l)"
| "allowed L m R (OpGet l) \<longleftrightarrow> l \<in> L"
| "allowed L m R (OpPop l) \<longleftrightarrow> l \<in> L"
| "allowed L m R (OpConcat l k) \<longleftrightarrow> l \<in> L \<and> k \<in> L \<and> l \<noteq> k"
| "allowed L m R (OpExtract l a b k) \<longleftrightarrow> l \<in> L \<and> k \<in> L \<and> l \<noteq> k \<and> a \<in> set (R l) \<and> b \<in> set (R l)
     \<and> position a (R l) \<le> position b (R l)"
| "allowed L m R (OpFree l) \<longleftrightarrow> l \<in> L"

lemma position_less: "x \<in> set xs \<Longrightarrow> position x xs < length xs \<and> xs ! position x xs = x"
  by (induction xs) (auto simp: position_def)

lemma sim_insert:
  assumes s: "sim L m R" and a: "allowed L m R (OpInsert l p x)"
  shows "\<exists>m'. ellInsert l p (Some x) m = Some m' \<and> sim L m' (R(l := insert_after p x (R l)))"
proof -
  from a have l: "l \<in> L" and x: "x \<in> dom (nodes m)" "x \<notin> members L R" "x \<notin> set (R l)" by (auto simp: members_def)
  obtain ys zs where yz: "R l = ys @ zs" "p = lastp None ys" "insert_after p x (R l) = ys @ x # zs"
  proof (cases p)
    case None
    then show ?thesis using that [of "[]" "R l"] by (simp add: insert_after_def)
  next
    case (Some y)
    with a have y: "position y (R l) < length (R l)" "R l ! position y (R l) = y"
      using position_less by auto
    show ?thesis
    proof (rule that [of "take (Suc (position y (R l))) (R l)" "drop (Suc (position y (R l))) (R l)"])
      have "lastp None (take (Suc (position y (R l))) (R l)) = Some (R l ! position y (R l))"
        using y(1) by (simp add: take_Suc_conv_app_nth)
      then show "p = lastp None (take (Suc (position y (R l))) (R l))" using Some y(2) by simp
    qed (simp_all add: Some insert_after_def)
  qed
  then obtain m' where m': "ellInsert l p (Some x) m = Some m'" "ell_rep m' l (ys @ x # zs)" "frame (insert x (set ys \<union> set zs)) {l} m m'"
    using ellInsert_spec [of m l ys zs x] sim_rep [OF s l] x by auto
  have "sim L m' (R(l := ys @ x # zs))" by (rule sim_step1 [OF s l m'(3,2), of "{x}"]) (use yz x in auto)
  with m' yz show ?thesis by auto
qed

lemma sim_delete:
  assumes s: "sim L m R" and l: "l \<in> L" "x \<in> set (R l)"
  shows "\<exists>m'. ellDelete l (Some x) m = Some m' \<and> sim L m' (R(l := remove1 x (R l)))"
proof -
  from l obtain ys zs where yz: "R l = ys @ x # zs" "x \<notin> set ys" by (meson split_list_first)
  then obtain m' where m': "ellDelete l (Some x) m = Some m'" "ell_rep m' l (ys @ zs)" "frame (set ys \<union> set zs) {l} m m'"
    using ellDelete_spec [of m l ys x zs] sim_rep [OF s l(1)] by auto
  have "sim L m' (R(l := ys @ zs))" by (rule sim_step1 [OF s l(1) m'(3,2), of "{}"]) (use yz in auto)
  with m' yz show ?thesis by (auto simp: remove1_append)
qed

lemma sim_extract:
  assumes s: "sim L m R" and a: "allowed L m R (OpExtract l a b k)"
  shows "\<exists>m'. ellExtract l (Some a) (Some b) k m = Some m' \<and> sim L m' (snd (spec_op (OpExtract l a b k) R))"
proof -
  let ?i = "position a (R l)" and ?j = "position b (R l)"
  let ?xs = "take ?i (R l)" and ?zs = "drop ?i (take (Suc ?j) (R l))" and ?ys = "drop (Suc ?j) (R l)"
  from a have l: "l \<in> L" "k \<in> L" "l \<noteq> k" and i: "?i < length (R l)" "R l ! ?i = a" and j: "?j < length (R l)" "R l ! ?j = b"
    and ij: "?i \<le> ?j" using position_less by auto
  have e: "R l = ?xs @ ?zs @ ?ys"
  proof -
    have "?xs = take ?i (take (Suc ?j) (R l))" using ij by (simp add: min_def)
    then have "?xs @ ?zs = take (Suc ?j) (R l)" by (metis append_take_drop_id)
    then show ?thesis by (metis append.assoc append_take_drop_id)
  qed
  have z: "?zs \<noteq> []" "hd ?zs = a" "last ?zs = b"
    using i j ij by (simp_all add: hd_drop_conv_nth last_conv_nth)
  obtain m' where m': "ellExtract l (Some a) (Some b) k m = Some m'" "ell_rep m' l (?xs @ ?ys)" "ell_rep m' k (R k @ ?zs)"
      "frame (set (R k @ ?xs @ ?zs @ ?ys)) {l, k} m m'"
    using ellExtract_spec [of m l ?xs ?zs ?ys k "R k"] sim_rep [OF s] sim_disjoint [OF s l(2,1)] l e z by metis
  have "sim L m' (R(l := ?xs @ ?ys, k := R k @ ?zs))"
  proof (rule sim_step2 [OF s l _ m'(2,3)])
    show "frame (set (R l) \<union> set (R k)) {l, k} m m'"
      using m'(4) e by (metis Un_commute set_append)
    have "set (R l) = set (?xs @ ?zs @ ?ys)" using e by simp
    then show "set (?xs @ ?ys) \<union> set (R k @ ?zs) \<subseteq> set (R l) \<union> set (R k)" by auto
    have "distinct (?xs @ ?zs @ ?ys)" using ell_rep_distinct [OF sim_rep [OF s l(1)]] e by simp
    then show "set (?xs @ ?ys) \<inter> set (R k @ ?zs) = {}"
      using sim_disjoint [OF s l] \<open>set (R l) = set (?xs @ ?zs @ ?ys)\<close> by auto
  qed
  with m' show ?thesis by (auto simp: Let_def)
qed

lemma fold_free: "nodes (fold free_node xs m) = (nodes m) |` (- set xs)" "lists (fold free_node xs m) = lists m"
  by (induction xs arbitrary: m) (auto simp: free_node_def restrict_map_def fun_eq_iff)

lemma sim_free:
  assumes s: "sim L m R" and l: "l \<in> L"
  shows "\<exists>m'. ellFree2 free_node l m = Some m' \<and> sim L m' (R(l := [])) \<and> dom (nodes m') = dom (nodes m) - set (R l)"
proof -
  let ?m = "ellInit l (fold free_node (R l) m)"
  have r: "seg (nodes m) None (R l) None" "distinct (R l)" using sim_rep [OF s l] by (auto simp: ell_rep_def)
  have e: "ellFree2 free_node l m = Some ?m"
    using free_loop_seg [of free_node, OF _ r] by (simp add: ellFree2_def ell_rep_list [OF sim_rep [OF s l]] free_node_def)
  have "ell_rep ?m k (R k)" if "k \<in> L" "k \<noteq> l" for k
  proof -
    have "nodes ?m a = nodes m a" if "a \<in> set (R k)" for a
      using sim_disjoint [OF s \<open>k \<in> L\<close> l \<open>k \<noteq> l\<close>] that by (auto simp: ellInit_def heap_simps fold_free restrict_map_def)
    then show ?thesis
      using sim_rep [OF s that(1)] that seg_cong [of "R k" "nodes ?m" "nodes m"]
      by (simp add: ell_rep_def ellInit_def heap_simps fold_free)
  qed
  moreover have "ell_rep ?m l []" by simp
  ultimately have "sim L ?m (R(l := []))" using s by (simp add: sim_def)
  with e show ?thesis by (auto simp: ellInit_def heap_simps fold_free)
qed

lemma sim_get_pop:
  assumes s: "sim L m R" and l: "l \<in> L"
  shows "\<exists>m'. ellGet l m = Some (hdp (R l) None, m') \<and> sim L m' (R(l := tl (R l)))"
    "\<exists>m'. ellPop l m = Some (lastp None (R l), m') \<and> sim L m' (R(l := butlast (R l)))"
proof -
  show "\<exists>m'. ellGet l m = Some (hdp (R l) None, m') \<and> sim L m' (R(l := tl (R l)))"
  proof (cases "R l")
    case Nil
    then show ?thesis using ellGet_empty [of m l] sim_rep [OF s l] s by (auto simp: fun_upd_idem)
  next
    case (Cons x xs)
    then show ?thesis using sim_get [OF s l, of x xs] by auto
  qed
  show "\<exists>m'. ellPop l m = Some (lastp None (R l), m') \<and> sim L m' (R(l := butlast (R l)))"
  proof (cases "R l" rule: rev_cases)
    case Nil
    then show ?thesis using ellPop_empty [of m l] sim_rep [OF s l] s by (auto simp: fun_upd_idem)
  next
    case (snoc xs x)
    then obtain m' where m': "ellPop l m = Some (Some x, m')" "ell_rep m' l xs" "frame (set xs) {l} m m'"
      using ellPop_spec [of m l xs x] sim_rep [OF s l] by auto
    have "sim L m' (R(l := xs))" by (rule sim_step1 [OF s l m'(3,2), of "{}"]) (use snoc in auto)
    with m' snoc show ?thesis by auto
  qed
qed

text \<open>C14: The linked lists implement sequences. As long as headers and nodes are used as their contract says
  (a node is added to one list only, and removed from a list it is in), every operation of ellLib.c
  runs without following a null or freed pointer, returns what the abstract operation returns, and
  leaves every header, not only those it was given, with the sequence the abstract operation gives
  it.\<close>

theorem ell_refines:
  assumes s: "sim L m R" and a: "allowed L m R opn"
  shows "\<exists>m'. exec_op opn m = Some (fst (spec_op opn R), m') \<and> sim L m' (snd (spec_op opn R))"
proof (cases opn)
  case (OpAdd l x)
  with a show ?thesis using sim_add [OF s, of l x] by auto
next
  case (OpInsert l p x)
  with a show ?thesis using sim_insert [OF s, of l p x] by auto
next
  case (OpDelete l x)
  with a show ?thesis using sim_delete [OF s, of l x] by auto
next
  case (OpGet l)
  with a show ?thesis using sim_get_pop(1) [OF s, of l] by simp
next
  case (OpPop l)
  with a show ?thesis using sim_get_pop(2) [OF s, of l] by simp
next
  case (OpConcat l k)
  with a show ?thesis using sim_concat [OF s, of l k] by auto
next
  case (OpExtract l p q k)
  with a show ?thesis using sim_extract [OF s, of l p q k] by (auto simp: Let_def)
next
  case (OpFree l)
  with a show ?thesis using sim_free [OF s, of l] by auto
qed

definition example_mem :: ell_mem where
  "example_mem = \<lparr>nodes = [1 \<mapsto> \<lparr>nnext = Some 2, previous = None\<rparr>, 2 \<mapsto> \<lparr>nnext = None, previous = Some 1\<rparr>,
                            3 \<mapsto> \<lparr>nnext = None, previous = None\<rparr>],
                  lists = (\<lambda>_. \<lparr>first = None, lasts = None, count = 0\<rparr>)(0 := \<lparr>first = Some 1, lasts = Some 2, count = 2\<rparr>)\<rparr>"

lemma example_rep: "ell_rep example_mem 0 [1, 2]"
  by (simp add: example_mem_def ell_rep_def)

theorem ell_refines_witness:
  "\<exists>m'. exec_op (OpInsert 0 (Some 1) 3) example_mem = Some (None, m') \<and> ell_rep m' 0 [1, 3, 2]"
proof -
  let ?R = "\<lambda>_. [1, 2]"
  have "sim {0} example_mem ?R" using example_rep by (simp add: sim_def)
  moreover have "allowed {0} example_mem ?R (OpInsert 0 (Some 1) 3)" by (simp add: members_def example_mem_def)
  ultimately have "\<exists>m'. exec_op (OpInsert 0 (Some 1) 3) example_mem = Some (fst (spec_op (OpInsert 0 (Some 1) 3) ?R), m')
      \<and> sim {0} m' (snd (spec_op (OpInsert 0 (Some 1) 3) ?R))"
    by (rule ell_refines)
  then show ?thesis by (auto simp: sim_def insert_after_def position_def)
qed

text \<open>\<open>ellVerify\<close> returns exactly on consistent lists: its assertions hold, and its loop ends, if and only
  if the header holds the two-way linked sequence of some distinct nodes with their count.\<close>

theorem ellVerify_iff: "ellVerify l m = Some () \<longleftrightarrow> (\<exists>xs. ell_rep m l xs)"
proof
  assume v: "ellVerify l m = Some ()"
  show "\<exists>xs. ell_rep m l xs"
  proof (cases "first (lists m l)")
    case None
    with v have "lists m l = \<lparr>first = None, lasts = None, count = 0\<rparr>"
      by (cases "lists m l") (auto simp: ellVerify_def split: if_splits)
    then have "ell_rep m l []" by (simp add: ell_rep_def)
    then show ?thesis by blast
  next
    case (Some x)
    with v have p: "get_prev m (Some x) = Some None"
      and q: "verify_loop m (Some x) 0 = Some (lasts (lists m l), count (lists m l))"
      by (auto simp: ellVerify_def Let_def bind_eq_Some_conv split: if_splits)
    obtain xs where xs: "hdp xs None = Some x" "seg (nodes m) None xs None"
        "lasts (lists m l) = lastp None xs" "count (lists m l) = int (length xs)"
      using verify_loop_sound [OF q] p by auto
    then have "ell_rep m l xs" using Some seg_distinct [OF xs(2)] by (cases "lists m l") (simp add: ell_rep_def)
    then show ?thesis by blast
  qed
next
  assume "\<exists>xs. ell_rep m l xs"
  then obtain xs where r: "ell_rep m l xs" by blast
  then show "ellVerify l m = Some ()"
    using verify_loop_complete [of m None _ _ 0]
    by (cases xs) (auto simp: ellVerify_def ell_rep_def access)
qed

text \<open>Lookups by number, by node and by step agree: \<open>ellNth\<close> returns the n-th node from either end and null
  outside the list, \<open>ellFind\<close> is its inverse and \<open>-1\<close> for other nodes, \<open>ellNStep\<close> moves along the list
  and returns null beyond its ends.\<close>

theorem ell_lookup:
  assumes r: "ell_rep m l xs"
  shows "ellNth l k m = Some (if 1 \<le> k \<and> k \<le> int (length xs) then Some (xs ! nat (k - 1)) else None)
    \<and> (\<forall>x. x \<notin> set xs \<longrightarrow> ellFind l (Some x) m = Some (- 1))
    \<and> (\<forall>i < length xs. ellFind l (Some (xs ! i)) m = Some (int i + 1)
         \<and> ellNStep (Some (xs ! i)) k m =
           Some (if 0 \<le> int i + k \<and> int i + k < int (length xs) then Some (xs ! nat (int i + k)) else None))"
  using ellNth_spec [OF r] ellFind_spec [OF r] ellNStep_spec [OF r] position_nth [OF ell_rep_distinct [OF r]] by simp

theorem ell_lookup_witness:
  "ellNth 0 2 example_mem = Some (Some 2) \<and> ellFind 0 (Some 2) example_mem = Some 2 \<and> ellNStep (Some 1) 5 example_mem = Some None"
  using ell_lookup [OF example_rep, of 2] ell_lookup [OF example_rep, of 5] by (auto simp: less_Suc_eq numeral_2_eq_2)

end
