(* ===== verification/EllSort.thy ===== *)
theory EllSort
  imports EllLib
begin

text \<open>
  The stable merge sort of linked lists (libCom/ellLib/ellSort.c): bottom-up, with three local list
  headers and the operations of ellLib.c. Shown: it returns, follows no null pointer, and leaves the
  nodes of the list in the order of the stable sort.
\<close>

section \<open>The program\<close>

text \<open>\<open>for (; count && ellCount(pFrom); count--)\<close>.\<close>

primrec ellMoveN :: "nat \<Rightarrow> nat \<Rightarrow> nat \<Rightarrow> ell_mem \<Rightarrow> ell_mem option" where
  "ellMoveN pTo pFrom 0 m = Some m"
| "ellMoveN pTo pFrom (Suc n) m =
     (if count (lists m pFrom) \<noteq> 0 then do {
        (node, m) \<leftarrow> ellGet pFrom m;
        m \<leftarrow> ellAdd pTo node m;
        ellMoveN pTo pFrom n m }
      else Some m)"

text \<open>The merging loop: a node of the later list \<open>P\<close> goes first only if it is strictly smaller. The
  comparison function is an argument; the locals \<open>INP\<close>, \<open>P\<close>, \<open>Q\<close> are headers.\<close>

partial_function (option) merge_loop :: "(nat \<Rightarrow> nat \<Rightarrow> int) \<Rightarrow> nat \<Rightarrow> nat \<Rightarrow> nat \<Rightarrow> ell_mem \<Rightarrow> ell_mem option" where
  "merge_loop cmp pList P Q m =
     (case (first (lists m P), first (lists m Q)) of
        (Some p, Some q) \<Rightarrow>
          if cmp p q < 0 then do {
            (node, m) \<leftarrow> ellGet P m;
            m \<leftarrow> ellAdd pList node m;
            merge_loop cmp pList P Q m }
          else do {
            (node, m) \<leftarrow> ellGet Q m;
            m \<leftarrow> ellAdd pList node m;
            merge_loop cmp pList P Q m }
      | _ \<Rightarrow> Some m)"

partial_function (option) pair_loop :: "(nat \<Rightarrow> nat \<Rightarrow> int) \<Rightarrow> nat \<Rightarrow> nat \<Rightarrow> nat \<Rightarrow> nat \<Rightarrow> nat \<Rightarrow> ell_mem \<Rightarrow> ell_mem option" where
  "pair_loop cmp pList INP P Q insize m =
     (if count (lists m INP) \<noteq> 0 then do {
        m \<leftarrow> ellMoveN Q INP insize m;
        m \<leftarrow> ellMoveN P INP insize m;
        m \<leftarrow> merge_loop cmp pList P Q m;
        m \<leftarrow> (if first (lists m P) \<noteq> None then ellConcat pList P m
              else if first (lists m Q) \<noteq> None then ellConcat pList Q m
              else Some m);
        if first (lists m P) = None \<and> first (lists m Q) = None
        then pair_loop cmp pList INP P Q insize m else None }
      else Some m)"

partial_function (option) sort_loop :: "(nat \<Rightarrow> nat \<Rightarrow> int) \<Rightarrow> nat \<Rightarrow> nat \<Rightarrow> nat \<Rightarrow> nat \<Rightarrow> nat \<Rightarrow> ell_mem \<Rightarrow> ell_mem option" where
  "sort_loop cmp pList INP P Q insize m =
     (if int insize < count (lists m pList) then
        if count (lists m INP) = 0 then do {
          m \<leftarrow> ellConcat INP pList m;
          m \<leftarrow> pair_loop cmp pList INP P Q insize m;
          sort_loop cmp pList INP P Q (insize * 2) m }
        else None
      else Some m)"

definition ellSortStable :: "nat \<Rightarrow> nat \<Rightarrow> nat \<Rightarrow> (nat \<Rightarrow> nat \<Rightarrow> int) \<Rightarrow> nat \<Rightarrow> ell_mem \<Rightarrow> ell_mem option" where
  "ellSortStable INP P Q cmp pList m =
     (if count (lists m pList) \<le> 1 then Some m
      else sort_loop cmp pList INP P Q 1 (ellInit Q (ellInit P (ellInit INP m))))"

section \<open>Merge sort on sequences\<close>

fun merge_keys :: "('a \<Rightarrow> 'k :: linorder) \<Rightarrow> 'a list \<Rightarrow> 'a list \<Rightarrow> 'a list" where
  "merge_keys f (q # qs) (p # ps) =
     (if f p < f q then p # merge_keys f (q # qs) ps else q # merge_keys f qs (p # ps))"
| "merge_keys f [] ps = ps"
| "merge_keys f qs [] = qs"

function merge_pairs :: "('a \<Rightarrow> 'k :: linorder) \<Rightarrow> nat \<Rightarrow> 'a list \<Rightarrow> 'a list" where
  "merge_pairs f n xs = (if n = 0 \<or> xs = [] then []
     else merge_keys f (take n xs) (take n (drop n xs)) @ merge_pairs f n (drop n (drop n xs)))"
  by pat_completeness auto
termination by (relation "measure (\<lambda>(f, n, xs). length xs)") auto

lemma mset_merge_keys [simp]: "mset (merge_keys f qs ps) = mset qs + mset ps"
  by (induction f qs ps rule: merge_keys.induct) auto

lemma set_merge_keys [simp]: "set (merge_keys f qs ps) = set qs \<union> set ps"
  by (metis mset_merge_keys set_mset_mset set_mset_union)

lemma sorted_merge_keys:
  "sorted (map f qs) \<Longrightarrow> sorted (map f ps) \<Longrightarrow> sorted (map f (merge_keys f qs ps))"
  by (induction f qs ps rule: merge_keys.induct) (fastforce simp: not_less)+

lemma filter_merge_keys:
  "sorted (map f qs) \<Longrightarrow> filter (\<lambda>x. f x = k) (merge_keys f qs ps) = filter (\<lambda>x. f x = k) qs @ filter (\<lambda>x. f x = k) ps"
proof (induction f qs ps rule: merge_keys.induct)
  case (1 f q qs p ps)
  have "filter (\<lambda>x. f x = k) (q # qs) = []" if "f p < f q" "f p = k"
    using 1(3) that by (auto simp: filter_empty_conv)
  then show ?case using 1 by auto
qed auto

text \<open>\<open>runs f n xs\<close>: each stretch of \<open>n\<close> elements is sorted.\<close>

function runs :: "('a \<Rightarrow> 'k :: linorder) \<Rightarrow> nat \<Rightarrow> 'a list \<Rightarrow> bool" where
  "runs f n xs = (if n = 0 \<or> xs = [] then True else sorted (map f (take n xs)) \<and> runs f n (drop n xs))"
  by pat_completeness auto
termination by (relation "measure (\<lambda>(f, n, xs). length xs)") auto

declare merge_pairs.simps [simp del] runs.simps [simp del]

lemma empty_runs [simp]: "runs f n []" "merge_pairs f n [] = []"
  by (simp_all add: runs.simps [of f n "[]"] merge_pairs.simps [of f n "[]"])

lemma runs_1: "runs f (Suc 0) xs"
proof (induction xs)
  case (Cons x xs)
  then show ?case by (simp add: runs.simps [of f "Suc 0" "x # xs"])
qed simp

lemma runs_take: "runs f n xs \<Longrightarrow> 0 < n \<Longrightarrow> sorted (map f (take n xs)) \<and> runs f n (drop n xs)"
  by (cases "xs = []") (auto simp: runs.simps [of f n xs])

lemma merge_pairs_props:
  "0 < n \<Longrightarrow> mset (merge_pairs f n xs) = mset xs \<and>
    (runs f n xs \<longrightarrow> (\<forall>k. filter (\<lambda>x. f x = k) (merge_pairs f n xs) = filter (\<lambda>x. f x = k) xs)
      \<and> runs f (2 * n) (merge_pairs f n xs))"
proof (induction f n xs rule: merge_pairs.induct)
  case (1 f n xs)
  show ?case
  proof (cases "xs = []")
    case False
    let ?a = "take n xs" and ?b = "take n (drop n xs)" and ?r = "drop n (drop n xs)"
    let ?m = "merge_keys f ?a ?b"
    note IH = "1.IH" [OF _ "1.prems"]
    have x: "?a @ ?b @ ?r = xs" by (metis append_take_drop_id)
    have m: "merge_pairs f n xs = ?m @ merge_pairs f n ?r"
      using False "1.prems" by (simp add: merge_pairs.simps [of f n xs])
    have "mset (merge_pairs f n ?r) = mset ?r" using IH False "1.prems" by blast
    then have "mset (merge_pairs f n xs) = mset (?a @ ?b @ ?r)" unfolding m by (simp only: mset_append mset_merge_keys ac_simps)
    then have g1: "mset (merge_pairs f n xs) = mset xs" unfolding x .
    have g: "filter (\<lambda>x. f x = k) (merge_pairs f n xs) = filter (\<lambda>x. f x = k) xs" "runs f (2 * n) (merge_pairs f n xs)"
      if r: "runs f n xs" for k
    proof -
      from r have s: "sorted (map f ?a)" "sorted (map f ?b)" "runs f n ?r"
        using runs_take [OF r] runs_take [of f n "drop n xs"] "1.prems" by blast+
      have "filter (\<lambda>x. f x = k) (merge_pairs f n ?r) = filter (\<lambda>x. f x = k) ?r" and rr: "runs f (2 * n) (merge_pairs f n ?r)"
        using IH False "1.prems" s by blast+
      then have "filter (\<lambda>x. f x = k) (merge_pairs f n xs) = filter (\<lambda>x. f x = k) (?a @ ?b @ ?r)"
        unfolding m by (simp only: filter_append filter_merge_keys [OF s(1)] append.assoc)
      then show "filter (\<lambda>x. f x = k) (merge_pairs f n xs) = filter (\<lambda>x. f x = k) xs" unfolding x .
      have l: "length ?m = length ?a + length ?b" by (metis mset_merge_keys size_mset size_union)
      have sm: "sorted (map f ?m)" using s sorted_merge_keys by blast
      show "runs f (2 * n) (merge_pairs f n xs)"
      proof (cases "?r = []")
        case True
        then have "length ?m \<le> 2 * n" using l by simp
        then show ?thesis unfolding m True using sm runs.simps [of f "2 * n" ?m] by simp
      next
        case ne: False
        then have "length ?m = 2 * n" using l by simp
        then have "take (2 * n) (?m @ merge_pairs f n ?r) = ?m" "drop (2 * n) (?m @ merge_pairs f n ?r) = merge_pairs f n ?r"
          by auto
        then show ?thesis unfolding m by (subst runs.simps) (simp only: sm rr simp_thms if_cancel)
      qed
    qed
    show ?thesis using g1 g by blast
  qed simp
qed

function merge_all :: "('a \<Rightarrow> 'k :: linorder) \<Rightarrow> nat \<Rightarrow> 'a list \<Rightarrow> 'a list" where
  "merge_all f n xs = (if 0 < n \<and> n < length xs then merge_all f (n * 2) (merge_pairs f n xs) else xs)"
  by pat_completeness auto
termination
proof (relation "measure (\<lambda>(f, n, xs). length xs - n)")
  show "((f, n * 2, merge_pairs f n xs), f, n, xs) \<in> measure (\<lambda>(f, n, xs). length xs - n)" if "0 < n \<and> n < length xs"
    for f :: "'a \<Rightarrow> 'k :: linorder" and n xs
  proof -
    have "length (merge_pairs f n xs) = length xs"
      using merge_pairs_props [of n f xs] that by (metis size_mset)
    moreover have "length xs - n * 2 < length xs - n" using that by linarith
    ultimately show ?thesis by simp
  qed
qed simp

declare merge_all.simps [simp del]

lemma merge_all_sort: "runs f n xs \<Longrightarrow> 0 < n \<Longrightarrow> merge_all f n xs = sort_key f xs"
proof (induction f n xs rule: merge_all.induct)
  case (1 f n xs)
  show ?case
  proof (cases "n < length xs")
    case True
    have e: "sort_key f (merge_pairs f n xs) = sort_key f xs"
    proof (rule properties_for_sort_key [symmetric])
      show "mset (sort_key f (merge_pairs f n xs)) = mset xs" using merge_pairs_props [OF "1.prems"(2), of f xs] by simp
      show "filter (\<lambda>y. f x = f y) (sort_key f (merge_pairs f n xs)) = filter (\<lambda>y. f x = f y) xs" for x
        
        unfolding eq_commute [of "f x"] sort_key_stable using merge_pairs_props [OF "1.prems"(2), of f xs] "1.prems"(1) by blast
    qed simp
    have "runs f (n * 2) (merge_pairs f n xs)" using merge_pairs_props [OF "1.prems"(2), of f xs] "1.prems"(1) by (simp add: mult.commute)
    then have "merge_all f (n * 2) (merge_pairs f n xs) = sort_key f xs"
      using "1.IH" "1.prems"(2) True e by simp
    then show ?thesis using True "1.prems"(2) by (simp add: merge_all.simps [of f n xs])
  next
    case False
    then have "sorted (map f xs)" using runs_take [OF "1.prems"] by simp
    then have "sort_key f xs = xs" by (intro properties_for_sort_key) simp_all
    then show ?thesis using False by (simp add: merge_all.simps [of f n xs])
  qed
qed

section \<open>The program sorts\<close>

lemma members_split: "f \<in> L \<Longrightarrow> t \<in> L \<Longrightarrow> members L R = set (R f) \<union> set (R t) \<union> members (L - {f, t}) R"
  by (auto simp: members_def)

lemma members_off: "f \<notin> L \<Longrightarrow> members L (R(f := xs)) = members L R"
  by (auto simp: members_def split: if_splits)

lemma members_two: "f \<in> L \<Longrightarrow> t \<in> L \<Longrightarrow> f \<noteq> t \<Longrightarrow> set xs \<union> set ys = set (R f) \<union> set (R t) \<Longrightarrow>
    members L (R(f := xs, t := ys)) = members L R"
  using members_split [of f L t R] members_split [of f L t "R(f := xs, t := ys)"] by (simp add: members_off)

text \<open>Taking the first node of one list and adding it at the end of another.\<close>

lemma sim_move:
  assumes s: "sim L m R" and l: "f \<in> L" "t \<in> L" "f \<noteq> t" and x: "R f = x # xs"
  obtains m1 m' where "ellGet f m = Some (Some x, m1)" "ellAdd t (Some x) m1 = Some m'"
    "sim L m' (R(f := xs, t := R t @ [x]))" "frame (members L R) L m m'"
proof -
  obtain m1 where m1: "ellGet f m = Some (Some x, m1)" "sim L m1 (R(f := xs))" "frame (members L R) L m m1"
    using sim_get [OF s l(1) x] by blast
  have xm: "x \<in> members L R" using x l by (force simp: members_def)
  then have xd: "x \<in> dom (nodes m1)" using sim_members [OF s] m1(3) by (auto simp: frame_def)
  have "x \<notin> set xs" using ell_rep_distinct [OF sim_rep [OF s l(1)]] x by simp
  moreover have "x \<notin> set (R k)" if "k \<in> L" "k \<noteq> f" for k
    using sim_disjoint [OF s l(1) that(1)] that x by auto
  ultimately have xn: "x \<notin> members L (R(f := xs))" by (auto simp: members_def)
  obtain m' where m': "ellAdd t (Some x) m1 = Some m'" "sim L m' ((R(f := xs))(t := R t @ [x]))"
      "frame (insert x (members L (R(f := xs)))) L m1 m'"
    using sim_add [OF m1(2) l(2) xd xn] l(3) by (metis fun_upd_other)
  have "insert x (members L (R(f := xs))) \<subseteq> members L R"
    using xm x l(1) by (auto simp: members_split [of f L f R] members_split [of f L f "R(f := xs)"] members_off)
  then have "frame (members L R) L m1 m'" using m'(3) frame_mono by blast
  then show thesis using m1 m' that frame_chain by blast
qed

text \<open>A step of the program from store \<open>m\<close> to \<open>m'\<close> that moves nodes between the lists in \<open>L\<close>.\<close>

definition moves :: "nat set \<Rightarrow> ell_mem \<Rightarrow> (nat \<Rightarrow> nat list) \<Rightarrow> ell_mem \<Rightarrow> (nat \<Rightarrow> nat list) \<Rightarrow> bool" where
  "moves L m R m' R' \<longleftrightarrow> sim L m' R' \<and> frame (members L R) L m m' \<and> members L R' = members L R"

lemma moves_refl: "sim L m R \<Longrightarrow> moves L m R m R"
  by (simp add: moves_def)

lemma moves_trans: "moves L m R m' R' \<Longrightarrow> moves L m' R' m'' R'' \<Longrightarrow> moves L m R m'' R''"
  unfolding moves_def using frame_chain by metis

lemma moves_sim: "moves L m R m' R' \<Longrightarrow> sim L m' R'"
  by (simp add: moves_def)

lemma moves_move:
  assumes "sim L m R" "f \<in> L" "t \<in> L" "f \<noteq> t" "R f = x # xs"
  obtains m1 m' where "ellGet f m = Some (Some x, m1)" "ellAdd t (Some x) m1 = Some m'"
    "moves L m R m' (R(f := xs, t := R t @ [x]))"
proof -
  have "members L (R(f := xs, t := R t @ [x])) = members L R"
    using members_two [of f L t xs "R t @ [x]" R] assms(2-5) by auto
  then show thesis using sim_move [OF assms] that unfolding moves_def by metis
qed

lemma moves_concat:
  assumes "sim L m R" "l \<in> L" "k \<in> L" "l \<noteq> k"
  obtains m' where "ellConcat l k m = Some m'" "moves L m R m' (R(l := R l @ R k, k := []))"
proof -
  have "members L (R(l := R l @ R k, k := [])) = members L R"
    using members_two [of l L k "R l @ R k" "[]" R] assms(2-4) by auto
  then show thesis using sim_concat [OF assms] that unfolding moves_def by metis
qed

lemma moves_MoveN:
  "sim L m R \<Longrightarrow> f \<in> L \<Longrightarrow> t \<in> L \<Longrightarrow> f \<noteq> t \<Longrightarrow>
   \<exists>m'. ellMoveN t f n m = Some m' \<and> moves L m R m' (R(f := drop n (R f), t := R t @ take n (R f)))"
proof (induction n arbitrary: m R)
  case (Suc n)
  note c = ell_rep_header(1) [OF sim_rep [OF Suc.prems(1,2)]]
  show ?case
  proof (cases "R f")
    case Nil
    then show ?thesis using c Suc.prems by (auto simp: fun_upd_idem moves_refl)
  next
    case (Cons x xs)
    let ?R = "R(f := xs, t := R t @ [x])"
    obtain m1 m2 where m: "ellGet f m = Some (Some x, m1)" "ellAdd t (Some x) m1 = Some m2" "moves L m R m2 ?R"
      using moves_move [OF Suc.prems(1-4) Cons] by blast
    have e: "?R(f := drop n (?R f), t := ?R t @ take n (?R f)) = R(f := drop n xs, t := R t @ x # take n xs)"
      using Suc.prems(4) by (auto simp: fun_eq_iff)
    obtain m' where m': "ellMoveN t f n m2 = Some m'" "moves L m2 ?R m' (R(f := drop n xs, t := R t @ x # take n xs))"
      using Suc.IH [OF moves_sim [OF m(3)] Suc.prems(2-4), unfolded e] by blast
    then have "ellMoveN t f (Suc n) m = Some m'" using m c Cons by simp
    then show ?thesis using moves_trans [OF m(3) m'(2)] Cons by (simp del: fun_upd_apply)
  qed
qed (auto simp: fun_upd_idem moves_refl)

lemma moves_merge:
  assumes c: "\<And>p q. cmp p q < 0 \<longleftrightarrow> key p < (key q :: 'k :: linorder)"
    and L: "l \<in> L" "P \<in> L" "Q \<in> L" "l \<noteq> P" "l \<noteq> Q" "P \<noteq> Q"
  shows "sim L m R \<Longrightarrow> \<exists>m' R'. merge_loop cmp l P Q m = Some m' \<and> moves L m R m' R' \<and> (\<forall>k. k \<notin> {l, P, Q} \<longrightarrow> R' k = R k)
     \<and> (R' P = [] \<or> R' Q = []) \<and> R' l @ R' P @ R' Q = R l @ merge_keys key (R Q) (R P)"
proof (induction "length (R P) + length (R Q)" arbitrary: m R rule: less_induct)
  case less
  note f = ell_rep_header(2) [OF sim_rep [OF less.prems L(2)]] ell_rep_header(2) [OF sim_rep [OF less.prems L(3)]]
  show ?case
  proof (cases "R P = [] \<or> R Q = []")
    case True
    then have "merge_loop cmp l P Q m = Some m" using f by (auto simp: merge_loop.simps [of cmp l P Q m] split: option.splits)
    moreover have "R P @ R Q = merge_keys key (R Q) (R P)" using True by (cases "R Q") auto
    ultimately show ?thesis using moves_refl [OF less.prems] True by blast
  next
    case False
    then obtain p ps q qs where pq: "R P = p # ps" "R Q = q # qs" by (meson list.exhaust)
    show ?thesis
    proof (cases "cmp p q < 0")
      case True
      let ?R = "R(P := ps, l := R l @ [p])"
      obtain m1 m2 where m: "ellGet P m = Some (Some p, m1)" "ellAdd l (Some p) m1 = Some m2" "moves L m R m2 ?R"
        using moves_move [OF less.prems L(2) L(1) L(4) [symmetric] pq(1)] by blast
      obtain m' R' where IH: "merge_loop cmp l P Q m2 = Some m'" "moves L m2 ?R m' R'" "\<forall>k. k \<notin> {l, P, Q} \<longrightarrow> R' k = ?R k"
          "R' P = [] \<or> R' Q = []" "R' l @ R' P @ R' Q = ?R l @ merge_keys key (?R Q) (?R P)"
        using less.hyps [OF _ moves_sim [OF m(3)]] L pq by auto
      have "merge_loop cmp l P Q m = Some m'" using f pq True m IH(1) by (simp add: merge_loop.simps [of cmp l P Q m])
      moreover have "R' l @ R' P @ R' Q = R l @ merge_keys key (R Q) (R P)" using IH(5) L pq True c by simp
      moreover have "\<forall>k. k \<notin> {l, P, Q} \<longrightarrow> R' k = R k" using IH(3) by simp
      ultimately show ?thesis using moves_trans [OF m(3) IH(2)] IH(4) by blast
    next
      case False
      let ?R = "R(Q := qs, l := R l @ [q])"
      obtain m1 m2 where m: "ellGet Q m = Some (Some q, m1)" "ellAdd l (Some q) m1 = Some m2" "moves L m R m2 ?R"
        using moves_move [OF less.prems L(3) L(1) L(5) [symmetric] pq(2)] by blast
      obtain m' R' where IH: "merge_loop cmp l P Q m2 = Some m'" "moves L m2 ?R m' R'" "\<forall>k. k \<notin> {l, P, Q} \<longrightarrow> R' k = ?R k"
          "R' P = [] \<or> R' Q = []" "R' l @ R' P @ R' Q = ?R l @ merge_keys key (?R Q) (?R P)"
        using less.hyps [OF _ moves_sim [OF m(3)]] L pq by auto
      have "merge_loop cmp l P Q m = Some m'" using f pq False m IH(1) by (simp add: merge_loop.simps [of cmp l P Q m])
      moreover have "R' l @ R' P @ R' Q = R l @ merge_keys key (R Q) (R P)" using IH(5) L pq False c by simp
      moreover have "\<forall>k. k \<notin> {l, P, Q} \<longrightarrow> R' k = R k" using IH(3) by simp
      ultimately show ?thesis using moves_trans [OF m(3) IH(2)] IH(4) by blast
    qed
  qed
qed

lemma eq_headers: "(\<And>k. k \<notin> {l, I, P, Q} \<Longrightarrow> R k = S k) \<Longrightarrow> R l = S l \<Longrightarrow> R I = S I \<Longrightarrow> R P = S P \<Longrightarrow> R Q = S Q \<Longrightarrow> R = S"
  by (rule ext) (metis empty_iff insert_iff)

lemma moves_pairs:
  assumes c: "\<And>p q. cmp p q < 0 \<longleftrightarrow> key p < (key q :: 'k :: linorder)" and n: "0 < n"
    and L: "l \<in> L" "I \<in> L" "P \<in> L" "Q \<in> L" and d: "distinct [l, I, P, Q]"
  shows "sim L m R \<Longrightarrow> R P = [] \<Longrightarrow> R Q = [] \<Longrightarrow> \<exists>m'. pair_loop cmp l I P Q n m = Some m'
     \<and> moves L m R m' (R(l := R l @ merge_pairs key n (R I), I := []))"
proof (induction "length (R I)" arbitrary: m R rule: less_induct)
  case less
  note h = ell_rep_header(1) [OF sim_rep [OF less.prems(1) L(2)]]
  show ?case
  proof (cases "R I = []")
    case True
    then have "pair_loop cmp l I P Q n m = Some m" using h by (simp add: pair_loop.simps [of cmp l I P Q n m])
    then show ?thesis using True moves_refl [OF less.prems(1)] by (auto simp: fun_upd_idem)
  next
    case False
    let ?a = "take n (R I)" and ?b = "take n (drop n (R I))" and ?r = "drop n (drop n (R I))"
    let ?R1 = "R(I := drop n (R I), Q := R Q @ ?a)"
    obtain m1 where m1: "ellMoveN Q I n m = Some m1" "moves L m R m1 ?R1"
      using moves_MoveN [OF less.prems(1) L(2,4)] d by auto
    let ?R2 = "?R1(I := drop n (?R1 I), P := ?R1 P @ take n (?R1 I))"
    obtain m2 where m2: "ellMoveN P I n m1 = Some m2" "moves L m1 ?R1 m2 ?R2"
      using moves_MoveN [OF moves_sim [OF m1(2)] L(2,3)] d by (metis distinct_length_2_or_more)
    have R2: "?R2 l = R l" "?R2 I = ?r" "?R2 P = ?b" "?R2 Q = ?a" "\<And>k. k \<notin> {l, I, P, Q} \<Longrightarrow> ?R2 k = R k"
      using less.prems d by auto
    obtain m3 R3 where m3: "merge_loop cmp l P Q m2 = Some m3" "moves L m2 ?R2 m3 R3" "\<forall>k. k \<notin> {l, P, Q} \<longrightarrow> R3 k = ?R2 k"
        "R3 P = [] \<or> R3 Q = []" "R3 l @ R3 P @ R3 Q = R l @ merge_keys key ?a ?b"
      using moves_merge [of cmp key l L P Q, OF c L(1,3,4) _ _ _ moves_sim [OF m2(2)]] d unfolding R2 by auto
    note s3 = moves_sim [OF m3(2)]
    note f = ell_rep_header(2) [OF sim_rep [OF s3 L(3)]] ell_rep_header(2) [OF sim_rep [OF s3 L(4)]]
    let ?R4 = "R(l := R l @ merge_keys key ?a ?b, I := ?r)"
    have I3: "R3 I = ?r" using m3(3) R2(2) d by auto
    have R3: "R3 k = R k" if "k \<notin> {l, I, P, Q}" for k using m3(3) R2(5) that by auto
    obtain m4 where m4: "(if first (lists m3 P) \<noteq> None then ellConcat l P m3
              else if first (lists m3 Q) \<noteq> None then ellConcat l Q m3 else Some m3) = Some m4" "moves L m3 R3 m4 ?R4"
    proof (cases "R3 P = []")
      case P: False
      then have Q: "R3 Q = []" using m3(4) by simp
      obtain m4 where "ellConcat l P m3 = Some m4" "moves L m3 R3 m4 (R3(l := R3 l @ R3 P, P := []))"
        using moves_concat [OF s3 L(1,3)] d by auto
      moreover have "R3(l := R3 l @ R3 P, P := []) = ?R4"
        by (rule eq_headers [of l I P Q]) (use m3(5) Q I3 R3 less.prems d in simp_all)
      ultimately show ?thesis using that P f by (simp add: end_simps)
    next
      case P: True
      show ?thesis
      proof (cases "R3 Q = []")
        case Q: False
        obtain m4 where "ellConcat l Q m3 = Some m4" "moves L m3 R3 m4 (R3(l := R3 l @ R3 Q, Q := []))"
          using moves_concat [OF s3 L(1,4)] d by auto
        moreover have "R3(l := R3 l @ R3 Q, Q := []) = ?R4"
          by (rule eq_headers [of l I P Q]) (use m3(5) P I3 R3 less.prems d in simp_all)
        ultimately show ?thesis using that P Q f by (simp add: end_simps)
      next
        case Q: True
        have "R3 = ?R4" by (rule eq_headers [of l I P Q]) (use m3(5) P Q I3 R3 less.prems d in simp_all)
        then show ?thesis using that [of m3] moves_refl [OF s3] P Q f by simp
      qed
    qed
    have R4: "?R4 P = []" "?R4 Q = []" "?R4 l = R l @ merge_keys key ?a ?b" "?R4 I = ?r" using less.prems d by auto
    note s4 = moves_sim [OF m4(2)]
    note f4 = ell_rep_header(2) [OF sim_rep [OF s4 L(3)]] ell_rep_header(2) [OF sim_rep [OF s4 L(4)]]
    have "length (?R4 I) < length (R I)" using False n unfolding R4 by simp
    then obtain m' where m': "pair_loop cmp l I P Q n m4 = Some m'"
        "moves L m4 ?R4 m' (?R4(l := ?R4 l @ merge_pairs key n (?R4 I), I := []))"
      using less.hyps [OF _ s4 R4(1,2)] by blast
    have "?R4(l := ?R4 l @ merge_pairs key n (?R4 I), I := []) = R(l := R l @ merge_pairs key n (R I), I := [])"
      using False n d by (simp add: merge_pairs.simps [of key n "R I"] fun_upd_twist)
    then have "moves L m R m' (R(l := R l @ merge_pairs key n (R I), I := []))"
      using moves_trans [OF moves_trans [OF moves_trans [OF moves_trans [OF m1(2) m2(2)] m3(2)] m4(2)] m'(2)] by simp
    moreover have "pair_loop cmp l I P Q n m = Some m'"
      using h False m1(1) m2(1) m3(1) m4(1) m'(1) f4 R4(1,2) by (simp add: pair_loop.simps [of cmp l I P Q n m])
    ultimately show ?thesis by blast
  qed
qed

lemma moves_sort:
  assumes c: "\<And>p q. cmp p q < 0 \<longleftrightarrow> key p < (key q :: 'k :: linorder)"
    and L: "l \<in> L" "I \<in> L" "P \<in> L" "Q \<in> L" and d: "distinct [l, I, P, Q]"
  shows "sim L m R \<Longrightarrow> R I = [] \<Longrightarrow> R P = [] \<Longrightarrow> R Q = [] \<Longrightarrow> 0 < n \<Longrightarrow>
    \<exists>m'. sort_loop cmp l I P Q n m = Some m' \<and> moves L m R m' (R(l := merge_all key n (R l)))"
proof (induction "length (R l) - n" arbitrary: m R n rule: less_induct)
  case less
  note h = ell_rep_header(1) [OF sim_rep [OF less.prems(1) L(1)]] ell_rep_header(1) [OF sim_rep [OF less.prems(1) L(2)]]
  show ?case
  proof (cases "n < length (R l)")
    case False
    then have "merge_all key n (R l) = R l" by (simp add: merge_all.simps [of key n])
    then show ?thesis using False h moves_refl [OF less.prems(1)] by (simp add: sort_loop.simps [of cmp l I P Q n m] fun_upd_idem)
  next
    case True
    let ?xs = "merge_pairs key n (R l)"
    let ?R1 = "R(I := R I @ R l, l := [])" and ?R2 = "R(l := ?xs)"
    obtain m1 where m1: "ellConcat I l m = Some m1" "moves L m R m1 ?R1"
      using moves_concat [OF less.prems(1) L(2,1)] d by auto
    have "?R1 P = []" "?R1 Q = []" using less.prems d by auto
    then obtain m2 where m2: "pair_loop cmp l I P Q n m1 = Some m2"
        "moves L m1 ?R1 m2 (?R1(l := ?R1 l @ merge_pairs key n (?R1 I), I := []))"
      using moves_pairs [where cmp = cmp and key = key, OF c less.prems(5) L d moves_sim [OF m1(2)]] by blast
    have e: "?R1(l := ?R1 l @ merge_pairs key n (?R1 I), I := []) = ?R2"
      by (rule eq_headers [of l I P Q]) (use less.prems d in simp_all)
    note m2 = m2 [unfolded e]
    have len: "length ?xs = length (R l)" using merge_pairs_props [OF less.prems(5), of key "R l"] by (metis size_mset)
    have R2: "?R2 I = []" "?R2 P = []" "?R2 Q = []" "?R2 l = ?xs" using less.prems d by auto
    have "length (?R2 l) - n * 2 < length (R l) - n" using True less.prems(5) len by simp
    moreover have "0 < n * 2" using less.prems(5) by simp
    ultimately obtain m' where m': "sort_loop cmp l I P Q (n * 2) m2 = Some m'"
        "moves L m2 ?R2 m' (?R2(l := merge_all key (n * 2) (?R2 l)))"
      using less.hyps [OF _ moves_sim [OF m2(2)] R2(1-3), of "n * 2"] by blast
    have "?R2(l := merge_all key (n * 2) (?R2 l)) = R(l := merge_all key n (R l))"
      using True less.prems(5) by (simp add: merge_all.simps [of key n])
    then have "moves L m R m' (R(l := merge_all key n (R l)))"
      using moves_trans [OF moves_trans [OF m1(2) m2(2)] m'(2)] by simp
    moreover have "sort_loop cmp l I P Q n m = Some m'"
      using h True less.prems m1(1) m2(1) m'(1) by (simp add: sort_loop.simps [of cmp l I P Q n m])
    ultimately show ?thesis by blast
  qed
qed

lemma sim_init:
  assumes s: "sim L m R" and k: "k \<notin> L"
  shows "sim (insert k L) (ellInit k m) (R(k := []))"
proof -
  have "ell_rep (ellInit k m) l (R l)" if "l \<in> L" for l
    using ell_rep_frame [OF ellInit_frame [of k m] sim_rep [OF s that]] that k by auto
  with s k show ?thesis by (auto simp: sim_def)
qed

lemma sim_restrict: "sim L' m S \<Longrightarrow> L \<subseteq> L' \<Longrightarrow> (\<And>k. k \<in> L \<Longrightarrow> S k = R k) \<Longrightarrow> sim L m R"
  unfolding sim_def by (metis subset_iff)

text \<open>C15: The sort returns, fails no assertion, and leaves the list in the order of the stable sort of its
  nodes (equal nodes keep their order), with every other list as it was.\<close>

theorem ellSortStable_correct:
  assumes c: "\<And>p q. cmp p q < 0 \<longleftrightarrow> key p < (key q :: int)"
    and s: "sim L m R" "l \<in> L" and new: "{INP, P, Q} \<inter> L = {}" "distinct [INP, P, Q]"
  shows "\<exists>m'. ellSortStable INP P Q cmp l m = Some m' \<and> sim L m' (R(l := sort_key key (R l)))"
proof (cases "length (R l) \<le> 1")
  case True
  then have "sort_key key (R l) = R l" by (intro properties_for_sort_key) (auto simp: sorted01)
  then show ?thesis
    using True s ell_rep_header(1) [OF sim_rep [OF s]] by (auto simp: ellSortStable_def fun_upd_idem)
next
  case False
  let ?m = "ellInit Q (ellInit P (ellInit INP m))"
  let ?R = "R(INP := [], P := [], Q := [])" and ?L = "insert Q (insert P (insert INP L))"
  have sm: "sim ?L ?m ?R" by (intro sim_init) (use s new in auto)
  have d: "distinct [l, INP, P, Q]" using s new by auto
  then have R: "?R INP = []" "?R P = []" "?R Q = []" "?R l = R l" by auto
  have i: "l \<in> ?L" "INP \<in> ?L" "P \<in> ?L" "Q \<in> ?L" "0 < (1 :: nat)" using s(2) by auto
  obtain m' where m': "sort_loop cmp l INP P Q 1 ?m = Some m'" "moves ?L ?m ?R m' (?R(l := merge_all key 1 (?R l)))"
    using moves_sort [where cmp = cmp and key = key, OF c i(1-4) d sm R(1-3) i(5)] by blast
  have "merge_all key 1 (?R l) = sort_key key (R l)" using merge_all_sort [of key 1 "R l"] runs_1 [of key "R l"] R(4) by simp
  with moves_sim [OF m'(2)] have "sim ?L m' (?R(l := sort_key key (R l)))" by simp
  then have "sim L m' (R(l := sort_key key (R l)))"
    by (rule sim_restrict) (use new in auto)
  then show ?thesis
    using m'(1) False ell_rep_header(1) [OF sim_rep [OF s]] by (simp add: ellSortStable_def)
qed

theorem ellSortStable_correct_witness:
  "\<exists>m'. ellSortStable 7 8 9 (\<lambda>p q. int q - int p) 0 example_mem = Some m' \<and> ell_rep m' 0 [2, 1]"
proof -
  have "sim {0} example_mem (\<lambda>_. [1, 2])" using example_rep by (simp add: sim_def)
  from ellSortStable_correct [of "\<lambda>p q. int q - int p" "\<lambda>p. - int p", OF _ this, of 0 7 8 9] show ?thesis
    by (auto simp: sim_def)
qed

end
