(* ===== verification/CalcOps.thy ===== *)
theory CalcOps
  imports DoubleFP
begin

text \<open>
  The opcodes and the element tables of the calculation engine (libCom/calc/postfixPvt.h and
  postfix.c), and what it takes from its environment: the math library, the C number parsers, the
  object representation of a \<open>double\<close>.
\<close>

section \<open>Opcodes\<close>

text \<open>\<open>rpn_opcode\<close> of postfixPvt.h, its operators grouped by how they use the stack.\<close>

datatype const_op = CONST_PI | CONST_D2R | CONST_R2D

datatype un_op = UNARY_NEG | ABS_VAL | EXP | LOG_10 | LOG_E | SQU_RT | ACOS | ASIN | ATAN | COS | COSH
  | SIN | SINH | TAN | TANH | CEIL | FLOOR | ISINF | NINT | REL_NOT | BIT_NOT

datatype bin_op = ADD | SUB | MULT | DIV | MODULO | POWER | ATAN2 | REL_OR | REL_AND | BIT_OR | BIT_AND
  | BIT_EXCL_OR | RIGHT_SHIFT | LEFT_SHIFT | NOT_EQ | LESS_THAN | LESS_OR_EQ | EQUAL | GR_OR_EQ | GR_THAN

datatype var_op = MAX_OF | MIN_OF | FINITE | ISNAN

datatype rpn_opcode = END_EXPRESSION | LITERAL_DOUBLE | LITERAL_INT | FETCH_VAL | FETCH nat | STORE nat
  | CONST_OP const_op | UNARY un_op | BINARY bin_op | VARARG var_op | RANDOM | COND_IF | COND_ELSE | COND_END
  | NOT_GENERATED

text \<open>The opcodes in the order of the enumeration: an opcode is its position.\<close>

definition opcodes :: "rpn_opcode list" where
  "opcodes =
    [END_EXPRESSION, LITERAL_DOUBLE, LITERAL_INT, FETCH_VAL,
     FETCH 0, FETCH 1, FETCH 2, FETCH 3, FETCH 4, FETCH 5, FETCH 6, FETCH 7, FETCH 8, FETCH 9, FETCH 10, FETCH 11,
     STORE 0, STORE 1, STORE 2, STORE 3, STORE 4, STORE 5, STORE 6, STORE 7, STORE 8, STORE 9, STORE 10, STORE 11,
     CONST_OP CONST_PI, CONST_OP CONST_D2R, CONST_OP CONST_R2D,
     UNARY UNARY_NEG, BINARY ADD, BINARY SUB, BINARY MULT, BINARY DIV, BINARY MODULO, BINARY POWER,
     UNARY ABS_VAL, UNARY EXP, UNARY LOG_10, UNARY LOG_E, VARARG MAX_OF, VARARG MIN_OF, UNARY SQU_RT,
     UNARY ACOS, UNARY ASIN, UNARY ATAN, BINARY ATAN2, UNARY COS, UNARY COSH, UNARY SIN, UNARY SINH, UNARY TAN, UNARY TANH,
     UNARY CEIL, UNARY FLOOR, VARARG FINITE, UNARY ISINF, VARARG ISNAN, UNARY NINT, RANDOM,
     BINARY REL_OR, BINARY REL_AND, UNARY REL_NOT,
     BINARY BIT_OR, BINARY BIT_AND, BINARY BIT_EXCL_OR, UNARY BIT_NOT, BINARY RIGHT_SHIFT, BINARY LEFT_SHIFT,
     BINARY NOT_EQ, BINARY LESS_THAN, BINARY LESS_OR_EQ, BINARY EQUAL, BINARY GR_OR_EQ, BINARY GR_THAN,
     COND_IF, COND_ELSE, COND_END, NOT_GENERATED]"

definition byte_of :: "rpn_opcode \<Rightarrow> u8" where
  "byte_of oc = of_nat (length (takeWhile (\<lambda>x. x \<noteq> oc) opcodes))"

definition op_at :: "u8 \<Rightarrow> rpn_opcode option" where
  "op_at b = (if unat b < length opcodes then Some (opcodes ! unat b) else None)"

lemma distinct_opcodes: "distinct opcodes" "length opcodes = 81"
  by (simp_all add: opcodes_def)

lemma takeWhile_position: "distinct xs \<Longrightarrow> x \<in> set xs \<Longrightarrow>
    length (takeWhile (\<lambda>y. y \<noteq> x) xs) < length xs \<and> xs ! length (takeWhile (\<lambda>y. y \<noteq> x) xs) = x"
  by (induction xs) auto

lemma op_at_byte_of: "oc \<in> set opcodes \<Longrightarrow> op_at (byte_of oc) = Some oc"
proof -
  assume "oc \<in> set opcodes"
  then have *: "length (takeWhile (\<lambda>y. y \<noteq> oc) opcodes) < 81" "opcodes ! length (takeWhile (\<lambda>y. y \<noteq> oc) opcodes) = oc"
    using takeWhile_position distinct_opcodes by metis+
  then have "unat (of_nat (length (takeWhile (\<lambda>y. y \<noteq> oc) opcodes)) :: u8) = length (takeWhile (\<lambda>y. y \<noteq> oc) opcodes)"
    by (simp add: unat_of_nat)
  with * show ?thesis by (simp add: op_at_def byte_of_def distinct_opcodes(2))
qed

lemma in_opcodes [simp]:
  "CONST_OP c \<in> set opcodes" "UNARY u \<in> set opcodes" "BINARY b \<in> set opcodes" "VARARG v \<in> set opcodes"
  "END_EXPRESSION \<in> set opcodes" "LITERAL_DOUBLE \<in> set opcodes" "LITERAL_INT \<in> set opcodes"
  "FETCH_VAL \<in> set opcodes" "RANDOM \<in> set opcodes" "COND_IF \<in> set opcodes" "COND_ELSE \<in> set opcodes"
  "COND_END \<in> set opcodes" "FETCH n \<in> set opcodes \<longleftrightarrow> n < 12" "STORE n \<in> set opcodes \<longleftrightarrow> n < 12"
proof -
  show "CONST_OP c \<in> set opcodes" by (cases c) (simp_all add: opcodes_def)
  show "UNARY u \<in> set opcodes" by (cases u) (simp_all add: opcodes_def)
  show "BINARY b \<in> set opcodes" by (cases b) (simp_all add: opcodes_def)
  show "VARARG v \<in> set opcodes" by (cases v) (simp_all add: opcodes_def)
  show "FETCH n \<in> set opcodes \<longleftrightarrow> n < 12" "STORE n \<in> set opcodes \<longleftrightarrow> n < 12"
    by (simp_all add: opcodes_def, presburger+)
qed (simp_all add: opcodes_def)

lemma byte_of_inject: "a \<in> set opcodes \<Longrightarrow> b \<in> set opcodes \<Longrightarrow> byte_of a = byte_of b \<longleftrightarrow> a = b"
  using op_at_byte_of by (metis option.inject)

section \<open>Elements\<close>

datatype element_type = OPERAND | LITERAL_OPERAND | STORE_OPERATOR | UNARY_OPERATOR | VARARG_OPERATOR
  | BINARY_OPERATOR | SEPERATOR | CLOSE_PAREN | CONDITIONAL | EXPR_TERMINATOR

record ELEMENT =
  name :: string
  in_stack_pri :: int
  in_coming_pri :: int
  runtime_effect :: u8
  type :: element_type
  code :: rpn_opcode

abbreviation element :: "string \<Rightarrow> int \<Rightarrow> int \<Rightarrow> u8 \<Rightarrow> element_type \<Rightarrow> rpn_opcode \<Rightarrow> ELEMENT" where
  "element n isp icp eff t c \<equiv> \<lparr>name = n, in_stack_pri = isp, in_coming_pri = icp, runtime_effect = eff, type = t, code = c\<rparr>"

text \<open>The two element tables, in the order of the source.\<close>

definition operands :: "ELEMENT list" where
  "operands =
    [element ''!'' 7 8 0 UNARY_OPERATOR (UNARY REL_NOT),
     element ''('' 0 8 0 UNARY_OPERATOR NOT_GENERATED,
     element ''-'' 7 8 0 UNARY_OPERATOR (UNARY UNARY_NEG),
     element ''.'' 0 0 1 LITERAL_OPERAND LITERAL_DOUBLE,
     element ''0'' 0 0 1 LITERAL_OPERAND LITERAL_DOUBLE,
     element ''0X'' 0 0 1 LITERAL_OPERAND LITERAL_INT,
     element ''1'' 0 0 1 LITERAL_OPERAND LITERAL_DOUBLE,
     element ''2'' 0 0 1 LITERAL_OPERAND LITERAL_DOUBLE,
     element ''3'' 0 0 1 LITERAL_OPERAND LITERAL_DOUBLE,
     element ''4'' 0 0 1 LITERAL_OPERAND LITERAL_DOUBLE,
     element ''5'' 0 0 1 LITERAL_OPERAND LITERAL_DOUBLE,
     element ''6'' 0 0 1 LITERAL_OPERAND LITERAL_DOUBLE,
     element ''7'' 0 0 1 LITERAL_OPERAND LITERAL_DOUBLE,
     element ''8'' 0 0 1 LITERAL_OPERAND LITERAL_DOUBLE,
     element ''9'' 0 0 1 LITERAL_OPERAND LITERAL_DOUBLE,
     element ''A'' 0 0 1 OPERAND (FETCH 0),
     element ''ABS'' 7 8 0 UNARY_OPERATOR (UNARY ABS_VAL),
     element ''ACOS'' 7 8 0 UNARY_OPERATOR (UNARY ACOS),
     element ''ASIN'' 7 8 0 UNARY_OPERATOR (UNARY ASIN),
     element ''ATAN'' 7 8 0 UNARY_OPERATOR (UNARY ATAN),
     element ''ATAN2'' 7 8 (- 1) UNARY_OPERATOR (BINARY ATAN2),
     element ''B'' 0 0 1 OPERAND (FETCH 1),
     element ''C'' 0 0 1 OPERAND (FETCH 2),
     element ''CEIL'' 7 8 0 UNARY_OPERATOR (UNARY CEIL),
     element ''COS'' 7 8 0 UNARY_OPERATOR (UNARY COS),
     element ''COSH'' 7 8 0 UNARY_OPERATOR (UNARY COSH),
     element ''D'' 0 0 1 OPERAND (FETCH 3),
     element ''D2R'' 0 0 1 OPERAND (CONST_OP CONST_D2R),
     element ''E'' 0 0 1 OPERAND (FETCH 4),
     element ''EXP'' 7 8 0 UNARY_OPERATOR (UNARY EXP),
     element ''F'' 0 0 1 OPERAND (FETCH 5),
     element ''FINITE'' 7 8 0 VARARG_OPERATOR (VARARG FINITE),
     element ''FLOOR'' 7 8 0 UNARY_OPERATOR (UNARY FLOOR),
     element ''G'' 0 0 1 OPERAND (FETCH 6),
     element ''H'' 0 0 1 OPERAND (FETCH 7),
     element ''I'' 0 0 1 OPERAND (FETCH 8),
     element ''INF'' 0 0 1 LITERAL_OPERAND LITERAL_DOUBLE,
     element ''ISINF'' 7 8 0 UNARY_OPERATOR (UNARY ISINF),
     element ''ISNAN'' 7 8 0 VARARG_OPERATOR (VARARG ISNAN),
     element ''J'' 0 0 1 OPERAND (FETCH 9),
     element ''K'' 0 0 1 OPERAND (FETCH 10),
     element ''L'' 0 0 1 OPERAND (FETCH 11),
     element ''LN'' 7 8 0 UNARY_OPERATOR (UNARY LOG_E),
     element ''LOG'' 7 8 0 UNARY_OPERATOR (UNARY LOG_10),
     element ''LOGE'' 7 8 0 UNARY_OPERATOR (UNARY LOG_E),
     element ''MAX'' 7 8 0 VARARG_OPERATOR (VARARG MAX_OF),
     element ''MIN'' 7 8 0 VARARG_OPERATOR (VARARG MIN_OF),
     element ''NINT'' 7 8 0 UNARY_OPERATOR (UNARY NINT),
     element ''NAN'' 0 0 1 LITERAL_OPERAND LITERAL_DOUBLE,
     element ''NOT'' 7 8 0 UNARY_OPERATOR (UNARY BIT_NOT),
     element ''PI'' 0 0 1 OPERAND (CONST_OP CONST_PI),
     element ''R2D'' 0 0 1 OPERAND (CONST_OP CONST_R2D),
     element ''RNDM'' 0 0 1 OPERAND RANDOM,
     element ''SIN'' 7 8 0 UNARY_OPERATOR (UNARY SIN),
     element ''SINH'' 7 8 0 UNARY_OPERATOR (UNARY SINH),
     element ''SQR'' 7 8 0 UNARY_OPERATOR (UNARY SQU_RT),
     element ''SQRT'' 7 8 0 UNARY_OPERATOR (UNARY SQU_RT),
     element ''TAN'' 7 8 0 UNARY_OPERATOR (UNARY TAN),
     element ''TANH'' 7 8 0 UNARY_OPERATOR (UNARY TANH),
     element ''VAL'' 0 0 1 OPERAND FETCH_VAL,
     element ''~'' 7 8 0 UNARY_OPERATOR (UNARY BIT_NOT)]"

definition operators :: "ELEMENT list" where
  "operators =
    [element ''!='' 3 3 (- 1) BINARY_OPERATOR (BINARY NOT_EQ),
     element ''#'' 3 3 (- 1) BINARY_OPERATOR (BINARY NOT_EQ),
     element ''%'' 5 5 (- 1) BINARY_OPERATOR (BINARY MODULO),
     element ''&'' 2 2 (- 1) BINARY_OPERATOR (BINARY BIT_AND),
     element ''&&'' 2 2 (- 1) BINARY_OPERATOR (BINARY REL_AND),
     element '')'' 0 0 0 CLOSE_PAREN NOT_GENERATED,
     element ''*'' 5 5 (- 1) BINARY_OPERATOR (BINARY MULT),
     element ''**'' 6 6 (- 1) BINARY_OPERATOR (BINARY POWER),
     element ''+'' 4 4 (- 1) BINARY_OPERATOR (BINARY ADD),
     element '','' 0 0 0 SEPERATOR NOT_GENERATED,
     element ''-'' 4 4 (- 1) BINARY_OPERATOR (BINARY SUB),
     element ''/'' 5 5 (- 1) BINARY_OPERATOR (BINARY DIV),
     element '':'' 0 0 (- 1) CONDITIONAL COND_ELSE,
     element '':='' 0 0 (- 1) STORE_OPERATOR (STORE 0),
     element '';'' 0 0 0 EXPR_TERMINATOR NOT_GENERATED,
     element ''<'' 3 3 (- 1) BINARY_OPERATOR (BINARY LESS_THAN),
     element ''<<'' 2 2 (- 1) BINARY_OPERATOR (BINARY LEFT_SHIFT),
     element ''<='' 3 3 (- 1) BINARY_OPERATOR (BINARY LESS_OR_EQ),
     element ''='' 3 3 (- 1) BINARY_OPERATOR (BINARY EQUAL),
     element ''=='' 3 3 (- 1) BINARY_OPERATOR (BINARY EQUAL),
     element ''>'' 3 3 (- 1) BINARY_OPERATOR (BINARY GR_THAN),
     element ''>='' 3 3 (- 1) BINARY_OPERATOR (BINARY GR_OR_EQ),
     element ''>>'' 2 2 (- 1) BINARY_OPERATOR (BINARY RIGHT_SHIFT),
     element ''?'' 0 0 (- 1) CONDITIONAL COND_IF,
     element ''AND'' 2 2 (- 1) BINARY_OPERATOR (BINARY BIT_AND),
     element ''OR'' 1 1 (- 1) BINARY_OPERATOR (BINARY BIT_OR),
     element ''XOR'' 1 1 (- 1) BINARY_OPERATOR (BINARY BIT_EXCL_OR),
     element ''^'' 6 6 (- 1) BINARY_OPERATOR (BINARY POWER),
     element ''|'' 1 1 (- 1) BINARY_OPERATOR (BINARY BIT_OR),
     element ''||'' 1 1 (- 1) BINARY_OPERATOR (BINARY REL_OR)]"

section \<open>The environment\<close>

text \<open>
  The functions of math.h whose values the C standard leaves to the library, the number parsers
  \<open>strtod\<close> and \<open>strtoul\<close> (how many characters were used, the value, and whether \<open>errno\<close> became
  \<open>ERANGE\<close>), the object representation of a \<open>double\<close>, and what a cast of a value out of range
  yields.
\<close>

record calc_env =
  m_pow :: "double \<Rightarrow> double \<Rightarrow> double"
  m_atan2 :: "double \<Rightarrow> double \<Rightarrow> double"
  m_fun :: "un_op \<Rightarrow> double \<Rightarrow> double"
  m_finite :: "double \<Rightarrow> int"
  m_isnan :: "double \<Rightarrow> int"
  m_isinf :: "double \<Rightarrow> int"
  strtod :: "string \<Rightarrow> nat \<times> double \<times> bool"
  strtoul :: "string \<Rightarrow> nat \<times> nat \<times> bool"
  d_bytes :: "double \<Rightarrow> u8 list"
  d_value :: "u8 list \<Rightarrow> double"
  undef_i32 :: "double \<Rightarrow> int"
  undef_u32 :: "double \<Rightarrow> u32"

text \<open>The casts \<open>(epicsInt32)\<close> and \<open>(epicsUInt32)\<close> of a double.\<close>

definition to_i32 :: "calc_env \<Rightarrow> double \<Rightarrow> int" where
  "to_i32 env d = (case dtoint 32 d of Some i \<Rightarrow> i | None \<Rightarrow> undef_i32 env d)"

definition to_u32 :: "calc_env \<Rightarrow> double \<Rightarrow> u32" where
  "to_u32 env d = (if dfinite d \<and> 0 \<le> trunc_rat (dval d) \<and> trunc_rat (dval d) < 2 ^ 32
                   then word_of_int (trunc_rat (dval d)) else undef_u32 env d)"

text \<open>A 32-bit integer in memory (the build targets are little-endian).\<close>

definition int_bytes :: "u32 \<Rightarrow> u8 list" where
  "int_bytes w = map (\<lambda>i. ucast (drop_bit (8 * i) w)) [0, 1, 2, 3]"

definition int_value :: "u8 list \<Rightarrow> u32" where
  "int_value bs = foldr (\<lambda>b w. push_bit 8 w OR ucast b) bs 0"

lemma int_bytes_value [simp]: "int_value (int_bytes w) = w" "length (int_bytes w) = 4"
proof -
  show "int_value (int_bytes w) = w"
  proof (rule bit_word_eqI)
    fix n assume "n < LENGTH(32)"
    then consider "n < 8" | "8 \<le> n" "n < 16" | "16 \<le> n" "n < 24" | "24 \<le> n" "n < 32" by fastforce
    then show "bit (int_value (int_bytes w)) n = bit w n"
      by cases (auto simp: int_value_def int_bytes_def bit_simps)
  qed
qed (simp add: int_bytes_def)

end
