(* ===== verification/CalcPostfix.thy ===== *)
theory CalcPostfix
  imports CalcOps
begin

text \<open>
  \<open>postfix\<close> and \<open>calcErrorStr\<close> of libCom/calc/postfix.c, with the number parsers of
  libCom/misc/epicsStdlib.c and the comparison of libCom/misc/epicsString.c they use. A C string is
  the list of its characters before the terminating zero. \<open>Undef\<close> is undefined behaviour: the
  translation stack of 80 elements overflows, or its element 0, which is never written, is read.
\<close>

section \<open>Characters and numbers\<close>

definition isspace :: "char \<Rightarrow> bool" where
  "isspace c \<longleftrightarrow> c \<in> set [CHR '' '', CHR 0x09, CHR 0x0A, CHR 0x0B, CHR 0x0C, CHR 0x0D]"

definition toupper :: "char \<Rightarrow> char" where
  "toupper c = (let n = of_char c :: nat in if 97 \<le> n \<and> n \<le> 122 then char_of (n - 32) else c)"

text \<open>\<open>epicsStrnCaseCmp(src, name, len) == 0\<close> for the length of \<open>name\<close>: the source starts with the name
  but for case.\<close>

fun starts_with :: "string \<Rightarrow> string \<Rightarrow> bool" where
  "starts_with src [] = True"
| "starts_with [] (n # ns) = False"
| "starts_with (c # src) (n # ns) = (toupper c = toupper n \<and> starts_with src ns)"

definition epicsParseDouble :: "calc_env \<Rightarrow> string \<Rightarrow> (double \<times> string) option" where
  "epicsParseDouble env str =
     (let str = dropWhile isspace str
      in case strtod env str of (n, v, erange) \<Rightarrow>
           if n = 0 then None else if erange then None
           else Some (v, dropWhile isspace (drop n str)))"

definition epicsParseUInt32 :: "calc_env \<Rightarrow> string \<Rightarrow> (u32 \<times> string) option" where
  "epicsParseUInt32 env str =
     (let str = dropWhile isspace str
      in case strtoul env str of (n, v, erange) \<Rightarrow>
           if n = 0 then None else if erange then None
           else if 2 ^ 32 \<le> v \<and> v \<le> 2 ^ 64 - 2 ^ 32 then None
           else Some (of_nat v, dropWhile isspace (drop n str)))"

section \<open>Reading an element\<close>

text \<open>The element table is searched from its end. \<open>Inl\<close> is the return value \<open>FALSE\<close>.\<close>

definition get_element :: "bool \<Rightarrow> string \<Rightarrow> string + ELEMENT \<times> string \<times> string" where
  "get_element opnd src =
     (let src = dropWhile isspace src
      in if src = [] then Inl src
         else case List.find (\<lambda>el. starts_with src (name el)) (rev (if opnd then operands else operators)) of
                None \<Rightarrow> Inl src
              | Some el \<Rightarrow> Inr (el, src, drop (length (name el)) src))"

section \<open>Errors\<close>

datatype calc_err = CALC_ERR_NONE | CALC_ERR_TOOMANY | CALC_ERR_BAD_LITERAL | CALC_ERR_BAD_ASSIGNMENT
  | CALC_ERR_BAD_SEPERATOR | CALC_ERR_PAREN_NOT_OPEN | CALC_ERR_PAREN_OPEN | CALC_ERR_CONDITIONAL
  | CALC_ERR_INCOMPLETE | CALC_ERR_UNDERFLOW | CALC_ERR_OVERFLOW | CALC_ERR_SYNTAX | CALC_ERR_NULL_ARG
  | CALC_ERR_INTERNAL

definition errStrs :: "string list" where
  "errStrs = [''No error'', ''Too many results returned'', ''Badly formed numeric literal'',
    ''Bad assignment target'', ''Comma without enclosing parentheses'',
    ''Close parenthesis found without open'', ''Parenthesis still open at end of expression'',
    ''Unbalanced conditional ?: operators'', ''Incomplete expression, operand missing'',
    ''Not enough operands provided'', ''Runtime stack overflow'',
    ''Syntax error, unknown operator/operand'', ''NULL or empty input argument to postfix()'',
    ''Internal error, unknown element type'']"

definition calcErrorStr :: "int \<Rightarrow> string option" where
  "calcErrorStr err = (if err < 0 \<or> err > 13 then None else Some (errStrs ! nat err))"

datatype 'a pf = Ok 'a | Bad calc_err | Undef

fun bind_pf :: "'a pf \<Rightarrow> ('a \<Rightarrow> 'b pf) \<Rightarrow> 'b pf" where
  "bind_pf (Ok a) f = f a"
| "bind_pf (Bad e) f = Bad e"
| "bind_pf Undef f = Undef"

section \<open>Translation\<close>

text \<open>The output so far, the translation stack (top first, element 0 of the array not included),
  \<open>operand_needed\<close>, \<open>runtime_depth\<close> and \<open>cond_count\<close>.\<close>

record pstate =
  pout :: "u8 list"
  pstk :: "ELEMENT list"
  operand_needed :: bool
  runtime_depth :: int
  cond_count :: int

text \<open>Moving one element from the stack to the output.\<close>

definition emit :: "ELEMENT \<Rightarrow> u8 list" where
  "emit el = byte_of (code el) # (if type el = VARARG_OPERATOR then [1 - runtime_effect el] else [])"

fun pop_while :: "(ELEMENT \<Rightarrow> bool) \<Rightarrow> ELEMENT list \<Rightarrow> u8 list \<Rightarrow> int \<Rightarrow> u8 list \<times> int \<times> ELEMENT list" where
  "pop_while P [] out d = (out, d, [])"
| "pop_while P (el # st) out d =
     (if P el then pop_while P st (out @ emit el) (d + sint (runtime_effect el)) else (out, d, el # st))"

definition is_paren :: "ELEMENT \<Rightarrow> bool" where
  "is_paren el \<longleftrightarrow> take 1 (name el) = ''(''"

text \<open>Up to the open parenthesis; with one element left that is none, an error.\<close>

fun pop_paren :: "calc_err \<Rightarrow> ELEMENT list \<Rightarrow> u8 list \<Rightarrow> int \<Rightarrow> (u8 list \<times> int \<times> ELEMENT list) pf" where
  "pop_paren err [] out d = Undef"
| "pop_paren err (el # st) out d =
     (if is_paren el then Ok (out, d, el # st)
      else if st = [] then Bad err
      else pop_paren err st (out @ emit el) (d + sint (runtime_effect el)))"

fun pop_all :: "ELEMENT list \<Rightarrow> u8 list \<Rightarrow> int \<Rightarrow> (u8 list \<times> int) pf" where
  "pop_all [] out d = Ok (out, d)"
| "pop_all (el # st) out d =
     (if is_paren el then Bad CALC_ERR_PAREN_OPEN
      else pop_all st (out @ emit el) (d + sint (runtime_effect el)))"

definition push :: "ELEMENT \<Rightarrow> pstate \<Rightarrow> pstate pf" where
  "push el s = (if 79 \<le> length (pstk s) then Undef else Ok (s\<lparr>pstk := el # pstk s\<rparr>))"

definition popped :: "u8 list \<times> int \<times> ELEMENT list \<Rightarrow> pstate \<Rightarrow> pstate" where
  "popped r s = s\<lparr>pout := fst r, runtime_depth := fst (snd r), pstk := snd (snd r)\<rparr>"

definition add_effect :: "ELEMENT \<Rightarrow> pstate \<Rightarrow> pstate" where
  "add_effect el s = s\<lparr>runtime_depth := runtime_depth s + sint (runtime_effect el)\<rparr>"

definition literal_code :: "calc_env \<Rightarrow> double \<Rightarrow> u8 list" where
  "literal_code env lit_d =
     (let lit_i = to_i32 env lit_d
      in if \<not> deq lit_d (dint lit_i) then byte_of LITERAL_DOUBLE # d_bytes env lit_d
         else byte_of LITERAL_INT # int_bytes (word_of_int lit_i))"

text \<open>The branches of the \<open>switch\<close> of \<open>postfix\<close>; \<open>src\<close> starts with the element, \<open>rest\<close> follows it.\<close>

definition do_literal :: "calc_env \<Rightarrow> ELEMENT \<Rightarrow> string \<Rightarrow> pstate \<Rightarrow> (pstate \<times> string) pf" where
  "do_literal env el src s =
     (let s = add_effect el s
      in if code el = LITERAL_DOUBLE then
           case epicsParseDouble env src of
             None \<Rightarrow> Bad CALC_ERR_BAD_LITERAL
           | Some (lit_d, rest) \<Rightarrow> Ok (s\<lparr>pout := pout s @ literal_code env lit_d, operand_needed := False\<rparr>, rest)
         else
           case epicsParseUInt32 env src of
             None \<Rightarrow> Bad CALC_ERR_BAD_LITERAL
           | Some (lit_ui, rest) \<Rightarrow>
               Ok (s\<lparr>pout := pout s @ byte_of LITERAL_INT # int_bytes lit_ui, operand_needed := False\<rparr>, rest))"

text \<open>\<open>*--pout\<close> is compared as a plain \<open>char\<close>, whatever it belongs to.\<close>

definition do_store :: "ELEMENT \<Rightarrow> pstate \<Rightarrow> pstate pf" where
  "do_store el s =
     (if pout s = [] \<or> pstk s \<noteq> [] then Bad CALC_ERR_BAD_ASSIGNMENT
      else let b = last (pout s)
           in if unat b < unat (byte_of (FETCH 0)) \<or> unat b > unat (byte_of (FETCH 11)) then Bad CALC_ERR_BAD_ASSIGNMENT
              else Ok (s\<lparr>pout := butlast (pout s),
                         pstk := [el\<lparr>code := opcodes ! (unat (byte_of (STORE 0)) + unat b - unat (byte_of (FETCH 0)))\<rparr>],
                         runtime_depth := runtime_depth s - 1, operand_needed := True\<rparr>))"

definition do_unary :: "ELEMENT \<Rightarrow> pstate \<Rightarrow> pstate pf" where
  "do_unary el s =
     push el (popped (pop_while (\<lambda>t. in_stack_pri t \<ge> in_coming_pri el) (pstk s) (pout s) (runtime_depth s)) s)"

definition do_binary :: "ELEMENT \<Rightarrow> pstate \<Rightarrow> pstate pf" where
  "do_binary el s =
     bind_pf (push el (popped (pop_while (\<lambda>t. in_stack_pri t \<ge> in_coming_pri el) (pstk s) (pout s) (runtime_depth s)) s))
       (\<lambda>s. Ok (s\<lparr>operand_needed := True\<rparr>))"

definition do_separator :: "pstate \<Rightarrow> pstate pf" where
  "do_separator s =
     bind_pf (pop_paren CALC_ERR_BAD_SEPERATOR (pstk s) (pout s) (runtime_depth s)) (\<lambda>r.
       let s = popped r s
       in Ok (s\<lparr>operand_needed := True,
                pstk := (hd (pstk s))\<lparr>runtime_effect := runtime_effect (hd (pstk s)) - 1\<rparr> # tl (pstk s)\<rparr>))"

definition do_close :: "pstate \<Rightarrow> pstate pf" where
  "do_close s =
     bind_pf (pop_paren CALC_ERR_PAREN_NOT_OPEN (pstk s) (pout s) (runtime_depth s)) (\<lambda>r.
       let s = popped r s; paren = hd (pstk s); st = tl (pstk s)
       in case st of
            v # st' \<Rightarrow>
              if type v = VARARG_OPERATOR then
                (if sint (runtime_effect paren) > 0 then Bad CALC_ERR_INCOMPLETE
                 else Ok (s\<lparr>pstk := v\<lparr>runtime_effect := runtime_effect paren\<rparr> # st'\<rparr>))
              else Ok (s\<lparr>pstk := st\<rparr>)
          | [] \<Rightarrow> Ok (s\<lparr>pstk := st\<rparr>))"

definition do_conditional :: "ELEMENT \<Rightarrow> pstate \<Rightarrow> pstate pf" where
  "do_conditional el s =
     (let s = popped (pop_while (\<lambda>t. in_stack_pri t > in_coming_pri el) (pstk s) (pout s) (runtime_depth s)) s;
          s = s\<lparr>pout := pout s @ [byte_of (code el)], runtime_depth := runtime_depth s + sint (runtime_effect el)\<rparr>
      in bind_pf
           (if take 1 (name el) = '':'' then
              (let s = s\<lparr>cond_count := cond_count s - 1\<rparr>
               in if cond_count s < 0 then Bad CALC_ERR_CONDITIONAL
                  else push (el\<lparr>code := COND_END, runtime_effect := 0\<rparr>) s)
            else Ok (s\<lparr>cond_count := cond_count s + 1\<rparr>))
           (\<lambda>s. Ok (s\<lparr>operand_needed := True\<rparr>)))"

definition do_terminator :: "pstate \<Rightarrow> pstate pf" where
  "do_terminator s =
     bind_pf (pop_all (pstk s) (pout s) (runtime_depth s)) (\<lambda>(out, d).
       if cond_count s \<noteq> 0 then Bad CALC_ERR_CONDITIONAL
       else if d > 1 then Bad CALC_ERR_TOOMANY
       else Ok (s\<lparr>pout := out, pstk := [], runtime_depth := d, operand_needed := True\<rparr>))"

definition switch_element :: "ELEMENT \<Rightarrow> pstate \<Rightarrow> pstate pf" where
  "switch_element el s = (case type el of
     OPERAND \<Rightarrow> Ok (add_effect el (s\<lparr>pout := pout s @ [byte_of (code el)], operand_needed := False\<rparr>))
   | STORE_OPERATOR \<Rightarrow> do_store el s
   | UNARY_OPERATOR \<Rightarrow> do_unary el s
   | VARARG_OPERATOR \<Rightarrow> do_unary el s
   | BINARY_OPERATOR \<Rightarrow> do_binary el s
   | SEPERATOR \<Rightarrow> do_separator s
   | CLOSE_PAREN \<Rightarrow> do_close s
   | CONDITIONAL \<Rightarrow> do_conditional el s
   | EXPR_TERMINATOR \<Rightarrow> do_terminator s
   | _ \<Rightarrow> Bad CALC_ERR_INTERNAL)"

definition do_element :: "calc_env \<Rightarrow> ELEMENT \<Rightarrow> string \<Rightarrow> string \<Rightarrow> pstate \<Rightarrow> (pstate \<times> string) pf" where
  "do_element env el src rest s =
     (if type el = LITERAL_OPERAND then do_literal env el src s
      else bind_pf (switch_element el s) (\<lambda>s. Ok (s, rest)))"

text \<open>After the last element: \<open>goto bad\<close>, or the finished code.\<close>

definition finish :: "string \<Rightarrow> pstate \<Rightarrow> u8 list pf" where
  "finish src s =
     (if src \<noteq> [] then Bad CALC_ERR_SYNTAX
      else bind_pf (pop_all (pstk s) (pout s) (runtime_depth s)) (\<lambda>(out, d).
             if cond_count s \<noteq> 0 then Bad CALC_ERR_CONDITIONAL
             else if operand_needed s \<or> d \<noteq> 1 then Bad CALC_ERR_INCOMPLETE
             else Ok (out @ [byte_of END_EXPRESSION])))"

lemma bind_pf_Ok [simp]: "bind_pf r f = Ok x \<longleftrightarrow> (\<exists>a. r = Ok a \<and> f a = Ok x)"
  by (cases r) auto

lemma length_dropWhile: "length (dropWhile P xs) \<le> length xs"
  by (induction xs) auto

lemma names_nonempty: "el \<in> set operands \<union> set operators \<Longrightarrow> name el \<noteq> []"
  by (auto simp: operands_def operators_def)

lemma find_member: "List.find P xs = Some x \<Longrightarrow> x \<in> set xs \<and> P x"
  by (induction xs) (auto split: if_splits)

lemma get_element_shorter:
  assumes "get_element b src = Inr (el, str, rest)"
  shows "str = dropWhile isspace src" "str \<noteq> []" "length str \<le> length src" "length rest < length str"
    "rest = drop (length (name el)) str" "el \<in> set operands \<union> set operators"
proof -
  from assms have f: "str = dropWhile isspace src" "str \<noteq> []" "rest = drop (length (name el)) str"
    "List.find (\<lambda>el. starts_with str (name el)) (rev (if b then operands else operators)) = Some el"
    by (auto simp: get_element_def Let_def split: if_splits option.splits)
  then show "str = dropWhile isspace src" "str \<noteq> []" "rest = drop (length (name el)) str" by simp_all
  then show "length str \<le> length src" by (simp add: length_dropWhile)
  show el: "el \<in> set operands \<union> set operators"
    using find_member [OF f(4)] by (cases b) simp_all
  show "length rest < length str" using f(2,3) names_nonempty [OF el] by (simp add: not_less)
qed

lemma parse_shorter:
  "epicsParseDouble env s = Some (v, r) \<Longrightarrow> s \<noteq> [] \<Longrightarrow> length r < length s"
  "epicsParseUInt32 env s = Some (u, r) \<Longrightarrow> s \<noteq> [] \<Longrightarrow> length r < length s"
proof -
  have "length (dropWhile isspace (drop n t)) < length s" if "n \<noteq> 0" "s \<noteq> []" "length t \<le> length s" for n t
    using length_dropWhile [of isspace "drop n t"] that by (cases t) auto
  then show "epicsParseDouble env s = Some (v, r) \<Longrightarrow> s \<noteq> [] \<Longrightarrow> length r < length s"
    "epicsParseUInt32 env s = Some (u, r) \<Longrightarrow> s \<noteq> [] \<Longrightarrow> length r < length s"
    by (auto simp: epicsParseDouble_def epicsParseUInt32_def Let_def length_dropWhile split: if_splits prod.splits)
qed

lemma do_element_shorter:
  assumes "get_element b src = Inr (el, str, rest)" "do_element env el str rest s = Ok (s', src')"
  shows "length src' < length src"
  using get_element_shorter [OF assms(1)] assms(2)
  by (auto simp: do_element_def do_literal_def Let_def split: if_splits option.splits dest: parse_shorter)

function postfix_loop :: "calc_env \<Rightarrow> string \<Rightarrow> pstate \<Rightarrow> u8 list pf" where
  "postfix_loop env src s =
     (case get_element (operand_needed s) src of
        Inl src \<Rightarrow> finish src s
      | Inr (el, str, rest) \<Rightarrow>
          (case do_element env el str rest s of
             Bad e \<Rightarrow> Bad e
           | Undef \<Rightarrow> Undef
           | Ok (s, src) \<Rightarrow>
               if runtime_depth s < 0 then Bad CALC_ERR_UNDERFLOW
               else if runtime_depth s \<ge> 80 then Bad CALC_ERR_OVERFLOW
               else postfix_loop env src s))"
  by pat_completeness auto
termination
  by (relation "measure (\<lambda>(env, src, s). length src)") (auto dest: do_element_shorter)

declare postfix_loop.simps [simp del]

text \<open>\<open>None\<close> is a null pointer. On an error the output buffer holds the empty program.\<close>

definition postfix :: "calc_env \<Rightarrow> string option \<Rightarrow> u8 list pf" where
  "postfix env psrc = (case psrc of
     None \<Rightarrow> Bad CALC_ERR_NULL_ARG
   | Some src \<Rightarrow>
       if src = [] then Bad CALC_ERR_NULL_ARG
       else postfix_loop env src \<lparr>pout = [], pstk = [], operand_needed = True, runtime_depth = 0, cond_count = 0\<rparr>)"

end
