(* ===== verification/CalcPerform.thy ===== *)
theory CalcPerform
  imports CalcPostfix
begin

text \<open>
  \<open>calcPerform\<close>, \<open>calcArgUsage\<close>, \<open>cond_search\<close> and \<open>calcRandom\<close> of libCom/calc/calcPerform.c. The
  program is the list of bytes from the instruction pointer to the end of the buffer, the stack is
  the list of its entries, top first. \<open>Undefined\<close> is undefined behaviour: reading past the buffer,
  below or above the stack, or a division that overflows. The loop only moves forward, so every run
  ends.
\<close>

section \<open>Arithmetic\<close>

text \<open>The globals of the engine and the arrays of its caller: \<open>parg\<close>, \<open>*presult\<close>, and \<open>seed\<close>.\<close>

record cstate =
  parg :: "double list"
  presult :: double
  seed :: u16

definition calcRandom :: "u16 \<Rightarrow> double \<times> u16" where
  "calcRandom sd = (let sd = sd * (191 * 8 + 5) + 0x3141 in (ddiv (dint (uint sd)) (dint 65535), sd))"

definition PI :: double where "PI = dround False (314159265358979323 / 10 ^ 17)"

fun const_val :: "const_op \<Rightarrow> double" where
  "const_val CONST_PI = PI"
| "const_val CONST_D2R = ddiv PI (dint 180)"
| "const_val CONST_R2D = ddiv (dint 180) PI"

text \<open>A double as a condition, a condition as a double.\<close>

definition truth :: "double \<Rightarrow> bool" where
  "truth d \<longleftrightarrow> \<not> deq d (Fin 0)"

definition dbool :: "bool \<Rightarrow> double" where
  "dbool b = (if b then Fin 1 else Fin 0)"

fun dabs :: "double \<Rightarrow> double" where
  "dabs (Fin q) = Fin \<bar>q\<bar>"
| "dabs (Infinity s) = Infinity False"
| "dabs NegZero = Fin 0"
| "dabs NaN = NaN"

definition dceil :: "double \<Rightarrow> double" where
  "dceil d = dneg (dfloor (dneg d))"

definition un_val :: "calc_env \<Rightarrow> un_op \<Rightarrow> double \<Rightarrow> double" where
  "un_val env oc x = (case oc of
     UNARY_NEG \<Rightarrow> dneg x
   | ABS_VAL \<Rightarrow> dabs x
   | CEIL \<Rightarrow> dceil x
   | FLOOR \<Rightarrow> dfloor x
   | ISINF \<Rightarrow> dint (m_isinf env x)
   | NINT \<Rightarrow> dint (to_i32 env (if dle (Fin 0) x then dadd x (Fin (1 / 2)) else dsub x (Fin (1 / 2))))
   | REL_NOT \<Rightarrow> dbool (\<not> truth x)
   | BIT_NOT \<Rightarrow> dint (sint (NOT (to_u32 env x)))
   | _ \<Rightarrow> m_fun env oc x)"

text \<open>\<open>x\<close> is below \<open>y\<close> on the stack. The remainder of the least integer by \<open>-1\<close> is undefined.\<close>

definition bin_val :: "calc_env \<Rightarrow> bin_op \<Rightarrow> double \<Rightarrow> double \<Rightarrow> double option" where
  "bin_val env oc x y = (case oc of
     ADD \<Rightarrow> Some (dadd x y)
   | SUB \<Rightarrow> Some (dsub x y)
   | MULT \<Rightarrow> Some (dmul x y)
   | DIV \<Rightarrow> Some (ddiv x y)
   | MODULO \<Rightarrow>
       (let itop = to_i32 env y; i = to_i32 env x
        in if itop = 0 then Some NaN
           else if i = - (2 ^ 31) \<and> itop = - 1 then None
           else Some (dint (crem i itop)))
   | POWER \<Rightarrow> Some (m_pow env x y)
   | ATAN2 \<Rightarrow> Some (m_atan2 env y x)
   | REL_OR \<Rightarrow> Some (dbool (truth x \<or> truth y))
   | REL_AND \<Rightarrow> Some (dbool (truth x \<and> truth y))
   | BIT_OR \<Rightarrow> Some (dint (sint (to_u32 env x OR to_u32 env y)))
   | BIT_AND \<Rightarrow> Some (dint (sint (to_u32 env x AND to_u32 env y)))
   | BIT_EXCL_OR \<Rightarrow> Some (dint (sint (to_u32 env x XOR to_u32 env y)))
   | RIGHT_SHIFT \<Rightarrow> Some (dint (sint (signed_drop_bit (unat (to_u32 env y AND 31)) (to_u32 env x))))
   | LEFT_SHIFT \<Rightarrow> Some (dint (sint (push_bit (unat (to_u32 env y AND 31)) (to_u32 env x))))
   | NOT_EQ \<Rightarrow> Some (dbool (\<not> deq x y))
   | LESS_THAN \<Rightarrow> Some (dbool (dlt x y))
   | LESS_OR_EQ \<Rightarrow> Some (dbool (dle x y))
   | EQUAL \<Rightarrow> Some (dbool (deq x y))
   | GR_OR_EQ \<Rightarrow> Some (dbool (dle y x))
   | GR_THAN \<Rightarrow> Some (dbool (dlt y x)))"

text \<open>The loops \<open>while (--nargs)\<close>, \<open>t\<close> being \<open>top\<close>; \<open>None\<close> when the stack does not hold the arguments.\<close>

primrec select_loop :: "(double \<Rightarrow> double \<Rightarrow> bool) \<Rightarrow> nat \<Rightarrow> double list \<Rightarrow> double list option" where
  "select_loop better 0 stk = Some stk"
| "select_loop better (Suc n) stk = (case stk of
     t # x # st \<Rightarrow> select_loop better n ((if better x t \<or> isnan t then t else x) # st)
   | _ \<Rightarrow> None)"

primrec logic_loop :: "(double \<Rightarrow> double \<Rightarrow> double) \<Rightarrow> nat \<Rightarrow> double \<Rightarrow> double list \<Rightarrow> double list option" where
  "logic_loop f 0 t stk = Some (t # stk)"
| "logic_loop f (Suc n) t stk = (case stk of
     x # st \<Rightarrow> logic_loop f n (f t x) st
   | [] \<Rightarrow> None)"

definition var_val :: "calc_env \<Rightarrow> var_op \<Rightarrow> nat \<Rightarrow> double list \<Rightarrow> double list option" where
  "var_val env oc n stk =
     (if n = 0 \<or> stk = [] then None
      else case oc of
        MAX_OF \<Rightarrow> select_loop dlt (n - 1) stk
      | MIN_OF \<Rightarrow> select_loop (\<lambda>x y. dlt y x) (n - 1) stk
      | FINITE \<Rightarrow> logic_loop (\<lambda>t x. dbool (truth t \<and> m_finite env x \<noteq> 0)) (n - 1) (dint (m_finite env (hd stk))) (tl stk)
      | ISNAN \<Rightarrow> logic_loop (\<lambda>t x. dbool (truth t \<or> m_isnan env x \<noteq> 0)) (n - 1) (dint (m_isnan env (hd stk))) (tl stk))"

section \<open>Control flow\<close>

text \<open>How many bytes of operand follow an opcode.\<close>

definition operand_size :: "rpn_opcode option \<Rightarrow> nat" where
  "operand_size oc = (case oc of
     Some LITERAL_DOUBLE \<Rightarrow> 8 | Some LITERAL_INT \<Rightarrow> 4 | Some (VARARG _) \<Rightarrow> 1 | _ \<Rightarrow> 0)"

datatype search = Found "u8 list" | Not_found | Past_end

function cond_search :: "rpn_opcode \<Rightarrow> nat \<Rightarrow> u8 list \<Rightarrow> search" where
  "cond_search m n [] = Past_end"
| "cond_search m n (b # pinst) =
     (let oc = op_at b in
      if oc = Some END_EXPRESSION then Not_found
      else if oc = Some m \<and> n = 1 then Found pinst
      else
        let n = (if oc = Some m then n - 1 else n);
            n = (if oc = Some COND_IF then n + 1 else n)
        in cond_search m n (drop (operand_size oc) pinst))"
  by pat_completeness auto
termination by (relation "measure (\<lambda>(m, n, p). length p)") auto

lemma cond_search_shorter: "cond_search m n p = Found q \<Longrightarrow> length q < length p"
proof (induction m n p rule: cond_search.induct)
  case (2 m n b p)
  show ?case
  proof (cases "op_at b = Some m \<and> n = 1")
    case True
    with 2(2) show ?thesis by (auto simp: Let_def split: if_splits)
  next
    case False
    with 2 have "length q < length (drop (operand_size (op_at b)) p)" by (auto simp: Let_def split: if_splits)
    then show ?thesis by simp
  qed
qed simp

datatype outcome = Finished int cstate | Undefined

text \<open>The evaluation loop. \<open>Finished\<close> has the return value.\<close>

function exec :: "calc_env \<Rightarrow> cstate \<Rightarrow> double list \<Rightarrow> u8 list \<Rightarrow> outcome" where
  "exec env s stk [] = Undefined"
| "exec env s stk (b # pinst) = (case op_at b of
     None \<Rightarrow> Finished (- 1) s
   | Some oc \<Rightarrow> (case oc of
       END_EXPRESSION \<Rightarrow> (case stk of [v] \<Rightarrow> Finished 0 (s\<lparr>presult := v\<rparr>) | _ \<Rightarrow> Finished (- 1) s)
     | LITERAL_DOUBLE \<Rightarrow>
         if length pinst < 8 \<or> 80 \<le> length stk then Undefined
         else exec env s (d_value env (take 8 pinst) # stk) (drop 8 pinst)
     | LITERAL_INT \<Rightarrow>
         if length pinst < 4 \<or> 80 \<le> length stk then Undefined
         else exec env s (dint (sint (int_value (take 4 pinst))) # stk) (drop 4 pinst)
     | FETCH_VAL \<Rightarrow> if 80 \<le> length stk then Undefined else exec env s (presult s # stk) pinst
     | FETCH n \<Rightarrow> if 80 \<le> length stk then Undefined else exec env s (parg s ! n # stk) pinst
     | STORE n \<Rightarrow> (case stk of v # st \<Rightarrow> exec env (s\<lparr>parg := (parg s)[n := v]\<rparr>) st pinst | [] \<Rightarrow> Undefined)
     | CONST_OP c \<Rightarrow> if 80 \<le> length stk then Undefined else exec env s (const_val c # stk) pinst
     | UNARY u \<Rightarrow> (case stk of x # st \<Rightarrow> exec env s (un_val env u x # st) pinst | [] \<Rightarrow> Undefined)
     | BINARY f \<Rightarrow> (case stk of
           y # x # st \<Rightarrow> (case bin_val env f x y of Some v \<Rightarrow> exec env s (v # st) pinst | None \<Rightarrow> Undefined)
         | _ \<Rightarrow> Undefined)
     | VARARG v \<Rightarrow> (case pinst of
           [] \<Rightarrow> Undefined
         | n # pinst \<Rightarrow> (case var_val env v (unat n) stk of Some stk \<Rightarrow> exec env s stk pinst | None \<Rightarrow> Undefined))
     | RANDOM \<Rightarrow> if 80 \<le> length stk then Undefined
                 else (case calcRandom (seed s) of (v, sd) \<Rightarrow> exec env (s\<lparr>seed := sd\<rparr>) (v # stk) pinst)
     | COND_IF \<Rightarrow> (case stk of
           [] \<Rightarrow> Undefined
         | c # st \<Rightarrow>
             if truth c then exec env s st pinst
             else (case cond_search COND_ELSE 1 pinst of
                     Found pinst \<Rightarrow> exec env s st pinst | Not_found \<Rightarrow> Finished (- 1) s | Past_end \<Rightarrow> Undefined))
     | COND_ELSE \<Rightarrow> (case cond_search COND_END 1 pinst of
                     Found pinst \<Rightarrow> exec env s stk pinst | Not_found \<Rightarrow> Finished (- 1) s | Past_end \<Rightarrow> Undefined)
     | COND_END \<Rightarrow> exec env s stk pinst
     | NOT_GENERATED \<Rightarrow> Finished (- 1) s))"
  by pat_completeness auto
termination
  by (relation "measure (\<lambda>(env, s, stk, p). length p)") (auto dest: cond_search_shorter)

declare exec.simps(2) [simp del]

definition calcPerform :: "calc_env \<Rightarrow> cstate \<Rightarrow> u8 list \<Rightarrow> outcome" where
  "calcPerform env s pinst = exec env s [] pinst"

section \<open>Argument usage\<close>

text \<open>The bit masks of the arguments read before they are stored, and of those stored.\<close>

function usage :: "u8 list \<Rightarrow> u32 \<Rightarrow> u32 \<Rightarrow> (u32 \<times> u32) option" where
  "usage [] inputs stores = None"
| "usage (b # pinst) inputs stores = (case op_at b of
     Some END_EXPRESSION \<Rightarrow> Some (inputs, stores)
   | Some (FETCH n) \<Rightarrow> usage pinst (inputs OR push_bit n 1 AND NOT stores) stores
   | Some (STORE n) \<Rightarrow> usage pinst inputs (stores OR push_bit n 1)
   | oc \<Rightarrow> usage (drop (operand_size oc) pinst) inputs stores)"
  by pat_completeness auto
termination by (relation "measure (\<lambda>(p, i, s). length p)") auto

definition calcArgUsage :: "u8 list \<Rightarrow> (u32 \<times> u32) option" where
  "calcArgUsage pinst = usage pinst 0 0"

end
