(* ===== verification/CalcLang.thy ===== *)
theory CalcLang
  imports CalcPerform
begin

text \<open>
  The calculation engine as a compiler: an abstract syntax of expressions, its meaning, the code
  expected for it. Shown: \<open>calcPerform\<close> runs the code to the meaning.
\<close>

section \<open>Expressions\<close>

text \<open>A literal is its decimal text. \<open>Call\<close> is one of the functions of several arguments.\<close>

datatype expr = Lit string | Arg nat | Val | Constant const_op | Random | Unop un_op expr
  | Binop bin_op expr expr | Call var_op exprs | Cond expr expr expr
and exprs = One expr | Snoc exprs expr

primrec nargs :: "exprs \<Rightarrow> nat" where
  "nargs (One e) = 1"
| "nargs (Snoc es e) = Suc (nargs es)"

text \<open>The value of a literal is what \<open>strtod\<close> makes of its text.\<close>

definition lit_value :: "calc_env \<Rightarrow> string \<Rightarrow> double" where
  "lit_value env t = fst (snd (strtod env (t @ '' '')))"

text \<open>The meaning: operands from left to right, one branch of a conditional; \<open>None\<close> is the undefined
  remainder.\<close>

fun eval :: "calc_env \<Rightarrow> cstate \<Rightarrow> expr \<Rightarrow> (double \<times> cstate) option"
  and evals :: "calc_env \<Rightarrow> cstate \<Rightarrow> exprs \<Rightarrow> (double list \<times> cstate) option" where
  "eval env s (Lit t) = Some (lit_value env t, s)"
| "eval env s (Arg n) = Some (parg s ! n, s)"
| "eval env s Val = Some (presult s, s)"
| "eval env s (Constant c) = Some (const_val c, s)"
| "eval env s Random = (case calcRandom (seed s) of (v, sd) \<Rightarrow> Some (v, s\<lparr>seed := sd\<rparr>))"
| "eval env s (Unop u e) = (case eval env s e of None \<Rightarrow> None | Some (x, s) \<Rightarrow> Some (un_val env u x, s))"
| "eval env s (Binop f a b) = (case eval env s a of None \<Rightarrow> None | Some (x, s) \<Rightarrow>
     (case eval env s b of None \<Rightarrow> None | Some (y, s) \<Rightarrow>
       (case bin_val env f x y of None \<Rightarrow> None | Some v \<Rightarrow> Some (v, s))))"
| "eval env s (Call v es) = (case evals env s es of None \<Rightarrow> None | Some (xs, s) \<Rightarrow>
     (case var_val env v (length xs) (rev xs) of Some [y] \<Rightarrow> Some (y, s) | _ \<Rightarrow> None))"
| "eval env s (Cond c a b) = (case eval env s c of None \<Rightarrow> None | Some (x, s) \<Rightarrow>
     if truth x then eval env s a else eval env s b)"
| "evals env s (One e) = (case eval env s e of None \<Rightarrow> None | Some (x, s) \<Rightarrow> Some ([x], s))"
| "evals env s (Snoc es e) = (case evals env s es of None \<Rightarrow> None | Some (xs, s) \<Rightarrow>
     (case eval env s e of None \<Rightarrow> None | Some (x, s) \<Rightarrow> Some (xs @ [x], s)))"

text \<open>The code.\<close>

fun compile :: "calc_env \<Rightarrow> expr \<Rightarrow> u8 list" and compiles :: "calc_env \<Rightarrow> exprs \<Rightarrow> u8 list" where
  "compile env (Lit t) = literal_code env (lit_value env t)"
| "compile env (Arg n) = [byte_of (FETCH n)]"
| "compile env Val = [byte_of FETCH_VAL]"
| "compile env (Constant c) = [byte_of (CONST_OP c)]"
| "compile env Random = [byte_of RANDOM]"
| "compile env (Unop u e) = compile env e @ [byte_of (UNARY u)]"
| "compile env (Binop f a b) = compile env a @ compile env b @ [byte_of (BINARY f)]"
| "compile env (Call v es) = compiles env es @ [byte_of (VARARG v), of_nat (nargs es)]"
| "compile env (Cond c a b) =
     compile env c @ byte_of COND_IF # compile env a @ byte_of COND_ELSE # compile env b @ [byte_of COND_END]"
| "compiles env (One e) = compile env e"
| "compiles env (Snoc es e) = compiles env es @ compile env e"

text \<open>The stack an expression needs at run time.\<close>

fun need :: "expr \<Rightarrow> nat" and needs :: "exprs \<Rightarrow> nat" where
  "need (Lit t) = 1"
| "need (Arg n) = 1"
| "need Val = 1"
| "need (Constant c) = 1"
| "need Random = 1"
| "need (Unop u e) = need e"
| "need (Binop f a b) = max (need a) (Suc (need b))"
| "need (Call v es) = needs es"
| "need (Cond c a b) = max (need c) (max (need a) (need b))"
| "needs (One e) = need e"
| "needs (Snoc es e) = max (needs es) (nargs es + need e)"

text \<open>What the theorems ask of an expression: arguments \<open>A\<close> to \<open>L\<close>, literals whose text the C library
  reads as one number and whose value has a representation of 8 bytes.\<close>

definition env_ok :: "calc_env \<Rightarrow> bool" where
  "env_ok env \<longleftrightarrow> (\<forall>d. - (2 ^ 31) \<le> undef_i32 env d \<and> undef_i32 env d < 2 ^ 31)"

definition lit_ok :: "calc_env \<Rightarrow> string \<Rightarrow> bool" where
  "lit_ok env t \<longleftrightarrow> t \<noteq> [] \<and> hd t \<in> set ''.0123456789'' \<and> \<not> starts_with t ''0X''
     \<and> (\<forall>r. strtod env (t @ CHR '' '' # r) = (length t, lit_value env t, False))
     \<and> lit_value env t \<noteq> NegZero
     \<and> length (d_bytes env (lit_value env t)) = 8 \<and> d_value env (d_bytes env (lit_value env t)) = lit_value env t"

fun expr_ok :: "calc_env \<Rightarrow> expr \<Rightarrow> bool" and exprs_ok :: "calc_env \<Rightarrow> exprs \<Rightarrow> bool" where
  "expr_ok env (Lit t) = lit_ok env t"
| "expr_ok env (Arg n) = (n < 12)"
| "expr_ok env (Unop u e) = expr_ok env e"
| "expr_ok env (Binop f a b) = (expr_ok env a \<and> expr_ok env b)"
| "expr_ok env (Call v es) = exprs_ok env es"
| "expr_ok env (Cond c a b) = (expr_ok env c \<and> expr_ok env a \<and> expr_ok env b)"
| "expr_ok env _ = True"
| "exprs_ok env (One e) = expr_ok env e"
| "exprs_ok env (Snoc es e) = (exprs_ok env es \<and> expr_ok env e)"

section \<open>The evaluator runs the code\<close>

lemma need_pos: "0 < need e" "nargs es \<le> needs es \<and> 0 < nargs es"
  by (induction e and es) (auto simp: max_def)

text \<open>A literal that is equal to an \<open>int\<close> is stored as that \<open>int\<close>.\<close>

lemma literal_int:
  assumes env: "env_ok env" and d: "d \<noteq> NegZero" "deq d (dint (to_i32 env d))"
  shows "dint (sint (word_of_int (to_i32 env d) :: u32)) = d"
proof -
  let ?i = "to_i32 env d"
  have r: "- (2 ^ 31) \<le> ?i \<and> ?i < 2 ^ 31"
    using env by (auto simp: to_i32_def env_ok_def dtoint_def Let_def split: option.splits if_splits)
  then have "sint (word_of_int ?i :: u32) = ?i"
    using signed_take_bit_int_eq_self [of 31 ?i] by (simp add: sint_sbintrunc')
  moreover have "dint ?i = Fin (of_int ?i)" using r by (intro dint_exact) auto
  moreover have "d = Fin (of_int ?i)" using d unfolding \<open>dint ?i = _\<close> by (cases d) (auto simp: deq_def dle_def)
  ultimately show ?thesis by simp
qed

lemma exec_op: "oc \<in> set opcodes \<Longrightarrow> op_at (byte_of oc) = Some oc"
  by (rule op_at_byte_of)

lemma literal_cases:
  assumes "lit_ok env t"
  obtains (double) bs where "literal_code env (lit_value env t) = byte_of LITERAL_DOUBLE # bs" "length bs = 8" "d_value env bs = lit_value env t"
  | (int) w where "literal_code env (lit_value env t) = byte_of LITERAL_INT # int_bytes w" "env_ok env \<Longrightarrow> dint (sint w) = lit_value env t"
proof (cases "deq (lit_value env t) (dint (to_i32 env (lit_value env t)))")
  case True
  then show ?thesis
    using int [of "word_of_int (to_i32 env (lit_value env t))"] literal_int [of env "lit_value env t"] assms
    by (simp add: literal_code_def lit_ok_def Let_def)
next
  case False
  then show ?thesis using double assms by (simp add: literal_code_def lit_ok_def Let_def)
qed

lemma cond_search_skip:
  "expr_ok env e \<Longrightarrow> m = COND_ELSE \<or> m = COND_END \<Longrightarrow> 1 \<le> n \<Longrightarrow> cond_search m n (compile env e @ r) = cond_search m n r"
  "exprs_ok env es \<Longrightarrow> m = COND_ELSE \<or> m = COND_END \<Longrightarrow> 1 \<le> n \<Longrightarrow> cond_search m n (compiles env es @ r) = cond_search m n r"
proof (induction e and es arbitrary: n r and n r)
  case (Lit t)
  then have "lit_ok env t" by simp
  then show ?case using Lit by (cases rule: literal_cases) (auto simp: exec_op operand_size_def Let_def)
next
  case (Cond c a b)
  then show ?case by (auto simp: exec_op operand_size_def Let_def)
qed (auto simp: exec_op operand_size_def Let_def)

lemma exec_simps:
  "exec env s stk (byte_of END_EXPRESSION # p) = (case stk of [v] \<Rightarrow> Finished 0 (s\<lparr>presult := v\<rparr>) | _ \<Rightarrow> Finished (- 1) s)"
  "length stk < 80 \<Longrightarrow> exec env s stk (byte_of FETCH_VAL # p) = exec env s (presult s # stk) p"
  "length stk < 80 \<Longrightarrow> n < 12 \<Longrightarrow> exec env s stk (byte_of (FETCH n) # p) = exec env s (parg s ! n # stk) p"
  "n < 12 \<Longrightarrow> exec env s (v # stk) (byte_of (STORE n) # p) = exec env (s\<lparr>parg := (parg s)[n := v]\<rparr>) stk p"
  "length stk < 80 \<Longrightarrow> exec env s stk (byte_of (CONST_OP c) # p) = exec env s (const_val c # stk) p"
  "length stk < 80 \<Longrightarrow> exec env s stk (byte_of RANDOM # p) =
     (case calcRandom (seed s) of (v, sd) \<Rightarrow> exec env (s\<lparr>seed := sd\<rparr>) (v # stk) p)"
  "exec env s (x # stk) (byte_of (UNARY u) # p) = exec env s (un_val env u x # stk) p"
  "exec env s (y # x # stk) (byte_of (BINARY f) # p) =
     (case bin_val env f x y of Some v \<Rightarrow> exec env s (v # stk) p | None \<Rightarrow> Undefined)"
  "exec env s stk (byte_of (VARARG w) # b # p) =
     (case var_val env w (unat b) stk of Some stk \<Rightarrow> exec env s stk p | None \<Rightarrow> Undefined)"
  "exec env s (x # stk) (byte_of COND_IF # p) =
     (if truth x then exec env s stk p
      else case cond_search COND_ELSE 1 p of
        Found q \<Rightarrow> exec env s stk q | Not_found \<Rightarrow> Finished (- 1) s | Past_end \<Rightarrow> Undefined)"
  "exec env s stk (byte_of COND_ELSE # p) = (case cond_search COND_END 1 p of
        Found q \<Rightarrow> exec env s stk q | Not_found \<Rightarrow> Finished (- 1) s | Past_end \<Rightarrow> Undefined)"
  "exec env s stk (byte_of COND_END # p) = exec env s stk p"
  by (simp_all add: exec.simps(2) exec_op split: list.splits)

lemma exec_literal:
  assumes "env_ok env" "lit_ok env t" "length stk < 80"
  shows "exec env s stk (literal_code env (lit_value env t) @ r) = exec env s (lit_value env t # stk) r"
  using assms(2) by (cases rule: literal_cases) (use assms in \<open>simp_all add: exec.simps(2) exec_op\<close>)

lemma evals_length: "evals env s es = Some (xs, s') \<Longrightarrow> length xs = nargs es"
  by (induction es arbitrary: s xs s' rule: exprs.induct [of "\<lambda>_. True"]) (auto split: option.splits prod.splits)

lemma select_loop_append:
  "n < length xs \<Longrightarrow> \<exists>ys. select_loop f n xs = Some ys \<and> length ys = length xs - n
     \<and> select_loop f n (xs @ stk) = Some (ys @ stk)"
proof (induction n arbitrary: xs)
  case (Suc n)
  then obtain a b zs where "xs = a # b # zs" by (cases xs rule: list.exhaust; cases "tl xs") auto
  then show ?case using Suc.IH [of "(if f b a \<or> isnan a then a else b) # zs"] Suc.prems by auto
qed simp

lemma logic_loop_append:
  "n \<le> length xs \<Longrightarrow> \<exists>ys. logic_loop f n t xs = Some ys \<and> length ys = Suc (length xs) - n
     \<and> logic_loop f n t (xs @ stk) = Some (ys @ stk)"
proof (induction n arbitrary: xs t)
  case (Suc n)
  then obtain a zs where "xs = a # zs" by (cases xs) auto
  then show ?case using Suc.IH [of zs "f t a"] Suc.prems by auto
qed simp

lemma var_val_append:
  assumes "xs \<noteq> []"
  shows "\<exists>y. var_val env v (length xs) xs = Some [y] \<and> var_val env v (length xs) (xs @ stk) = Some (y # stk)"
proof -
  obtain a zs where xs: "xs = a # zs" using assms by (cases xs) auto
  have 1: "\<exists>y. ys = [y]" if "length ys = 1" for ys :: "double list" using that by (cases ys) auto
  have "\<exists>y. select_loop f (length zs) (a # zs) = Some [y] \<and> select_loop f (length zs) (a # zs @ stk) = Some (y # stk)" for f
    using select_loop_append [of "length zs" "a # zs" f stk] 1 by fastforce
  moreover have "\<exists>y. logic_loop f (length zs) t zs = Some [y] \<and> logic_loop f (length zs) t (zs @ stk) = Some (y # stk)" for f t
    using logic_loop_append [of "length zs" zs f t stk] 1 by fastforce
  ultimately show ?thesis unfolding xs var_val_def by (cases v) simp_all
qed

lemma exec_compile:
  assumes env: "env_ok env"
  shows "expr_ok env e \<Longrightarrow> length stk + need e \<le> 80 \<Longrightarrow> exec env s stk (compile env e @ r) =
      (case eval env s e of None \<Rightarrow> Undefined | Some (v, s') \<Rightarrow> exec env s' (v # stk) r)"
    "exprs_ok env es \<Longrightarrow> length stk + needs es \<le> 80 \<Longrightarrow> exec env s stk (compiles env es @ r) =
      (case evals env s es of None \<Rightarrow> Undefined | Some (vs, s') \<Rightarrow> exec env s' (rev vs @ stk) r)"
proof (induction e and es arbitrary: s stk r and s stk r)
  case (Lit t)
  then show ?case using exec_literal [OF env] by simp
next
  case (Binop f a b)
  then show ?case by (auto simp: exec_simps split: option.splits)
next
  case (Call v es)
  have n: "nargs es \<le> 80" using need_pos(2) [of es] Call.prems by simp
  then have u: "unat (of_nat (nargs es) :: u8) = nargs es" by (simp add: unat_of_nat)
  show ?case
  proof (cases "evals env s es")
    case (Some p)
    then obtain xs s' where e: "evals env s es = Some (xs, s')" by (cases p) auto
    then have l: "length xs = nargs es" by (rule evals_length)
    moreover have "0 < nargs es" using need_pos(2) by blast
    ultimately have "rev xs \<noteq> []" by auto
    then obtain y where "var_val env v (length xs) (rev xs) = Some [y]" "var_val env v (length xs) (rev xs @ stk) = Some (y # stk)"
      using var_val_append [of "rev xs"] by (metis length_rev)
    then show ?thesis using Call e l u by (simp add: exec_simps)
  next
    case None
    then show ?thesis using Call by simp
  qed
next
  case (Cond c a b)
  show ?case
  proof (cases "eval env s c")
    case (Some p)
    obtain x s' where "p = (x, s')" by (cases p)
    with Some Cond show ?thesis
      by (auto simp: exec_simps cond_search_skip exec_op Let_def split: option.splits)
  next
    case None
    then show ?thesis using Cond by simp
  qed
next
  case (Snoc es e)
  then show ?case by (auto split: option.splits dest: evals_length)
qed (auto simp: exec_simps split: option.splits prod.splits)

section \<open>Programs\<close>

text \<open>A program assigns to arguments and ends with the expression that is its result.\<close>

fun compile_prog :: "calc_env \<Rightarrow> (nat \<times> expr) list \<Rightarrow> expr \<Rightarrow> u8 list" where
  "compile_prog env [] e = compile env e @ [byte_of END_EXPRESSION]"
| "compile_prog env ((n, x) # asg) e = compile env x @ byte_of (STORE n) # compile_prog env asg e"

fun eval_prog :: "calc_env \<Rightarrow> cstate \<Rightarrow> (nat \<times> expr) list \<Rightarrow> expr \<Rightarrow> (double \<times> cstate) option" where
  "eval_prog env s [] e = eval env s e"
| "eval_prog env s ((n, x) # asg) e = (case eval env s x of None \<Rightarrow> None
     | Some (v, s) \<Rightarrow> eval_prog env (s\<lparr>parg := (parg s)[n := v]\<rparr>) asg e)"

fun prog_ok :: "calc_env \<Rightarrow> (nat \<times> expr) list \<Rightarrow> expr \<Rightarrow> bool" where
  "prog_ok env [] e = (expr_ok env e \<and> need e \<le> 80)"
| "prog_ok env ((n, x) # asg) e = (n < 12 \<and> expr_ok env x \<and> need x \<le> 80 \<and> prog_ok env asg e)"

lemma exec_prog:
  assumes env: "env_ok env"
  shows "prog_ok env asg e \<Longrightarrow> exec env s [] (compile_prog env asg e) = (case eval_prog env s asg e of
    None \<Rightarrow> Undefined | Some (v, s') \<Rightarrow> Finished 0 (s'\<lparr>presult := v\<rparr>))"
proof (induction asg arbitrary: s)
  case Nil
  then show ?case using exec_compile(1) [OF env, of e "[]"]
    by (auto simp: exec_simps split: option.splits)
next
  case (Cons a asg)
  obtain n x where a: "a = (n, x)" by (cases a)
  show ?case
    using Cons exec_compile(1) [OF env, of x "[]" s "byte_of (STORE n) # compile_prog env asg e"]
    by (auto simp: a exec_simps split: option.splits)
qed

text \<open>C16: \<open>calcPerform\<close> computes what the expression means: on the code of a program it returns 0 and the value
  of the program, stores to the arguments what the assignments give them, takes one branch of a
  conditional, and neither leaves its stack of 80 values nor the code. It is undefined only where the
  program divides the least integer by -1 for the remainder.\<close>

theorem calcPerform_correct:
  assumes "env_ok env" "prog_ok env asg e"
  shows "calcPerform env s (compile_prog env asg e) = (case eval_prog env s asg e of
    None \<Rightarrow> Undefined | Some (v, s') \<Rightarrow> Finished 0 (s'\<lparr>presult := v\<rparr>))"
  unfolding calcPerform_def by (rule exec_prog [OF assms])

text \<open>An environment for examples: \<open>strtod\<close> reads decimal integers.\<close>

definition digits_value :: "string \<Rightarrow> int" where
  "digits_value ds = foldl (\<lambda>n c. 10 * n + (of_char c - 48)) 0 ds"

definition calc_env0 :: calc_env where
  "calc_env0 = \<lparr>m_pow = \<lambda>_ _. NaN, m_atan2 = \<lambda>_ _. NaN, m_fun = \<lambda>_ _. NaN,
     m_finite = \<lambda>d. if dfinite d then 1 else 0, m_isnan = \<lambda>d. if isnan d then 1 else 0,
     m_isinf = \<lambda>d. if isinf d then 1 else 0,
     strtod = \<lambda>s. (let ds = takeWhile (\<lambda>c. c \<in> set ''0123456789'') s in (length ds, dint (digits_value ds), False)),
     strtoul = \<lambda>_. (0, 0, False), d_bytes = \<lambda>_. replicate 8 0, d_value = \<lambda>_. NaN,
     undef_i32 = \<lambda>_. 0, undef_u32 = \<lambda>_. 0\<rparr>"

lemma calc_env0_ok: "env_ok calc_env0"
  by (simp add: env_ok_def calc_env0_def)

theorem calcPerform_correct_witness:
  "calcPerform calc_env0 \<lparr>parg = [Fin 0, Fin 1, Fin 5, Fin 6, Fin 0, Fin 0, Fin 0, Fin 0, Fin 0, Fin 0, Fin 0, Fin 0],
       presult = Fin 9, seed = 1\<rparr> (compile_prog calc_env0 [(0, Arg 1)] (Cond (Arg 0) (Arg 2) Val)) =
     Finished 0 \<lparr>parg = [Fin 1, Fin 1, Fin 5, Fin 6, Fin 0, Fin 0, Fin 0, Fin 0, Fin 0, Fin 0, Fin 0, Fin 0],
       presult = Fin 5, seed = 1\<rparr>"
proof -
  have "prog_ok calc_env0 [(0, Arg 1)] (Cond (Arg 0) (Arg 2) Val)" by simp
  from calcPerform_correct [OF calc_env0_ok this] show ?thesis by (simp add: truth_def deq_def dle_def)
qed

end
