(* ===== verification/CalcNotation.thy ===== *)
theory CalcNotation
  imports CalcLang
begin

text \<open>
  The infix notation of expressions, and how the lexer of \<open>postfix\<close> reads its elements: searching the
  element tables from the end finds the element that was written.
\<close>

section \<open>Infix notation\<close>

text \<open>The elements an expression is written with: the first of the table with the opcode.\<close>

definition opnd_el :: "rpn_opcode \<Rightarrow> ELEMENT" where
  "opnd_el oc = the (List.find (\<lambda>el. code el = oc) operands)"

definition oper_el :: "rpn_opcode \<Rightarrow> ELEMENT" where
  "oper_el oc = the (List.find (\<lambda>el. code el = oc) operators)"

definition named :: "string \<Rightarrow> ELEMENT list \<Rightarrow> ELEMENT" where
  "named n els = the (List.find (\<lambda>el. name el = n) els)"

definition tok :: "ELEMENT \<Rightarrow> string" where
  "tok el = name el @ '' ''"

abbreviation lpar :: ELEMENT where "lpar \<equiv> named ''('' operands"
abbreviation rpar :: ELEMENT where "rpar \<equiv> named '')'' operators"
abbreviation comma :: ELEMENT where "comma \<equiv> named '','' operators"
abbreviation quest :: ELEMENT where "quest \<equiv> named ''?'' operators"
abbreviation colon :: ELEMENT where "colon \<equiv> named '':'' operators"
abbreviation semi :: ELEMENT where "semi \<equiv> named '';'' operators"
abbreviation assign :: ELEMENT where "assign \<equiv> named '':='' operators"

text \<open>\<open>pr p e\<close> is \<open>e\<close> as an operand of a context of priority \<open>p\<close>: parentheses only where the priorities
  need them, binary operators to the left, conditionals to the right.\<close>

fun pr :: "int \<Rightarrow> expr \<Rightarrow> string" and prs :: "exprs \<Rightarrow> string" where
  "pr p (Lit t) = t @ '' ''"
| "pr p (Arg n) = tok (opnd_el (FETCH n))"
| "pr p Val = tok (opnd_el FETCH_VAL)"
| "pr p (Constant c) = tok (opnd_el (CONST_OP c))"
| "pr p Random = tok (opnd_el RANDOM)"
| "pr p (Unop u e) = tok (opnd_el (UNARY u)) @ pr 8 e"
| "pr p (Binop f a b) =
     (if f = ATAN2 then tok (opnd_el (BINARY f)) @ tok lpar @ pr 0 a @ tok comma @ pr 0 b @ tok rpar
      else let el = oper_el (BINARY f); q = in_coming_pri el
           in if q < p then tok lpar @ pr q a @ tok el @ pr (q + 1) b @ tok rpar
              else pr q a @ tok el @ pr (q + 1) b)"
| "pr p (Call v es) = tok (opnd_el (VARARG v)) @ tok lpar @ prs es @ tok rpar"
| "pr p (Cond c a b) =
     (if 0 < p then tok lpar @ pr 1 c @ tok quest @ pr 1 a @ tok colon @ pr 0 b @ tok rpar
      else pr 1 c @ tok quest @ pr 1 a @ tok colon @ pr 0 b)"
| "prs (One e) = pr 0 e"
| "prs (Snoc es e) = prs es @ tok comma @ pr 0 e"

lemma els:
  "lpar = element ''('' 0 8 0 UNARY_OPERATOR NOT_GENERATED" "rpar = element '')'' 0 0 0 CLOSE_PAREN NOT_GENERATED"
  "comma = element '','' 0 0 0 SEPERATOR NOT_GENERATED" "quest = element ''?'' 0 0 (- 1) CONDITIONAL COND_IF"
  "colon = element '':'' 0 0 (- 1) CONDITIONAL COND_ELSE" "semi = element '';'' 0 0 0 EXPR_TERMINATOR NOT_GENERATED"
  "assign = element '':='' 0 0 (- 1) STORE_OPERATOR (STORE 0)"
  by (simp_all add: named_def operands_def operators_def)

lemma els_in: "lpar \<in> set operands" "rpar \<in> set operators" "comma \<in> set operators" "quest \<in> set operators"
  "colon \<in> set operators" "semi \<in> set operators" "assign \<in> set operators"
  unfolding els by (simp_all add: operands_def operators_def)


section \<open>The tables\<close>

text \<open>No name is followed by one of its prefixes: the lexer finds the longest name first.\<close>

fun prefixed :: "string \<Rightarrow> string \<Rightarrow> bool" where
  "prefixed src [] = True" | "prefixed [] (n # ns) = False" | "prefixed (c # src) (n # ns) = (c = n \<and> prefixed src ns)"

fun lex_less :: "string \<Rightarrow> string \<Rightarrow> bool" where
  "lex_less [] (y # ys) = True"
| "lex_less xs [] = False"
| "lex_less (x # xs) (y # ys) = (if x = y then lex_less xs ys else (of_char x :: nat) < of_char y)"

lemma lex_less_trans: "lex_less a b \<Longrightarrow> lex_less b c \<Longrightarrow> lex_less a c"
proof (induction a b arbitrary: c rule: lex_less.induct)
  case (3 x xs y ys)
  then show ?case by (cases c) (auto split: if_splits)
qed (auto elim: lex_less.elims)

lemma lex_less_prefixed: "lex_less a b \<Longrightarrow> \<not> prefixed a b"
  by (induction a b rule: lex_less.induct) auto

lemma successively_prefixed: "successively lex_less ns \<Longrightarrow> sorted_wrt (\<lambda>a b. \<not> prefixed a b) ns"
proof -
  assume a: "successively lex_less ns"
  have "sorted_wrt lex_less ns"
    using a successively_iff_sorted_wrt_strong [of ns lex_less] lex_less_trans by blast
  then show ?thesis by (rule sorted_wrt_mono_rel [rotated]) (rule lex_less_prefixed)
qed

text \<open>The operand table is sorted but for \<open>NINT\<close> before \<open>NAN\<close>.\<close>

lemma sorted_swap: "sorted_wrt P (xs @ a # ys) \<Longrightarrow> sorted_wrt P (xs @ b # ys) \<Longrightarrow> P a b \<Longrightarrow> sorted_wrt P (xs @ a # b # ys)"
  by (auto simp: sorted_wrt_append)

lemma names_apart:
  "sorted_wrt (\<lambda>a b. \<not> prefixed a b) (map name operands)"
  "sorted_wrt (\<lambda>a b. \<not> prefixed a b) (map name operators)"
proof -
  let ?xs = "map name (take 47 operands)" and ?ys = "map name (drop 49 operands)"
  have e: "map name operands = ?xs @ ''NINT'' # ''NAN'' # ?ys" by (simp add: operands_def)
  have "successively lex_less (?xs @ ''NINT'' # ?ys)" "successively lex_less (?xs @ ''NAN'' # ?ys)"
    by (simp_all add: operands_def)
  then show "sorted_wrt (\<lambda>a b. \<not> prefixed a b) (map name operands)"
    unfolding e by (intro sorted_swap successively_prefixed) simp_all
  have "successively lex_less (map name operators)" by (simp add: operators_def)
  then show "sorted_wrt (\<lambda>a b. \<not> prefixed a b) (map name operators)" by (rule successively_prefixed)
qed

lemma names_upper: "list_all (\<lambda>el. map toupper (name el) = name el \<and> CHR '' '' \<notin> set (name el)) (operands @ operators)"
  by (simp add: operands_def operators_def toupper_def)

lemma name_upper: "el \<in> set operands \<union> set operators \<Longrightarrow> map toupper (name el) = name el \<and> CHR '' '' \<notin> set (name el)"
  using names_upper by (auto simp: list_all_iff)

lemma toupper_space: "toupper (CHR '' '') = CHR '' ''"
  by (simp add: toupper_def)

lemma starts_with_prefixed:
  "map toupper src = src \<Longrightarrow> map toupper n = n \<Longrightarrow> CHR '' '' \<notin> set n \<Longrightarrow> starts_with (src @ CHR '' '' # r) n = prefixed src n"
proof (induction src n rule: prefixed.induct)
  case (2 n ns)
  then have "toupper n = n" "n \<noteq> CHR '' ''" by auto
  then show ?case by (simp add: toupper_space)
qed auto

lemma find_first: "(\<forall>x \<in> set xs. \<not> P x) \<Longrightarrow> P e \<Longrightarrow> List.find P (xs @ e # zs) = Some e"
  by (induction xs) auto

lemma prefixed_refl: "prefixed n n"
  by (induction n) auto

lemma lex_element:
  assumes el: "el \<in> set els" and els: "els = operands \<or> els = operators"
  shows "List.find (\<lambda>e. starts_with (name el @ CHR '' '' # r) (name e)) (rev els) = Some el"
proof -
  obtain xs ys where xy: "els = xs @ el # ys" using el by (meson split_list)
  have s: "sorted_wrt (\<lambda>a b. \<not> prefixed a b) (map name els)" using els names_apart by auto
  have p: "starts_with (name el @ CHR '' '' # r) (name e) = prefixed (name el) (name e)" if "e \<in> set els" for e
    using name_upper [of el] name_upper [of e] el els that starts_with_prefixed by auto
  have "\<forall>y \<in> set ys. \<not> prefixed (name el) (name y)" using s by (simp add: xy sorted_wrt_append)
  then have "\<forall>y \<in> set (rev ys). \<not> starts_with (name el @ CHR '' '' # r) (name y)" using p xy by simp
  moreover have "starts_with (name el @ CHR '' '' # r) (name el)" using p [OF el] prefixed_refl by simp
  ultimately show ?thesis unfolding xy by (simp add: find_first)
qed

lemma names_first_table: "list_all (\<lambda>el. \<not> isspace (hd (name el))) (operands @ operators)"
  by (simp add: operands_def operators_def isspace_def)

lemma name_first: "el \<in> set operands \<union> set operators \<Longrightarrow> \<not> isspace (hd (name el))"
  using names_first_table by (auto simp: list_all_iff)

lemma dropWhile_tok: "el \<in> set operands \<union> set operators \<Longrightarrow> dropWhile isspace (tok el @ r) = tok el @ r"
  using name_first [of el] names_nonempty [of el] by (cases "name el") (auto simp: tok_def)

lemma get_element_tok:
  "el \<in> set operands \<Longrightarrow> get_element True (tok el @ r) = Inr (el, tok el @ r, CHR '' '' # r)"
  "el \<in> set operators \<Longrightarrow> get_element False (tok el @ r) = Inr (el, tok el @ r, CHR '' '' # r)"
  using lex_element [of el operands r] lex_element [of el operators r] dropWhile_tok [of el r]
  by (auto simp: get_element_def Let_def tok_def)

lemma get_element_space: "get_element b (CHR '' '' # r) = get_element b r"
  by (simp add: get_element_def isspace_def)

text \<open>A literal is found by its first character.\<close>

lemma literal_table: "list_all (\<lambda>el. hd (name el) \<in> set ''.0123456789'' \<longrightarrow>
    name el = ''0X'' \<or> type el = LITERAL_OPERAND \<and> code el = LITERAL_DOUBLE \<and> runtime_effect el = 1) operands"
  by (simp add: operands_def)

lemma literal_names: "list_all (\<lambda>d. [d] \<in> set (map name operands) \<and> toupper d = d \<and> \<not> isspace d) ''.0123456789''"
  by (simp add: operands_def toupper_def isspace_def)

lemma get_element_lit:
  assumes "t \<noteq> []" "hd t \<in> set ''.0123456789''" "\<not> starts_with t ''0X''"
  obtains el rest where "get_element True (t @ CHR '' '' # r) = Inr (el, t @ CHR '' '' # r, rest)"
    "type el = LITERAL_OPERAND" "code el = LITERAL_DOUBLE" "runtime_effect el = 1"
proof -
  obtain d t' where t: "t = d # t'" using assms(1) by (cases t) auto
  have d: "[d] \<in> set (map name operands)" "toupper d = d" "\<not> isspace d"
    using literal_names assms(2) unfolding t list_all_iff by auto
  let ?P = "\<lambda>e. starts_with (t @ CHR '' '' # r) (name e)"
  obtain e where "e \<in> set (rev operands)" "name e = [d]" using d(1) by auto
  then have "List.find ?P (rev operands) \<noteq> None" by (auto simp: find_None_iff t)
  then obtain el where el: "List.find ?P (rev operands) = Some el" by auto
  then have m: "el \<in> set operands" and p: "?P el" using find_member [OF el] by auto
  have u: "map toupper (name el) = name el" "name el \<noteq> []" using name_upper [of el] names_nonempty [of el] m by auto
  then have "hd (name el) = d" using p d(2) by (cases "name el") (auto simp: t)
  moreover have "name el \<noteq> ''0X''"
  proof
    assume "name el = ''0X''"
    with p have "starts_with (t @ CHR '' '' # r) ''0X''" by simp
    with assms(3) show False by (cases t'; cases "tl t'") (auto simp: t toupper_def split: if_splits)
  qed
  ultimately have l: "type el = LITERAL_OPERAND" "code el = LITERAL_DOUBLE" "runtime_effect el = 1"
    using literal_table m assms(2) by (auto simp: list_all_iff t)
  show thesis
    by (rule that [OF _ l]) (use el d(3) in \<open>simp add: get_element_def Let_def t\<close>)
qed

end
