(* ===== verification/CalcParse.thy ===== *)
theory CalcParse
  imports CalcNotation
begin

text \<open>
  \<open>postfix\<close> as a parser: an expression in infix notation, written with parentheses only where the
  priorities need them, is translated to the code of CalcLang, which \<open>calcPerform\<close> runs to its value.
\<close>

section \<open>The elements by kind\<close>

definition is_atom :: "ELEMENT \<Rightarrow> rpn_opcode \<Rightarrow> bool" where
  "is_atom el oc \<longleftrightarrow> el \<in> set operands \<and> type el = OPERAND \<and> code el = oc \<and> runtime_effect el = 1"

definition is_func :: "ELEMENT \<Rightarrow> element_type \<Rightarrow> u8 \<Rightarrow> rpn_opcode \<Rightarrow> bool" where
  "is_func el t eff oc \<longleftrightarrow> el \<in> set operands \<and> type el = t \<and> code el = oc \<and> runtime_effect el = eff
     \<and> in_stack_pri el = 7 \<and> in_coming_pri el = 8 \<and> \<not> is_paren el"

definition is_oper :: "ELEMENT \<Rightarrow> int \<Rightarrow> rpn_opcode \<Rightarrow> bool" where
  "is_oper el q oc \<longleftrightarrow> el \<in> set operators \<and> type el = BINARY_OPERATOR \<and> code el = oc \<and> runtime_effect el = - 1
     \<and> in_stack_pri el = q \<and> in_coming_pri el = q \<and> 1 \<le> q \<and> q \<le> 6 \<and> \<not> is_paren el"

lemma atom_els:
  "n < 12 \<Longrightarrow> is_atom (opnd_el (FETCH n)) (FETCH n)" "is_atom (opnd_el FETCH_VAL) FETCH_VAL"
  "is_atom (opnd_el (CONST_OP c)) (CONST_OP c)" "is_atom (opnd_el RANDOM) RANDOM"
proof -
  assume "n < 12"
  then have "n = 0 \<or> n = 1 \<or> n = 2 \<or> n = 3 \<or> n = 4 \<or> n = 5 \<or> n = 6 \<or> n = 7 \<or> n = 8 \<or> n = 9 \<or> n = 10 \<or> n = 11"
    by presburger
  then show "is_atom (opnd_el (FETCH n)) (FETCH n)"
    by (elim disjE; hypsubst; simp add: is_atom_def opnd_el_def operands_def)
next
  show "is_atom (opnd_el (CONST_OP c)) (CONST_OP c)" by (cases c) (simp_all add: is_atom_def opnd_el_def operands_def)
qed (simp_all add: is_atom_def opnd_el_def operands_def)

lemma func_els: "is_func (opnd_el (UNARY u)) UNARY_OPERATOR 0 (UNARY u)"
    "is_func (opnd_el (VARARG v)) VARARG_OPERATOR 0 (VARARG v)"
    "is_func (opnd_el (BINARY ATAN2)) UNARY_OPERATOR (- 1) (BINARY ATAN2)"
proof -
  show "is_func (opnd_el (UNARY u)) UNARY_OPERATOR 0 (UNARY u)"
    by (cases u) (simp_all add: is_func_def opnd_el_def operands_def is_paren_def)
  show "is_func (opnd_el (VARARG v)) VARARG_OPERATOR 0 (VARARG v)"
    by (cases v) (simp_all add: is_func_def opnd_el_def operands_def is_paren_def)
qed (simp add: is_func_def opnd_el_def operands_def is_paren_def)

lemma oper_els: "f \<noteq> ATAN2 \<Longrightarrow> is_oper (oper_el (BINARY f)) (in_coming_pri (oper_el (BINARY f))) (BINARY f)"
  by (cases f) (simp_all add: is_oper_def oper_el_def operators_def is_paren_def)

section \<open>The translation stack\<close>

definition effects :: "ELEMENT list \<Rightarrow> int" where
  "effects ps = sum_list (map (\<lambda>el. sint (runtime_effect el)) ps)"

definition flush :: "ELEMENT list \<Rightarrow> u8 list" where
  "flush ps = concat (map emit ps)"

lemma stack_simps [simp]: "effects [] = 0" "effects (el # ps) = sint (runtime_effect el) + effects ps"
    "effects (ps @ qs) = effects ps + effects qs" "flush [] = []" "flush (el # ps) = emit el @ flush ps"
    "flush (ps @ qs) = flush ps @ flush qs"
  by (simp_all add: effects_def flush_def)

lemma pop_while_append:
  "(\<forall>el \<in> set ps. P el) \<Longrightarrow> stk = [] \<or> \<not> P (hd stk) \<Longrightarrow> pop_while P (ps @ stk) out d = (out @ flush ps, d + effects ps, stk)"
  by (induction ps arbitrary: out d) (auto split: list.splits, cases stk, auto)

lemma pop_while_none: "stk = [] \<or> \<not> P (hd stk) \<Longrightarrow> pop_while P stk out d = (out, d, stk)"
  by (cases stk) auto

lemma pop_paren_append:
  "(\<forall>el \<in> set ps. \<not> is_paren el) \<Longrightarrow> is_paren p \<Longrightarrow>
    pop_paren err (ps @ p # stk) out d = Ok (out @ flush ps, d + effects ps, p # stk)"
  by (induction ps arbitrary: out d) auto

lemma pop_all_append: "(\<forall>el \<in> set ps. \<not> is_paren el) \<Longrightarrow> pop_all ps out d = Ok (out @ flush ps, d + effects ps)"
  by (induction ps arbitrary: out d) auto

lemma loop_space [simp]: "postfix_loop env (CHR '' '' # r) s = postfix_loop env r s"
  by (subst (1 2) postfix_loop.simps) (simp add: get_element_space)

lemma loop_spaces [simp]: "postfix_loop env (dropWhile isspace r) s = postfix_loop env r s"
  by (subst (1 2) postfix_loop.simps) (simp add: get_element_def Let_def)

lemma loop_tok:
  assumes "el \<in> set (if operand_needed s then operands else operators)" "type el \<noteq> LITERAL_OPERAND"
    "switch_element el s = Ok s'" "0 \<le> runtime_depth s'" "runtime_depth s' < 80"
  shows "postfix_loop env (tok el @ r) s = postfix_loop env r s'"
  using assms by (subst postfix_loop.simps) (auto simp: get_element_tok do_element_def split: if_splits)

section \<open>Phrases\<close>

text \<open>\<open>top_ok stk lo\<close>: a phrase of priority \<open>lo\<close> pops nothing that was on the stack before it.\<close>

definition top_ok :: "ELEMENT list \<Rightarrow> int \<Rightarrow> bool" where
  "top_ok stk lo \<longleftrightarrow> stk = [] \<or> in_stack_pri (hd stk) < max lo 1 \<and> type (hd stk) \<noteq> VARARG_OPERATOR"

definition ready :: "pstate \<Rightarrow> int \<Rightarrow> nat \<Rightarrow> nat \<Rightarrow> bool" where
  "ready s lo nd tn \<longleftrightarrow> operand_needed s \<and> top_ok (pstk s) lo \<and> 0 \<le> runtime_depth s \<and> runtime_depth s + int nd < 80
     \<and> length (pstk s) + tn \<le> 79 \<and> 0 \<le> cond_count s"

text \<open>The state after a phrase: its code is out but for the operators \<open>ps\<close> still on the stack.\<close>

definition after :: "pstate \<Rightarrow> u8 list \<Rightarrow> ELEMENT list \<Rightarrow> pstate" where
  "after s c ps = s\<lparr>pout := pout s @ c, pstk := ps @ pstk s, operand_needed := False,
                    runtime_depth := runtime_depth s + 1 - effects ps\<rparr>"

definition phrase :: "calc_env \<Rightarrow> string \<Rightarrow> int \<Rightarrow> u8 list \<Rightarrow> nat \<Rightarrow> nat \<Rightarrow> bool" where
  "phrase env w lo cd nd tn \<longleftrightarrow> (\<forall>s. ready s lo nd tn \<longrightarrow>
     (\<exists>c ps. (\<forall>r. postfix_loop env (w @ r) s = postfix_loop env r (after s c ps)) \<and> c @ flush ps = cd
        \<and> (\<forall>el \<in> set ps. min lo 7 \<le> in_stack_pri el \<and> \<not> is_paren el)
        \<and> effects ps \<le> 0 \<and> 1 - effects ps \<le> int nd \<and> length ps \<le> tn))"

lemma phraseD:
  assumes "phrase env w lo cd nd tn" "ready s lo nd tn"
  obtains c ps where "\<And>r. postfix_loop env (w @ r) s = postfix_loop env r (after s c ps)" "c @ flush ps = cd"
    "\<forall>el \<in> set ps. min lo 7 \<le> in_stack_pri el \<and> \<not> is_paren el" "effects ps \<le> 0" "1 - effects ps \<le> int nd" "length ps \<le> tn"
  using assms unfolding phrase_def by blast

lemma phraseI:
  assumes "\<And>s. ready s lo nd tn \<Longrightarrow> \<exists>c ps. (\<forall>r. postfix_loop env (w @ r) s = postfix_loop env r (after s c ps)) \<and> c @ flush ps = cd
        \<and> (\<forall>el \<in> set ps. min lo 7 \<le> in_stack_pri el \<and> \<not> is_paren el)
        \<and> effects ps \<le> 0 \<and> 1 - effects ps \<le> int nd \<and> length ps \<le> tn"
  shows "phrase env w lo cd nd tn"
  using assms unfolding phrase_def by blast

lemma phrase_atom:
  assumes "is_atom el oc"
  shows "phrase env (tok el) lo [byte_of oc] 1 0"
proof (rule phraseI, intro exI conjI allI)
  fix s r assume "ready s lo 1 0"
  then show "postfix_loop env (tok el @ r) s = postfix_loop env r (after s [byte_of oc] [])"
    using assms by (intro loop_tok) (auto simp: is_atom_def ready_def switch_element_def add_effect_def after_def)
qed simp_all

lemma phrase_literal:
  assumes l: "lit_ok env t"
  shows "phrase env (t @ '' '') lo (literal_code env (lit_value env t)) 1 0"
proof (rule phraseI, intro exI conjI allI)
  fix s r assume s: "ready s lo 1 0"
  obtain el rest where el: "get_element True (t @ CHR '' '' # r) = Inr (el, t @ CHR '' '' # r, rest)"
      "type el = LITERAL_OPERAND" "code el = LITERAL_DOUBLE" "runtime_effect el = 1"
    using get_element_lit [of t r] l by (auto simp: lit_ok_def)
  have "dropWhile isspace (t @ CHR '' '' # r) = t @ CHR '' '' # r"
    using get_element_shorter(1) [OF el(1)] by simp
  then have p: "epicsParseDouble env (t @ CHR '' '' # r) = Some (lit_value env t, dropWhile isspace r)"
    using l by (auto simp: epicsParseDouble_def lit_ok_def Let_def isspace_def)
  show "postfix_loop env ((t @ '' '') @ r) s = postfix_loop env r (after s (literal_code env (lit_value env t)) [])"
    using s el p by (subst postfix_loop.simps, cases s)
      (auto simp: ready_def do_element_def do_literal_def add_effect_def after_def Let_def)
qed simp_all

lemma lpar_push:
  assumes "operand_needed s" "pstk s = [] \<or> in_stack_pri (hd (pstk s)) < 8" "length (pstk s) < 79"
    "0 \<le> runtime_depth s" "runtime_depth s < 80"
  shows "postfix_loop env (tok lpar @ r) s = postfix_loop env r (s\<lparr>pstk := lpar # pstk s\<rparr>)"
proof (rule loop_tok)
  have "pop_while (\<lambda>t. 8 \<le> in_stack_pri t) (pstk s) (pout s) (runtime_depth s) = (pout s, runtime_depth s, pstk s)"
    using assms by (intro pop_while_none) auto
  then show "switch_element lpar s = Ok (s\<lparr>pstk := lpar # pstk s\<rparr>)"
    using assms by (simp add: els switch_element_def do_unary_def push_def popped_def)
qed (use assms els_in in \<open>auto simp: els\<close>)

lemma lpar_step:
  assumes "ready s lo nd (Suc tn)" "lo \<le> 8"
  shows "postfix_loop env (tok lpar @ r) s = postfix_loop env r (s\<lparr>pstk := lpar # pstk s\<rparr>)"
  using assms by (intro lpar_push) (auto simp: ready_def top_ok_def)

lemma phrase_paren:
  assumes w: "phrase env w 0 cd nd tn" and lo: "lo \<le> 8"
  shows "phrase env (tok lpar @ w @ tok rpar) lo cd nd (Suc tn)"
proof (rule phraseI)
  fix s assume s: "ready s lo nd (Suc tn)"
  let ?s = "s\<lparr>pstk := lpar # pstk s\<rparr>"
  have "ready ?s 0 nd tn" using s by (auto simp: ready_def top_ok_def els)
  then obtain c ps where c: "\<And>r. postfix_loop env (w @ r) ?s = postfix_loop env r (after ?s c ps)" "c @ flush ps = cd"
      "\<forall>el \<in> set ps. min 0 7 \<le> in_stack_pri el \<and> \<not> is_paren el" "effects ps \<le> 0" "1 - effects ps \<le> int nd"
    using phraseD [OF w] by metis
  have "postfix_loop env (tok rpar @ r) (after ?s c ps) = postfix_loop env r (after s cd [])" for r
  proof (rule loop_tok)
    have "is_paren lpar" by (simp add: els is_paren_def)
    then have pp: "pop_paren CALC_ERR_PAREN_NOT_OPEN (ps @ lpar # stk) out d = Ok (out @ flush ps, d + effects ps, lpar # stk)" for stk out d
      using c(3) by (intro pop_paren_append) auto
    have v: "pstk s = [] \<or> type (hd (pstk s)) \<noteq> VARARG_OPERATOR" using s by (auto simp: ready_def top_ok_def)
    show "switch_element rpar (after ?s c ps) = Ok (after s cd [])"
      using v c(2) by (cases s; cases "pstk s") (auto simp: els(2) switch_element_def do_close_def after_def pp popped_def Let_def)
  qed (use s els_in(2) c in \<open>auto simp: ready_def els after_def\<close>)
  then show "\<exists>c ps. (\<forall>r. postfix_loop env ((tok lpar @ w @ tok rpar) @ r) s = postfix_loop env r (after s c ps)) \<and> c @ flush ps = cd
        \<and> (\<forall>el \<in> set ps. min lo 7 \<le> in_stack_pri el \<and> \<not> is_paren el)
        \<and> effects ps \<le> 0 \<and> 1 - effects ps \<le> int nd \<and> length ps \<le> Suc tn"
    using lpar_step [OF s lo] c by (intro exI [of _ cd] exI [of _ "[]"]) auto
qed

text \<open>A function applied to a phrase of priority 8.\<close>

lemma func_step:
  assumes el: "is_func el t eff oc" "t = UNARY_OPERATOR \<or> t = VARARG_OPERATOR" and s: "ready s lo nd (Suc tn)" and lo: "lo \<le> 8"
  shows "postfix_loop env (tok el @ r) s = postfix_loop env r (s\<lparr>pstk := el # pstk s\<rparr>)"
proof (rule loop_tok)
  have "pop_while (\<lambda>t. 8 \<le> in_stack_pri t) (pstk s) (pout s) (runtime_depth s) = (pout s, runtime_depth s, pstk s)"
    using s lo by (intro pop_while_none) (auto simp: ready_def top_ok_def)
  then show "switch_element el s = Ok (s\<lparr>pstk := el # pstk s\<rparr>)"
    using el s by (auto simp: is_func_def switch_element_def do_unary_def push_def popped_def ready_def)
qed (use el s in \<open>auto simp: ready_def is_func_def\<close>)

lemma emit_simple: "type el \<noteq> VARARG_OPERATOR \<Longrightarrow> emit el = [byte_of (code el)]"
  by (simp add: emit_def)

lemma phrase_func:
  assumes el: "is_func el UNARY_OPERATOR 0 oc" and w: "phrase env w 8 cd nd tn" and lo: "lo \<le> 8"
  shows "phrase env (tok el @ w) lo (cd @ [byte_of oc]) nd (Suc tn)"
proof (rule phraseI)
  fix s assume s: "ready s lo nd (Suc tn)"
  let ?s = "s\<lparr>pstk := el # pstk s\<rparr>"
  have "ready ?s 8 nd tn" using s el by (auto simp: ready_def top_ok_def is_func_def)
  then obtain c ps where c: "\<And>r. postfix_loop env (w @ r) ?s = postfix_loop env r (after ?s c ps)" "c @ flush ps = cd"
      "\<forall>el \<in> set ps. min 8 7 \<le> in_stack_pri el \<and> \<not> is_paren el" "effects ps \<le> 0" "1 - effects ps \<le> int nd" "length ps \<le> tn"
    using phraseD [OF w] by metis
  have "after ?s c ps = after s c (ps @ [el])" using el by (cases s) (simp add: after_def is_func_def)
  then have "\<forall>r. postfix_loop env ((tok el @ w) @ r) s = postfix_loop env r (after s c (ps @ [el]))"
    using func_step [OF el _ s lo] c(1) by simp
  moreover have "c @ flush (ps @ [el]) = cd @ [byte_of oc]"
    using c(2) el by (auto simp: emit_simple is_func_def)
  ultimately show "\<exists>c ps. (\<forall>r. postfix_loop env ((tok el @ w) @ r) s = postfix_loop env r (after s c ps)) \<and> c @ flush ps = cd @ [byte_of oc]
        \<and> (\<forall>el \<in> set ps. min lo 7 \<le> in_stack_pri el \<and> \<not> is_paren el)
        \<and> effects ps \<le> 0 \<and> 1 - effects ps \<le> int nd \<and> length ps \<le> Suc tn"
    using c el lo by (intro exI [of _ c] exI [of _ "ps @ [el]"]) (auto simp: is_func_def)
qed

text \<open>A binary operator between phrases of its priority and of the next.\<close>

lemma phrase_binary:
  assumes el: "is_oper el q oc" and wa: "phrase env wa q ca na ta" and wb: "phrase env wb (q + 1) cb nb tb" and lo: "lo \<le> q"
  shows "phrase env (wa @ tok el @ wb) lo (ca @ cb @ [byte_of oc]) (max na (Suc nb)) (max ta (Suc tb))"
proof (rule phraseI)
  fix s assume s: "ready s lo (max na (Suc nb)) (max ta (Suc tb))"
  have q: "1 \<le> q" "q \<le> 6" using el by (auto simp: is_oper_def)
  have "ready s q na ta" using s lo by (auto simp: ready_def top_ok_def)
  then obtain c ps where c: "\<And>r. postfix_loop env (wa @ r) s = postfix_loop env r (after s c ps)" "c @ flush ps = ca"
      "\<forall>el \<in> set ps. min q 7 \<le> in_stack_pri el \<and> \<not> is_paren el" "1 - effects ps \<le> int na"
    using phraseD [OF wa] by metis
  let ?s = "s\<lparr>pout := pout s @ ca, pstk := el # pstk s, runtime_depth := runtime_depth s + 1\<rparr>"
  have "postfix_loop env (tok el @ r) (after s c ps) = postfix_loop env r ?s" for r
  proof (rule loop_tok)
    have pw: "pop_while (\<lambda>t. q \<le> in_stack_pri t) (ps @ pstk s) out d = (out @ flush ps, d + effects ps, pstk s)" for out d
      using c(3) q lo s by (intro pop_while_append) (auto simp: ready_def top_ok_def)
    have "length (pstk s) < 79" "operand_needed s" using s by (auto simp: ready_def)
    then show "switch_element el (after s c ps) = Ok ?s"
      using el c(2) pw by (cases s) (auto simp: is_oper_def switch_element_def do_binary_def push_def popped_def after_def)
  qed (use s el c in \<open>auto simp: ready_def after_def is_oper_def\<close>)
  note step = this
  have "ready ?s (q + 1) nb tb" using s el q by (auto simp: ready_def top_ok_def is_oper_def)
  then obtain d qs where d: "\<And>r. postfix_loop env (wb @ r) ?s = postfix_loop env r (after ?s d qs)" "d @ flush qs = cb"
      "\<forall>el \<in> set qs. min (q + 1) 7 \<le> in_stack_pri el \<and> \<not> is_paren el" "effects qs \<le> 0" "1 - effects qs \<le> int nb" "length qs \<le> tb"
    using phraseD [OF wb] by metis
  have "after ?s d qs = after s (ca @ d) (qs @ [el])"
    using el by (cases s) (simp add: after_def is_oper_def)
  then have "\<forall>r. postfix_loop env ((wa @ tok el @ wb) @ r) s = postfix_loop env r (after s (ca @ d) (qs @ [el]))"
    using c(1) step d(1) by simp
  moreover have "(ca @ d) @ flush (qs @ [el]) = ca @ cb @ [byte_of oc]"
    using d(2) el by (auto simp: emit_simple is_oper_def)
  moreover have "\<forall>el \<in> set (qs @ [el]). min lo 7 \<le> in_stack_pri el \<and> \<not> is_paren el"
    using d(3) el lo q by (auto simp: is_oper_def)
  moreover have "effects (qs @ [el]) = effects qs - 1" using el by (simp add: is_oper_def)
  ultimately show "\<exists>c ps. (\<forall>r. postfix_loop env ((wa @ tok el @ wb) @ r) s = postfix_loop env r (after s c ps))
        \<and> c @ flush ps = ca @ cb @ [byte_of oc]
        \<and> (\<forall>el \<in> set ps. min lo 7 \<le> in_stack_pri el \<and> \<not> is_paren el)
        \<and> effects ps \<le> 0 \<and> 1 - effects ps \<le> int (max na (Suc nb)) \<and> length ps \<le> max ta (Suc tb)"
    using d by (intro exI [of _ "ca @ d"] exI [of _ "qs @ [el]"]) auto
qed

text \<open>A conditional: the \<open>?\<close> and the \<open>:\<close> put their codes out at once, the end of the conditional waits
  on the stack.\<close>

lemma pop_above_zero:
  assumes "\<forall>el \<in> set ps. 1 \<le> in_stack_pri el" "top_ok stk 0"
  shows "pop_while (\<lambda>t. 0 < in_stack_pri t) (ps @ stk) out d = (out @ flush ps, d + effects ps, stk)"
  using assms by (intro pop_while_append) (auto simp: top_ok_def)

lemma quest_step:
  assumes s: "ready s 0 nd tn" and ps: "\<forall>el \<in> set ps. min 1 7 \<le> in_stack_pri el \<and> \<not> is_paren el"
  shows "postfix_loop env (tok quest @ r) (after s c ps) = postfix_loop env r
    (s\<lparr>pout := pout s @ c @ flush ps @ [byte_of COND_IF], cond_count := cond_count s + 1\<rparr>)"
proof (rule loop_tok)
  have pw: "pop_while (\<lambda>t. 0 < in_stack_pri t) (ps @ pstk s) out d = (out @ flush ps, d + effects ps, pstk s)" for out d
    using ps s by (intro pop_above_zero) (auto simp: ready_def)
  show "switch_element quest (after s c ps) =
      Ok (s\<lparr>pout := pout s @ c @ flush ps @ [byte_of COND_IF], cond_count := cond_count s + 1\<rparr>)"
    using pw s by (cases s) (auto simp: els(4) switch_element_def do_conditional_def popped_def after_def Let_def ready_def)
qed (use s els_in(4) in \<open>auto simp: ready_def els(4) after_def\<close>)

abbreviation cond_end :: ELEMENT where "cond_end \<equiv> colon\<lparr>code := COND_END, runtime_effect := 0\<rparr>"

lemma colon_step:
  assumes s: "ready s 0 nd tn" "length (pstk s) < 79" "0 < cond_count s"
    and ps: "\<forall>el \<in> set ps. min 1 7 \<le> in_stack_pri el \<and> \<not> is_paren el"
  shows "postfix_loop env (tok colon @ r) (after s c ps) = postfix_loop env r
    (s\<lparr>pout := pout s @ c @ flush ps @ [byte_of COND_ELSE], cond_count := cond_count s - 1, pstk := cond_end # pstk s\<rparr>)"
proof (rule loop_tok)
  have pw: "pop_while (\<lambda>t. 0 < in_stack_pri t) (ps @ pstk s) out d = (out @ flush ps, d + effects ps, pstk s)" for out d
    using ps s by (intro pop_above_zero) (auto simp: ready_def)
  show "switch_element colon (after s c ps) = Ok (s\<lparr>pout := pout s @ c @ flush ps @ [byte_of COND_ELSE],
      cond_count := cond_count s - 1, pstk := cond_end # pstk s\<rparr>)"
    using pw s by (cases s) (auto simp: els(5) switch_element_def do_conditional_def push_def popped_def after_def Let_def ready_def)
qed (use s els_in(5) in \<open>auto simp: ready_def els(5) after_def\<close>)

lemma phrase_cond:
  assumes wc: "phrase env wc 1 cc nc tc" and wa: "phrase env wa 1 ca na ta" and wb: "phrase env wb 0 cb nb tb"
  shows "phrase env (wc @ tok quest @ wa @ tok colon @ wb) 0
    (cc @ byte_of COND_IF # ca @ byte_of COND_ELSE # cb @ [byte_of COND_END]) (max nc (max na nb)) (max tc (max ta (Suc tb)))"
    (is "phrase env ?w 0 ?cd ?nd ?tn")
proof (rule phraseI)
  fix s assume s: "ready s 0 ?nd ?tn"
  have "ready s 1 nc tc" using s by (auto simp: ready_def top_ok_def)
  then obtain c ps where c: "\<And>r. postfix_loop env (wc @ r) s = postfix_loop env r (after s c ps)" "c @ flush ps = cc"
      "\<forall>el \<in> set ps. min 1 7 \<le> in_stack_pri el \<and> \<not> is_paren el"
    using phraseD [OF wc] by metis
  let ?s1 = "s\<lparr>pout := pout s @ c @ flush ps @ [byte_of COND_IF], cond_count := cond_count s + 1\<rparr>"
  have "ready ?s1 1 na ta" using s by (auto simp: ready_def top_ok_def)
  then obtain d qs where d: "\<And>r. postfix_loop env (wa @ r) ?s1 = postfix_loop env r (after ?s1 d qs)" "d @ flush qs = ca"
      "\<forall>el \<in> set qs. min 1 7 \<le> in_stack_pri el \<and> \<not> is_paren el"
    using phraseD [OF wa] by metis
  let ?s2 = "?s1\<lparr>pout := pout ?s1 @ d @ flush qs @ [byte_of COND_ELSE], cond_count := cond_count ?s1 - 1, pstk := cond_end # pstk ?s1\<rparr>"
  have "ready ?s2 0 nb tb" using s by (auto simp: ready_def top_ok_def els(5))
  then obtain e rs where e: "\<And>r. postfix_loop env (wb @ r) ?s2 = postfix_loop env r (after ?s2 e rs)" "e @ flush rs = cb"
      "\<forall>el \<in> set rs. min 0 7 \<le> in_stack_pri el \<and> \<not> is_paren el" "effects rs \<le> 0" "1 - effects rs \<le> int nb" "length rs \<le> tb"
    using phraseD [OF wb] by metis
  let ?c = "cc @ byte_of COND_IF # ca @ byte_of COND_ELSE # e" and ?ps = "rs @ [cond_end]"
  have s1: "ready ?s1 0 na ta" "length (pstk ?s1) < 79" "0 < cond_count ?s1" using s by (auto simp: ready_def)
  have "after ?s2 e rs = after s ?c ?ps"
    using c(2) d(2) by (cases s) (auto simp: after_def els(5))
  then have "\<forall>r. postfix_loop env (?w @ r) s = postfix_loop env r (after s ?c ?ps)"
    using c(1) quest_step [OF s c(3)] d(1) colon_step [OF s1 d(3)] e(1) by simp
  moreover have "?c @ flush ?ps = ?cd" using e(2) by (simp add: emit_def els(5))
  moreover have "\<forall>el \<in> set ?ps. min 0 7 \<le> in_stack_pri el \<and> \<not> is_paren el" using e(3) by (auto simp: els(5) is_paren_def)
  moreover have "effects ?ps = effects rs" by simp
  ultimately show "\<exists>c ps. (\<forall>r. postfix_loop env (?w @ r) s = postfix_loop env r (after s c ps)) \<and> c @ flush ps = ?cd
        \<and> (\<forall>el \<in> set ps. min 0 7 \<le> in_stack_pri el \<and> \<not> is_paren el)
        \<and> effects ps \<le> 0 \<and> 1 - effects ps \<le> int ?nd \<and> length ps \<le> ?tn"
    using e(4-6) by (intro exI [of _ ?c] exI [of _ ?ps]) auto
qed

text \<open>The arguments of a function, inside its parentheses: each comma lowers the effect of the
  parenthesis on the stack.\<close>

definition par :: "nat \<Rightarrow> ELEMENT" where
  "par n = lpar\<lparr>runtime_effect := 1 - of_nat n\<rparr>"

lemma par_simps [simp]: "is_paren (par n)" "in_stack_pri (par n) = 0" "type (par n) = UNARY_OPERATOR"
    "runtime_effect (par n) = 1 - of_nat n" "(par n)\<lparr>runtime_effect := e\<rparr> = lpar\<lparr>runtime_effect := e\<rparr>" "par (Suc 0) = lpar"
  by (simp_all add: par_def els(1) is_paren_def)

lemma par_dec: "lpar\<lparr>runtime_effect := - of_nat n\<rparr> = par (Suc n)"
  by (simp add: par_def)

definition arg_phrase :: "calc_env \<Rightarrow> string \<Rightarrow> nat \<Rightarrow> u8 list \<Rightarrow> nat \<Rightarrow> nat \<Rightarrow> bool" where
  "arg_phrase env w n cd nd tn \<longleftrightarrow> (\<forall>s st. ready s 0 nd tn \<and> pstk s = lpar # st \<longrightarrow>
     (\<exists>c ps. (\<forall>r. postfix_loop env (w @ r) s = postfix_loop env r
          (s\<lparr>pout := pout s @ c, pstk := ps @ par n # st, operand_needed := False,
             runtime_depth := runtime_depth s + int n - effects ps\<rparr>)) \<and> c @ flush ps = cd
        \<and> (\<forall>el \<in> set ps. \<not> is_paren el) \<and> int n - effects ps \<le> int nd \<and> effects ps \<le> 0))"

lemma arg_phrase_one:
  assumes w: "phrase env w 0 cd nd tn"
  shows "arg_phrase env w 1 cd nd tn"
  unfolding arg_phrase_def
proof (intro allI impI, elim conjE)
  fix s st assume s: "ready s 0 nd tn" "pstk s = lpar # st"
  obtain c ps where c: "\<And>r. postfix_loop env (w @ r) s = postfix_loop env r (after s c ps)" "c @ flush ps = cd"
      "\<forall>el \<in> set ps. min 0 7 \<le> in_stack_pri el \<and> \<not> is_paren el" "effects ps \<le> 0" "1 - effects ps \<le> int nd"
    using phraseD [OF w s(1)] by metis
  then show "\<exists>c ps. (\<forall>r. postfix_loop env (w @ r) s = postfix_loop env r
          (s\<lparr>pout := pout s @ c, pstk := ps @ par 1 # st, operand_needed := False,
             runtime_depth := runtime_depth s + int 1 - effects ps\<rparr>)) \<and> c @ flush ps = cd
        \<and> (\<forall>el \<in> set ps. \<not> is_paren el) \<and> int 1 - effects ps \<le> int nd \<and> effects ps \<le> 0"
    using s(2) by (intro exI [of _ c] exI [of _ ps]) (auto simp: after_def)
qed

lemma arg_phrase_snoc:
  assumes ws: "arg_phrase env ws n cs ns ts" and w: "phrase env w 0 cd nd tn"
  shows "arg_phrase env (ws @ tok comma @ w) (Suc n) (cs @ cd) (max ns (n + nd)) (max ts tn)"
  unfolding arg_phrase_def
proof (intro allI impI, elim conjE)
  fix s st assume s: "ready s 0 (max ns (n + nd)) (max ts tn)" "pstk s = lpar # st"
  have "ready s 0 ns ts" using s by (auto simp: ready_def)
  then obtain c ps where c: "\<And>r. postfix_loop env (ws @ r) s = postfix_loop env r
          (s\<lparr>pout := pout s @ c, pstk := ps @ par n # st, operand_needed := False,
             runtime_depth := runtime_depth s + int n - effects ps\<rparr>)" "c @ flush ps = cs"
        "\<forall>el \<in> set ps. \<not> is_paren el" "int n - effects ps \<le> int ns" "effects ps \<le> 0"
    using ws s(2) unfolding arg_phrase_def by metis
  let ?s = "s\<lparr>pout := pout s @ cs, pstk := par (Suc n) # st, runtime_depth := runtime_depth s + int n\<rparr>"
  have step: "postfix_loop env (tok comma @ r) (s\<lparr>pout := pout s @ c, pstk := ps @ par n # st, operand_needed := False,
             runtime_depth := runtime_depth s + int n - effects ps\<rparr>) = postfix_loop env r ?s" for r
  proof (rule loop_tok)
    have pp: "pop_paren CALC_ERR_BAD_SEPERATOR (ps @ par n # st) out d = Ok (out @ flush ps, d + effects ps, par n # st)" for out d
      using c(3) by (intro pop_paren_append) auto
    show "switch_element comma (s\<lparr>pout := pout s @ c, pstk := ps @ par n # st, operand_needed := False,
             runtime_depth := runtime_depth s + int n - effects ps\<rparr>) = Ok ?s"
      using s(1) c(2) by (cases s) (auto simp: els(3) switch_element_def do_separator_def pp popped_def Let_def par_dec ready_def)
  qed (use s els_in(3) c in \<open>auto simp: ready_def els(3)\<close>)
  have "ready ?s 0 nd tn" using s by (auto simp: ready_def top_ok_def)
  then obtain d qs where d: "\<And>r. postfix_loop env (w @ r) ?s = postfix_loop env r (after ?s d qs)" "d @ flush qs = cd"
      "\<forall>el \<in> set qs. min 0 7 \<le> in_stack_pri el \<and> \<not> is_paren el" "effects qs \<le> 0" "1 - effects qs \<le> int nd"
    using phraseD [OF w] by metis
  have "after ?s d qs = s\<lparr>pout := pout s @ cs @ d, pstk := qs @ par (Suc n) # st, operand_needed := False,
             runtime_depth := runtime_depth s + int (Suc n) - effects qs\<rparr>"
    by (cases s) (simp add: after_def)
  then have "\<forall>r. postfix_loop env ((ws @ tok comma @ w) @ r) s = postfix_loop env r
      (s\<lparr>pout := pout s @ cs @ d, pstk := qs @ par (Suc n) # st, operand_needed := False,
             runtime_depth := runtime_depth s + int (Suc n) - effects qs\<rparr>)"
    using c(1) step d(1) by simp
  then show "\<exists>c ps. (\<forall>r. postfix_loop env ((ws @ tok comma @ w) @ r) s = postfix_loop env r
          (s\<lparr>pout := pout s @ c, pstk := ps @ par (Suc n) # st, operand_needed := False,
             runtime_depth := runtime_depth s + int (Suc n) - effects ps\<rparr>)) \<and> c @ flush ps = cs @ cd
        \<and> (\<forall>el \<in> set ps. \<not> is_paren el) \<and> int (Suc n) - effects ps \<le> int (max ns (n + nd)) \<and> effects ps \<le> 0"
    using d by (intro exI [of _ "cs @ d"] exI [of _ qs]) auto
qed

lemma sint_args: "n \<le> 80 \<Longrightarrow> sint (1 - of_nat n :: u8) = 1 - int n"
proof -
  assume n: "n \<le> 80"
  have "(1 - of_nat n :: u8) = word_of_int (1 - int n)" by simp
  then show "sint (1 - of_nat n :: u8) = 1 - int n"
    using n signed_take_bit_int_eq_self [of 7 "1 - int n"] by (simp only: sint_sbintrunc') simp
qed

text \<open>A call. The parenthesis counts the commas; a function of variably many arguments takes its effect
  over, the function of two arguments has its own.\<close>

lemma phrase_call:
  assumes el: "is_func el t eff oc" and t: "t = VARARG_OPERATOR \<and> eff = 0 \<or> t = UNARY_OPERATOR \<and> eff = - 1 \<and> n = 2"
    and w: "arg_phrase env w n cd nd tn" and n: "1 \<le> n" and lo: "lo \<le> 8"
  shows "phrase env (tok el @ tok lpar @ w @ tok rpar) lo
    (cd @ byte_of oc # (if t = VARARG_OPERATOR then [of_nat n] else [])) nd (Suc (Suc tn))"
    (is "phrase env ?w lo ?cd nd _")
proof (rule phraseI)
  fix s assume s: "ready s lo nd (Suc (Suc tn))"
  let ?s = "s\<lparr>pstk := lpar # el # pstk s\<rparr>"
  have "postfix_loop env (tok lpar @ r) (s\<lparr>pstk := el # pstk s\<rparr>) = postfix_loop env r ?s" for r
    using lpar_push [of "s\<lparr>pstk := el # pstk s\<rparr>" env r] s el by (auto simp: ready_def is_func_def)
  then have opened: "postfix_loop env (tok el @ tok lpar @ r) s = postfix_loop env r ?s" for r
    using func_step [OF el _ s lo, of env "tok lpar @ r"] t by auto
  have "ready ?s 0 nd tn" "pstk ?s = lpar # el # pstk s" using s by (auto simp: ready_def top_ok_def els(1))
  then obtain c ps where c: "\<And>r. postfix_loop env (w @ r) ?s = postfix_loop env r
          (?s\<lparr>pout := pout ?s @ c, pstk := ps @ par n # el # pstk s, operand_needed := False,
             runtime_depth := runtime_depth ?s + int n - effects ps\<rparr>)" "c @ flush ps = cd"
        "\<forall>el \<in> set ps. \<not> is_paren el" "int n - effects ps \<le> int nd" "effects ps \<le> 0"
    using w unfolding arg_phrase_def by metis
  let ?s1 = "?s\<lparr>pout := pout ?s @ c, pstk := ps @ par n # el # pstk s, operand_needed := False,
             runtime_depth := runtime_depth ?s + int n - effects ps\<rparr>"
  have n80: "n \<le> 80" using c(4,5) s by (auto simp: ready_def)
  let ?el = "if t = VARARG_OPERATOR then el\<lparr>runtime_effect := 1 - of_nat n\<rparr> else el"
  have eff: "effects [?el] = 1 - int n" using el t sint_args [OF n80] by (auto simp: is_func_def)
  have "postfix_loop env (tok rpar @ r) ?s1 = postfix_loop env r (after s cd [?el])" for r
  proof (rule loop_tok)
    have pp: "pop_paren CALC_ERR_PAREN_NOT_OPEN (ps @ par n # stk) out d = Ok (out @ flush ps, d + effects ps, par n # stk)" for stk out d
      using c(3) by (intro pop_paren_append) auto
    have np: "\<not> 0 < sint (1 - of_nat n :: u8)" using sint_args [OF n80] n by simp
    show "switch_element rpar ?s1 = Ok (after s cd [?el])"
      using el t c(2) eff np by (cases s) (auto simp: els(2) is_func_def switch_element_def do_close_def pp popped_def after_def Let_def)
    show "0 \<le> runtime_depth (after s cd [?el])" "runtime_depth (after s cd [?el]) < 80"
      using s eff c(4,5) n by (auto simp: after_def ready_def)
  qed (use s els_in(2) in \<open>auto simp: els(2)\<close>)
  then have "\<forall>r. postfix_loop env (?w @ r) s = postfix_loop env r (after s cd [?el])"
    using opened c(1) by simp
  moreover have "cd @ flush [?el] = ?cd" using el t by (auto simp: is_func_def emit_def)
  moreover have "\<forall>x \<in> set [?el]. min lo 7 \<le> in_stack_pri x \<and> \<not> is_paren x" using el by (auto simp: is_func_def is_paren_def)
  ultimately show "\<exists>c ps. (\<forall>r. postfix_loop env (?w @ r) s = postfix_loop env r (after s c ps)) \<and> c @ flush ps = ?cd
        \<and> (\<forall>el \<in> set ps. min lo 7 \<le> in_stack_pri el \<and> \<not> is_paren el)
        \<and> effects ps \<le> 0 \<and> 1 - effects ps \<le> int nd \<and> length ps \<le> Suc (Suc tn)"
    using eff n c(4,5) by (intro exI [of _ cd] exI [of _ "[?el]"]) auto
qed

section \<open>Every expression is parsed\<close>

text \<open>A bound on the translation stack an expression needs.\<close>

fun tneed :: "expr \<Rightarrow> nat" and tneeds :: "exprs \<Rightarrow> nat" where
  "tneed (Unop u e) = Suc (tneed e)"
| "tneed (Binop f a b) = Suc (Suc (max (tneed a) (Suc (tneed b))))"
| "tneed (Call v es) = Suc (Suc (tneeds es))"
| "tneed (Cond c a b) = Suc (max (tneed c) (max (tneed a) (Suc (tneed b))))"
| "tneed _ = 0"
| "tneeds (One e) = tneed e"
| "tneeds (Snoc es e) = max (tneeds es) (tneed e)"

lemma phrase_mono: "phrase env w lo cd nd tn \<Longrightarrow> nd \<le> nd' \<Longrightarrow> tn \<le> tn' \<Longrightarrow> phrase env w lo cd nd' tn'"
proof (rule phraseI)
  fix s assume w: "phrase env w lo cd nd tn" "nd \<le> nd'" "tn \<le> tn'" and s: "ready s lo nd' tn'"
  then have "ready s lo nd tn" by (auto simp: ready_def)
  then obtain c ps where c: "\<And>r. postfix_loop env (w @ r) s = postfix_loop env r (after s c ps)" "c @ flush ps = cd"
      "\<forall>el \<in> set ps. min lo 7 \<le> in_stack_pri el \<and> \<not> is_paren el" "effects ps \<le> 0" "1 - effects ps \<le> int nd" "length ps \<le> tn"
    using phraseD [OF w(1)] by metis
  then show "\<exists>c ps. (\<forall>r. postfix_loop env (w @ r) s = postfix_loop env r (after s c ps)) \<and> c @ flush ps = cd
        \<and> (\<forall>el \<in> set ps. min lo 7 \<le> in_stack_pri el \<and> \<not> is_paren el)
        \<and> effects ps \<le> 0 \<and> 1 - effects ps \<le> int nd' \<and> length ps \<le> tn'"
    using w(2,3) by (intro exI [of _ c] exI [of _ ps]) auto
qed

lemma phrase_pr:
  "expr_ok env e \<Longrightarrow> 0 \<le> lo \<Longrightarrow> lo \<le> 8 \<Longrightarrow> phrase env (pr lo e) lo (compile env e) (need e) (tneed e)"
  "exprs_ok env es \<Longrightarrow> arg_phrase env (prs es) (nargs es) (compiles env es) (needs es) (tneeds es)"
proof (induction e and es arbitrary: lo)
  case (Lit t)
  then show ?case using phrase_literal by simp
next
  case (Unop u e)
  then show ?case using phrase_func [OF func_els(1)] by simp
next
  case (Binop f a b)
  show ?case
  proof (cases "f = ATAN2")
    case True
    have "arg_phrase env (pr 0 a @ tok comma @ pr 0 b) (Suc 1) (compile env a @ compile env b)
        (max (need a) (1 + need b)) (max (tneed a) (tneed b))"
      using Binop by (intro arg_phrase_snoc arg_phrase_one) simp_all
    from phrase_call [OF func_els(3) _ this _ Binop.prems(3)]
    have "phrase env (pr lo (Binop f a b)) lo (compile env (Binop f a b)) (need (Binop f a b)) (Suc (Suc (max (tneed a) (tneed b))))"
      using True by simp
    then show ?thesis by (rule phrase_mono) simp_all
  next
    case False
    let ?el = "oper_el (BINARY f)" and ?q = "in_coming_pri (oper_el (BINARY f))"
    note el = oper_els [OF False]
    have q: "1 \<le> ?q" "?q \<le> 6" using el by (auto simp: is_oper_def)
    have b: "phrase env (pr ?q a @ tok ?el @ pr (?q + 1) b) lo' (compile env a @ compile env b @ [byte_of (BINARY f)])
        (max (need a) (Suc (need b))) (max (tneed a) (Suc (tneed b)))" if "lo' \<le> ?q" for lo'
      using Binop q that by (intro phrase_binary [OF el]) simp_all
    show ?thesis
    proof (cases "?q < lo")
      case True
      have "phrase env (tok lpar @ (pr ?q a @ tok ?el @ pr (?q + 1) b) @ tok rpar) lo (compile env (Binop f a b)) (need (Binop f a b)) (Suc (max (tneed a) (Suc (tneed b))))"
        using phrase_paren [OF b Binop.prems(3)] q by simp
      then have "phrase env (tok lpar @ (pr ?q a @ tok ?el @ pr (?q + 1) b) @ tok rpar) lo (compile env (Binop f a b)) (need (Binop f a b)) (tneed (Binop f a b))"
        by (rule phrase_mono) (simp_all add: max_def)
      then show ?thesis using False True by (simp add: Let_def)
    next
      case nq: False
      then have "phrase env (pr ?q a @ tok ?el @ pr (?q + 1) b) lo (compile env (Binop f a b)) (need (Binop f a b)) (max (tneed a) (Suc (tneed b)))"
        using b [of lo] by simp
      then have "phrase env (pr ?q a @ tok ?el @ pr (?q + 1) b) lo (compile env (Binop f a b)) (need (Binop f a b)) (tneed (Binop f a b))"
        by (rule phrase_mono) (simp_all add: max_def)
      then show ?thesis using False nq by (simp add: Let_def)
    qed
  qed
next
  case (Call v es)
  then show ?case
    using phrase_call [OF func_els(2) _ Call.IH _ Call.prems(3)] need_pos(2) [of es] by simp
next
  case (Cond c a b)
  have p: "phrase env (pr 1 c @ tok quest @ pr 1 a @ tok colon @ pr 0 b) 0 (compile env (Cond c a b)) (need (Cond c a b))
      (max (tneed c) (max (tneed a) (Suc (tneed b))))"
    using Cond phrase_cond [of env "pr 1 c" "compile env c"] by simp
  show ?case
  proof (cases "0 < lo")
    case True
    then show ?thesis using phrase_paren [OF p Cond.prems(3)] by simp
  next
    case False
    then have "lo = 0" using Cond.prems by simp
    moreover have "phrase env (pr 1 c @ tok quest @ pr 1 a @ tok colon @ pr 0 b) 0 (compile env (Cond c a b)) (need (Cond c a b)) (tneed (Cond c a b))"
      using p by (rule phrase_mono) (simp_all add: max_def)
    ultimately show ?thesis by simp
  qed
next
  case (One e)
  then show ?case using arg_phrase_one by simp
next
  case (Snoc es e)
  then show ?case using arg_phrase_snoc by simp
qed (use phrase_atom [OF atom_els(1)] phrase_atom [OF atom_els(2)] phrase_atom [OF atom_els(3)] phrase_atom [OF atom_els(4)] in simp_all)

lemma phrase_top: "expr_ok env e \<Longrightarrow> phrase env (pr 0 e) 0 (compile env e) (need e) (tneed e)"
  by (rule phrase_pr(1)) simp_all

section \<open>Programs\<close>

fun pr_prog :: "(nat \<times> expr) list \<Rightarrow> expr \<Rightarrow> string" where
  "pr_prog [] e = pr 0 e"
| "pr_prog ((n, x) # asg) e = tok (opnd_el (FETCH n)) @ tok assign @ pr 0 x @ tok semi @ pr_prog asg e"

fun parse_ok :: "calc_env \<Rightarrow> (nat \<times> expr) list \<Rightarrow> expr \<Rightarrow> bool" where
  "parse_ok env [] e = (expr_ok env e \<and> need e \<le> 79 \<and> tneed e \<le> 79)"
| "parse_ok env ((n, x) # asg) e = (n < 12 \<and> expr_ok env x \<and> need x \<le> 79 \<and> tneed x \<le> 78 \<and> parse_ok env asg e)"

lemma parse_prog_ok: "parse_ok env asg e \<Longrightarrow> prog_ok env asg e"
  by (induction asg) auto

text \<open>Between the expressions of a program: nothing is pending.\<close>

abbreviation fresh :: "u8 list \<Rightarrow> pstate" where
  "fresh out \<equiv> \<lparr>pout = out, pstk = [], operand_needed = True, runtime_depth = 0, cond_count = 0\<rparr>"

lemma get_element_end: "get_element b [] = Inl []"
  by (simp add: get_element_def)

lemma parse_last:
  assumes "expr_ok env e" "need e \<le> 79" "tneed e \<le> 79"
  shows "postfix_loop env (pr 0 e) (fresh out) = Ok (out @ compile env e @ [byte_of END_EXPRESSION])"
proof -
  have "ready (fresh out) 0 (need e) (tneed e)" using assms by (simp add: ready_def top_ok_def)
  with phrase_top [OF assms(1)] obtain c ps where c: "\<And>r. postfix_loop env (pr 0 e @ r) (fresh out) = postfix_loop env r (after (fresh out) c ps)"
      "c @ flush ps = compile env e" "\<forall>el \<in> set ps. min 0 7 \<le> in_stack_pri el \<and> \<not> is_paren el"
    by (rule phraseD) auto
  have "pop_all ps u d = Ok (u @ flush ps, d + effects ps)" for u d using c(3) by (intro pop_all_append) auto
  then have "postfix_loop env [] (after (fresh out) c ps) = Ok (out @ compile env e @ [byte_of END_EXPRESSION])"
    using c(2) by (subst postfix_loop.simps) (auto simp: get_element_end finish_def after_def)
  then show ?thesis using c(1) [of "[]"] by simp
qed

lemma store_code: "n < 12 \<Longrightarrow> opcodes ! (unat (byte_of (STORE 0)) + unat (byte_of (FETCH n)) - unat (byte_of (FETCH 0))) = STORE n
    \<and> unat (byte_of (FETCH 0)) \<le> unat (byte_of (FETCH n)) \<and> unat (byte_of (FETCH n)) \<le> unat (byte_of (FETCH 11))"
proof -
  assume "n < 12"
  then have "n = 0 \<or> n = 1 \<or> n = 2 \<or> n = 3 \<or> n = 4 \<or> n = 5 \<or> n = 6 \<or> n = 7 \<or> n = 8 \<or> n = 9 \<or> n = 10 \<or> n = 11"
    by presburger
  then show ?thesis by (elim disjE; hypsubst; simp add: byte_of_def opcodes_def)
qed

lemma parse_assignment:
  assumes x: "expr_ok env x" "need x \<le> 79" "tneed x \<le> 78" and n: "n < 12"
  shows "postfix_loop env (tok (opnd_el (FETCH n)) @ tok assign @ pr 0 x @ tok semi @ r) (fresh out) =
    postfix_loop env r (fresh (out @ compile env x @ [byte_of (STORE n)]))"
proof -
  let ?st = "assign\<lparr>code := STORE n\<rparr>"
  let ?s = "(fresh out)\<lparr>pstk := [?st]\<rparr>"
  have v: "postfix_loop env (tok (opnd_el (FETCH n)) @ r) (fresh out) = postfix_loop env r (after (fresh out) [byte_of (FETCH n)] [])" for r
    using atom_els(1) [OF n]
    by (intro loop_tok) (auto simp: is_atom_def switch_element_def add_effect_def after_def)
  have a: "postfix_loop env (tok assign @ r) (after (fresh out) [byte_of (FETCH n)] []) = postfix_loop env r ?s" for r
  proof (rule loop_tok)
    show "switch_element assign (after (fresh out) [byte_of (FETCH n)] []) = Ok ?s"
      using store_code [OF n] by (simp add: els(7) switch_element_def do_store_def after_def not_less)
  qed (use els_in(7) in \<open>auto simp: els(7) after_def\<close>)
  have "ready ?s 0 (need x) (tneed x)" using x by (simp add: ready_def top_ok_def els(7))
  with phrase_top [OF x(1)] obtain c ps where c: "\<And>r. postfix_loop env (pr 0 x @ r) ?s = postfix_loop env r (after ?s c ps)"
      "c @ flush ps = compile env x" "\<forall>el \<in> set ps. min 0 7 \<le> in_stack_pri el \<and> \<not> is_paren el"
      "1 - effects ps \<le> int (need x)"
    by (rule phraseD) auto
  have "postfix_loop env (tok semi @ r) (after ?s c ps) = postfix_loop env r (fresh (out @ compile env x @ [byte_of (STORE n)]))"
  proof (rule loop_tok)
    have p: "pop_all (ps @ [?st]) u d = Ok (u @ flush (ps @ [?st]), d + effects (ps @ [?st]))" for u d
      using c(3) by (intro pop_all_append) (auto simp: els(7) is_paren_def)
    have "c @ flush (ps @ [?st]) = compile env x @ [byte_of (STORE n)]" using c(2) by (auto simp: els(7) emit_def)
    then show "switch_element semi (after ?s c ps) = Ok (fresh (out @ compile env x @ [byte_of (STORE n)]))"
      using p by (simp add: els(6) switch_element_def do_terminator_def after_def) (simp add: els(7))
  qed (use els_in(6) in \<open>auto simp: els(6) after_def\<close>)
  then show ?thesis using v a c(1) by simp
qed

lemma parse_prog: "parse_ok env asg e \<Longrightarrow> postfix_loop env (pr_prog asg e) (fresh out) = Ok (out @ compile_prog env asg e)"
proof (induction asg arbitrary: out)
  case Nil
  then show ?case using parse_last by simp
next
  case (Cons a asg)
  then show ?case using parse_assignment by (cases a) simp
qed

lemma postfix_prog: "parse_ok env asg e \<Longrightarrow> postfix env (Some (pr_prog asg e)) = Ok (compile_prog env asg e)"
  using parse_prog [of env asg e "[]"] parse_prog [of env asg e "[0]"]
  by (cases "pr_prog asg e") (auto simp: postfix_def postfix_loop.simps [of env "[]"] get_element_end finish_def)

text \<open>C17: \<open>postfix\<close> and \<open>calcPerform\<close> together compute what the infix notation means. A program, written with
  parentheses only where the priorities of the element table need them, is accepted and translated to its
  code, whatever its operators, functions, conditionals and assignments, as long as it needs fewer than 80
  values and the translation stack holds its pending elements; running that code returns 0 and the value
  of the program.\<close>

theorem calc_evaluates_notation:
  assumes "env_ok env" "parse_ok env asg e"
  shows "postfix env (Some (pr_prog asg e)) = Ok (compile_prog env asg e) \<and>
    calcPerform env s (compile_prog env asg e) = (case eval_prog env s asg e of
      None \<Rightarrow> Undefined | Some (v, s') \<Rightarrow> Finished 0 (s'\<lparr>presult := v\<rparr>))"
  unfolding calcPerform_def using postfix_prog [OF assms(2)] exec_prog [OF assms(1) parse_prog_ok [OF assms(2)]] by blast

text \<open>An environment whose doubles are stored as integers, and a program in it.\<close>

definition calc_env1 :: calc_env where
  "calc_env1 = calc_env0\<lparr>
     d_bytes := \<lambda>d. (case d of Fin q \<Rightarrow> int_bytes (word_of_int \<lfloor>q\<rfloor>) | _ \<Rightarrow> int_bytes 0) @ [0, 0, 0, 0],
     d_value := \<lambda>bs. dint (sint (int_value (take 4 bs)))\<rparr>"

lemma calc_env1_ok: "env_ok calc_env1"
  using calc_env0_ok by (simp add: env_ok_def calc_env1_def)

lemma literal_25: "lit_value calc_env1 ''25'' = Fin 25" "lit_ok calc_env1 ''25''"
proof -
  have d: "dint 25 = Fin 25" using dint_exact [of 25] by simp
  show v: "lit_value calc_env1 ''25'' = Fin 25"
    by (simp add: lit_value_def calc_env1_def calc_env0_def digits_value_def Let_def d)
  show "lit_ok calc_env1 ''25''"
    unfolding lit_ok_def v
    by (simp add: calc_env1_def calc_env0_def digits_value_def Let_def d toupper_def int_bytes_def int_value_def)
qed

lemma arithmetic_25: "dadd (Fin 1) (Fin 25) = Fin 26" "dsub (Fin 6) (Fin 25) = Fin (- 19)"
    "dmul (Fin 26) (Fin (- 19)) = Fin (- 494)"
  using dround_of_int [of 26] dround_of_int [of "- 19"] dround_of_int [of "- 494"]
  by (simp_all add: dadd_def dsub_def dmul_def dround_sign [of _ True])

lemma example_toks:
  "tok (opnd_el (FETCH 0)) = ''A ''" "tok (opnd_el (FETCH (Suc 0))) = ''B ''" "tok (opnd_el (FETCH 2)) = ''C ''"
  "tok (opnd_el (FETCH 3)) = ''D ''" "tok (opnd_el FETCH_VAL) = ''VAL ''" "tok (opnd_el (VARARG MAX_OF)) = ''MAX ''"
  by (simp_all add: tok_def opnd_el_def operands_def)

lemma example_opers:
  "oper_el (BINARY ADD) = element ''+'' 4 4 (- 1) BINARY_OPERATOR (BINARY ADD)"
  "oper_el (BINARY SUB) = element ''-'' 4 4 (- 1) BINARY_OPERATOR (BINARY SUB)"
  "oper_el (BINARY MULT) = element ''*'' 5 5 (- 1) BINARY_OPERATOR (BINARY MULT)"
  "oper_el (BINARY GR_THAN) = element ''>'' 3 3 (- 1) BINARY_OPERATOR (BINARY GR_THAN)"
  by (simp_all add: oper_el_def operators_def)

theorem calc_evaluates_notation_witness:
  "\<exists>code. postfix calc_env1 (Some ''A := B + 25 ; A > C ? A * ( D - 25 ) : MAX ( A , VAL ) '') = Ok code \<and>
     calcPerform calc_env1 \<lparr>parg = [Fin 0, Fin 1, Fin 5, Fin 6, Fin 0, Fin 0, Fin 0, Fin 0, Fin 0, Fin 0, Fin 0, Fin 0],
       presult = Fin 9, seed = 1\<rparr> code =
     Finished 0 \<lparr>parg = [Fin 26, Fin 1, Fin 5, Fin 6, Fin 0, Fin 0, Fin 0, Fin 0, Fin 0, Fin 0, Fin 0, Fin 0],
       presult = Fin (- 494), seed = 1\<rparr>"
proof -
  let ?asg = "[(0, Binop ADD (Arg 1) (Lit ''25''))]"
  let ?e = "Cond (Binop GR_THAN (Arg 0) (Arg 2)) (Binop MULT (Arg 0) (Binop SUB (Arg 3) (Lit ''25'')))
    (Call MAX_OF (Snoc (One (Arg 0)) Val))"
  let ?s = "\<lparr>parg = [Fin 0, Fin 1, Fin 5, Fin 6, Fin 0, Fin 0, Fin 0, Fin 0, Fin 0, Fin 0, Fin 0, Fin 0],
       presult = Fin 9, seed = 1\<rparr>"
  have "parse_ok calc_env1 ?asg ?e" using literal_25 by simp
  note run = calc_evaluates_notation [OF calc_env1_ok this, of ?s]
  have p: "pr_prog ?asg ?e = ''A := B + 25 ; A > C ? A * ( D - 25 ) : MAX ( A , VAL ) ''"
    by (simp add: example_toks example_opers els tok_def [of "element n a b c d e" for n a b c d e])
  have "eval_prog calc_env1 ?s ?asg ?e =
      Some (Fin (- 494), ?s\<lparr>parg := [Fin 26, Fin 1, Fin 5, Fin 6, Fin 0, Fin 0, Fin 0, Fin 0, Fin 0, Fin 0, Fin 0, Fin 0]\<rparr>)"
    by (simp add: literal_25 arithmetic_25 truth_def deq_def dle_def dlt_def bin_val_def dbool_def)
  with run show ?thesis unfolding p by simp
qed

end
