(* ===== verification/DbTypes.thy ===== *)
theory DbTypes
  imports RecGbl
begin

text \<open>
  The values that travel between record fields and clients: the memory of a field as an array of the C
  type of the field, the C conversions between the numeric types, and the loops that the conversion
  routines of dbConvert.c share.
\<close>

section \<open>The C type float\<close>

text \<open>A \<open>float\<close> is a double whose value binary32 has: 24 significant bits, least exponent \<open>-149\<close>.\<close>

type_synonym float = double

definition fquantum :: "rat \<Rightarrow> rat" where
  "fquantum a = pow2 (max (ilog2 a - 23) (- 149))"

definition fround :: "rat \<Rightarrow> float" where
  "fround x =
     (if x = 0 then Fin 0
      else let y = of_int (rne (\<bar>x\<bar> / fquantum \<bar>x\<bar>)) * fquantum \<bar>x\<bar>
           in if y = 0 then (if x < 0 then NegZero else Fin 0)
              else if 2 ^ 128 \<le> y then Infinity (x < 0)
              else Fin (sgn x * y))"

text \<open>The conversion of an integer, and of a double.\<close>

definition fint :: "int \<Rightarrow> float" where
  "fint i = fround (of_int i)"

fun ftrunc :: "double \<Rightarrow> float" where
  "ftrunc (Fin q) = fround q"
| "ftrunc d = d"

definition FLT_MAX :: double where "FLT_MAX = Fin ((2 ^ 24 - 1) * 2 ^ 104)"
definition FLT_MIN :: double where "FLT_MIN = Fin (1 / 2 ^ 126)"

text \<open>\<open>epicsConvertDoubleToFloat\<close> of epicsConvert.c: what does not fit is clamped.\<close>

definition epicsConvertDoubleToFloat :: "double \<Rightarrow> float" where
  "epicsConvertDoubleToFloat v =
     (if deq v (Fin 0) then Fin 0
      else if \<not> dfinite v then ftrunc v
      else let a = (if dlt v (Fin 0) then dneg v else v)
           in if dle FLT_MAX a then (if dlt (Fin 0) v then FLT_MAX else dneg FLT_MAX)
              else if dle a FLT_MIN then (if dlt (Fin 0) v then FLT_MIN else dneg FLT_MIN)
              else ftrunc v)"

section \<open>Fields and buffers\<close>

text \<open>An array of one of the numeric types, or of strings (each without its terminating NUL).\<close>

datatype dbbuf = Strings "string list" | Chars "u8 list" | Uchars "u8 list" | Shorts "u16 list" | Ushorts "u16 list"
  | Longs "u32 list" | Ulongs "u32 list" | Floats "float list" | Doubles "double list" | Enums "u16 list"

fun un_Strings where "un_Strings (Strings xs) = Some xs" | "un_Strings _ = None"
fun un_Chars where "un_Chars (Chars xs) = Some xs" | "un_Chars _ = None"
fun un_Uchars where "un_Uchars (Uchars xs) = Some xs" | "un_Uchars _ = None"
fun un_Shorts where "un_Shorts (Shorts xs) = Some xs" | "un_Shorts _ = None"
fun un_Ushorts where "un_Ushorts (Ushorts xs) = Some xs" | "un_Ushorts _ = None"
fun un_Longs where "un_Longs (Longs xs) = Some xs" | "un_Longs _ = None"
fun un_Ulongs where "un_Ulongs (Ulongs xs) = Some xs" | "un_Ulongs _ = None"
fun un_Floats where "un_Floats (Floats xs) = Some xs" | "un_Floats _ = None"
fun un_Doubles where "un_Doubles (Doubles xs) = Some xs" | "un_Doubles _ = None"
fun un_Enums where "un_Enums (Enums xs) = Some xs" | "un_Enums _ = None"

text \<open>\<open>struct dbFldDes\<close> and \<open>DBADDR\<close> (dbBase.h, dbAddr.h), as far as the data access routines look at them.\<close>

record dbFldDes =
  fld_name :: string
  fld_type :: dbf_type
  fld_special :: nat
  process_passive :: bool
  fld_prop :: bool

record db_addr = dbAddr +
  pfldDes :: "dbFldDes option"
  addr_elements :: int
  addr_size :: int

text \<open>Whether plain \<open>char\<close> is signed is the ABI's choice.\<close>

record conv_env =
  plain_signed :: bool

section \<open>Numeric conversions\<close>

text \<open>The range of an integer type.\<close>

definition int_range :: "conv_env \<Rightarrow> dbf_type \<Rightarrow> int \<times> int" where
  "int_range env t = (case t of
     DBF_CHAR \<Rightarrow> if plain_signed env then (- 128, 127) else (0, 255)
   | DBF_UCHAR \<Rightarrow> (0, 255)
   | DBF_SHORT \<Rightarrow> (- 32768, 32767)
   | DBF_USHORT \<Rightarrow> (0, 65535)
   | DBF_LONG \<Rightarrow> (- 2147483648, 2147483647)
   | DBF_ULONG \<Rightarrow> (0, 4294967295)
   | DBF_ENUM \<Rightarrow> (0, 65535)
   | _ \<Rightarrow> (0, 0))"

text \<open>The cast of a floating point number to an integer type: undefined (\<open>None\<close>) out of its range.\<close>

definition dcast :: "conv_env \<Rightarrow> dbf_type \<Rightarrow> double \<Rightarrow> int option" where
  "dcast env t d = (if \<not> dfinite d then None
     else let i = trunc_rat (dval d); (lo, hi) = int_range env t
          in if lo \<le> i \<and> i \<le> hi then Some i else None)"

definition dcast_word :: "conv_env \<Rightarrow> dbf_type \<Rightarrow> double \<Rightarrow> 'a::len word option" where
  "dcast_word env t d = map_option word_of_int (dcast env t d)"

section \<open>Reading a field\<close>

text \<open>
  \<open>(status, elements)\<close>: the elements are what is written to the client's buffer from its start. \<open>None\<close> is
  undefined behaviour: a read outside the field, or a cast of a value out of range.
\<close>

type_synonym ('a, 'b) getconv = "conv_env \<Rightarrow> db_addr \<Rightarrow> 'a list \<Rightarrow> int \<Rightarrow> int \<Rightarrow> int \<Rightarrow> (int \<times> 'b list) option"

text \<open>\<open>memmove\<close> of \<open>n\<close> elements from the index \<open>i\<close>.\<close>

definition mem_read :: "'a list \<Rightarrow> int \<Rightarrow> int \<Rightarrow> 'a list option" where
  "mem_read xs i n = (if 0 \<le> i \<and> 0 \<le> n \<and> i + n \<le> int (length xs) then Some (take (nat n) (drop (nat i) xs)) else None)"

definition copyNoConvert :: "'a list \<Rightarrow> int \<Rightarrow> int \<Rightarrow> int \<Rightarrow> 'a list option" where
  "copyNoConvert pfrom nRequest no_bytes offset =
     (if 0 < offset \<and> offset < no_bytes \<and> no_bytes < offset + nRequest
      then let n = no_bytes - offset
           in case mem_read pfrom offset n of None \<Rightarrow> None
              | Some a \<Rightarrow> map_option (\<lambda>b. a @ b) (mem_read pfrom 0 (nRequest - n))
      else mem_read pfrom offset nRequest)"

text \<open>\<open>while (nRequest) { *pbuffer++ = conv( *psrc++ ); if (++offset == no_elements) psrc = pfield; nRequest--; }\<close>\<close>

fun get_loop :: "('a \<Rightarrow> 'b option) \<Rightarrow> 'a list \<Rightarrow> int \<Rightarrow> nat \<Rightarrow> int \<Rightarrow> int \<Rightarrow> 'b list option" where
  "get_loop conv pfield no_elements 0 psrc offset = Some []"
| "get_loop conv pfield no_elements (Suc n) psrc offset =
     (if 0 \<le> psrc \<and> psrc < int (length pfield)
      then case conv (pfield ! nat psrc) of None \<Rightarrow> None
           | Some y \<Rightarrow> let offset = offset + 1; psrc = (if offset = no_elements then 0 else psrc + 1)
                       in map_option (\<lambda>ys. y # ys) (get_loop conv pfield no_elements n psrc offset)
      else None)"

text \<open>A routine with this loop, and the shortcut for a single element in front of it. A negative request
  never counts down to 0 before it leaves the memory.\<close>

definition get_conv :: "('a \<Rightarrow> 'b option) \<Rightarrow> 'a list \<Rightarrow> int \<Rightarrow> int \<Rightarrow> int \<Rightarrow> (int \<times> 'b list) option" where
  "get_conv conv pfield nRequest no_elements offset =
     (if nRequest = 1 \<and> offset = 0
      then (case pfield of [] \<Rightarrow> None | x # _ \<Rightarrow> map_option (\<lambda>y. (0, [y])) (conv x))
      else if nRequest < 0 then None
      else map_option (\<lambda>ys. (0, ys)) (get_loop conv pfield no_elements (nat nRequest) offset offset))"

text \<open>A routine between types of one representation.\<close>

definition get_copy :: "'a list \<Rightarrow> int \<Rightarrow> int \<Rightarrow> int \<Rightarrow> (int \<times> 'a list) option" where
  "get_copy pfield nRequest no_elements offset =
     (if nRequest = 1 \<and> offset = 0
      then (case pfield of [] \<Rightarrow> None | x # _ \<Rightarrow> Some (0, [x]))
      else map_option (\<lambda>ys. (0, ys)) (copyNoConvert pfield nRequest no_elements offset))"

text \<open>The prefix of \<open>getCharChar\<close> and \<open>getCharUchar\<close>: a string field read as an array of characters is
  terminated by a NUL in the last element.\<close>

definition is_string_field :: "db_addr \<Rightarrow> bool" where
  "is_string_field paddr = (case pfldDes paddr of Some d \<Rightarrow> fld_type d = DBF_STRING | None \<Rightarrow> False)"

definition get_chars :: "db_addr \<Rightarrow> u8 list \<Rightarrow> int \<Rightarrow> int \<Rightarrow> int \<Rightarrow> (int \<times> u8 list) option" where
  "get_chars paddr pfield nRequest no_elements offset =
     (if is_string_field paddr
      then let nRequest = nRequest - 1
           in if nRequest < 0 then None
              else if nRequest = 0 then Some (0, [0])
              else map_option (\<lambda>(status, ys). (status, ys @ [0])) (get_copy pfield nRequest no_elements offset)
      else get_copy pfield nRequest no_elements offset)"

section \<open>Writing a field\<close>

text \<open>\<open>(status, field)\<close>: the field after the routine.\<close>

type_synonym ('a, 'b) putconv =
  "conv_env \<Rightarrow> db_addr \<Rightarrow> 'b list \<Rightarrow> 'a list \<Rightarrow> int \<Rightarrow> int \<Rightarrow> int \<Rightarrow> (int \<times> 'b list) option"

fun put_loop :: "('a \<Rightarrow> 'b option) \<Rightarrow> 'b list \<Rightarrow> int \<Rightarrow> nat \<Rightarrow> 'a list \<Rightarrow> int \<Rightarrow> int \<Rightarrow> 'b list option" where
  "put_loop conv pfield no_elements 0 pbuffer pdest offset = Some pfield"
| "put_loop conv pfield no_elements (Suc n) [] pdest offset = None"
| "put_loop conv pfield no_elements (Suc n) (x # pbuffer) pdest offset =
     (if 0 \<le> pdest \<and> pdest < int (length pfield)
      then case conv x of None \<Rightarrow> None
           | Some y \<Rightarrow> let offset = offset + 1
                       in put_loop conv (pfield[nat pdest := y]) no_elements n pbuffer
                            (if offset = no_elements then 0 else pdest + 1) offset
      else None)"

definition put_one :: "('a \<Rightarrow> 'b option) \<Rightarrow> 'b list \<Rightarrow> 'a list \<Rightarrow> (int \<times> 'b list) option" where
  "put_one conv pfield pbuffer = (case (pfield, pbuffer) of
     (_ # _, x # _) \<Rightarrow> map_option (\<lambda>y. (0, pfield[0 := y])) (conv x)
   | _ \<Rightarrow> None)"

definition put_conv :: "('a \<Rightarrow> 'b option) \<Rightarrow> 'b list \<Rightarrow> 'a list \<Rightarrow> int \<Rightarrow> int \<Rightarrow> int \<Rightarrow> (int \<times> 'b list) option" where
  "put_conv conv pfield pbuffer nRequest no_elements offset =
     (if nRequest = 1 \<and> offset = 0 then put_one conv pfield pbuffer
      else if nRequest < 0 then None
      else map_option (\<lambda>ys. (0, ys)) (put_loop conv pfield no_elements (nat nRequest) pbuffer offset offset))"

text \<open>The copying routines call \<open>copyNoConvert\<close> with the offset on the buffer they read.\<close>

definition put_copy :: "'a list \<Rightarrow> 'a list \<Rightarrow> int \<Rightarrow> int \<Rightarrow> int \<Rightarrow> (int \<times> 'a list) option" where
  "put_copy pfield pbuffer nRequest no_elements offset =
     (if nRequest = 1 \<and> offset = 0 then put_one Some pfield pbuffer
      else case copyNoConvert pbuffer nRequest no_elements offset of None \<Rightarrow> None
           | Some ys \<Rightarrow> if length ys \<le> length pfield then Some (0, ys @ drop (length ys) pfield) else None)"

end
