(* ===== verification/CvtFast.thy ===== *)
theory CvtFast
  imports DbTypes Posix
begin

text \<open>
  libCom/cvtFast/cvtFast.c: numbers printed without \<open>sprintf\<close>. A routine returns the text it writes at
  \<open>pdest\<close> without the NUL (its length is the value of the C function); \<open>None\<close> is undefined behaviour: a digit
  written outside its local array, or a cast out of range.
\<close>

section \<open>Integers\<close>

definition digit_to_ascii :: string where
  "digit_to_ascii = ''0123456789''"

definition hex_digit_to_ascii :: string where
  "hex_digit_to_ascii = ''0123456789abcdef''"

definition show_int :: "int \<Rightarrow> string" where
  "show_int i = (if i < 0 then CHR ''-'' # show_nat (nat (- i)) else show_nat (nat i))"

text \<open>The loop \<open>for (i=0; val!=0; i++)\<close> that fills \<open>digit\<close>, whose size is \<open>cap\<close>; the loop after it copies the
  array backwards, so the text is returned in that order.\<close>

fun digit_loop :: "string \<Rightarrow> nat \<Rightarrow> nat \<Rightarrow> nat \<Rightarrow> string option" where
  "digit_loop ascii base 0 val = (if val = 0 then Some [] else None)"
| "digit_loop ascii base (Suc cap) val =
     (if val = 0 then Some []
      else let temp = val div base
           in map_option (\<lambda>ds. ds @ [ascii ! (val - temp * base)]) (digit_loop ascii base cap temp))"

text \<open>\<open>CHAR_MIN\<close> is that of plain \<open>char\<close>, although \<open>source\<close> is a \<open>signed char\<close>.\<close>

definition CHAR_MIN :: "conv_env \<Rightarrow> int" where
  "CHAR_MIN env = (if plain_signed env then - 128 else 0)"

definition cvtCharToString :: "conv_env \<Rightarrow> u8 \<Rightarrow> string option" where
  "cvtCharToString env source =
     (if source = 0 then Some ''0''
      else if sint source < 0
        then if sint source = CHAR_MIN env then Some (show_int (CHAR_MIN env))
             else map_option (\<lambda>ds. CHR ''-'' # ds) (digit_loop digit_to_ascii 10 3 (unat (- source)))
      else digit_loop digit_to_ascii 10 3 (unat source))"

definition cvtUcharToString :: "u8 \<Rightarrow> string option" where
  "cvtUcharToString source =
     (if source = 0 then Some ''0'' else digit_loop digit_to_ascii 10 3 (unat source))"

definition cvtShortToString :: "u16 \<Rightarrow> string option" where
  "cvtShortToString source =
     (if source = 0 then Some ''0''
      else if sint source < 0
        then if sint source = - 32768 then Some (show_int (- 32768))
             else map_option (\<lambda>ds. CHR ''-'' # ds) (digit_loop digit_to_ascii 10 6 (unat (- source)))
      else digit_loop digit_to_ascii 10 6 (unat source))"

definition cvtUshortToString :: "u16 \<Rightarrow> string option" where
  "cvtUshortToString source =
     (if source = 0 then Some ''0'' else digit_loop digit_to_ascii 10 5 (unat source))"

definition cvtLongToString :: "u32 \<Rightarrow> string option" where
  "cvtLongToString source =
     (if source = 0 then Some ''0''
      else if sint source < 0
        then if sint source = - 2147483648 then Some (show_int (- 2147483648))
             else map_option (\<lambda>ds. CHR ''-'' # ds) (digit_loop digit_to_ascii 10 11 (unat (- source)))
      else digit_loop digit_to_ascii 10 11 (unat source))"

definition cvtUlongToString :: "u32 \<Rightarrow> string option" where
  "cvtUlongToString source =
     (if source = 0 then Some ''0'' else digit_loop digit_to_ascii 10 10 (unat source))"

definition cvtLongToHexString :: "u32 \<Rightarrow> string option" where
  "cvtLongToHexString source =
     (if source = 0 then Some ''0''
      else if sint source < 0
        then if sint source = - 2147483648 then Some ''-0x80000000''
             else map_option (\<lambda>ds. ''-0x'' @ ds) (digit_loop hex_digit_to_ascii 16 10 (unat (- source)))
      else map_option (\<lambda>ds. ''0x'' @ ds) (digit_loop hex_digit_to_ascii 16 10 (unat source)))"

definition cvtLongToOctalString :: "u32 \<Rightarrow> string option" where
  "cvtLongToOctalString source =
     (if source = 0 then Some ''0''
      else if sint source < 0
        then if sint source = - 2147483648 then Some ''-020000000000''
             else map_option (\<lambda>ds. ''-0'' @ ds) (digit_loop digit_to_ascii 8 16 (unat (- source)))
      else map_option (\<lambda>ds. ''0'' @ ds) (digit_loop digit_to_ascii 8 16 (unat source)))"

section \<open>Bit fields\<close>

text \<open>\<open>1<<bitFieldLength\<close> and the other shifts are undefined from the width of \<open>int\<close> on; \<open>1<<31\<close> overflows, and
  so does subtracting 1 from it.\<close>

definition cvtBitsToUlong :: "u32 \<Rightarrow> nat \<Rightarrow> nat \<Rightarrow> u32 option" where
  "cvtBitsToUlong src bitFieldOffset bitFieldLength =
     (if 32 \<le> bitFieldOffset \<or> 31 \<le> bitFieldLength then None
      else let src = drop_bit bitFieldOffset src; mask = push_bit bitFieldLength 1 - 1
           in Some (src AND mask))"

definition cvtUlongToBits :: "u32 \<Rightarrow> u32 \<Rightarrow> nat \<Rightarrow> nat \<Rightarrow> u32 option" where
  "cvtUlongToBits src dest bitFieldOffset bitFieldLength =
     (if 32 \<le> bitFieldOffset \<or> 31 \<le> bitFieldLength then None
      else let mask = push_bit bitFieldLength 1 - 1;
               mask = push_bit bitFieldOffset mask;
               src = push_bit bitFieldOffset src
           in Some ((dest AND NOT mask) OR (src AND mask)))"

section \<open>Floating point numbers\<close>

text \<open>\<open>fmt_e w p v\<close> and \<open>fmt_f p v\<close> are what \<open>sprintf\<close> makes of \<open>"%w.pe"\<close> and \<open>"%.pf"\<close>.\<close>

record printf_env = conv_env +
  fmt_e :: "nat \<Rightarrow> nat \<Rightarrow> double \<Rightarrow> string"
  fmt_f :: "nat \<Rightarrow> double \<Rightarrow> string"

definition frac_multiplier :: "int list" where
  "frac_multiplier = [1, 10, 100, 1000, 10000, 100000, 1000000, 10000000, 100000000]"

text \<open>The loop over \<open>iplace\<close> that prints the whole part, most significant place first.\<close>

fun whole_loop :: "int list \<Rightarrow> bool \<Rightarrow> int \<Rightarrow> string" where
  "whole_loop [] got_one whole = (if got_one then [] else ''0'')"
| "whole_loop (iplace # places) got_one whole =
     (if iplace \<le> whole
      then let number = whole div iplace; whole = whole - number * iplace
           in digit_char (nat number) # whole_loop places True whole
      else if got_one then CHR ''0'' # whole_loop places got_one whole
      else whole_loop places got_one whole)"

fun frac_loop :: "nat \<Rightarrow> int \<Rightarrow> int \<Rightarrow> string" where
  "frac_loop 0 fplace fraction = []"
| "frac_loop (Suc i) fplace fraction =
     (let number = fraction div fplace; fraction = fraction - number * fplace
      in digit_char (nat number) # frac_loop i (fplace div 10) fraction)"

abbreviation places :: "int list" where
  "places \<equiv> [10000000, 1000000, 100000, 10000, 1000, 100, 10, 1]"

text \<open>What both routines do with the whole part and the ten times too large fraction; the numbers are not
  negative, so \<open>div\<close> is the division of C.\<close>

definition fixed_point :: "nat \<Rightarrow> int \<Rightarrow> int \<Rightarrow> string" where
  "fixed_point precision whole fraction =
     (let fplace = frac_multiplier ! precision;
          fraction = (fraction + 5) div 10;
          carry = 1 \<le> fraction div fplace;
          whole = (if carry then whole + 1 else whole);
          fraction = (if carry then fraction - fplace else fraction)
      in whole_loop places False whole @
         (if precision > 0 then CHR ''.'' # frac_loop precision (fplace div 10) fraction else []))"

text \<open>Arithmetic on \<open>float\<close> rounds the exact result; here it is on finite numbers, of which only the value is
  looked at.\<close>

definition cvtFloatToString :: "printf_env \<Rightarrow> float \<Rightarrow> nat \<Rightarrow> string option" where
  "cvtFloatToString env flt_value precision =
     (if isnan flt_value \<or> 8 < precision \<or> dlt (Fin 10000000) flt_value \<or> dlt flt_value (Fin (- 10000000))
      then Some (fmt_e env 12 5 flt_value)
      else
        let neg = dlt flt_value (Fin 0);
            flt_value = (if neg then dneg flt_value else flt_value)
        in case dtoint 32 flt_value of None \<Rightarrow> None | Some whole \<Rightarrow>
        let ftemp = fround (dval flt_value - dval (fint whole));
            product = fround (dval ftemp * dval (fint (frac_multiplier ! precision)))
        in case dtoint 32 (fround (dval product * dval (fint 10))) of None \<Rightarrow> None | Some fraction \<Rightarrow>
        Some ((if neg then ''-'' else []) @ fixed_point precision whole fraction))"

definition cvtDoubleToString :: "printf_env \<Rightarrow> double \<Rightarrow> nat \<Rightarrow> string option" where
  "cvtDoubleToString env flt_value precision =
     (if isnan flt_value \<or> 8 < precision \<or> dlt (Fin 10000000) flt_value \<or> dlt flt_value (Fin (- 10000000))
      then if 8 < precision \<or> dlt (Fin 10000000000000000) flt_value \<or> dlt flt_value (Fin (- 10000000000000000))
           then let precision = (if 17 < precision then 17 else precision)
                in Some (fmt_e env (precision + 7) precision flt_value)
           else let precision = (if 3 < precision then 3 else precision)
                in Some (fmt_f env precision flt_value)
      else
        let neg = dlt flt_value (Fin 0);
            flt_value = (if neg then dneg flt_value else flt_value)
        in case dtoint 32 flt_value of None \<Rightarrow> None | Some whole \<Rightarrow>
        let ftemp = dsub flt_value (dint whole);
            product = dmul (dmul ftemp (dint (frac_multiplier ! precision))) (dint 10)
        in case dtoint 32 product of None \<Rightarrow> None | Some fraction \<Rightarrow>
        Some ((if neg then ''-'' else []) @ fixed_point precision whole fraction))"

definition cvtFloatToExpString :: "printf_env \<Rightarrow> float \<Rightarrow> nat \<Rightarrow> string option" where
  "cvtFloatToExpString env f_value f_precision = Some (fmt_e env 0 f_precision f_value)"

definition cvtDoubleToExpString :: "printf_env \<Rightarrow> double \<Rightarrow> nat \<Rightarrow> string option" where
  "cvtDoubleToExpString env f_value f_precision = Some (fmt_e env 0 f_precision f_value)"

text \<open>The constants \<open>1.e4\<close> and \<open>1.e-4\<close> are doubles; the second is the one nearest to \<open>1/10000\<close>.\<close>

definition is_compact :: "double \<Rightarrow> bool" where
  "is_compact v \<longleftrightarrow> dlt v (Fin 10000) \<and> dlt (dround False (1 / 10000)) v
     \<or> dlt (Fin (- 10000)) v \<and> dlt v (dneg (dround False (1 / 10000))) \<or> deq v (Fin 0)"

definition cvtFloatToCompactString :: "printf_env \<Rightarrow> float \<Rightarrow> nat \<Rightarrow> string option" where
  "cvtFloatToCompactString env f_value f_precision =
     (if is_compact f_value then cvtFloatToString env f_value f_precision
      else cvtFloatToExpString env f_value f_precision)"

definition cvtDoubleToCompactString :: "printf_env \<Rightarrow> double \<Rightarrow> nat \<Rightarrow> string option" where
  "cvtDoubleToCompactString env f_value f_precision =
     (if is_compact f_value then cvtDoubleToString env f_value f_precision
      else cvtDoubleToExpString env f_value f_precision)"

section \<open>Integers are printed exactly\<close>

lemma show_nat_div: "10 \<le> n \<Longrightarrow> show_nat n = show_nat (n div 10) @ [digit_char (n mod 10)]"
  by (subst show_nat.simps) simp

lemma digit_ascii: "d < 10 \<Longrightarrow> digit_to_ascii ! d = digit_char d"
  by (subgoal_tac "d \<in> {0, 1, 2, 3, 4, 5, 6, 7, 8, 9}")
    (auto simp: digit_to_ascii_def digit_char_def char_of_def bit_0)

lemma digit_char_0: "digit_char 0 = CHR ''0''"
  by (simp add: digit_char_def char_of_def bit_0)

text \<open>With room for the digits the loop prints the number.\<close>

lemma digit_loop_decimal: "0 < val \<Longrightarrow> val < 10 ^ cap \<Longrightarrow> digit_loop digit_to_ascii 10 cap val = Some (show_nat val)"
proof (induction cap arbitrary: val)
  case (Suc cap)
  have d: "val - val div 10 * 10 = val mod 10" by (rule minus_div_mult_eq_mod)
  show ?case
  proof (cases "val < 10")
    case True
    then show ?thesis using Suc.prems
      by (cases cap) (simp_all add: digit_ascii show_nat.simps [of val])
  next
    case False
    have "digit_loop digit_to_ascii 10 cap (val div 10) = Some (show_nat (val div 10))"
      using False Suc.prems by (intro Suc.IH) auto
    then show ?thesis using False Suc.prems d
      by (simp add: digit_ascii show_nat_div del: digit_loop.simps(1)) 
  qed
qed simp


lemma uint_of_sint:
  fixes w :: "'a::len word"
  shows "uint w = sint w mod 2 ^ LENGTH('a)" "uint (- w) = (- sint w) mod 2 ^ LENGTH('a)"
proof -
  have "w = word_of_int (sint w)" "- w = word_of_int (- sint w)" by simp_all
  then show "uint w = sint w mod 2 ^ LENGTH('a)" "uint (- w) = (- sint w) mod 2 ^ LENGTH('a)"
    by (metis uint_word_of_int)+
qed

lemma sint_below:
  fixes w :: "'a::len word"
  shows "sint w < 2 ^ LENGTH('a)" "- sint w < 2 ^ LENGTH('a)"
proof -
  have "2 ^ (LENGTH('a) - 1) < (2 :: int) ^ LENGTH('a)" by (rule power_strict_increasing) simp_all
  then show "sint w < 2 ^ LENGTH('a)" "- sint w < 2 ^ LENGTH('a)"
    using sint_greater_eq [of w] sint_less [of w] unfolding One_nat_def by linarith+
qed

lemma unat_minus_sint: "sint w < 0 \<Longrightarrow> unat (- w) = nat (- sint w)" "sint w < 0 \<Longrightarrow> 0 < unat (- w)"
  for w :: "'a::len word"
  using uint_of_sint(2) [of w] sint_below(2) [of w] by (simp_all add: unat_eq_nat_uint)

lemma sint_eq_uint_nonneg: "0 \<le> sint w \<Longrightarrow> sint w = uint w" for w :: "'a::len word"
  using uint_of_sint(1) [of w] sint_below(1) [of w] by simp

lemma show_int_0: "show_int 0 = ''0''"
  by (simp add: show_int_def show_nat.simps digit_char_0)

lemma signed_prints:
  fixes w :: "'a::len word"
  assumes "(2 :: nat) ^ LENGTH('a) \<le> 10 ^ cap"
  shows "(if w = 0 then Some ''0'' else if sint w < 0
           then if sint w = m then Some (show_int m)
                else map_option (\<lambda>ds. CHR ''-'' # ds) (digit_loop digit_to_ascii 10 cap (unat (- w)))
           else digit_loop digit_to_ascii 10 cap (unat w)) = Some (show_int (sint w))"
proof -
  have lt: "unat v < 10 ^ cap" for v :: "'a word"
    using unsigned_less [where 'a = nat, of v] assms by (rule order_less_le_trans)
  have pos: "0 < unat v \<Longrightarrow> digit_loop digit_to_ascii 10 cap (unat v) = Some (show_nat (unat v))" for v :: "'a word"
    by (rule digit_loop_decimal [OF _ lt])
  show ?thesis
    using pos [of w] pos [of "- w"] unat_minus_sint [of w] sint_eq_uint_nonneg [of w]
    by (cases "w = 0"; cases "sint w < 0") (simp_all add: show_int_0 unat_gt_0, simp_all add: show_int_def)
qed

lemma unsigned_prints:
  fixes w :: "'a::len word"
  assumes "(2 :: nat) ^ LENGTH('a) \<le> 10 ^ cap"
  shows "(if w = 0 then Some ''0'' else digit_loop digit_to_ascii 10 cap (unat w)) = Some (show_int (uint w))"
  using digit_loop_decimal [of "unat w" cap] unsigned_less [of w, where ?'a = nat] assms
  by (cases "w = 0") (simp_all add: show_int_0 unat_gt_0, simp add: show_int_def)

lemma cvt_unsigned_prints:
  "cvtUcharToString a = Some (show_int (uint a))" "cvtUshortToString b = Some (show_int (uint b))"
  "cvtUlongToString c = Some (show_int (uint c))"
  unfolding cvtUcharToString_def cvtUshortToString_def cvtUlongToString_def
  by (rule unsigned_prints, simp)+

lemma cvt_signed_prints:
  "cvtCharToString env a = Some (show_int (sint a))" "cvtShortToString b = Some (show_int (sint b))"
  "cvtLongToString c = Some (show_int (sint c))"
  unfolding cvtCharToString_def cvtShortToString_def cvtLongToString_def
  by (rule signed_prints, simp)+

section \<open>Floating point numbers are printed to the nearest decimal\<close>

text \<open>The last \<open>k\<close> decimal digits of a number.\<close>

primrec pad :: "nat \<Rightarrow> nat \<Rightarrow> string" where
  "pad 0 n = []"
| "pad (Suc k) n = digit_char (n div 10 ^ k mod 10) # pad k n"

lemma pad_props [simp]: "length (pad k n) = k" "\<forall>c \<in> set (pad k n). is_digit c"
  by (induction k) simp_all

lemma pad_snoc: "pad (Suc k) n = pad k (n div 10) @ [digit_char (n mod 10)]"
  by (induction k) (simp_all add: div_mult2_eq)

lemma read_pad: "read_nat (pad k n) = n mod 10 ^ k"
proof (induction k arbitrary: n)
  case (Suc k)
  have "read_nat (pad (Suc k) n) = 10 * (n div 10 mod 10 ^ k) + n mod 10"
    unfolding pad_snoc by (simp add: Suc.IH)
  then show ?case by (simp add: mod_mult2_eq)
qed (simp add: read_nat_def)

lemma show_nat_pad: "10 ^ k \<le> n \<Longrightarrow> n < 10 ^ Suc k \<Longrightarrow> show_nat n = pad (Suc k) n"
proof (induction k arbitrary: n)
  case 0
  then show ?case by (simp add: show_nat.simps)
next
  case (Suc k)
  have "(10 :: nat) \<le> 10 ^ Suc k" by simp
  then have "10 \<le> n" using Suc.prems(1) by (rule order_trans)
  then have "show_nat n = show_nat (n div 10) @ [digit_char (n mod 10)]" by (rule show_nat_div)
  also have "show_nat (n div 10) = pad (Suc k) (n div 10)" using Suc.prems by (intro Suc.IH) auto
  finally show ?case by (simp only: pad_snoc [of "Suc k"])
qed

text \<open>The loops, on numbers below the first place.\<close>

definition tens :: "nat \<Rightarrow> int list" where
  "tens k = map (\<lambda>i. 10 ^ i) (rev [0..<k])"

lemma tens_Suc: "tens (Suc k) = 10 ^ k # tens k"
  by (simp add: tens_def)

lemma places_tens: "places = tens 8"
  by (simp add: tens_def upt_rec)

lemma pad_mod: "pad k (n mod 10 ^ k) = pad k n"
proof -
  have "pad j (n mod 10 ^ k) = pad j n" if "j \<le> k" for j
    using that
  proof (induction j)
    case (Suc j)
    have "n mod 10 ^ k div 10 ^ j mod 10 = n div 10 ^ j mod 10"
    proof -
      have "(10 :: nat) ^ k = 10 ^ j * 10 ^ (k - j)" using Suc.prems by (simp flip: power_add)
      then have "n mod 10 ^ k div 10 ^ j = n div 10 ^ j mod 10 ^ (k - j)"
        by (simp add: mod_mult2_eq)
      moreover have "(10 :: nat) dvd 10 ^ (k - j)" using Suc.prems by (simp add: dvd_power)
      ultimately show ?thesis by (simp add: mod_mod_cancel)
    qed
    then show ?case using Suc by simp
  qed simp
  then show ?thesis by simp
qed

lemma whole_loop_got: "whole_loop (tens k) True (int n) = pad k n" if "n < 10 ^ k"
  using that
proof (induction k arbitrary: n)
  case (Suc k)
  have s: "int n - int n div 10 ^ k * 10 ^ k = int (n mod 10 ^ k)"
    by (simp add: minus_div_mult_eq_mod of_nat_mod)
  have d: "n div 10 ^ k < 10" using Suc.prems by (simp add: less_mult_imp_div_less)
  have v: "nat (int n div 10 ^ k) = n div 10 ^ k" by (simp add: nat_div_distrib nat_power_eq)
  have "whole_loop (tens k) True (int (n mod 10 ^ k)) = pad k n"
    using Suc.IH [of "n mod 10 ^ k"] by (simp add: pad_mod)
  moreover have "n mod 10 ^ k = n" "n div 10 ^ k = 0" if "\<not> 10 ^ k \<le> n" using that by simp_all
  ultimately show ?case using s d v
    by (cases "10 ^ k \<le> n") (simp_all add: tens_Suc digit_char_0 Let_def)
qed (simp add: tens_def)

lemma whole_loop_start: "n < 10 ^ k \<Longrightarrow> whole_loop (tens k) False (int n) = show_nat n"
proof (induction k)
  case 0
  then show ?case by (simp add: tens_def show_nat.simps digit_char_0)
next
  case (Suc k)
  show ?case
  proof (cases "10 ^ k \<le> n")
    case True
    then have "whole_loop (tens (Suc k)) False (int n) = whole_loop (tens (Suc k)) True (int n)"
      by (simp add: tens_Suc)
    then show ?thesis using whole_loop_got [OF Suc.prems] show_nat_pad [OF True Suc.prems] by (simp only:)
  next
    case False
    then show ?thesis using Suc.IH by (simp add: tens_Suc)
  qed
qed

lemma frac_loop_pad: "f < 10 ^ k \<Longrightarrow> frac_loop k (10 ^ k div 10) (int f) = pad k f"
proof (induction k arbitrary: f)
  case (Suc k)
  have s: "int f - int f div 10 ^ k * 10 ^ k = int (f mod 10 ^ k)"
    by (simp add: minus_div_mult_eq_mod of_nat_mod)
  have d: "f div 10 ^ k < 10" using Suc.prems by (simp add: less_mult_imp_div_less)
  have v: "nat (int f div 10 ^ k) = f div 10 ^ k" by (simp add: nat_div_distrib nat_power_eq)
  show ?case using s d v Suc.IH [of "f mod 10 ^ k"] by (simp add: pad_mod Let_def)
qed simp

lemma frac_multiplier_tens: "p \<le> 8 \<Longrightarrow> frac_multiplier ! p = 10 ^ p"
  by (subgoal_tac "p \<in> {0, 1, 2, 3, 4, 5, 6, 7, 8}") (auto simp: frac_multiplier_def)

text \<open>The text of a number with \<open>p\<close> places: \<open>n\<close> is the number in units of the last place.\<close>

definition decimal :: "nat \<Rightarrow> nat \<Rightarrow> string" where
  "decimal p n = show_nat (n div 10 ^ p) @ (if p > 0 then CHR ''.'' # pad p n else [])"

lemma fixed_point_decimal:
  assumes p: "p \<le> 8" and w: "w + 1 < 10 ^ 8" and f: "f \<le> 10 ^ Suc p"
  shows "fixed_point p (int w) (int f) = decimal p (w * 10 ^ p + (f + 5) div 10)"
proof -
  define n where "n = (f + 5) div 10"
  define c where "c = n div 10 ^ p"
  have one: "1 \<le> (10 :: nat) ^ p" by simp
  have "f + 5 < 10 * (2 * 10 ^ p)" using f one unfolding power_Suc by linarith
  then have n: "n < 2 * 10 ^ p" unfolding n_def by (simp add: less_mult_imp_div_less)
  have c: "c = 0 \<and> n < 10 ^ p \<or> c = 1 \<and> 10 ^ p \<le> n"
    using n unfolding c_def by (cases "n < 10 ^ p") (simp_all add: div_nat_eqI)
  have ni: "(int f + 5) div 10 = int n" by (simp add: n_def zdiv_int)
  have ci: "int n div 10 ^ p = int c" by (simp add: c_def zdiv_int)
  have whole: "whole_loop places False (int (w + c)) = show_nat (w + c)"
    unfolding places_tens by (rule whole_loop_start) (use w c in auto)
  have frac: "frac_loop p (10 ^ p div 10) (int (n - c * 10 ^ p)) = pad p (n - c * 10 ^ p)"
    by (rule frac_loop_pad) (use n c in auto)
  have "(w * 10 ^ p + n) mod 10 ^ p = (n - c * 10 ^ p) mod 10 ^ p" using c le_mod_geq [of "10 ^ p" n] by auto
  then have pads: "pad p (w * 10 ^ p + n) = pad p (n - c * 10 ^ p)"
    using pad_mod [of p "w * 10 ^ p + n"] pad_mod [of p "n - c * 10 ^ p"] by simp
  have q: "(w * 10 ^ p + n) div 10 ^ p = w + c" by (simp add: c_def)
  have carry: "1 \<le> int n div 10 ^ p \<longleftrightarrow> c = 1" using c unfolding ci by auto
  have wc: "(if c = 1 then int w + 1 else int w) = int (w + c)" using c by auto
  have nc: "(if c = 1 then int n - 10 ^ p else int n) = int (n - c * 10 ^ p)" using c by (auto simp: of_nat_diff)
  show ?thesis
    unfolding fixed_point_def decimal_def Let_def frac_multiplier_tens [OF p] ni n_def [symmetric] carry wc nc whole frac pads q ..
qed

lemma dround_error:
  assumes x: "\<bar>x\<bar> < pow2 e" and e: "- 1021 \<le> e" "e \<le> 53"
  shows "dfinite (dround s x)" "\<bar>dval (dround s x) - x\<bar> \<le> pow2 (e - 54)"
proof -
  have "dfinite (dround s x) \<and> \<bar>dval (dround s x) - x\<bar> \<le> pow2 (e - 54)"
  proof (cases "x = 0")
    case False
    then have pos: "0 < \<bar>x\<bar>" by simp
    have "quantum \<bar>x\<bar> \<le> pow2 (e - 53)"
      unfolding quantum_def using ilog2_less [OF pos x] e by (intro pow2_mono) simp
    moreover have half: "pow2 (e - 53) = 2 * pow2 (e - 54)" using pow2_Suc [of "e - 54"] by simp
    ultimately have err: "\<bar>round_pos \<bar>x\<bar> - \<bar>x\<bar>\<bar> \<le> pow2 (e - 54)"
      using round_pos_error [of "\<bar>x\<bar>"] by linarith
    have "pow2 (e - 54) \<le> pow2 53" "pow2 e \<le> pow2 53" using e by (simp_all add: pow2_mono)
    then have "round_pos \<bar>x\<bar> < pow2 53 + pow2 53" using err x by linarith
    also have "\<dots> = pow2 54" using pow2_Suc [of 53] by simp
    also have "\<dots> \<le> overflow" by (simp add: overflow_def pow2_def)
    finally have eq: "dround s x = (if round_pos \<bar>x\<bar> = 0 then (if x < 0 then NegZero else Fin 0)
           else Fin (sgn x * round_pos \<bar>x\<bar>))" by (rule dround_nonzero [OF False])
    have "sgn x * round_pos \<bar>x\<bar> - x = sgn x * (round_pos \<bar>x\<bar> - \<bar>x\<bar>)"
      by (simp add: right_diff_distrib sgn_mult_abs)
    then have "\<bar>sgn x * round_pos \<bar>x\<bar> - x\<bar> = \<bar>round_pos \<bar>x\<bar> - \<bar>x\<bar>\<bar>"
      using False by (simp add: abs_mult abs_sgn_eq)
    then show ?thesis using err unfolding eq by auto
  qed (simp add: less_imp_le)
  then show "dfinite (dround s x)" "\<bar>dval (dround s x) - x\<bar> \<le> pow2 (e - 54)" by simp_all
qed

text \<open>The numbers on the way to the printed fraction: \<open>a\<close> is the absolute value.\<close>

lemma dsub_fraction:
  assumes "dfinite v" "0 \<le> dval v" "dval v \<le> 10000000"
  defines "w \<equiv> \<lfloor>dval v\<rfloor>"
  shows "dtoint 32 v = Some w" "0 \<le> w" "w \<le> 10000000"
    "dfinite (dsub v (dint w))" "0 \<le> dval (dsub v (dint w))" "dval (dsub v (dint w)) \<le> 1"
    "\<bar>dval (dsub v (dint w)) - (dval v - of_int w)\<bar> \<le> pow2 (- 54)"
proof -
  show w: "0 \<le> w" "w \<le> 10000000" using assms by (simp_all add: w_def floor_le_iff)
  then show "dtoint 32 v = Some w" using assms by (simp add: dtoint_def trunc_rat_def w_def)
  have "dint w = Fin (of_int w)" using w by (intro dint_exact) simp
  then have b: "dfinite (dneg (dint w))" "dval (dneg (dint w)) = - of_int w" by simp_all
  have "dadd v c = dround (v = NegZero \<and> c = NegZero) (dval v + dval c)" if "dfinite c" for c
    using assms(1) that by (simp add: dadd_def dfinite_def)
  from this [OF b(1)] obtain s where eq: "dsub v (dint w) = dround s (dval v - of_int w)"
    by (simp add: dsub_def b(2))
  have x: "0 \<le> dval v - of_int w" "dval v - of_int w < 1" unfolding w_def by linarith+
  then show "dfinite (dsub v (dint w))" "\<bar>dval (dsub v (dint w)) - (dval v - of_int w)\<bar> \<le> pow2 (- 54)"
    unfolding eq using dround_error [of "dval v - of_int w" 0 s] by (simp_all add: pow2_def)
  show "0 \<le> dval (dsub v (dint w))" "dval (dsub v (dint w)) \<le> 1"
    unfolding eq using dround_le_int [of "dval v - of_int w" 1 s] x by auto
qed

lemma dmul_bounded:
  assumes "dfinite v" "0 \<le> dval v" "0 < k" "k < 2 ^ 53" "dval v * of_int k \<le> of_int n" "0 < n" "n < 2 ^ 30" "of_int n < pow2 e" "e \<le> 53" "- 1021 \<le> e"
  shows "dfinite (dmul v (dint k))" "0 \<le> dval (dmul v (dint k))" "dval (dmul v (dint k)) \<le> of_int n"
    "\<bar>dval (dmul v (dint k)) - dval v * of_int k\<bar> \<le> pow2 (e - 54)"
proof -
  have "dint k = Fin (of_int k)" using assms by (intro dint_exact) simp
  then obtain s where eq: "dmul v (dint k) = dround s (dval v * of_int k)"
    using assms(1) by (auto simp: dmul_def dfinite_def)
  have x: "0 \<le> dval v * of_int k" using assms by simp
  then show "dfinite (dmul v (dint k))" "\<bar>dval (dmul v (dint k)) - dval v * of_int k\<bar> \<le> pow2 (e - 54)"
    unfolding eq using dround_error [of "dval v * of_int k" e s] assms by simp_all
  show "0 \<le> dval (dmul v (dint k))" "dval (dmul v (dint k)) \<le> of_int n"
    unfolding eq using dround_le_int [of "dval v * of_int k" n s] x assms by auto
qed

lemma fraction_product:
  assumes f: "dfinite f" "0 \<le> dval f" "dval f \<le> 1" and P: "0 < P" "P \<le> 10 ^ 8"
  defines "r \<equiv> dmul (dmul f (dint P)) (dint 10)"
  shows "dfinite r" "0 \<le> dval r" "dval r \<le> of_int (10 * P)"
    "\<bar>dval r - dval f * of_int (10 * P)\<bar> \<le> 10 * pow2 (- 27) + pow2 (- 24)"
proof -
  let ?q = "dmul f (dint P)"
  have P': "(of_int P :: rat) \<le> 10 ^ 8" using P(2) by (metis of_int_le_iff of_int_numeral of_int_power)
  have b: "P < 2 ^ 53" "P < 2 ^ 30" "0 < 10 * P" "10 * P < 2 ^ 30" "of_int P < pow2 27" "of_int (10 * P) < pow2 30"
    using P P' by (simp_all add: pow2_def)
  have "dval f * of_int P \<le> 1 * of_int P" using f(3) P(1) by (intro mult_right_mono) simp_all
  then have le: "dval f * of_int P \<le> of_int P" by simp
  note q = dmul_bounded [OF f(1,2) P(1) b(1) le P(1) b(2,5)]
  have "dval ?q * of_int 10 \<le> of_int (10 * P)" using q(3) by simp
  note r = dmul_bounded [OF q(1,2) _ _ this b(3,4,6), folded r_def]
  show "dfinite r" "0 \<le> dval r" "dval r \<le> of_int (10 * P)" by (rule r; simp)+
  have "\<bar>dval ?q - dval f * of_int P\<bar> \<le> pow2 (- 27)" using q(4) by simp
  then have "\<bar>10 * dval ?q - dval f * of_int (10 * P)\<bar> \<le> 10 * pow2 (- 27)" by (simp add: abs_le_iff)
  moreover have "\<bar>dval r - 10 * dval ?q\<bar> \<le> pow2 (- 24)" using r(4) by (simp add: mult.commute)
  ultimately show "\<bar>dval r - dval f * of_int (10 * P)\<bar> \<le> 10 * pow2 (- 27) + pow2 (- 24)" by linarith
qed

text \<open>The last step, on numbers: \<open>x\<close> is the fraction, \<open>F\<close> the integer before the 5 is added.\<close>

lemma nearest_arith:
  fixes r x :: rat
  assumes F: "of_int F \<le> r" "r < of_int F + 1" and P: "0 < P" "P \<le> 10 ^ 8"
    and f: "\<bar>r - f * of_int (10 * P)\<bar> \<le> 10 * pow2 (- 27) + pow2 (- 24)" "\<bar>f - x\<bar> \<le> pow2 (- 54)"
  shows "\<bar>of_int ((F + 5) div 10) - x * of_int P\<bar> \<le> 1 / 2 + 1 / 1000000"
proof -
  have P': "0 < (of_int P :: rat)" "(of_int P :: rat) \<le> 10 ^ 8"
    using P(1) apply simp using P(2) by (metis of_int_le_iff of_int_numeral of_int_power)
  define A where "A = f * of_int (10 * P)"
  define B where "B = x * of_int (10 * P)"
  define q :: rat where "q = of_int ((F + 5) div 10)"
  have "\<bar>A - B\<bar> = \<bar>f - x\<bar> * (10 * of_int P)"
    using P'(1) by (simp add: A_def B_def flip: left_diff_distrib) (simp add: abs_mult)
  also have "\<dots> \<le> pow2 (- 54) * (10 * 10 ^ 8)" using f(2) P' by (intro mult_mono) simp_all
  also have "\<dots> \<le> 1 / 1000000" by (simp add: pow2_def)
  finally have AB: "\<bar>A - B\<bar> \<le> 1 / 1000000" .
  have "10 * pow2 (- 27) + pow2 (- 24) \<le> 1 / 1000000" by (simp add: pow2_def)
  then have rA: "\<bar>r - A\<bar> \<le> 1 / 1000000" using f(1) unfolding A_def by (rule order_trans [rotated])
  have "10 * ((F + 5) div 10) \<le> F + 5" "F - 4 \<le> 10 * ((F + 5) div 10)" by presburger+
  then have "of_int (10 * ((F + 5) div 10)) \<le> (of_int (F + 5) :: rat)" "(of_int (F - 4) :: rat) \<le> of_int (10 * ((F + 5) div 10))"
    by (simp_all only: of_int_le_iff)
  then have "10 * q \<le> of_int F + 5" "of_int F - 4 \<le> 10 * q" by (simp_all add: q_def)
  then have "\<bar>10 * q - B\<bar> \<le> 5 + 2 / 1000000" using F AB rA by (simp only: abs_le_iff) linarith
  moreover have "B = 10 * (x * of_int P)" by (simp add: B_def)
  ultimately show ?thesis unfolding q_def [symmetric] by (simp only: abs_le_iff) linarith
qed

lemma dneg_finite: "dfinite v \<Longrightarrow> dfinite (dneg v)" "dfinite v \<Longrightarrow> dval (dneg v) = - dval v"
  by (cases v; simp)+

text \<open>The routine prints the number of the last place that is nearest, up to a millionth of it.\<close>

lemma cvtDoubleToString_decimal:
  assumes v: "dfinite v" "\<bar>dval v\<bar> \<le> 10000000" and p: "p \<le> 8"
  shows "\<exists>n. cvtDoubleToString env v p = Some ((if dval v < 0 then ''-'' else []) @ decimal p n) \<and>
           n \<le> 10000001 * 10 ^ p \<and> \<bar>of_nat n - \<bar>dval v\<bar> * 10 ^ p\<bar> \<le> 1 / 2 + 1 / 1000000"
proof -
  define u where "u = (if dlt v (Fin 0) then dneg v else v)"
  have neg: "dlt v (Fin 0) \<longleftrightarrow> dval v < 0" using v(1) by (simp add: dlt_finite)
  have u: "dfinite u" "dval u = \<bar>dval v\<bar>"
    using v(1) dneg_finite [OF v(1)] unfolding u_def neg by (simp_all add: abs_if)
  define w where "w = \<lfloor>dval u\<rfloor>"
  have "0 \<le> dval u" "dval u \<le> 10000000" using v by (simp_all add: u)
  note f = dsub_fraction [OF u(1) this, folded w_def]
  have P: "(0 :: int) < 10 ^ p" "(10 :: int) ^ p \<le> 10 ^ 8" by simp (rule power_increasing [OF p], simp)
  define r where "r = dmul (dmul (dsub u (dint w)) (dint (10 ^ p))) (dint 10)"
  note r = fraction_product [OF f(4-6) P, folded r_def]
  define F where "F = \<lfloor>dval r\<rfloor>"
  have F: "of_int F \<le> dval r" "dval r < of_int F + 1" "0 \<le> F" unfolding F_def using r(2) by (simp, linarith, simp)
  have "of_int F \<le> (of_int (10 * 10 ^ p) :: rat)" using F(1) r(3) by (rule order_trans)
  then have F': "F \<le> 10 * 10 ^ p" by (simp only: of_int_le_iff)
  have tF: "dtoint 32 r = Some F"
  proof -
    have "trunc_rat (dval r) = F" using r(2) by (simp add: trunc_rat_def F_def)
    moreover have "F < 2 ^ 31" using F' P(2) by simp
    ultimately show ?thesis using r(1) F(3) by (simp add: dtoint_def)
  qed
  define n where "n = nat w * 10 ^ p + (nat F + 5) div 10"
  have "fixed_point p w F = fixed_point p (int (nat w)) (int (nat F))" using f(2) F(3) by simp
  also have "\<dots> = decimal p n"
    unfolding n_def using f(2,3) F(3) F' by (intro fixed_point_decimal [OF p]) (simp_all add: nat_le_iff)
  finally have fp: "fixed_point p w F = decimal p n" .
  have ni: "int n = w * 10 ^ p + (F + 5) div 10" using f(2) F(3) by (simp add: n_def zdiv_int)
  have "of_nat n = (of_int (int n) :: rat)" by simp
  also have "\<dots> = of_int w * 10 ^ p + of_int ((F + 5) div 10)" unfolding ni by simp
  finally have n: "of_nat n - \<bar>dval v\<bar> * 10 ^ p = of_int ((F + 5) div 10) - (dval u - of_int w) * of_int (10 ^ p)"
    by (simp add: u(2) algebra_simps)
  have "\<not> isnan v" "\<not> dlt (Fin 10000000) v" "\<not> dlt v (Fin (- 10000000))"
    using v by (auto simp: dfinite_def dlt_finite abs_le_iff)
  then have "cvtDoubleToString env v p = Some ((if dval v < 0 then ''-'' else []) @ decimal p n)"
    using f(1) tF fp p unfolding cvtDoubleToString_def Let_def neg [symmetric] u_def [symmetric]
    by (simp add: r_def frac_multiplier_tens)
  moreover have "n \<le> 10000001 * 10 ^ p"
  proof -
    have "nat w * 10 ^ p \<le> 10000000 * 10 ^ p" using f(3) by (intro mult_right_mono) (simp_all add: nat_le_iff)
    moreover have "(nat F + 5) div 10 \<le> 10 ^ p" 
    proof -
      have "nat F \<le> 10 * 10 ^ p" using F' by (simp add: nat_le_iff)
      then have "nat F + 5 < 10 * (10 ^ p + 1)" by simp
      then have "(nat F + 5) div 10 < 10 ^ p + 1" by (simp add: less_mult_imp_div_less mult.commute)
      then show ?thesis by simp
    qed
    ultimately show ?thesis unfolding n_def by linarith
  qed
  ultimately show ?thesis
    using nearest_arith [OF F(1,2) P r(4) f(7)] by (intro exI [of _ n]) (simp add: n)
qed

section \<open>How long the texts are\<close>

lemma show_nat_at_most: "n < 10 ^ Suc k \<Longrightarrow> length (show_nat n) \<le> Suc k"
proof (induction k)
  case (Suc k)
  show ?case
  proof (cases "10 ^ Suc k \<le> n")
    case True
    then show ?thesis using show_nat_pad [OF True Suc.prems] by (simp del: pad.simps)
  next
    case False
    then show ?thesis using Suc.IH by simp
  qed
qed (simp add: show_nat.simps)

lemma decimal_length: "p \<le> 8 \<Longrightarrow> n \<le> 10000001 * 10 ^ p \<Longrightarrow> length (decimal p n) \<le> 9 + p"
proof -
  assume p: "p \<le> 8" and n: "n \<le> 10000001 * 10 ^ p"
  have "n div 10 ^ p \<le> 10000001 * 10 ^ p div 10 ^ p" using n by (rule div_le_mono)
  then have "length (show_nat (n div 10 ^ p)) \<le> Suc 7" by (intro show_nat_at_most) simp
  then show ?thesis by (cases "p = 0") (simp_all add: decimal_def)
qed

lemma show_int_length: "\<bar>i\<bar> \<le> 4294967295 \<Longrightarrow> length (show_int i) \<le> 11"
proof -
  assume "\<bar>i\<bar> \<le> 4294967295"
  then have "nat i < 10 ^ Suc 9" "nat (- i) < 10 ^ Suc 9" by auto
  then have "length (show_nat (nat i)) \<le> Suc 9" "length (show_nat (nat (- i))) \<le> Suc 9"
    by (simp_all only: show_nat_at_most)
  then show ?thesis by (simp add: show_int_def)
qed

end
