(* ===== verification/DbGetConvert.thy ===== *)
theory DbGetConvert
  imports DbTypes
begin

text \<open>
  The routines of dbConvert.c that read a numeric field for a client, one for each pair of the type of the
  field and the type of the client's buffer, and the table of them. The conversions from and to strings are
  arguments of the table.
\<close>

section \<open>From a DBF\_CHAR field\<close>

definition getCharChar :: "(u8, u8) getconv" where
  "getCharChar env paddr = get_chars paddr"

definition getCharUchar :: "(u8, u8) getconv" where
  "getCharUchar env paddr = get_chars paddr"

definition getCharShort :: "(u8, u16) getconv" where
  "getCharShort env paddr = get_conv (\<lambda>x. Some (word_of_int (char_val (plain_signed env) x)))"

definition getCharUshort :: "(u8, u16) getconv" where
  "getCharUshort env paddr = get_conv (\<lambda>x. Some (word_of_int (char_val (plain_signed env) x)))"

definition getCharLong :: "(u8, u32) getconv" where
  "getCharLong env paddr = get_conv (\<lambda>x. Some (word_of_int (char_val (plain_signed env) x)))"

definition getCharUlong :: "(u8, u32) getconv" where
  "getCharUlong env paddr = get_conv (\<lambda>x. Some (word_of_int (char_val (plain_signed env) x)))"

definition getCharFloat :: "(u8, float) getconv" where
  "getCharFloat env paddr = get_conv (\<lambda>x. Some (fint (char_val (plain_signed env) x)))"

definition getCharDouble :: "(u8, double) getconv" where
  "getCharDouble env paddr = get_conv (\<lambda>x. Some (dint (char_val (plain_signed env) x)))"

definition getCharEnum :: "(u8, u16) getconv" where
  "getCharEnum env paddr = get_conv (\<lambda>x. Some (word_of_int (char_val (plain_signed env) x)))"

section \<open>From a DBF\_UCHAR field\<close>

definition getUcharChar :: "(u8, u8) getconv" where
  "getUcharChar env paddr = get_copy"

definition getUcharUchar :: "(u8, u8) getconv" where
  "getUcharUchar env paddr = get_copy"

definition getUcharShort :: "(u8, u16) getconv" where
  "getUcharShort env paddr = get_conv (\<lambda>x. Some (word_of_int (uint x)))"

definition getUcharUshort :: "(u8, u16) getconv" where
  "getUcharUshort env paddr = get_conv (\<lambda>x. Some (word_of_int (uint x)))"

definition getUcharLong :: "(u8, u32) getconv" where
  "getUcharLong env paddr = get_conv (\<lambda>x. Some (word_of_int (uint x)))"

definition getUcharUlong :: "(u8, u32) getconv" where
  "getUcharUlong env paddr = get_conv (\<lambda>x. Some (word_of_int (uint x)))"

definition getUcharFloat :: "(u8, float) getconv" where
  "getUcharFloat env paddr = get_conv (\<lambda>x. Some (fint (uint x)))"

definition getUcharDouble :: "(u8, double) getconv" where
  "getUcharDouble env paddr = get_conv (\<lambda>x. Some (dint (uint x)))"

definition getUcharEnum :: "(u8, u16) getconv" where
  "getUcharEnum env paddr = get_conv (\<lambda>x. Some (word_of_int (uint x)))"

section \<open>From a DBF\_SHORT field\<close>

definition getShortChar :: "(u16, u8) getconv" where
  "getShortChar env paddr = get_conv (\<lambda>x. Some (word_of_int (sint x)))"

definition getShortUchar :: "(u16, u8) getconv" where
  "getShortUchar env paddr = get_conv (\<lambda>x. Some (word_of_int (sint x)))"

definition getShortShort :: "(u16, u16) getconv" where
  "getShortShort env paddr = get_copy"

definition getShortUshort :: "(u16, u16) getconv" where
  "getShortUshort env paddr = get_copy"

definition getShortLong :: "(u16, u32) getconv" where
  "getShortLong env paddr = get_conv (\<lambda>x. Some (word_of_int (sint x)))"

definition getShortUlong :: "(u16, u32) getconv" where
  "getShortUlong env paddr = get_conv (\<lambda>x. Some (word_of_int (sint x)))"

definition getShortFloat :: "(u16, float) getconv" where
  "getShortFloat env paddr = get_conv (\<lambda>x. Some (fint (sint x)))"

definition getShortDouble :: "(u16, double) getconv" where
  "getShortDouble env paddr = get_conv (\<lambda>x. Some (dint (sint x)))"

definition getShortEnum :: "(u16, u16) getconv" where
  "getShortEnum env paddr = get_conv (\<lambda>x. Some (word_of_int (sint x)))"

section \<open>From a DBF\_USHORT field\<close>

definition getUshortChar :: "(u16, u8) getconv" where
  "getUshortChar env paddr = get_conv (\<lambda>x. Some (word_of_int (uint x)))"

definition getUshortUchar :: "(u16, u8) getconv" where
  "getUshortUchar env paddr = get_conv (\<lambda>x. Some (word_of_int (uint x)))"

definition getUshortShort :: "(u16, u16) getconv" where
  "getUshortShort env paddr = get_copy"

definition getUshortUshort :: "(u16, u16) getconv" where
  "getUshortUshort env paddr = get_copy"

definition getUshortLong :: "(u16, u32) getconv" where
  "getUshortLong env paddr = get_conv (\<lambda>x. Some (word_of_int (uint x)))"

definition getUshortUlong :: "(u16, u32) getconv" where
  "getUshortUlong env paddr = get_conv (\<lambda>x. Some (word_of_int (uint x)))"

definition getUshortFloat :: "(u16, float) getconv" where
  "getUshortFloat env paddr = get_conv (\<lambda>x. Some (fint (uint x)))"

definition getUshortDouble :: "(u16, double) getconv" where
  "getUshortDouble env paddr = get_conv (\<lambda>x. Some (dint (uint x)))"

definition getUshortEnum :: "(u16, u16) getconv" where
  "getUshortEnum env paddr = get_conv (\<lambda>x. Some (word_of_int (uint x)))"

section \<open>From a DBF\_LONG field\<close>

definition getLongChar :: "(u32, u8) getconv" where
  "getLongChar env paddr = get_conv (\<lambda>x. Some (word_of_int (sint x)))"

definition getLongUchar :: "(u32, u8) getconv" where
  "getLongUchar env paddr = get_conv (\<lambda>x. Some (word_of_int (sint x)))"

definition getLongShort :: "(u32, u16) getconv" where
  "getLongShort env paddr = get_conv (\<lambda>x. Some (word_of_int (sint x)))"

definition getLongUshort :: "(u32, u16) getconv" where
  "getLongUshort env paddr = get_conv (\<lambda>x. Some (word_of_int (sint x)))"

definition getLongLong :: "(u32, u32) getconv" where
  "getLongLong env paddr = get_copy"

definition getLongUlong :: "(u32, u32) getconv" where
  "getLongUlong env paddr = get_copy"

definition getLongFloat :: "(u32, float) getconv" where
  "getLongFloat env paddr = get_conv (\<lambda>x. Some (fint (sint x)))"

definition getLongDouble :: "(u32, double) getconv" where
  "getLongDouble env paddr = get_conv (\<lambda>x. Some (dint (sint x)))"

definition getLongEnum :: "(u32, u16) getconv" where
  "getLongEnum env paddr = get_conv (\<lambda>x. Some (word_of_int (sint x)))"

section \<open>From a DBF\_ULONG field\<close>

definition getUlongChar :: "(u32, u8) getconv" where
  "getUlongChar env paddr = get_conv (\<lambda>x. Some (word_of_int (uint x)))"

definition getUlongUchar :: "(u32, u8) getconv" where
  "getUlongUchar env paddr = get_conv (\<lambda>x. Some (word_of_int (uint x)))"

definition getUlongShort :: "(u32, u16) getconv" where
  "getUlongShort env paddr = get_conv (\<lambda>x. Some (word_of_int (uint x)))"

definition getUlongUshort :: "(u32, u16) getconv" where
  "getUlongUshort env paddr = get_conv (\<lambda>x. Some (word_of_int (uint x)))"

definition getUlongLong :: "(u32, u32) getconv" where
  "getUlongLong env paddr = get_copy"

definition getUlongUlong :: "(u32, u32) getconv" where
  "getUlongUlong env paddr = get_copy"

definition getUlongFloat :: "(u32, float) getconv" where
  "getUlongFloat env paddr = get_conv (\<lambda>x. Some (fint (uint x)))"

definition getUlongDouble :: "(u32, double) getconv" where
  "getUlongDouble env paddr = get_conv (\<lambda>x. Some (dint (uint x)))"

definition getUlongEnum :: "(u32, u16) getconv" where
  "getUlongEnum env paddr = get_conv (\<lambda>x. Some (word_of_int (uint x)))"

section \<open>From a DBF\_FLOAT field\<close>

definition getFloatChar :: "(float, u8) getconv" where
  "getFloatChar env paddr = get_conv (dcast_word env DBF_CHAR)"

definition getFloatUchar :: "(float, u8) getconv" where
  "getFloatUchar env paddr = get_conv (dcast_word env DBF_UCHAR)"

definition getFloatShort :: "(float, u16) getconv" where
  "getFloatShort env paddr = get_conv (dcast_word env DBF_SHORT)"

definition getFloatUshort :: "(float, u16) getconv" where
  "getFloatUshort env paddr = get_conv (dcast_word env DBF_USHORT)"

definition getFloatLong :: "(float, u32) getconv" where
  "getFloatLong env paddr = get_conv (dcast_word env DBF_LONG)"

definition getFloatUlong :: "(float, u32) getconv" where
  "getFloatUlong env paddr = get_conv (dcast_word env DBF_ULONG)"

definition getFloatFloat :: "(float, float) getconv" where
  "getFloatFloat env paddr = get_copy"

definition getFloatDouble :: "(float, double) getconv" where
  "getFloatDouble env paddr = get_conv Some"

definition getFloatEnum :: "(float, u16) getconv" where
  "getFloatEnum env paddr = get_conv (dcast_word env DBF_ENUM)"

section \<open>From a DBF\_DOUBLE field\<close>

definition getDoubleChar :: "(double, u8) getconv" where
  "getDoubleChar env paddr = get_conv (dcast_word env DBF_CHAR)"

definition getDoubleUchar :: "(double, u8) getconv" where
  "getDoubleUchar env paddr = get_conv (dcast_word env DBF_UCHAR)"

definition getDoubleShort :: "(double, u16) getconv" where
  "getDoubleShort env paddr = get_conv (dcast_word env DBF_SHORT)"

definition getDoubleUshort :: "(double, u16) getconv" where
  "getDoubleUshort env paddr = get_conv (dcast_word env DBF_USHORT)"

definition getDoubleLong :: "(double, u32) getconv" where
  "getDoubleLong env paddr = get_conv (dcast_word env DBF_LONG)"

definition getDoubleUlong :: "(double, u32) getconv" where
  "getDoubleUlong env paddr = get_conv (dcast_word env DBF_ULONG)"

definition getDoubleFloat :: "(double, float) getconv" where
  "getDoubleFloat env paddr = get_conv (\<lambda>x. Some (epicsConvertDoubleToFloat x))"

definition getDoubleDouble :: "(double, double) getconv" where
  "getDoubleDouble env paddr = get_copy"

definition getDoubleEnum :: "(double, u16) getconv" where
  "getDoubleEnum env paddr = get_conv (dcast_word env DBF_ENUM)"

section \<open>From a DBF\_ENUM field\<close>

definition getEnumChar :: "(u16, u8) getconv" where
  "getEnumChar env paddr = get_conv (\<lambda>x. Some (word_of_int (uint x)))"

definition getEnumUchar :: "(u16, u8) getconv" where
  "getEnumUchar env paddr = get_conv (\<lambda>x. Some (word_of_int (uint x)))"

definition getEnumShort :: "(u16, u16) getconv" where
  "getEnumShort env paddr = get_conv (\<lambda>x. Some (word_of_int (uint x)))"

definition getEnumUshort :: "(u16, u16) getconv" where
  "getEnumUshort env paddr = get_conv (\<lambda>x. Some (word_of_int (uint x)))"

definition getEnumLong :: "(u16, u32) getconv" where
  "getEnumLong env paddr = get_conv (\<lambda>x. Some (word_of_int (uint x)))"

definition getEnumUlong :: "(u16, u32) getconv" where
  "getEnumUlong env paddr = get_conv (\<lambda>x. Some (word_of_int (uint x)))"

definition getEnumFloat :: "(u16, float) getconv" where
  "getEnumFloat env paddr = get_conv (\<lambda>x. Some (fint (uint x)))"

definition getEnumDouble :: "(u16, double) getconv" where
  "getEnumDouble env paddr = get_conv (\<lambda>x. Some (dint (uint x)))"

definition getEnumEnum :: "(u16, u16) getconv" where
  "getEnumEnum env paddr = get_copy"

section \<open>The table of routines\<close>

text \<open>An entry, on memory and buffers of any type: a field that is not of the type of its row is not modelled
  (\<open>None\<close>).\<close>

type_synonym get_routine = "conv_env \<Rightarrow> db_addr \<Rightarrow> dbbuf \<Rightarrow> int \<Rightarrow> int \<Rightarrow> int \<Rightarrow> (int \<times> dbbuf) option"

definition get_entry :: "(dbbuf \<Rightarrow> 'a list option) \<Rightarrow> ('b list \<Rightarrow> dbbuf) \<Rightarrow> ('a, 'b) getconv \<Rightarrow> get_routine" where
  "get_entry un pack f env paddr pfield nRequest no_elements offset = (case un pfield of None \<Rightarrow> None
     | Some xs \<Rightarrow> map_option (\<lambda>(status, ys). (status, pack ys)) (f env paddr xs nRequest no_elements offset))"

text \<open>\<open>string_get\<close> holds the entries of strings. There is no column for the types after \<open>DBR_ENUM\<close>: such a
  request is refused before the table is read.\<close>

definition get_row_Char :: "(dbf_type \<Rightarrow> dbf_type \<Rightarrow> get_routine) \<Rightarrow> dbf_type \<Rightarrow> get_routine option" where
  "get_row_Char string_get t = (case t of DBF_STRING \<Rightarrow> Some (string_get DBF_CHAR t)
       | DBF_CHAR \<Rightarrow> Some (get_entry un_Chars Chars getCharChar)
       | DBF_UCHAR \<Rightarrow> Some (get_entry un_Chars Uchars getCharUchar)
       | DBF_SHORT \<Rightarrow> Some (get_entry un_Chars Shorts getCharShort)
       | DBF_USHORT \<Rightarrow> Some (get_entry un_Chars Ushorts getCharUshort)
       | DBF_LONG \<Rightarrow> Some (get_entry un_Chars Longs getCharLong)
       | DBF_ULONG \<Rightarrow> Some (get_entry un_Chars Ulongs getCharUlong)
       | DBF_FLOAT \<Rightarrow> Some (get_entry un_Chars Floats getCharFloat)
       | DBF_DOUBLE \<Rightarrow> Some (get_entry un_Chars Doubles getCharDouble)
       | DBF_ENUM \<Rightarrow> Some (get_entry un_Chars Enums getCharEnum)
       | _ \<Rightarrow> None)"

definition get_row_Uchar :: "(dbf_type \<Rightarrow> dbf_type \<Rightarrow> get_routine) \<Rightarrow> dbf_type \<Rightarrow> get_routine option" where
  "get_row_Uchar string_get t = (case t of DBF_STRING \<Rightarrow> Some (string_get DBF_UCHAR t)
       | DBF_CHAR \<Rightarrow> Some (get_entry un_Uchars Chars getUcharChar)
       | DBF_UCHAR \<Rightarrow> Some (get_entry un_Uchars Uchars getUcharUchar)
       | DBF_SHORT \<Rightarrow> Some (get_entry un_Uchars Shorts getUcharShort)
       | DBF_USHORT \<Rightarrow> Some (get_entry un_Uchars Ushorts getUcharUshort)
       | DBF_LONG \<Rightarrow> Some (get_entry un_Uchars Longs getUcharLong)
       | DBF_ULONG \<Rightarrow> Some (get_entry un_Uchars Ulongs getUcharUlong)
       | DBF_FLOAT \<Rightarrow> Some (get_entry un_Uchars Floats getUcharFloat)
       | DBF_DOUBLE \<Rightarrow> Some (get_entry un_Uchars Doubles getUcharDouble)
       | DBF_ENUM \<Rightarrow> Some (get_entry un_Uchars Enums getUcharEnum)
       | _ \<Rightarrow> None)"

definition get_row_Short :: "(dbf_type \<Rightarrow> dbf_type \<Rightarrow> get_routine) \<Rightarrow> dbf_type \<Rightarrow> get_routine option" where
  "get_row_Short string_get t = (case t of DBF_STRING \<Rightarrow> Some (string_get DBF_SHORT t)
       | DBF_CHAR \<Rightarrow> Some (get_entry un_Shorts Chars getShortChar)
       | DBF_UCHAR \<Rightarrow> Some (get_entry un_Shorts Uchars getShortUchar)
       | DBF_SHORT \<Rightarrow> Some (get_entry un_Shorts Shorts getShortShort)
       | DBF_USHORT \<Rightarrow> Some (get_entry un_Shorts Ushorts getShortUshort)
       | DBF_LONG \<Rightarrow> Some (get_entry un_Shorts Longs getShortLong)
       | DBF_ULONG \<Rightarrow> Some (get_entry un_Shorts Ulongs getShortUlong)
       | DBF_FLOAT \<Rightarrow> Some (get_entry un_Shorts Floats getShortFloat)
       | DBF_DOUBLE \<Rightarrow> Some (get_entry un_Shorts Doubles getShortDouble)
       | DBF_ENUM \<Rightarrow> Some (get_entry un_Shorts Enums getShortEnum)
       | _ \<Rightarrow> None)"

definition get_row_Ushort :: "(dbf_type \<Rightarrow> dbf_type \<Rightarrow> get_routine) \<Rightarrow> dbf_type \<Rightarrow> get_routine option" where
  "get_row_Ushort string_get t = (case t of DBF_STRING \<Rightarrow> Some (string_get DBF_USHORT t)
       | DBF_CHAR \<Rightarrow> Some (get_entry un_Ushorts Chars getUshortChar)
       | DBF_UCHAR \<Rightarrow> Some (get_entry un_Ushorts Uchars getUshortUchar)
       | DBF_SHORT \<Rightarrow> Some (get_entry un_Ushorts Shorts getUshortShort)
       | DBF_USHORT \<Rightarrow> Some (get_entry un_Ushorts Ushorts getUshortUshort)
       | DBF_LONG \<Rightarrow> Some (get_entry un_Ushorts Longs getUshortLong)
       | DBF_ULONG \<Rightarrow> Some (get_entry un_Ushorts Ulongs getUshortUlong)
       | DBF_FLOAT \<Rightarrow> Some (get_entry un_Ushorts Floats getUshortFloat)
       | DBF_DOUBLE \<Rightarrow> Some (get_entry un_Ushorts Doubles getUshortDouble)
       | DBF_ENUM \<Rightarrow> Some (get_entry un_Ushorts Enums getUshortEnum)
       | _ \<Rightarrow> None)"

definition get_row_Long :: "(dbf_type \<Rightarrow> dbf_type \<Rightarrow> get_routine) \<Rightarrow> dbf_type \<Rightarrow> get_routine option" where
  "get_row_Long string_get t = (case t of DBF_STRING \<Rightarrow> Some (string_get DBF_LONG t)
       | DBF_CHAR \<Rightarrow> Some (get_entry un_Longs Chars getLongChar)
       | DBF_UCHAR \<Rightarrow> Some (get_entry un_Longs Uchars getLongUchar)
       | DBF_SHORT \<Rightarrow> Some (get_entry un_Longs Shorts getLongShort)
       | DBF_USHORT \<Rightarrow> Some (get_entry un_Longs Ushorts getLongUshort)
       | DBF_LONG \<Rightarrow> Some (get_entry un_Longs Longs getLongLong)
       | DBF_ULONG \<Rightarrow> Some (get_entry un_Longs Ulongs getLongUlong)
       | DBF_FLOAT \<Rightarrow> Some (get_entry un_Longs Floats getLongFloat)
       | DBF_DOUBLE \<Rightarrow> Some (get_entry un_Longs Doubles getLongDouble)
       | DBF_ENUM \<Rightarrow> Some (get_entry un_Longs Enums getLongEnum)
       | _ \<Rightarrow> None)"

definition get_row_Ulong :: "(dbf_type \<Rightarrow> dbf_type \<Rightarrow> get_routine) \<Rightarrow> dbf_type \<Rightarrow> get_routine option" where
  "get_row_Ulong string_get t = (case t of DBF_STRING \<Rightarrow> Some (string_get DBF_ULONG t)
       | DBF_CHAR \<Rightarrow> Some (get_entry un_Ulongs Chars getUlongChar)
       | DBF_UCHAR \<Rightarrow> Some (get_entry un_Ulongs Uchars getUlongUchar)
       | DBF_SHORT \<Rightarrow> Some (get_entry un_Ulongs Shorts getUlongShort)
       | DBF_USHORT \<Rightarrow> Some (get_entry un_Ulongs Ushorts getUlongUshort)
       | DBF_LONG \<Rightarrow> Some (get_entry un_Ulongs Longs getUlongLong)
       | DBF_ULONG \<Rightarrow> Some (get_entry un_Ulongs Ulongs getUlongUlong)
       | DBF_FLOAT \<Rightarrow> Some (get_entry un_Ulongs Floats getUlongFloat)
       | DBF_DOUBLE \<Rightarrow> Some (get_entry un_Ulongs Doubles getUlongDouble)
       | DBF_ENUM \<Rightarrow> Some (get_entry un_Ulongs Enums getUlongEnum)
       | _ \<Rightarrow> None)"

definition get_row_Float :: "(dbf_type \<Rightarrow> dbf_type \<Rightarrow> get_routine) \<Rightarrow> dbf_type \<Rightarrow> get_routine option" where
  "get_row_Float string_get t = (case t of DBF_STRING \<Rightarrow> Some (string_get DBF_FLOAT t)
       | DBF_CHAR \<Rightarrow> Some (get_entry un_Floats Chars getFloatChar)
       | DBF_UCHAR \<Rightarrow> Some (get_entry un_Floats Uchars getFloatUchar)
       | DBF_SHORT \<Rightarrow> Some (get_entry un_Floats Shorts getFloatShort)
       | DBF_USHORT \<Rightarrow> Some (get_entry un_Floats Ushorts getFloatUshort)
       | DBF_LONG \<Rightarrow> Some (get_entry un_Floats Longs getFloatLong)
       | DBF_ULONG \<Rightarrow> Some (get_entry un_Floats Ulongs getFloatUlong)
       | DBF_FLOAT \<Rightarrow> Some (get_entry un_Floats Floats getFloatFloat)
       | DBF_DOUBLE \<Rightarrow> Some (get_entry un_Floats Doubles getFloatDouble)
       | DBF_ENUM \<Rightarrow> Some (get_entry un_Floats Enums getFloatEnum)
       | _ \<Rightarrow> None)"

definition get_row_Double :: "(dbf_type \<Rightarrow> dbf_type \<Rightarrow> get_routine) \<Rightarrow> dbf_type \<Rightarrow> get_routine option" where
  "get_row_Double string_get t = (case t of DBF_STRING \<Rightarrow> Some (string_get DBF_DOUBLE t)
       | DBF_CHAR \<Rightarrow> Some (get_entry un_Doubles Chars getDoubleChar)
       | DBF_UCHAR \<Rightarrow> Some (get_entry un_Doubles Uchars getDoubleUchar)
       | DBF_SHORT \<Rightarrow> Some (get_entry un_Doubles Shorts getDoubleShort)
       | DBF_USHORT \<Rightarrow> Some (get_entry un_Doubles Ushorts getDoubleUshort)
       | DBF_LONG \<Rightarrow> Some (get_entry un_Doubles Longs getDoubleLong)
       | DBF_ULONG \<Rightarrow> Some (get_entry un_Doubles Ulongs getDoubleUlong)
       | DBF_FLOAT \<Rightarrow> Some (get_entry un_Doubles Floats getDoubleFloat)
       | DBF_DOUBLE \<Rightarrow> Some (get_entry un_Doubles Doubles getDoubleDouble)
       | DBF_ENUM \<Rightarrow> Some (get_entry un_Doubles Enums getDoubleEnum)
       | _ \<Rightarrow> None)"

definition get_row_Enum :: "(dbf_type \<Rightarrow> dbf_type \<Rightarrow> get_routine) \<Rightarrow> dbf_type \<Rightarrow> get_routine option" where
  "get_row_Enum string_get t = (case t of DBF_STRING \<Rightarrow> Some (string_get DBF_ENUM t)
       | DBF_CHAR \<Rightarrow> Some (get_entry un_Enums Chars getEnumChar)
       | DBF_UCHAR \<Rightarrow> Some (get_entry un_Enums Uchars getEnumUchar)
       | DBF_SHORT \<Rightarrow> Some (get_entry un_Enums Shorts getEnumShort)
       | DBF_USHORT \<Rightarrow> Some (get_entry un_Enums Ushorts getEnumUshort)
       | DBF_LONG \<Rightarrow> Some (get_entry un_Enums Longs getEnumLong)
       | DBF_ULONG \<Rightarrow> Some (get_entry un_Enums Ulongs getEnumUlong)
       | DBF_FLOAT \<Rightarrow> Some (get_entry un_Enums Floats getEnumFloat)
       | DBF_DOUBLE \<Rightarrow> Some (get_entry un_Enums Doubles getEnumDouble)
       | DBF_ENUM \<Rightarrow> Some (get_entry un_Enums Enums getEnumEnum)
       | _ \<Rightarrow> None)"

text \<open>A menu or device field is stored as an \<open>epicsEnum16\<close>; only its conversion to a string differs.\<close>

definition dbGetConvertRoutine :: "(dbf_type \<Rightarrow> dbf_type \<Rightarrow> get_routine) \<Rightarrow> dbf_type \<Rightarrow> dbf_type \<Rightarrow> get_routine option" where
  "dbGetConvertRoutine string_get s t = (case s of
     DBF_STRING \<Rightarrow> (if t \<in> {DBF_STRING, DBF_CHAR, DBF_UCHAR, DBF_SHORT, DBF_USHORT, DBF_LONG, DBF_ULONG, DBF_FLOAT, DBF_DOUBLE, DBF_ENUM}
                    then Some (string_get s t) else None)
   | DBF_CHAR \<Rightarrow> get_row_Char string_get t
   | DBF_UCHAR \<Rightarrow> get_row_Uchar string_get t
   | DBF_SHORT \<Rightarrow> get_row_Short string_get t
   | DBF_USHORT \<Rightarrow> get_row_Ushort string_get t
   | DBF_LONG \<Rightarrow> get_row_Long string_get t
   | DBF_ULONG \<Rightarrow> get_row_Ulong string_get t
   | DBF_FLOAT \<Rightarrow> get_row_Float string_get t
   | DBF_DOUBLE \<Rightarrow> get_row_Double string_get t
   | DBF_ENUM \<Rightarrow> get_row_Enum string_get t
   | DBF_MENU \<Rightarrow> (if t = DBF_STRING then Some (string_get s t) else get_row_Enum string_get t)
   | DBF_DEVICE \<Rightarrow> (if t = DBF_STRING then Some (string_get s t) else get_row_Enum string_get t)
   | _ \<Rightarrow> None)"

end
