(* ===== verification/DbPutConvert.thy ===== *)
theory DbPutConvert
  imports DbTypes
begin

text \<open>
  The routines of dbConvert.c that write a client's values to a numeric field, one for each pair of the type
  of the client's buffer and the type of the field, and the table of them.
\<close>

section \<open>From a DBR\_CHAR buffer\<close>

definition putCharChar :: "(u8, u8) putconv" where
  "putCharChar env paddr = put_copy"

definition putCharUchar :: "(u8, u8) putconv" where
  "putCharUchar env paddr = put_copy"

definition putCharShort :: "(u8, u16) putconv" where
  "putCharShort env paddr = put_conv (\<lambda>x. Some (word_of_int (char_val (plain_signed env) x)))"

definition putCharUshort :: "(u8, u16) putconv" where
  "putCharUshort env paddr = put_conv (\<lambda>x. Some (word_of_int (char_val (plain_signed env) x)))"

definition putCharLong :: "(u8, u32) putconv" where
  "putCharLong env paddr = put_conv (\<lambda>x. Some (word_of_int (char_val (plain_signed env) x)))"

definition putCharUlong :: "(u8, u32) putconv" where
  "putCharUlong env paddr = put_conv (\<lambda>x. Some (word_of_int (char_val (plain_signed env) x)))"

definition putCharFloat :: "(u8, float) putconv" where
  "putCharFloat env paddr = put_conv (\<lambda>x. Some (fint (char_val (plain_signed env) x)))"

definition putCharDouble :: "(u8, double) putconv" where
  "putCharDouble env paddr = put_conv (\<lambda>x. Some (dint (char_val (plain_signed env) x)))"

definition putCharEnum :: "(u8, u16) putconv" where
  "putCharEnum env paddr = put_conv (\<lambda>x. Some (word_of_int (char_val (plain_signed env) x)))"

section \<open>From a DBR\_UCHAR buffer\<close>

definition putUcharChar :: "(u8, u8) putconv" where
  "putUcharChar env paddr = put_copy"

definition putUcharUchar :: "(u8, u8) putconv" where
  "putUcharUchar env paddr = put_copy"

definition putUcharShort :: "(u8, u16) putconv" where
  "putUcharShort env paddr = put_conv (\<lambda>x. Some (word_of_int (uint x)))"

definition putUcharUshort :: "(u8, u16) putconv" where
  "putUcharUshort env paddr = put_conv (\<lambda>x. Some (word_of_int (uint x)))"

definition putUcharLong :: "(u8, u32) putconv" where
  "putUcharLong env paddr = put_conv (\<lambda>x. Some (word_of_int (uint x)))"

definition putUcharUlong :: "(u8, u32) putconv" where
  "putUcharUlong env paddr = put_conv (\<lambda>x. Some (word_of_int (uint x)))"

definition putUcharFloat :: "(u8, float) putconv" where
  "putUcharFloat env paddr = put_conv (\<lambda>x. Some (fint (uint x)))"

definition putUcharDouble :: "(u8, double) putconv" where
  "putUcharDouble env paddr = put_conv (\<lambda>x. Some (dint (uint x)))"

definition putUcharEnum :: "(u8, u16) putconv" where
  "putUcharEnum env paddr = put_conv (\<lambda>x. Some (word_of_int (uint x)))"

section \<open>From a DBR\_SHORT buffer\<close>

definition putShortChar :: "(u16, u8) putconv" where
  "putShortChar env paddr = put_conv (\<lambda>x. Some (word_of_int (sint x)))"

definition putShortUchar :: "(u16, u8) putconv" where
  "putShortUchar env paddr = put_conv (\<lambda>x. Some (word_of_int (sint x)))"

definition putShortShort :: "(u16, u16) putconv" where
  "putShortShort env paddr = put_copy"

definition putShortUshort :: "(u16, u16) putconv" where
  "putShortUshort env paddr = put_copy"

definition putShortLong :: "(u16, u32) putconv" where
  "putShortLong env paddr = put_conv (\<lambda>x. Some (word_of_int (sint x)))"

definition putShortUlong :: "(u16, u32) putconv" where
  "putShortUlong env paddr = put_conv (\<lambda>x. Some (word_of_int (sint x)))"

definition putShortFloat :: "(u16, float) putconv" where
  "putShortFloat env paddr = put_conv (\<lambda>x. Some (fint (sint x)))"

definition putShortDouble :: "(u16, double) putconv" where
  "putShortDouble env paddr = put_conv (\<lambda>x. Some (dint (sint x)))"

definition putShortEnum :: "(u16, u16) putconv" where
  "putShortEnum env paddr = put_conv (\<lambda>x. Some (word_of_int (sint x)))"

section \<open>From a DBR\_USHORT buffer\<close>

definition putUshortChar :: "(u16, u8) putconv" where
  "putUshortChar env paddr = put_conv (\<lambda>x. Some (word_of_int (uint x)))"

definition putUshortUchar :: "(u16, u8) putconv" where
  "putUshortUchar env paddr = put_conv (\<lambda>x. Some (word_of_int (uint x)))"

definition putUshortShort :: "(u16, u16) putconv" where
  "putUshortShort env paddr = put_copy"

definition putUshortUshort :: "(u16, u16) putconv" where
  "putUshortUshort env paddr = put_copy"

definition putUshortLong :: "(u16, u32) putconv" where
  "putUshortLong env paddr = put_conv (\<lambda>x. Some (word_of_int (uint x)))"

definition putUshortUlong :: "(u16, u32) putconv" where
  "putUshortUlong env paddr = put_conv (\<lambda>x. Some (word_of_int (uint x)))"

definition putUshortFloat :: "(u16, float) putconv" where
  "putUshortFloat env paddr = put_conv (\<lambda>x. Some (fint (uint x)))"

definition putUshortDouble :: "(u16, double) putconv" where
  "putUshortDouble env paddr = put_conv (\<lambda>x. Some (dint (uint x)))"

definition putUshortEnum :: "(u16, u16) putconv" where
  "putUshortEnum env paddr = put_conv (\<lambda>x. Some (word_of_int (uint x)))"

section \<open>From a DBR\_LONG buffer\<close>

definition putLongChar :: "(u32, u8) putconv" where
  "putLongChar env paddr = put_conv (\<lambda>x. Some (word_of_int (sint x)))"

definition putLongUchar :: "(u32, u8) putconv" where
  "putLongUchar env paddr = put_conv (\<lambda>x. Some (word_of_int (sint x)))"

definition putLongShort :: "(u32, u16) putconv" where
  "putLongShort env paddr = put_conv (\<lambda>x. Some (word_of_int (sint x)))"

definition putLongUshort :: "(u32, u16) putconv" where
  "putLongUshort env paddr = put_conv (\<lambda>x. Some (word_of_int (sint x)))"

definition putLongLong :: "(u32, u32) putconv" where
  "putLongLong env paddr = put_copy"

definition putLongUlong :: "(u32, u32) putconv" where
  "putLongUlong env paddr = put_copy"

definition putLongFloat :: "(u32, float) putconv" where
  "putLongFloat env paddr = put_conv (\<lambda>x. Some (fint (sint x)))"

definition putLongDouble :: "(u32, double) putconv" where
  "putLongDouble env paddr = put_conv (\<lambda>x. Some (dint (sint x)))"

definition putLongEnum :: "(u32, u16) putconv" where
  "putLongEnum env paddr = put_conv (\<lambda>x. Some (word_of_int (sint x)))"

section \<open>From a DBR\_ULONG buffer\<close>

definition putUlongChar :: "(u32, u8) putconv" where
  "putUlongChar env paddr = put_conv (\<lambda>x. Some (word_of_int (uint x)))"

definition putUlongUchar :: "(u32, u8) putconv" where
  "putUlongUchar env paddr = put_conv (\<lambda>x. Some (word_of_int (uint x)))"

definition putUlongShort :: "(u32, u16) putconv" where
  "putUlongShort env paddr = put_conv (\<lambda>x. Some (word_of_int (uint x)))"

definition putUlongUshort :: "(u32, u16) putconv" where
  "putUlongUshort env paddr = put_conv (\<lambda>x. Some (word_of_int (uint x)))"

definition putUlongLong :: "(u32, u32) putconv" where
  "putUlongLong env paddr = put_copy"

definition putUlongUlong :: "(u32, u32) putconv" where
  "putUlongUlong env paddr = put_copy"

definition putUlongFloat :: "(u32, float) putconv" where
  "putUlongFloat env paddr = put_conv (\<lambda>x. Some (fint (uint x)))"

definition putUlongDouble :: "(u32, double) putconv" where
  "putUlongDouble env paddr = put_conv (\<lambda>x. Some (dint (uint x)))"

definition putUlongEnum :: "(u32, u16) putconv" where
  "putUlongEnum env paddr = put_conv (\<lambda>x. Some (word_of_int (uint x)))"

section \<open>From a DBR\_FLOAT buffer\<close>

definition putFloatChar :: "(float, u8) putconv" where
  "putFloatChar env paddr = put_conv (dcast_word env DBF_CHAR)"

definition putFloatUchar :: "(float, u8) putconv" where
  "putFloatUchar env paddr = put_conv (dcast_word env DBF_UCHAR)"

definition putFloatShort :: "(float, u16) putconv" where
  "putFloatShort env paddr = put_conv (dcast_word env DBF_SHORT)"

definition putFloatUshort :: "(float, u16) putconv" where
  "putFloatUshort env paddr = put_conv (dcast_word env DBF_USHORT)"

definition putFloatLong :: "(float, u32) putconv" where
  "putFloatLong env paddr = put_conv (dcast_word env DBF_LONG)"

definition putFloatUlong :: "(float, u32) putconv" where
  "putFloatUlong env paddr = put_conv (dcast_word env DBF_ULONG)"

definition putFloatFloat :: "(float, float) putconv" where
  "putFloatFloat env paddr = put_copy"

definition putFloatDouble :: "(float, double) putconv" where
  "putFloatDouble env paddr = put_conv Some"

definition putFloatEnum :: "(float, u16) putconv" where
  "putFloatEnum env paddr = put_conv (dcast_word env DBF_ENUM)"

section \<open>From a DBR\_DOUBLE buffer\<close>

definition putDoubleChar :: "(double, u8) putconv" where
  "putDoubleChar env paddr = put_conv (dcast_word env DBF_CHAR)"

definition putDoubleUchar :: "(double, u8) putconv" where
  "putDoubleUchar env paddr = put_conv (dcast_word env DBF_UCHAR)"

definition putDoubleShort :: "(double, u16) putconv" where
  "putDoubleShort env paddr = put_conv (dcast_word env DBF_SHORT)"

definition putDoubleUshort :: "(double, u16) putconv" where
  "putDoubleUshort env paddr = put_conv (dcast_word env DBF_USHORT)"

definition putDoubleLong :: "(double, u32) putconv" where
  "putDoubleLong env paddr = put_conv (dcast_word env DBF_LONG)"

definition putDoubleUlong :: "(double, u32) putconv" where
  "putDoubleUlong env paddr = put_conv (dcast_word env DBF_ULONG)"

definition putDoubleFloat :: "(double, float) putconv" where
  "putDoubleFloat env paddr = put_conv (\<lambda>x. Some (epicsConvertDoubleToFloat x))"

definition putDoubleDouble :: "(double, double) putconv" where
  "putDoubleDouble env paddr = put_copy"

definition putDoubleEnum :: "(double, u16) putconv" where
  "putDoubleEnum env paddr = put_conv (dcast_word env DBF_ENUM)"

section \<open>From a DBR\_ENUM buffer\<close>

definition putEnumChar :: "(u16, u8) putconv" where
  "putEnumChar env paddr = put_conv (\<lambda>x. Some (word_of_int (uint x)))"

definition putEnumUchar :: "(u16, u8) putconv" where
  "putEnumUchar env paddr = put_conv (\<lambda>x. Some (word_of_int (uint x)))"

definition putEnumShort :: "(u16, u16) putconv" where
  "putEnumShort env paddr = put_conv (\<lambda>x. Some (word_of_int (uint x)))"

definition putEnumUshort :: "(u16, u16) putconv" where
  "putEnumUshort env paddr = put_conv (\<lambda>x. Some (word_of_int (uint x)))"

definition putEnumLong :: "(u16, u32) putconv" where
  "putEnumLong env paddr = put_conv (\<lambda>x. Some (word_of_int (uint x)))"

definition putEnumUlong :: "(u16, u32) putconv" where
  "putEnumUlong env paddr = put_conv (\<lambda>x. Some (word_of_int (uint x)))"

definition putEnumFloat :: "(u16, float) putconv" where
  "putEnumFloat env paddr = put_conv (\<lambda>x. Some (fint (uint x)))"

definition putEnumDouble :: "(u16, double) putconv" where
  "putEnumDouble env paddr = put_conv (\<lambda>x. Some (dint (uint x)))"

definition putEnumEnum :: "(u16, u16) putconv" where
  "putEnumEnum env paddr = put_copy"

section \<open>The table of routines\<close>

type_synonym put_routine = "conv_env \<Rightarrow> db_addr \<Rightarrow> dbbuf \<Rightarrow> dbbuf \<Rightarrow> int \<Rightarrow> int \<Rightarrow> int \<Rightarrow> (int \<times> dbbuf) option"

definition put_entry :: "(dbbuf \<Rightarrow> 'a list option) \<Rightarrow> (dbbuf \<Rightarrow> 'b list option) \<Rightarrow> ('b list \<Rightarrow> dbbuf)
    \<Rightarrow> ('a, 'b) putconv \<Rightarrow> put_routine" where
  "put_entry un_buf un_fld pack f env paddr pfield pbuffer nRequest no_elements offset =
     (case (un_buf pbuffer, un_fld pfield) of
        (Some xs, Some ys) \<Rightarrow>
          map_option (\<lambda>(status, ys). (status, pack ys)) (f env paddr ys xs nRequest no_elements offset)
      | _ \<Rightarrow> None)"

text \<open>\<open>string_put\<close> holds the entries of strings.\<close>

definition put_row_Char :: "(dbf_type \<Rightarrow> dbf_type \<Rightarrow> put_routine) \<Rightarrow> dbf_type \<Rightarrow> put_routine option" where
  "put_row_Char string_put t = (case t of DBF_STRING \<Rightarrow> Some (string_put DBF_CHAR t)
       | DBF_CHAR \<Rightarrow> Some (put_entry un_Chars un_Chars Chars putCharChar)
       | DBF_UCHAR \<Rightarrow> Some (put_entry un_Chars un_Uchars Uchars putCharUchar)
       | DBF_SHORT \<Rightarrow> Some (put_entry un_Chars un_Shorts Shorts putCharShort)
       | DBF_USHORT \<Rightarrow> Some (put_entry un_Chars un_Ushorts Ushorts putCharUshort)
       | DBF_LONG \<Rightarrow> Some (put_entry un_Chars un_Longs Longs putCharLong)
       | DBF_ULONG \<Rightarrow> Some (put_entry un_Chars un_Ulongs Ulongs putCharUlong)
       | DBF_FLOAT \<Rightarrow> Some (put_entry un_Chars un_Floats Floats putCharFloat)
       | DBF_DOUBLE \<Rightarrow> Some (put_entry un_Chars un_Doubles Doubles putCharDouble)
       | DBF_ENUM \<Rightarrow> Some (put_entry un_Chars un_Enums Enums putCharEnum)
       | DBF_MENU \<Rightarrow> Some (put_entry un_Chars un_Enums Enums putCharEnum)
       | DBF_DEVICE \<Rightarrow> Some (put_entry un_Chars un_Enums Enums putCharEnum)
       | _ \<Rightarrow> None)"

definition put_row_Uchar :: "(dbf_type \<Rightarrow> dbf_type \<Rightarrow> put_routine) \<Rightarrow> dbf_type \<Rightarrow> put_routine option" where
  "put_row_Uchar string_put t = (case t of DBF_STRING \<Rightarrow> Some (string_put DBF_UCHAR t)
       | DBF_CHAR \<Rightarrow> Some (put_entry un_Uchars un_Chars Chars putUcharChar)
       | DBF_UCHAR \<Rightarrow> Some (put_entry un_Uchars un_Uchars Uchars putUcharUchar)
       | DBF_SHORT \<Rightarrow> Some (put_entry un_Uchars un_Shorts Shorts putUcharShort)
       | DBF_USHORT \<Rightarrow> Some (put_entry un_Uchars un_Ushorts Ushorts putUcharUshort)
       | DBF_LONG \<Rightarrow> Some (put_entry un_Uchars un_Longs Longs putUcharLong)
       | DBF_ULONG \<Rightarrow> Some (put_entry un_Uchars un_Ulongs Ulongs putUcharUlong)
       | DBF_FLOAT \<Rightarrow> Some (put_entry un_Uchars un_Floats Floats putUcharFloat)
       | DBF_DOUBLE \<Rightarrow> Some (put_entry un_Uchars un_Doubles Doubles putUcharDouble)
       | DBF_ENUM \<Rightarrow> Some (put_entry un_Uchars un_Enums Enums putUcharEnum)
       | DBF_MENU \<Rightarrow> Some (put_entry un_Uchars un_Enums Enums putUcharEnum)
       | DBF_DEVICE \<Rightarrow> Some (put_entry un_Uchars un_Enums Enums putUcharEnum)
       | _ \<Rightarrow> None)"

definition put_row_Short :: "(dbf_type \<Rightarrow> dbf_type \<Rightarrow> put_routine) \<Rightarrow> dbf_type \<Rightarrow> put_routine option" where
  "put_row_Short string_put t = (case t of DBF_STRING \<Rightarrow> Some (string_put DBF_SHORT t)
       | DBF_CHAR \<Rightarrow> Some (put_entry un_Shorts un_Chars Chars putShortChar)
       | DBF_UCHAR \<Rightarrow> Some (put_entry un_Shorts un_Uchars Uchars putShortUchar)
       | DBF_SHORT \<Rightarrow> Some (put_entry un_Shorts un_Shorts Shorts putShortShort)
       | DBF_USHORT \<Rightarrow> Some (put_entry un_Shorts un_Ushorts Ushorts putShortUshort)
       | DBF_LONG \<Rightarrow> Some (put_entry un_Shorts un_Longs Longs putShortLong)
       | DBF_ULONG \<Rightarrow> Some (put_entry un_Shorts un_Ulongs Ulongs putShortUlong)
       | DBF_FLOAT \<Rightarrow> Some (put_entry un_Shorts un_Floats Floats putShortFloat)
       | DBF_DOUBLE \<Rightarrow> Some (put_entry un_Shorts un_Doubles Doubles putShortDouble)
       | DBF_ENUM \<Rightarrow> Some (put_entry un_Shorts un_Enums Enums putShortEnum)
       | DBF_MENU \<Rightarrow> Some (put_entry un_Shorts un_Enums Enums putShortEnum)
       | DBF_DEVICE \<Rightarrow> Some (put_entry un_Shorts un_Enums Enums putShortEnum)
       | _ \<Rightarrow> None)"

definition put_row_Ushort :: "(dbf_type \<Rightarrow> dbf_type \<Rightarrow> put_routine) \<Rightarrow> dbf_type \<Rightarrow> put_routine option" where
  "put_row_Ushort string_put t = (case t of DBF_STRING \<Rightarrow> Some (string_put DBF_USHORT t)
       | DBF_CHAR \<Rightarrow> Some (put_entry un_Ushorts un_Chars Chars putUshortChar)
       | DBF_UCHAR \<Rightarrow> Some (put_entry un_Ushorts un_Uchars Uchars putUshortUchar)
       | DBF_SHORT \<Rightarrow> Some (put_entry un_Ushorts un_Shorts Shorts putUshortShort)
       | DBF_USHORT \<Rightarrow> Some (put_entry un_Ushorts un_Ushorts Ushorts putUshortUshort)
       | DBF_LONG \<Rightarrow> Some (put_entry un_Ushorts un_Longs Longs putUshortLong)
       | DBF_ULONG \<Rightarrow> Some (put_entry un_Ushorts un_Ulongs Ulongs putUshortUlong)
       | DBF_FLOAT \<Rightarrow> Some (put_entry un_Ushorts un_Floats Floats putUshortFloat)
       | DBF_DOUBLE \<Rightarrow> Some (put_entry un_Ushorts un_Doubles Doubles putUshortDouble)
       | DBF_ENUM \<Rightarrow> Some (put_entry un_Ushorts un_Enums Enums putUshortEnum)
       | DBF_MENU \<Rightarrow> Some (put_entry un_Ushorts un_Enums Enums putUshortEnum)
       | DBF_DEVICE \<Rightarrow> Some (put_entry un_Ushorts un_Enums Enums putUshortEnum)
       | _ \<Rightarrow> None)"

definition put_row_Long :: "(dbf_type \<Rightarrow> dbf_type \<Rightarrow> put_routine) \<Rightarrow> dbf_type \<Rightarrow> put_routine option" where
  "put_row_Long string_put t = (case t of DBF_STRING \<Rightarrow> Some (string_put DBF_LONG t)
       | DBF_CHAR \<Rightarrow> Some (put_entry un_Longs un_Chars Chars putLongChar)
       | DBF_UCHAR \<Rightarrow> Some (put_entry un_Longs un_Uchars Uchars putLongUchar)
       | DBF_SHORT \<Rightarrow> Some (put_entry un_Longs un_Shorts Shorts putLongShort)
       | DBF_USHORT \<Rightarrow> Some (put_entry un_Longs un_Ushorts Ushorts putLongUshort)
       | DBF_LONG \<Rightarrow> Some (put_entry un_Longs un_Longs Longs putLongLong)
       | DBF_ULONG \<Rightarrow> Some (put_entry un_Longs un_Ulongs Ulongs putLongUlong)
       | DBF_FLOAT \<Rightarrow> Some (put_entry un_Longs un_Floats Floats putLongFloat)
       | DBF_DOUBLE \<Rightarrow> Some (put_entry un_Longs un_Doubles Doubles putLongDouble)
       | DBF_ENUM \<Rightarrow> Some (put_entry un_Longs un_Enums Enums putLongEnum)
       | DBF_MENU \<Rightarrow> Some (put_entry un_Longs un_Enums Enums putLongEnum)
       | DBF_DEVICE \<Rightarrow> Some (put_entry un_Longs un_Enums Enums putLongEnum)
       | _ \<Rightarrow> None)"

definition put_row_Ulong :: "(dbf_type \<Rightarrow> dbf_type \<Rightarrow> put_routine) \<Rightarrow> dbf_type \<Rightarrow> put_routine option" where
  "put_row_Ulong string_put t = (case t of DBF_STRING \<Rightarrow> Some (string_put DBF_ULONG t)
       | DBF_CHAR \<Rightarrow> Some (put_entry un_Ulongs un_Chars Chars putUlongChar)
       | DBF_UCHAR \<Rightarrow> Some (put_entry un_Ulongs un_Uchars Uchars putUlongUchar)
       | DBF_SHORT \<Rightarrow> Some (put_entry un_Ulongs un_Shorts Shorts putUlongShort)
       | DBF_USHORT \<Rightarrow> Some (put_entry un_Ulongs un_Ushorts Ushorts putUlongUshort)
       | DBF_LONG \<Rightarrow> Some (put_entry un_Ulongs un_Longs Longs putUlongLong)
       | DBF_ULONG \<Rightarrow> Some (put_entry un_Ulongs un_Ulongs Ulongs putUlongUlong)
       | DBF_FLOAT \<Rightarrow> Some (put_entry un_Ulongs un_Floats Floats putUlongFloat)
       | DBF_DOUBLE \<Rightarrow> Some (put_entry un_Ulongs un_Doubles Doubles putUlongDouble)
       | DBF_ENUM \<Rightarrow> Some (put_entry un_Ulongs un_Enums Enums putUlongEnum)
       | DBF_MENU \<Rightarrow> Some (put_entry un_Ulongs un_Enums Enums putUlongEnum)
       | DBF_DEVICE \<Rightarrow> Some (put_entry un_Ulongs un_Enums Enums putUlongEnum)
       | _ \<Rightarrow> None)"

definition put_row_Float :: "(dbf_type \<Rightarrow> dbf_type \<Rightarrow> put_routine) \<Rightarrow> dbf_type \<Rightarrow> put_routine option" where
  "put_row_Float string_put t = (case t of DBF_STRING \<Rightarrow> Some (string_put DBF_FLOAT t)
       | DBF_CHAR \<Rightarrow> Some (put_entry un_Floats un_Chars Chars putFloatChar)
       | DBF_UCHAR \<Rightarrow> Some (put_entry un_Floats un_Uchars Uchars putFloatUchar)
       | DBF_SHORT \<Rightarrow> Some (put_entry un_Floats un_Shorts Shorts putFloatShort)
       | DBF_USHORT \<Rightarrow> Some (put_entry un_Floats un_Ushorts Ushorts putFloatUshort)
       | DBF_LONG \<Rightarrow> Some (put_entry un_Floats un_Longs Longs putFloatLong)
       | DBF_ULONG \<Rightarrow> Some (put_entry un_Floats un_Ulongs Ulongs putFloatUlong)
       | DBF_FLOAT \<Rightarrow> Some (put_entry un_Floats un_Floats Floats putFloatFloat)
       | DBF_DOUBLE \<Rightarrow> Some (put_entry un_Floats un_Doubles Doubles putFloatDouble)
       | DBF_ENUM \<Rightarrow> Some (put_entry un_Floats un_Enums Enums putFloatEnum)
       | DBF_MENU \<Rightarrow> Some (put_entry un_Floats un_Enums Enums putFloatEnum)
       | DBF_DEVICE \<Rightarrow> Some (put_entry un_Floats un_Enums Enums putFloatEnum)
       | _ \<Rightarrow> None)"

definition put_row_Double :: "(dbf_type \<Rightarrow> dbf_type \<Rightarrow> put_routine) \<Rightarrow> dbf_type \<Rightarrow> put_routine option" where
  "put_row_Double string_put t = (case t of DBF_STRING \<Rightarrow> Some (string_put DBF_DOUBLE t)
       | DBF_CHAR \<Rightarrow> Some (put_entry un_Doubles un_Chars Chars putDoubleChar)
       | DBF_UCHAR \<Rightarrow> Some (put_entry un_Doubles un_Uchars Uchars putDoubleUchar)
       | DBF_SHORT \<Rightarrow> Some (put_entry un_Doubles un_Shorts Shorts putDoubleShort)
       | DBF_USHORT \<Rightarrow> Some (put_entry un_Doubles un_Ushorts Ushorts putDoubleUshort)
       | DBF_LONG \<Rightarrow> Some (put_entry un_Doubles un_Longs Longs putDoubleLong)
       | DBF_ULONG \<Rightarrow> Some (put_entry un_Doubles un_Ulongs Ulongs putDoubleUlong)
       | DBF_FLOAT \<Rightarrow> Some (put_entry un_Doubles un_Floats Floats putDoubleFloat)
       | DBF_DOUBLE \<Rightarrow> Some (put_entry un_Doubles un_Doubles Doubles putDoubleDouble)
       | DBF_ENUM \<Rightarrow> Some (put_entry un_Doubles un_Enums Enums putDoubleEnum)
       | DBF_MENU \<Rightarrow> Some (put_entry un_Doubles un_Enums Enums putDoubleEnum)
       | DBF_DEVICE \<Rightarrow> Some (put_entry un_Doubles un_Enums Enums putDoubleEnum)
       | _ \<Rightarrow> None)"

definition put_row_Enum :: "(dbf_type \<Rightarrow> dbf_type \<Rightarrow> put_routine) \<Rightarrow> dbf_type \<Rightarrow> put_routine option" where
  "put_row_Enum string_put t = (case t of DBF_STRING \<Rightarrow> Some (string_put DBF_ENUM t)
       | DBF_CHAR \<Rightarrow> Some (put_entry un_Enums un_Chars Chars putEnumChar)
       | DBF_UCHAR \<Rightarrow> Some (put_entry un_Enums un_Uchars Uchars putEnumUchar)
       | DBF_SHORT \<Rightarrow> Some (put_entry un_Enums un_Shorts Shorts putEnumShort)
       | DBF_USHORT \<Rightarrow> Some (put_entry un_Enums un_Ushorts Ushorts putEnumUshort)
       | DBF_LONG \<Rightarrow> Some (put_entry un_Enums un_Longs Longs putEnumLong)
       | DBF_ULONG \<Rightarrow> Some (put_entry un_Enums un_Ulongs Ulongs putEnumUlong)
       | DBF_FLOAT \<Rightarrow> Some (put_entry un_Enums un_Floats Floats putEnumFloat)
       | DBF_DOUBLE \<Rightarrow> Some (put_entry un_Enums un_Doubles Doubles putEnumDouble)
       | DBF_ENUM \<Rightarrow> Some (put_entry un_Enums un_Enums Enums putEnumEnum)
       | DBF_MENU \<Rightarrow> Some (put_entry un_Enums un_Enums Enums putEnumEnum)
       | DBF_DEVICE \<Rightarrow> Some (put_entry un_Enums un_Enums Enums putEnumEnum)
       | _ \<Rightarrow> None)"

definition dbPutConvertRoutine :: "(dbf_type \<Rightarrow> dbf_type \<Rightarrow> put_routine) \<Rightarrow> dbf_type \<Rightarrow> dbf_type \<Rightarrow> put_routine option" where
  "dbPutConvertRoutine string_put s t = (case s of
     DBF_STRING \<Rightarrow> (if t \<in> {DBF_INLINK, DBF_OUTLINK, DBF_FWDLINK, DBF_NOACCESS} then None else Some (string_put s t))
   | DBF_CHAR \<Rightarrow> put_row_Char string_put t
   | DBF_UCHAR \<Rightarrow> put_row_Uchar string_put t
   | DBF_SHORT \<Rightarrow> put_row_Short string_put t
   | DBF_USHORT \<Rightarrow> put_row_Ushort string_put t
   | DBF_LONG \<Rightarrow> put_row_Long string_put t
   | DBF_ULONG \<Rightarrow> put_row_Ulong string_put t
   | DBF_FLOAT \<Rightarrow> put_row_Float string_put t
   | DBF_DOUBLE \<Rightarrow> put_row_Double string_put t
   | DBF_ENUM \<Rightarrow> put_row_Enum string_put t
   | _ \<Rightarrow> None)"

end
