(* ===== verification/DbConvert.thy ===== *)
theory DbConvert
  imports DbGetConvert DbPutConvert
begin

text \<open>
  The conversion routines against one description of all of them: the numbers a memory holds, one
  conversion of numbers, and the window of a circular array that starts at the offset.
\<close>

section \<open>Converting a list\<close>

lemma those_append: "those (xs @ ys) = (case those xs of None \<Rightarrow> None | Some a \<Rightarrow> map_option (\<lambda>b. a @ b) (those ys))"
  by (induction xs; cases "those ys") (auto split: option.splits)

lemma those_Some [simp]: "those (map Some xs) = Some xs"
  by (induction xs) auto

lemma those_total [simp]: "those (map (\<lambda>x. Some (g x)) xs) = Some (map g xs)"
  by (induction xs) auto

lemma those_map: "map_option (map g) (those xs) = those (map (map_option g) xs)"
proof (induction xs)
  case (Cons x xs)
  then show ?case by (cases x; cases "those xs") (auto simp flip: Cons.IH)
qed simp

lemma those_length: "those xs = Some ys \<Longrightarrow> length ys = length xs"
  by (induction xs arbitrary: ys) (auto split: option.splits)

lemma take_rotate:
  assumes "m \<le> length xs"
  shows "rotate m xs = drop m xs @ take m xs"
  using assms by (cases "m = length xs") (simp_all add: rotate_drop_take)

section \<open>The loop that reads\<close>

lemma get_loop_straight:
  assumes "0 \<le> p" "p + int n \<le> int (length xs)" "ne \<le> off \<or> off + int n < ne"
  shows "get_loop conv xs ne n p off = those (map conv (take n (drop (nat p) xs)))"
  using assms
proof (induction n arbitrary: p off)
  case (Suc n)
  then have d: "drop (nat p) xs = xs ! nat p # drop (nat (p + 1)) xs"
    by (metis Cons_nth_drop_Suc Suc_nat_eq_nat_zadd1 add.commute nat_less_iff of_nat_0_less_iff order_less_le_trans less_add_same_cancel1 zero_less_Suc)
  show ?case using Suc.prems Suc.IH [of "p + 1" "off + 1"] by (auto simp: d Let_def split: option.splits)
qed simp

lemma get_loop_wrap:
  assumes "0 \<le> p" "p + int m \<le> int (length xs)" "int n \<le> int (length xs)" "off + int m = ne" "0 < m"
  shows "get_loop conv xs ne (m + n) p off = those (map conv (take m (drop (nat p) xs) @ take n xs))"
  using assms
proof (induction m arbitrary: p off)
  case (Suc m)
  then have d: "drop (nat p) xs = xs ! nat p # drop (nat (p + 1)) xs"
    by (metis Cons_nth_drop_Suc Suc_nat_eq_nat_zadd1 add.commute nat_less_iff of_nat_0_less_iff order_less_le_trans less_add_same_cancel1 zero_less_Suc)
  show ?case
  proof (cases "m = 0")
    case True
    then show ?thesis
      using Suc.prems get_loop_straight [of 0 n xs ne ne conv] by (auto simp: d Let_def split: option.splits)
  next
    case False
    then show ?thesis
      using Suc.prems Suc.IH [of "p + 1" "off + 1"] by (auto simp: d Let_def split: option.splits)
  qed
qed simp

text \<open>A request within the array: \<open>n\<close> elements from the offset, in an array of \<open>ne\<close> elements.\<close>

definition in_array :: "'a list \<Rightarrow> int \<Rightarrow> int \<Rightarrow> int \<Rightarrow> bool" where
  "in_array xs n ne off \<longleftrightarrow> 0 \<le> off \<and> off < ne \<and> ne \<le> int (length xs) \<and> 0 \<le> n \<and> n \<le> ne"

definition window :: "'a list \<Rightarrow> int \<Rightarrow> int \<Rightarrow> int \<Rightarrow> 'a list" where
  "window xs n ne off = take (nat n) (rotate (nat off) (take (nat ne) xs))"

lemma window_map: "window (map f xs) n ne off = map f (window xs n ne off)"
  by (simp add: window_def take_map rotate_map)

lemma window_eq:
  assumes "in_array xs n ne off"
  shows "window xs n ne off = (if off + n \<le> ne then take (nat n) (drop (nat off) xs)
    else take (nat (ne - off)) (drop (nat off) xs) @ take (nat (n - (ne - off))) xs)"
proof -
  obtain o' n' e' where i: "off = int o'" "n = int n'" "ne = int e'"
    using assms unfolding in_array_def by (meson nonneg_int_cases order_trans less_imp_le)
  have "window xs n ne off = take n' (drop o' (take e' xs) @ take o' (take e' xs))"
    using assms by (simp add: window_def in_array_def take_rotate i)
  moreover have "o' < e'" "e' \<le> length xs" "n' \<le> e'" using assms by (simp_all add: in_array_def i)
  ultimately show ?thesis
    by (cases "length xs = e'") (auto simp: i drop_take min_def nat_diff_distrib' simp flip: of_nat_diff)
qed

section \<open>The routines that read\<close>

lemma get_loop_window:
  assumes "in_array xs n ne off"
  shows "get_loop conv xs ne (nat n) off off = those (map conv (window xs n ne off))"
proof (cases "off + n < ne")
  case True
  then show ?thesis using assms get_loop_straight [of off "nat n" xs ne off conv]
    by (simp add: window_eq [OF assms]) (simp add: in_array_def)
next
  case False
  have "nat n = nat (ne - off) + nat (n - (ne - off))" using False assms by (simp add: in_array_def flip: nat_add_distrib)
  then show ?thesis using False assms get_loop_wrap [of off "nat (ne - off)" xs "nat (n - (ne - off))" off ne conv]
    by (auto simp: window_eq [OF assms] in_array_def)
qed

lemma copy_window: "in_array xs n ne off \<Longrightarrow> copyNoConvert xs n ne off = Some (window xs n ne off)"
  by (auto simp: window_eq copyNoConvert_def mem_read_def in_array_def Let_def)

lemma window_one: "in_array xs 1 ne 0 \<Longrightarrow> \<exists>ys. xs = hd xs # ys \<and> window xs 1 ne 0 = [hd xs]"
  by (cases xs) (auto simp: window_def in_array_def)

lemma get_conv_window:
  assumes "in_array xs n ne off"
  shows "get_conv conv xs n ne off = map_option (Pair 0) (those (map conv (window xs n ne off)))"
proof (cases "n = 1 \<and> off = 0")
  case True
  with assms window_one [of xs ne] show ?thesis by (auto simp: get_conv_def split: list.splits option.splits)
next
  case False
  moreover have "\<not> n < 0" using assms by (simp add: in_array_def)
  ultimately show ?thesis using get_loop_window [OF assms, of conv] unfolding get_conv_def by auto
qed

lemma get_copy_window: "in_array xs n ne off \<Longrightarrow> get_copy xs n ne off = Some (0, window xs n ne off)"
  using window_one [of xs ne] by (auto simp: get_copy_def copy_window split: list.splits)

section \<open>The loop that writes\<close>

lemma put_loop_straight:
  assumes "0 \<le> p" "p + int n \<le> int (length fld)" "n \<le> length xs" "ne \<le> off \<or> off + int n < ne"
  shows "put_loop conv fld ne n xs p off =
    map_option (\<lambda>ys. take (nat p) fld @ ys @ drop (nat p + n) fld) (those (map conv (take n xs)))"
  using assms
proof (induction n arbitrary: p off fld xs)
  case (Suc n)
  then obtain x xs' where xs: "xs = x # xs'" by (cases xs) auto
  have "nat (p + 1) = Suc (nat p)" "nat p < length fld" using Suc.prems by auto
  then show ?case using Suc.prems Suc.IH [of "p + 1" _ xs' "off + 1"]
    by (auto simp: xs Let_def take_Suc_conv_app_nth drop_update_cancel take_update_swap list_update_beyond
        option.map_comp comp_def split: option.splits)
qed simp

text \<open>Seen from the offset, the new elements come first, and then the rest of the array as it was.\<close>

definition put_window :: "'a list \<Rightarrow> 'a list \<Rightarrow> int \<Rightarrow> int \<Rightarrow> 'a list" where
  "put_window fld ys ne off =
     (let m = nat (ne - off)
      in if length ys \<le> m then take (nat off) fld @ ys @ drop (nat off + length ys) fld
         else drop m ys @ drop (length ys - m) (take (nat off) fld) @ take m ys @ drop (nat ne) fld)"

lemma put_loop_wrap:
  assumes "0 \<le> p" "p + int m \<le> int (length fld)" "m \<le> length xs" "off + int m = ne" "0 < m"
  shows "put_loop conv fld ne (m + n) xs p off = (case those (map conv (take m xs)) of None \<Rightarrow> None
    | Some ys \<Rightarrow> put_loop conv (take (nat p) fld @ ys @ drop (nat p + m) fld) ne n (drop m xs) 0 ne)"
  using assms
proof (induction m arbitrary: p off fld xs)
  case (Suc m)
  then obtain x xs' where xs: "xs = x # xs'" by (cases xs) auto
  have p: "nat (p + 1) = Suc (nat p)" "nat p < length fld" using Suc.prems by auto
  show ?case
  proof (cases "m = 0")
    case True
    then show ?thesis using Suc.prems p by (auto simp: xs Let_def upd_conv_take_nth_drop split: option.splits)
  next
    case False
    then show ?thesis using Suc.prems p Suc.IH [of "p + 1" _ xs' "off + 1"]
      by (auto simp: xs Let_def take_Suc_conv_app_nth drop_update_cancel take_update_swap list_update_beyond
          list_update_append split: option.splits)
  qed
qed simp

lemma put_loop_window:
  assumes "in_array fld n ne off" "n \<le> int (length xs)"
  shows "put_loop conv fld ne (nat n) xs off off = map_option (\<lambda>ys. put_window fld ys ne off) (those (map conv (take (nat n) xs)))"
proof (cases "off + n < ne")
  case True
  have l: "length ys = nat n" if "those (map conv (take (nat n) xs)) = Some ys" for ys
    using those_length [OF that] assms by simp
  show ?thesis using True assms put_loop_straight [of off "nat n" fld xs ne off conv]
    by (auto simp: put_window_def in_array_def Let_def l intro!: option.map_cong0)
next
  case False
  let ?m = "nat (ne - off)" and ?n = "nat (n - (ne - off))"
  have e: "nat off + ?m = nat ne" using assms by (simp add: in_array_def flip: nat_add_distrib)
  have n: "nat n = ?m + ?n" using False assms by (simp add: in_array_def flip: nat_add_distrib)
  have "put_loop conv fld ne (nat n) xs off off = (case those (map conv (take ?m xs)) of None \<Rightarrow> None
    | Some ys \<Rightarrow> put_loop conv (take (nat off) fld @ ys @ drop (nat ne) fld) ne ?n (drop ?m xs) 0 ne)"
    using put_loop_wrap [of off ?m fld xs off ne conv ?n] assms False unfolding n e by (simp add: in_array_def)
  moreover have "put_loop conv (take (nat off) fld @ ys @ drop (nat ne) fld) ne ?n (drop ?m xs) 0 ne =
      map_option (\<lambda>zs. put_window fld (ys @ zs) ne off) (those (map conv (take ?n (drop ?m xs))))"
    if "those (map conv (take ?m xs)) = Some ys" for ys
  proof -
    have ys: "length ys = ?m" using those_length [OF that] assms False by (simp add: in_array_def)
    have zs: "length zs = ?n" if "those (map conv (take ?n (drop ?m xs))) = Some zs" for zs
      using those_length [OF that] assms False by (auto simp: in_array_def min_def)
    let ?f = "take (nat off) fld @ ys @ drop (nat ne) fld"
    have f: "length ?f = length fld" "?n \<le> nat off" "nat off \<le> length fld" using assms False e by (auto simp: ys in_array_def min_def)
    have w: "put_window fld (ys @ zs) ne off = zs @ drop ?n ?f" if "length zs = ?n" for zs
      using f that e by (cases "?n = 0") (simp_all add: put_window_def Let_def ys)
    have "put_loop conv ?f ne ?n (drop ?m xs) 0 ne = map_option (\<lambda>zs. zs @ drop ?n ?f) (those (map conv (take ?n (drop ?m xs))))"
      using put_loop_straight [of 0 ?n ?f "drop ?m xs" ne ne conv] f assms False by (simp add: in_array_def)
    also have "\<dots> = map_option (\<lambda>zs. put_window fld (ys @ zs) ne off) (those (map conv (take ?n (drop ?m xs))))"
      using w zs by (intro option.map_cong0) auto
    finally show ?thesis .
  qed
  ultimately show ?thesis unfolding n
    by (auto simp: take_add those_append option.map_comp comp_def split: option.splits)
qed

lemma put_conv_window:
  assumes a: "in_array fld n ne off" "n \<le> int (length xs)"
  shows "put_conv conv fld xs n ne off =
    map_option (\<lambda>ys. (0, put_window fld ys ne off)) (those (map conv (take (nat n) xs)))"
proof (cases "n = 1 \<and> off = 0")
  case True
  with a have "fld \<noteq> []" "xs \<noteq> []" by (auto simp: in_array_def)
  then obtain y ys x xs' where "fld = y # ys" "xs = x # xs'" by (meson neq_Nil_conv)
  with True a show ?thesis
    by (auto simp: put_conv_def put_one_def put_window_def in_array_def Let_def option.map_comp comp_def split: option.splits)
next
  case False
  moreover have "\<not> n < 0" using a by (simp add: in_array_def)
  ultimately show ?thesis using put_loop_window [OF a, of conv]
    unfolding put_conv_def by (auto simp: option.map_comp comp_def)
qed

text \<open>What a copying routine writes: the elements of the client's buffer from the offset on, at the start of
  the field.\<close>

lemma put_copy_zero:
  assumes "in_array fld n ne 0" "n \<le> int (length xs)"
  shows "put_copy fld xs n ne 0 = Some (0, put_window fld (take (nat n) xs) ne 0)"
proof (cases "n = 1")
  case True
  with assms have "fld \<noteq> []" "xs \<noteq> []" by (auto simp: in_array_def)
  then obtain y ys x xs' where "fld = y # ys" "xs = x # xs'" by (meson neq_Nil_conv)
  moreover have "Suc 0 \<le> nat ne" using assms by (auto simp: in_array_def)
  ultimately show ?thesis using True by (simp add: put_copy_def put_one_def put_window_def Let_def)
next
  case False
  with assms show ?thesis
    by (auto simp: put_copy_def put_window_def in_array_def copyNoConvert_def mem_read_def Let_def min_def)
qed

section \<open>The numbers\<close>

datatype num = Whole int | Dbl double

fun dbnums :: "conv_env \<Rightarrow> dbbuf \<Rightarrow> num list" where
  "dbnums env (Strings xs) = []"
| "dbnums env (Chars xs) = map (\<lambda>x. Whole (char_val (plain_signed env) x)) xs"
| "dbnums env (Uchars xs) = map (\<lambda>x. Whole (uint x)) xs"
| "dbnums env (Shorts xs) = map (\<lambda>x. Whole (sint x)) xs"
| "dbnums env (Ushorts xs) = map (\<lambda>x. Whole (uint x)) xs"
| "dbnums env (Longs xs) = map (\<lambda>x. Whole (sint x)) xs"
| "dbnums env (Ulongs xs) = map (\<lambda>x. Whole (uint x)) xs"
| "dbnums env (Floats xs) = map Dbl xs"
| "dbnums env (Doubles xs) = map Dbl xs"
| "dbnums env (Enums xs) = map (\<lambda>x. Whole (uint x)) xs"

fun buf_type :: "dbbuf \<Rightarrow> dbf_type" where
  "buf_type (Strings xs) = DBF_STRING" | "buf_type (Chars xs) = DBF_CHAR" | "buf_type (Uchars xs) = DBF_UCHAR"
| "buf_type (Shorts xs) = DBF_SHORT" | "buf_type (Ushorts xs) = DBF_USHORT" | "buf_type (Longs xs) = DBF_LONG"
| "buf_type (Ulongs xs) = DBF_ULONG" | "buf_type (Floats xs) = DBF_FLOAT" | "buf_type (Doubles xs) = DBF_DOUBLE"
| "buf_type (Enums xs) = DBF_ENUM"

text \<open>How a field of a type is stored.\<close>

definition store_type :: "dbf_type \<Rightarrow> dbf_type" where
  "store_type t = (if t = DBF_MENU \<or> t = DBF_DEVICE then DBF_ENUM else t)"

abbreviation numeric_types :: "dbf_type set" where
  "numeric_types \<equiv> {DBF_CHAR, DBF_UCHAR, DBF_SHORT, DBF_USHORT, DBF_LONG, DBF_ULONG, DBF_FLOAT, DBF_DOUBLE, DBF_ENUM}"

text \<open>One conversion for all types: an integer is reduced to the range of an integer type, a floating point
  number is truncated towards zero and must then lie in that range.\<close>

definition wrap :: "conv_env \<Rightarrow> dbf_type \<Rightarrow> int \<Rightarrow> int" where
  "wrap env t i = (case int_range env t of (lo, hi) \<Rightarrow> lo + (i - lo) mod (hi - lo + 1))"

definition num_conv :: "conv_env \<Rightarrow> dbf_type \<Rightarrow> dbf_type \<Rightarrow> num \<Rightarrow> num option" where
  "num_conv env s t v = (case v of
     Whole i \<Rightarrow> Some (if t = DBF_FLOAT then Dbl (fint i) else if t = DBF_DOUBLE then Dbl (dint i) else Whole (wrap env t i))
   | Dbl d \<Rightarrow> if t = DBF_FLOAT then Some (Dbl (if s = DBF_FLOAT then d else epicsConvertDoubleToFloat d))
             else if t = DBF_DOUBLE then Some (Dbl d) else map_option Whole (dcast env t d))"

lemma wrap_words:
  "uint (word_of_int i :: u8) = wrap env DBF_UCHAR i"
  "char_val (plain_signed env) (word_of_int i) = wrap env DBF_CHAR i"
  "sint (word_of_int i :: u16) = wrap env DBF_SHORT i" "uint (word_of_int i :: u16) = wrap env DBF_USHORT i"
  "sint (word_of_int i :: u32) = wrap env DBF_LONG i" "uint (word_of_int i :: u32) = wrap env DBF_ULONG i"
  by (simp_all add: wrap_def int_range_def char_val_def sint_sbintrunc' signed_take_bit_eq_take_bit_shift
      uint_word_of_int take_bit_eq_mod)

text \<open>An \<open>epicsEnum16\<close> converts as an \<open>epicsUInt16\<close>.\<close>

lemma enum_ushort [simp]: "wrap env DBF_ENUM i = wrap env DBF_USHORT i" "dcast env DBF_ENUM d = dcast env DBF_USHORT d"
  "dcast_word env DBF_ENUM d = dcast_word env DBF_USHORT d"
  by (simp_all add: wrap_def dcast_def dcast_word_def int_range_def)

lemma word_values: "word_of_int (char_val b x) = x" "word_of_int (uint y) = y" "word_of_int (sint y) = y"
  by (simp_all add: char_val_def)

text \<open>What the copying routines keep.\<close>

lemma wrap_same:
  "wrap env DBF_UCHAR (char_val (plain_signed env) b) = uint b" "wrap env DBF_CHAR (char_val (plain_signed env) b) = char_val (plain_signed env) b"
  "wrap env DBF_CHAR (uint b) = char_val (plain_signed env) b" "wrap env DBF_UCHAR (uint b) = uint b"
  "wrap env DBF_USHORT (sint h) = uint h" "wrap env DBF_SHORT (sint h) = sint h"
  "wrap env DBF_SHORT (uint h) = sint h" "wrap env DBF_USHORT (uint h) = uint h"
  "wrap env DBF_ULONG (sint l) = uint l" "wrap env DBF_LONG (sint l) = sint l"
  "wrap env DBF_LONG (uint l) = sint l" "wrap env DBF_ULONG (uint l) = uint l"
  for b :: u8 and h :: u16 and l :: u32
  by (simp_all add: word_values flip: wrap_words)

lemma dcast_wrap: "dcast env t d = Some i \<Longrightarrow> wrap env t i = i"
  by (auto simp: dcast_def Let_def wrap_def split: if_splits prod.splits)

lemma dcast_words:
  "map_option (\<lambda>x. Whole (uint (x :: u8))) (dcast_word env DBF_UCHAR d) = map_option Whole (dcast env DBF_UCHAR d)"
  "map_option (\<lambda>x. Whole (char_val (plain_signed env) x)) (dcast_word env DBF_CHAR d) = map_option Whole (dcast env DBF_CHAR d)"
  "map_option (\<lambda>x. Whole (sint (x :: u16))) (dcast_word env DBF_SHORT d) = map_option Whole (dcast env DBF_SHORT d)"
  "map_option (\<lambda>x. Whole (uint (x :: u16))) (dcast_word env DBF_USHORT d) = map_option Whole (dcast env DBF_USHORT d)"
  "map_option (\<lambda>x. Whole (sint (x :: u32))) (dcast_word env DBF_LONG d) = map_option Whole (dcast env DBF_LONG d)"
  "map_option (\<lambda>x. Whole (uint (x :: u32))) (dcast_word env DBF_ULONG d) = map_option Whole (dcast env DBF_ULONG d)"
  by (auto simp: dcast_word_def option.map_comp comp_def wrap_words [where env = env] dcast_wrap intro!: option.map_cong0)

lemma conv_those:
  assumes "\<And>x. map_option vd (c x) = k x"
  shows "map_option (\<lambda>ys. (a, b, map vd ys)) (those (map c w)) = map_option (\<lambda>vs. (a, b, vs)) (those (map k w))"
proof -
  have "those (map k w) = map_option (map vd) (those (map c w))"
    unfolding those_map by (simp add: comp_def assms)
  then show ?thesis by (simp add: option.map_comp comp_def)
qed

lemmas get_Char_routines = getCharChar_def getCharUchar_def getCharShort_def getCharUshort_def getCharLong_def getCharUlong_def getCharFloat_def getCharDouble_def getCharEnum_def
lemmas get_Uchar_routines = getUcharChar_def getUcharUchar_def getUcharShort_def getUcharUshort_def getUcharLong_def getUcharUlong_def getUcharFloat_def getUcharDouble_def getUcharEnum_def
lemmas get_Short_routines = getShortChar_def getShortUchar_def getShortShort_def getShortUshort_def getShortLong_def getShortUlong_def getShortFloat_def getShortDouble_def getShortEnum_def
lemmas get_Ushort_routines = getUshortChar_def getUshortUchar_def getUshortShort_def getUshortUshort_def getUshortLong_def getUshortUlong_def getUshortFloat_def getUshortDouble_def getUshortEnum_def
lemmas get_Long_routines = getLongChar_def getLongUchar_def getLongShort_def getLongUshort_def getLongLong_def getLongUlong_def getLongFloat_def getLongDouble_def getLongEnum_def
lemmas get_Ulong_routines = getUlongChar_def getUlongUchar_def getUlongShort_def getUlongUshort_def getUlongLong_def getUlongUlong_def getUlongFloat_def getUlongDouble_def getUlongEnum_def
lemmas get_Float_routines = getFloatChar_def getFloatUchar_def getFloatShort_def getFloatUshort_def getFloatLong_def getFloatUlong_def getFloatFloat_def getFloatDouble_def getFloatEnum_def
lemmas get_Double_routines = getDoubleChar_def getDoubleUchar_def getDoubleShort_def getDoubleUshort_def getDoubleLong_def getDoubleUlong_def getDoubleFloat_def getDoubleDouble_def getDoubleEnum_def
lemmas get_Enum_routines = getEnumChar_def getEnumUchar_def getEnumShort_def getEnumUshort_def getEnumLong_def getEnumUlong_def getEnumFloat_def getEnumDouble_def getEnumEnum_def

lemmas put_Char_routines = putCharChar_def putCharUchar_def putCharShort_def putCharUshort_def putCharLong_def putCharUlong_def putCharFloat_def putCharDouble_def putCharEnum_def
lemmas put_Uchar_routines = putUcharChar_def putUcharUchar_def putUcharShort_def putUcharUshort_def putUcharLong_def putUcharUlong_def putUcharFloat_def putUcharDouble_def putUcharEnum_def
lemmas put_Short_routines = putShortChar_def putShortUchar_def putShortShort_def putShortUshort_def putShortLong_def putShortUlong_def putShortFloat_def putShortDouble_def putShortEnum_def
lemmas put_Ushort_routines = putUshortChar_def putUshortUchar_def putUshortShort_def putUshortUshort_def putUshortLong_def putUshortUlong_def putUshortFloat_def putUshortDouble_def putUshortEnum_def
lemmas put_Long_routines = putLongChar_def putLongUchar_def putLongShort_def putLongUshort_def putLongLong_def putLongUlong_def putLongFloat_def putLongDouble_def putLongEnum_def
lemmas put_Ulong_routines = putUlongChar_def putUlongUchar_def putUlongShort_def putUlongUshort_def putUlongLong_def putUlongUlong_def putUlongFloat_def putUlongDouble_def putUlongEnum_def
lemmas put_Float_routines = putFloatChar_def putFloatUchar_def putFloatShort_def putFloatUshort_def putFloatLong_def putFloatUlong_def putFloatFloat_def putFloatDouble_def putFloatEnum_def
lemmas put_Double_routines = putDoubleChar_def putDoubleUchar_def putDoubleShort_def putDoubleUshort_def putDoubleLong_def putDoubleUlong_def putDoubleFloat_def putDoubleDouble_def putDoubleEnum_def
lemmas put_Enum_routines = putEnumChar_def putEnumUchar_def putEnumShort_def putEnumUshort_def putEnumLong_def putEnumUlong_def putEnumFloat_def putEnumDouble_def putEnumEnum_def

text \<open>A routine of the table on a numeric field.\<close>

lemma get_copy_those: "in_array xs n ne off \<Longrightarrow> get_copy xs n ne off = map_option (Pair 0) (those (map Some (window xs n ne off)))"
  by (simp add: get_copy_window)

definition field_length :: "dbbuf \<Rightarrow> int" where
  "field_length b = (case b of Strings xs \<Rightarrow> int (length xs) | Chars xs \<Rightarrow> int (length xs) | Uchars xs \<Rightarrow> int (length xs)
     | Shorts xs \<Rightarrow> int (length xs) | Ushorts xs \<Rightarrow> int (length xs) | Longs xs \<Rightarrow> int (length xs) | Ulongs xs \<Rightarrow> int (length xs)
     | Floats xs \<Rightarrow> int (length xs) | Doubles xs \<Rightarrow> int (length xs) | Enums xs \<Rightarrow> int (length xs))"

lemmas entry_simps = get_entry_def get_chars_def get_copy_those get_conv_window option.map_comp comp_def window_map
      num_conv_def wrap_words [symmetric] word_values dcast_words

definition buf_nums :: "conv_env \<Rightarrow> (int \<times> dbbuf) option \<Rightarrow> (int \<times> dbf_type \<times> num list) option" where
  "buf_nums env r = map_option (\<lambda>(status, b). (status, buf_type b, dbnums env b)) r"

lemma get_row_Char_nums:
  assumes "get_row_Char sg t = Some r" "t \<in> numeric_types" "\<not> is_string_field paddr" "in_array xs n ne off"
  shows "buf_nums env (r env paddr (Chars xs) n ne off) = map_option (\<lambda>vs. (0, t, vs))
    (those (map (num_conv env DBF_CHAR t) (window (dbnums env (Chars xs)) n ne off)))"
  using assms by (cases t) (auto simp: get_row_Char_def get_Char_routines buf_nums_def entry_simps intro!: conv_those)

lemma get_row_Uchar_nums:
  assumes "get_row_Uchar sg t = Some r" "t \<in> numeric_types" "in_array xs n ne off"
  shows "buf_nums env (r env paddr (Uchars xs) n ne off) = map_option (\<lambda>vs. (0, t, vs))
    (those (map (num_conv env DBF_UCHAR t) (window (dbnums env (Uchars xs)) n ne off)))"
  using assms by (cases t) (auto simp: get_row_Uchar_def get_Uchar_routines buf_nums_def entry_simps intro!: conv_those)

lemma get_row_Short_nums:
  assumes "get_row_Short sg t = Some r" "t \<in> numeric_types" "in_array xs n ne off"
  shows "buf_nums env (r env paddr (Shorts xs) n ne off) = map_option (\<lambda>vs. (0, t, vs))
    (those (map (num_conv env DBF_SHORT t) (window (dbnums env (Shorts xs)) n ne off)))"
  using assms by (cases t) (auto simp: get_row_Short_def get_Short_routines buf_nums_def entry_simps intro!: conv_those)

lemma get_row_Ushort_nums:
  assumes "get_row_Ushort sg t = Some r" "t \<in> numeric_types" "in_array xs n ne off"
  shows "buf_nums env (r env paddr (Ushorts xs) n ne off) = map_option (\<lambda>vs. (0, t, vs))
    (those (map (num_conv env DBF_USHORT t) (window (dbnums env (Ushorts xs)) n ne off)))"
  using assms by (cases t) (auto simp: get_row_Ushort_def get_Ushort_routines buf_nums_def entry_simps intro!: conv_those)

lemma get_row_Long_nums:
  assumes "get_row_Long sg t = Some r" "t \<in> numeric_types" "in_array xs n ne off"
  shows "buf_nums env (r env paddr (Longs xs) n ne off) = map_option (\<lambda>vs. (0, t, vs))
    (those (map (num_conv env DBF_LONG t) (window (dbnums env (Longs xs)) n ne off)))"
  using assms by (cases t) (auto simp: get_row_Long_def get_Long_routines buf_nums_def entry_simps intro!: conv_those)

lemma get_row_Ulong_nums:
  assumes "get_row_Ulong sg t = Some r" "t \<in> numeric_types" "in_array xs n ne off"
  shows "buf_nums env (r env paddr (Ulongs xs) n ne off) = map_option (\<lambda>vs. (0, t, vs))
    (those (map (num_conv env DBF_ULONG t) (window (dbnums env (Ulongs xs)) n ne off)))"
  using assms by (cases t) (auto simp: get_row_Ulong_def get_Ulong_routines buf_nums_def entry_simps intro!: conv_those)

lemma get_row_Float_nums:
  assumes "get_row_Float sg t = Some r" "t \<in> numeric_types" "in_array xs n ne off"
  shows "buf_nums env (r env paddr (Floats xs) n ne off) = map_option (\<lambda>vs. (0, t, vs))
    (those (map (num_conv env DBF_FLOAT t) (window (dbnums env (Floats xs)) n ne off)))"
  using assms by (cases t) (auto simp: get_row_Float_def get_Float_routines buf_nums_def entry_simps intro!: conv_those)

lemma get_row_Double_nums:
  assumes "get_row_Double sg t = Some r" "t \<in> numeric_types" "in_array xs n ne off"
  shows "buf_nums env (r env paddr (Doubles xs) n ne off) = map_option (\<lambda>vs. (0, t, vs))
    (those (map (num_conv env DBF_DOUBLE t) (window (dbnums env (Doubles xs)) n ne off)))"
  using assms by (cases t) (auto simp: get_row_Double_def get_Double_routines buf_nums_def entry_simps intro!: conv_those)

lemma get_row_Enum_nums:
  assumes "get_row_Enum sg t = Some r" "t \<in> numeric_types" "in_array xs n ne off"
  shows "buf_nums env (r env paddr (Enums xs) n ne off) = map_option (\<lambda>vs. (0, t, vs))
    (those (map (num_conv env DBF_ENUM t) (window (dbnums env (Enums xs)) n ne off)))"
  using assms by (cases t) (auto simp: get_row_Enum_def get_Enum_routines buf_nums_def entry_simps intro!: conv_those)

lemmas get_row_nums = get_row_Char_nums get_row_Uchar_nums get_row_Short_nums get_row_Ushort_nums get_row_Long_nums get_row_Ulong_nums get_row_Float_nums get_row_Double_nums get_row_Enum_nums

lemma in_array_map [simp]: "in_array (map f xs) = in_array xs"
  by (simp add: in_array_def fun_eq_iff)

lemma get_routine_nums:
  assumes r: "dbGetConvertRoutine string_get s t = Some r" and t: "t \<in> numeric_types" "store_type s \<in> numeric_types"
    and f: "buf_type fld = store_type s" "\<not> is_string_field paddr" "in_array (dbnums env fld) n ne off"
  shows "buf_nums env (r env paddr fld n ne off) = map_option (\<lambda>vs. (0, t, vs))
    (those (map (num_conv env s t) (window (dbnums env fld) n ne off)))"
proof -
  have "num_conv env s t = num_conv env (store_type s) t"
    by (simp add: num_conv_def store_type_def fun_eq_iff split: num.splits)
  then show ?thesis using assms
    by (cases s; cases fld) (auto simp: dbGetConvertRoutine_def store_type_def get_row_nums split: if_splits)
qed

text \<open>C18: Every routine of the table that reads a numeric field returns the numbers of the field, from the
  offset on and wrapping at the number of elements, each converted to the type of the client's buffer: an
  integer is reduced to the range of an integer type, a floating point number truncated. It is undefined
  exactly where one of these is out of range, and reads nothing outside the field.\<close>

theorem get_routine_correct:
  assumes r: "dbGetConvertRoutine string_get s t = Some r" and t: "t \<in> numeric_types" "store_type s \<in> numeric_types"
    and f: "buf_type fld = store_type s" "\<not> is_string_field paddr" "in_array (dbnums env fld) n ne off"
  shows "buf_nums env (r env paddr fld n ne off) = map_option (\<lambda>vs. (0, t, vs))
    (those (map (num_conv env s t) (window (dbnums env fld) n ne off)))"
  by (rule get_routine_nums [OF assms])

section \<open>The routines that write\<close>

lemma map_put_window: "map f (put_window fld ys ne off) = put_window (map f fld) (map f ys) ne off"
  by (simp add: put_window_def Let_def take_map drop_map)

lemma put_copy_those:
  "in_array fld n ne 0 \<Longrightarrow> n \<le> int (length xs) \<Longrightarrow>
    put_copy fld xs n ne 0 = map_option (\<lambda>ys. (0, put_window fld ys ne 0)) (those (map Some (take (nat n) xs)))"
  by (simp add: put_copy_zero)

lemma conv_those_put:
  assumes "\<And>x. map_option vd (c x) = k x"
  shows "map_option (\<lambda>ys. (a, b, put_window fld (map vd ys) ne off)) (those (map c w)) =
    map_option (\<lambda>vs. (a, b, put_window fld vs ne off)) (those (map k w))"
proof -
  have "those (map k w) = map_option (map vd) (those (map c w))"
    unfolding those_map by (simp add: comp_def assms)
  then show ?thesis by (simp add: option.map_comp comp_def)
qed

lemma put_copy_offset:
  assumes "0 < off" "off + n \<le> ne" "0 \<le> n" "n \<le> int (length fld)"
  shows "put_copy fld xs n ne off = (if off + n \<le> int (length xs)
    then Some (0, take (nat n) (drop (nat off) xs) @ drop (nat n) fld) else None)"
proof -
  have "length (take (nat n) (drop (nat off) xs)) = nat n" if "off + n \<le> int (length xs)"
    using that assms by (auto simp: min_def)
  then show ?thesis using assms by (auto simp: put_copy_def copyNoConvert_def mem_read_def Let_def simp del: length_take)
qed

text \<open>The types of one representation, between which the routines copy.\<close>

definition same_rep :: "dbf_type \<Rightarrow> dbf_type \<Rightarrow> bool" where
  "same_rep s t \<longleftrightarrow> s = t \<or> {s, t} = {DBF_CHAR, DBF_UCHAR} \<or> {s, t} = {DBF_SHORT, DBF_USHORT} \<or> {s, t} = {DBF_LONG, DBF_ULONG}"

lemmas put_entry_simps = put_entry_def put_copy_those put_conv_window option.map_comp comp_def take_map map_put_window
      num_conv_def wrap_words [symmetric] word_values dcast_words same_rep_def doubleton_eq_iff

lemma put_row_Char_nums:
  assumes "put_row_Char sp t = Some r" "store_type t \<in> numeric_types" "off = 0 \<or> \<not> same_rep DBF_CHAR (store_type t)"
    and "buf_type fld = store_type t" "in_array (dbnums env fld) n ne off" "n \<le> int (length xs)"
  shows "buf_nums env (r env paddr fld (Chars xs) n ne off) = map_option (\<lambda>vs. (0, store_type t, put_window (dbnums env fld) vs ne off))
    (those (map (num_conv env DBF_CHAR (store_type t)) (take (nat n) (dbnums env (Chars xs)))))"
  using assms by (cases t; cases fld)
    (auto simp: put_row_Char_def put_Char_routines buf_nums_def put_entry_simps store_type_def intro!: conv_those_put)

lemma put_row_Uchar_nums:
  assumes "put_row_Uchar sp t = Some r" "store_type t \<in> numeric_types" "off = 0 \<or> \<not> same_rep DBF_UCHAR (store_type t)"
    and "buf_type fld = store_type t" "in_array (dbnums env fld) n ne off" "n \<le> int (length xs)"
  shows "buf_nums env (r env paddr fld (Uchars xs) n ne off) = map_option (\<lambda>vs. (0, store_type t, put_window (dbnums env fld) vs ne off))
    (those (map (num_conv env DBF_UCHAR (store_type t)) (take (nat n) (dbnums env (Uchars xs)))))"
  using assms by (cases t; cases fld)
    (auto simp: put_row_Uchar_def put_Uchar_routines buf_nums_def put_entry_simps store_type_def intro!: conv_those_put)

lemma put_row_Short_nums:
  assumes "put_row_Short sp t = Some r" "store_type t \<in> numeric_types" "off = 0 \<or> \<not> same_rep DBF_SHORT (store_type t)"
    and "buf_type fld = store_type t" "in_array (dbnums env fld) n ne off" "n \<le> int (length xs)"
  shows "buf_nums env (r env paddr fld (Shorts xs) n ne off) = map_option (\<lambda>vs. (0, store_type t, put_window (dbnums env fld) vs ne off))
    (those (map (num_conv env DBF_SHORT (store_type t)) (take (nat n) (dbnums env (Shorts xs)))))"
  using assms by (cases t; cases fld)
    (auto simp: put_row_Short_def put_Short_routines buf_nums_def put_entry_simps store_type_def intro!: conv_those_put)

lemma put_row_Ushort_nums:
  assumes "put_row_Ushort sp t = Some r" "store_type t \<in> numeric_types" "off = 0 \<or> \<not> same_rep DBF_USHORT (store_type t)"
    and "buf_type fld = store_type t" "in_array (dbnums env fld) n ne off" "n \<le> int (length xs)"
  shows "buf_nums env (r env paddr fld (Ushorts xs) n ne off) = map_option (\<lambda>vs. (0, store_type t, put_window (dbnums env fld) vs ne off))
    (those (map (num_conv env DBF_USHORT (store_type t)) (take (nat n) (dbnums env (Ushorts xs)))))"
  using assms by (cases t; cases fld)
    (auto simp: put_row_Ushort_def put_Ushort_routines buf_nums_def put_entry_simps store_type_def intro!: conv_those_put)

lemma put_row_Long_nums:
  assumes "put_row_Long sp t = Some r" "store_type t \<in> numeric_types" "off = 0 \<or> \<not> same_rep DBF_LONG (store_type t)"
    and "buf_type fld = store_type t" "in_array (dbnums env fld) n ne off" "n \<le> int (length xs)"
  shows "buf_nums env (r env paddr fld (Longs xs) n ne off) = map_option (\<lambda>vs. (0, store_type t, put_window (dbnums env fld) vs ne off))
    (those (map (num_conv env DBF_LONG (store_type t)) (take (nat n) (dbnums env (Longs xs)))))"
  using assms by (cases t; cases fld)
    (auto simp: put_row_Long_def put_Long_routines buf_nums_def put_entry_simps store_type_def intro!: conv_those_put)

lemma put_row_Ulong_nums:
  assumes "put_row_Ulong sp t = Some r" "store_type t \<in> numeric_types" "off = 0 \<or> \<not> same_rep DBF_ULONG (store_type t)"
    and "buf_type fld = store_type t" "in_array (dbnums env fld) n ne off" "n \<le> int (length xs)"
  shows "buf_nums env (r env paddr fld (Ulongs xs) n ne off) = map_option (\<lambda>vs. (0, store_type t, put_window (dbnums env fld) vs ne off))
    (those (map (num_conv env DBF_ULONG (store_type t)) (take (nat n) (dbnums env (Ulongs xs)))))"
  using assms by (cases t; cases fld)
    (auto simp: put_row_Ulong_def put_Ulong_routines buf_nums_def put_entry_simps store_type_def intro!: conv_those_put)

lemma put_row_Float_nums:
  assumes "put_row_Float sp t = Some r" "store_type t \<in> numeric_types" "off = 0 \<or> \<not> same_rep DBF_FLOAT (store_type t)"
    and "buf_type fld = store_type t" "in_array (dbnums env fld) n ne off" "n \<le> int (length xs)"
  shows "buf_nums env (r env paddr fld (Floats xs) n ne off) = map_option (\<lambda>vs. (0, store_type t, put_window (dbnums env fld) vs ne off))
    (those (map (num_conv env DBF_FLOAT (store_type t)) (take (nat n) (dbnums env (Floats xs)))))"
  using assms by (cases t; cases fld)
    (auto simp: put_row_Float_def put_Float_routines buf_nums_def put_entry_simps store_type_def intro!: conv_those_put)

lemma put_row_Double_nums:
  assumes "put_row_Double sp t = Some r" "store_type t \<in> numeric_types" "off = 0 \<or> \<not> same_rep DBF_DOUBLE (store_type t)"
    and "buf_type fld = store_type t" "in_array (dbnums env fld) n ne off" "n \<le> int (length xs)"
  shows "buf_nums env (r env paddr fld (Doubles xs) n ne off) = map_option (\<lambda>vs. (0, store_type t, put_window (dbnums env fld) vs ne off))
    (those (map (num_conv env DBF_DOUBLE (store_type t)) (take (nat n) (dbnums env (Doubles xs)))))"
  using assms by (cases t; cases fld)
    (auto simp: put_row_Double_def put_Double_routines buf_nums_def put_entry_simps store_type_def intro!: conv_those_put)

lemma put_row_Enum_nums:
  assumes "put_row_Enum sp t = Some r" "store_type t \<in> numeric_types" "off = 0 \<or> \<not> same_rep DBF_ENUM (store_type t)"
    and "buf_type fld = store_type t" "in_array (dbnums env fld) n ne off" "n \<le> int (length xs)"
  shows "buf_nums env (r env paddr fld (Enums xs) n ne off) = map_option (\<lambda>vs. (0, store_type t, put_window (dbnums env fld) vs ne off))
    (those (map (num_conv env DBF_ENUM (store_type t)) (take (nat n) (dbnums env (Enums xs)))))"
  using assms by (cases t; cases fld)
    (auto simp: put_row_Enum_def put_Enum_routines buf_nums_def put_entry_simps store_type_def intro!: conv_those_put)

lemmas put_row_nums = put_row_Char_nums put_row_Uchar_nums put_row_Short_nums put_row_Ushort_nums put_row_Long_nums put_row_Ulong_nums put_row_Float_nums put_row_Double_nums put_row_Enum_nums

lemma put_routine_nums:
  assumes r: "dbPutConvertRoutine string_put s t = Some r" and t: "s \<in> numeric_types" "store_type t \<in> numeric_types"
    and f: "buf_type buf = s" "buf_type fld = store_type t" "in_array (dbnums env fld) n ne off" "n \<le> int (length (dbnums env buf))"
    and off: "off = 0 \<or> \<not> same_rep s (store_type t)"
  shows "buf_nums env (r env paddr fld buf n ne off) = map_option (\<lambda>vs. (0, store_type t, put_window (dbnums env fld) vs ne off))
    (those (map (num_conv env s (store_type t)) (take (nat n) (dbnums env buf))))"
  using assms by (cases s; cases buf) (simp_all add: dbPutConvertRoutine_def put_row_nums)

text \<open>C19: Every routine of the table that writes a numeric field puts the client's values, converted to the type
  of the field, into the elements from the offset on, wrapping at the number of elements, and leaves the
  others as they were. This holds at any offset where the routine converts, and at offset 0 where it copies.\<close>

theorem put_routine_correct:
  assumes r: "dbPutConvertRoutine string_put s t = Some r" and t: "s \<in> numeric_types" "store_type t \<in> numeric_types"
    and f: "buf_type buf = s" "buf_type fld = store_type t" "in_array (dbnums env fld) n ne off" "n \<le> int (length (dbnums env buf))"
    and off: "off = 0 \<or> \<not> same_rep s (store_type t)"
  shows "buf_nums env (r env paddr fld buf n ne off) = map_option (\<lambda>vs. (0, store_type t, put_window (dbnums env fld) vs ne off))
    (those (map (num_conv env s (store_type t)) (take (nat n) (dbnums env buf))))"
  by (rule put_routine_nums [OF assms])

lemma put_row_Char_offset:
  assumes "put_row_Char sp t = Some r" "same_rep DBF_CHAR (store_type t)" "buf_type fld = store_type t"
    and "0 < off" "off + n \<le> ne" "0 \<le> n" "n \<le> int (length (dbnums env fld))"
  shows "buf_nums env (r env paddr fld (Chars xs) n ne off) = (if off + n \<le> int (length xs)
    then map_option (\<lambda>vs. (0, store_type t, vs @ drop (nat n) (dbnums env fld)))
      (those (map (num_conv env DBF_CHAR (store_type t)) (take (nat n) (drop (nat off) (dbnums env (Chars xs))))))
    else None)"
  using assms by (cases t; cases fld)
    (auto simp: put_row_Char_def put_Char_routines buf_nums_def put_copy_offset put_entry_simps store_type_def drop_map)

lemma put_row_Uchar_offset:
  assumes "put_row_Uchar sp t = Some r" "same_rep DBF_UCHAR (store_type t)" "buf_type fld = store_type t"
    and "0 < off" "off + n \<le> ne" "0 \<le> n" "n \<le> int (length (dbnums env fld))"
  shows "buf_nums env (r env paddr fld (Uchars xs) n ne off) = (if off + n \<le> int (length xs)
    then map_option (\<lambda>vs. (0, store_type t, vs @ drop (nat n) (dbnums env fld)))
      (those (map (num_conv env DBF_UCHAR (store_type t)) (take (nat n) (drop (nat off) (dbnums env (Uchars xs))))))
    else None)"
  using assms by (cases t; cases fld)
    (auto simp: put_row_Uchar_def put_Uchar_routines buf_nums_def put_copy_offset put_entry_simps store_type_def drop_map)

lemma put_row_Short_offset:
  assumes "put_row_Short sp t = Some r" "same_rep DBF_SHORT (store_type t)" "buf_type fld = store_type t"
    and "0 < off" "off + n \<le> ne" "0 \<le> n" "n \<le> int (length (dbnums env fld))"
  shows "buf_nums env (r env paddr fld (Shorts xs) n ne off) = (if off + n \<le> int (length xs)
    then map_option (\<lambda>vs. (0, store_type t, vs @ drop (nat n) (dbnums env fld)))
      (those (map (num_conv env DBF_SHORT (store_type t)) (take (nat n) (drop (nat off) (dbnums env (Shorts xs))))))
    else None)"
  using assms by (cases t; cases fld)
    (auto simp: put_row_Short_def put_Short_routines buf_nums_def put_copy_offset put_entry_simps store_type_def drop_map)

lemma put_row_Ushort_offset:
  assumes "put_row_Ushort sp t = Some r" "same_rep DBF_USHORT (store_type t)" "buf_type fld = store_type t"
    and "0 < off" "off + n \<le> ne" "0 \<le> n" "n \<le> int (length (dbnums env fld))"
  shows "buf_nums env (r env paddr fld (Ushorts xs) n ne off) = (if off + n \<le> int (length xs)
    then map_option (\<lambda>vs. (0, store_type t, vs @ drop (nat n) (dbnums env fld)))
      (those (map (num_conv env DBF_USHORT (store_type t)) (take (nat n) (drop (nat off) (dbnums env (Ushorts xs))))))
    else None)"
  using assms by (cases t; cases fld)
    (auto simp: put_row_Ushort_def put_Ushort_routines buf_nums_def put_copy_offset put_entry_simps store_type_def drop_map)

lemma put_row_Long_offset:
  assumes "put_row_Long sp t = Some r" "same_rep DBF_LONG (store_type t)" "buf_type fld = store_type t"
    and "0 < off" "off + n \<le> ne" "0 \<le> n" "n \<le> int (length (dbnums env fld))"
  shows "buf_nums env (r env paddr fld (Longs xs) n ne off) = (if off + n \<le> int (length xs)
    then map_option (\<lambda>vs. (0, store_type t, vs @ drop (nat n) (dbnums env fld)))
      (those (map (num_conv env DBF_LONG (store_type t)) (take (nat n) (drop (nat off) (dbnums env (Longs xs))))))
    else None)"
  using assms by (cases t; cases fld)
    (auto simp: put_row_Long_def put_Long_routines buf_nums_def put_copy_offset put_entry_simps store_type_def drop_map)

lemma put_row_Ulong_offset:
  assumes "put_row_Ulong sp t = Some r" "same_rep DBF_ULONG (store_type t)" "buf_type fld = store_type t"
    and "0 < off" "off + n \<le> ne" "0 \<le> n" "n \<le> int (length (dbnums env fld))"
  shows "buf_nums env (r env paddr fld (Ulongs xs) n ne off) = (if off + n \<le> int (length xs)
    then map_option (\<lambda>vs. (0, store_type t, vs @ drop (nat n) (dbnums env fld)))
      (those (map (num_conv env DBF_ULONG (store_type t)) (take (nat n) (drop (nat off) (dbnums env (Ulongs xs))))))
    else None)"
  using assms by (cases t; cases fld)
    (auto simp: put_row_Ulong_def put_Ulong_routines buf_nums_def put_copy_offset put_entry_simps store_type_def drop_map)

lemma put_row_Float_offset:
  assumes "put_row_Float sp t = Some r" "same_rep DBF_FLOAT (store_type t)" "buf_type fld = store_type t"
    and "0 < off" "off + n \<le> ne" "0 \<le> n" "n \<le> int (length (dbnums env fld))"
  shows "buf_nums env (r env paddr fld (Floats xs) n ne off) = (if off + n \<le> int (length xs)
    then map_option (\<lambda>vs. (0, store_type t, vs @ drop (nat n) (dbnums env fld)))
      (those (map (num_conv env DBF_FLOAT (store_type t)) (take (nat n) (drop (nat off) (dbnums env (Floats xs))))))
    else None)"
  using assms by (cases t; cases fld)
    (auto simp: put_row_Float_def put_Float_routines buf_nums_def put_copy_offset put_entry_simps store_type_def drop_map)

lemma put_row_Double_offset:
  assumes "put_row_Double sp t = Some r" "same_rep DBF_DOUBLE (store_type t)" "buf_type fld = store_type t"
    and "0 < off" "off + n \<le> ne" "0 \<le> n" "n \<le> int (length (dbnums env fld))"
  shows "buf_nums env (r env paddr fld (Doubles xs) n ne off) = (if off + n \<le> int (length xs)
    then map_option (\<lambda>vs. (0, store_type t, vs @ drop (nat n) (dbnums env fld)))
      (those (map (num_conv env DBF_DOUBLE (store_type t)) (take (nat n) (drop (nat off) (dbnums env (Doubles xs))))))
    else None)"
  using assms by (cases t; cases fld)
    (auto simp: put_row_Double_def put_Double_routines buf_nums_def put_copy_offset put_entry_simps store_type_def drop_map)

lemma put_row_Enum_offset:
  assumes "put_row_Enum sp t = Some r" "same_rep DBF_ENUM (store_type t)" "buf_type fld = store_type t"
    and "0 < off" "off + n \<le> ne" "0 \<le> n" "n \<le> int (length (dbnums env fld))"
  shows "buf_nums env (r env paddr fld (Enums xs) n ne off) = (if off + n \<le> int (length xs)
    then map_option (\<lambda>vs. (0, store_type t, vs @ drop (nat n) (dbnums env fld)))
      (those (map (num_conv env DBF_ENUM (store_type t)) (take (nat n) (drop (nat off) (dbnums env (Enums xs))))))
    else None)"
  using assms by (cases t; cases fld)
    (auto simp: put_row_Enum_def put_Enum_routines buf_nums_def put_copy_offset put_entry_simps store_type_def drop_map)

text \<open>Where it copies, a routine that writes takes the offset into the client's buffer instead of the field: it
  reads the elements from the offset on, which is undefined behaviour unless the client sent that many, and
  stores them at the start of the field.\<close>

theorem put_copies_offset_of_buffer:
  assumes r: "dbPutConvertRoutine string_put s t = Some r" and t: "s \<in> numeric_types" "same_rep s (store_type t)"
    and f: "buf_type buf = s" "buf_type fld = store_type t"
    and n: "0 < off" "off + n \<le> ne" "0 \<le> n" "n \<le> int (length (dbnums env fld))"
  shows "buf_nums env (r env paddr fld buf n ne off) = (if off + n \<le> int (length (dbnums env buf))
    then map_option (\<lambda>vs. (0, store_type t, vs @ drop (nat n) (dbnums env fld)))
      (those (map (num_conv env s (store_type t)) (take (nat n) (drop (nat off) (dbnums env buf)))))
    else None)"
  using assms by (cases s; cases buf) (simp_all add: dbPutConvertRoutine_def put_row_Char_offset put_row_Uchar_offset put_row_Short_offset put_row_Ushort_offset put_row_Long_offset put_row_Ulong_offset put_row_Float_offset put_row_Double_offset put_row_Enum_offset)

section \<open>Examples\<close>

text \<open>Examples: an ABI whose plain \<open>char\<close> is unsigned, and an array field.\<close>

definition conv_env0 :: conv_env where
  "conv_env0 = \<lparr>plain_signed = False\<rparr>"

definition array_field :: db_addr where
  "array_field = \<lparr>field = ''VAL'', field_type = DBF_SHORT, special_type = 0, pfldDes = None, addr_elements = 4, addr_size = 2\<rparr>"

abbreviation no_strings :: "dbf_type \<Rightarrow> dbf_type \<Rightarrow> get_routine" where
  "no_strings \<equiv> \<lambda>_ _ _ _ _ _ _ _. None"

abbreviation no_string_puts :: "dbf_type \<Rightarrow> dbf_type \<Rightarrow> put_routine" where
  "no_string_puts \<equiv> \<lambda>_ _ _ _ _ _ _ _ _. None"

lemma window_example: "in_array [a, b, c, d] 3 4 2" "window [a, b, c, d] 3 4 2 = [c, d, a]"
  by (simp_all add: in_array_def window_def numeral_2_eq_2)

theorem get_routine_correct_witness:
  "\<exists>r. dbGetConvertRoutine no_strings DBF_SHORT DBF_UCHAR = Some r \<and>
     buf_nums conv_env0 (r conv_env0 array_field (Shorts [- 1, 300, 3, 4]) 3 4 2) = Some (0, DBF_UCHAR, [Whole 3, Whole 4, Whole 255])"
proof (intro exI conjI)
  show r: "dbGetConvertRoutine no_strings DBF_SHORT DBF_UCHAR = Some (get_entry un_Shorts Uchars getShortUchar)"
    by (simp add: dbGetConvertRoutine_def get_row_Short_def)
  show "buf_nums conv_env0 (get_entry un_Shorts Uchars getShortUchar conv_env0 array_field (Shorts [- 1, 300, 3, 4]) 3 4 2) =
      Some (0, DBF_UCHAR, [Whole 3, Whole 4, Whole 255])"
    using get_routine_correct [OF r, of "Shorts [- 1, 300, 3, 4]" array_field conv_env0 3 4 2]
    by (simp add: store_type_def is_string_field_def array_field_def window_example num_conv_def wrap_def int_range_def)
qed

theorem put_routine_correct_witness:
  "\<exists>r. dbPutConvertRoutine no_string_puts DBF_LONG DBF_SHORT = Some r \<and>
     buf_nums conv_env0 (r conv_env0 array_field (Shorts [10, 20, 30, 40]) (Longs [1, 70000, 3]) 3 4 2) =
       Some (0, DBF_SHORT, [Whole 3, Whole 20, Whole 1, Whole 4464])"
proof (intro exI conjI)
  show r: "dbPutConvertRoutine no_string_puts DBF_LONG DBF_SHORT = Some (put_entry un_Longs un_Shorts Shorts putLongShort)"
    by (simp add: dbPutConvertRoutine_def put_row_Long_def)
  show "buf_nums conv_env0 (put_entry un_Longs un_Shorts Shorts putLongShort conv_env0 array_field (Shorts [10, 20, 30, 40]) (Longs [1, 70000, 3]) 3 4 2) =
       Some (0, DBF_SHORT, [Whole 3, Whole 20, Whole 1, Whole 4464])"
    using put_routine_correct [OF r, of "Longs [1, 70000, 3]" "Shorts [10, 20, 30, 40]" conv_env0 3 4 2 array_field]
    by (simp add: store_type_def window_example same_rep_def doubleton_eq_iff num_conv_def wrap_def int_range_def put_window_def numeral_2_eq_2 Let_def)
qed

theorem put_copies_offset_of_buffer_witness:
  "\<exists>r. dbPutConvertRoutine no_string_puts DBF_SHORT DBF_SHORT = Some r \<and>
     r conv_env0 array_field (Shorts [10, 20, 30, 40]) (Shorts [1, 2]) 2 4 2 = None \<and>
     buf_nums conv_env0 (r conv_env0 array_field (Shorts [10, 20, 30, 40]) (Shorts [1, 2, 3, 4]) 2 4 2) =
       Some (0, DBF_SHORT, [Whole 3, Whole 4, Whole 30, Whole 40])"
proof (intro exI conjI)
  let ?r = "put_entry un_Shorts un_Shorts Shorts putShortShort"
  show r: "dbPutConvertRoutine no_string_puts DBF_SHORT DBF_SHORT = Some ?r"
    by (simp add: dbPutConvertRoutine_def put_row_Short_def)
  note run = put_copies_offset_of_buffer [OF r, where env = conv_env0 and paddr = array_field and n = 2 and ne = 4 and off = 2]
  show "?r conv_env0 array_field (Shorts [10, 20, 30, 40]) (Shorts [1, 2]) 2 4 2 = None"
    using run [of "Shorts [1, 2]" "Shorts [10, 20, 30, 40]"] by (simp add: same_rep_def store_type_def buf_nums_def)
  show "buf_nums conv_env0 (?r conv_env0 array_field (Shorts [10, 20, 30, 40]) (Shorts [1, 2, 3, 4]) 2 4 2) =
       Some (0, DBF_SHORT, [Whole 3, Whole 4, Whole 30, Whole 40])"
    using run [of "Shorts [1, 2, 3, 4]" "Shorts [10, 20, 30, 40]"]
    by (simp add: same_rep_def store_type_def num_conv_def wrap_def int_range_def numeral_2_eq_2)
qed

end
