(* ===== verification/DbFastConvert.thy ===== *)
theory DbFastConvert
  imports DbConvert
begin

text \<open>
  dbFastLinkConv.c: the conversions of single values, one for each pair of numeric types, and the tables of
  them, which agree with the tables of dbConvert.c on one element.
\<close>

type_synonym ('a, 'b) cvt = "conv_env \<Rightarrow> db_addr option \<Rightarrow> 'a \<Rightarrow> (int \<times> 'b) option"

section \<open>From Char\<close>

definition cvt_c_c :: "(u8, u8) cvt" where
  "cvt_c_c env paddr from = Some (0, word_of_int (char_val (plain_signed env) from))"

definition cvt_c_uc :: "(u8, u8) cvt" where
  "cvt_c_uc env paddr from = Some (0, word_of_int (char_val (plain_signed env) from))"

definition cvt_c_s :: "(u8, u16) cvt" where
  "cvt_c_s env paddr from = Some (0, word_of_int (char_val (plain_signed env) from))"

definition cvt_c_us :: "(u8, u16) cvt" where
  "cvt_c_us env paddr from = Some (0, word_of_int (char_val (plain_signed env) from))"

definition cvt_c_l :: "(u8, u32) cvt" where
  "cvt_c_l env paddr from = Some (0, word_of_int (char_val (plain_signed env) from))"

definition cvt_c_ul :: "(u8, u32) cvt" where
  "cvt_c_ul env paddr from = Some (0, word_of_int (char_val (plain_signed env) from))"

definition cvt_c_f :: "(u8, float) cvt" where
  "cvt_c_f env paddr from = Some (0, fint (char_val (plain_signed env) from))"

definition cvt_c_d :: "(u8, double) cvt" where
  "cvt_c_d env paddr from = Some (0, dint (char_val (plain_signed env) from))"

definition cvt_c_e :: "(u8, u16) cvt" where
  "cvt_c_e env paddr from = Some (0, word_of_int (char_val (plain_signed env) from))"

section \<open>From Uchar\<close>

definition cvt_uc_c :: "(u8, u8) cvt" where
  "cvt_uc_c env paddr from = Some (0, word_of_int (uint from))"

definition cvt_uc_uc :: "(u8, u8) cvt" where
  "cvt_uc_uc env paddr from = Some (0, word_of_int (uint from))"

definition cvt_uc_s :: "(u8, u16) cvt" where
  "cvt_uc_s env paddr from = Some (0, word_of_int (uint from))"

definition cvt_uc_us :: "(u8, u16) cvt" where
  "cvt_uc_us env paddr from = Some (0, word_of_int (uint from))"

definition cvt_uc_l :: "(u8, u32) cvt" where
  "cvt_uc_l env paddr from = Some (0, word_of_int (uint from))"

definition cvt_uc_ul :: "(u8, u32) cvt" where
  "cvt_uc_ul env paddr from = Some (0, word_of_int (uint from))"

definition cvt_uc_f :: "(u8, float) cvt" where
  "cvt_uc_f env paddr from = Some (0, fint (uint from))"

definition cvt_uc_d :: "(u8, double) cvt" where
  "cvt_uc_d env paddr from = Some (0, dint (uint from))"

definition cvt_uc_e :: "(u8, u16) cvt" where
  "cvt_uc_e env paddr from = Some (0, word_of_int (uint from))"

section \<open>From Short\<close>

definition cvt_s_c :: "(u16, u8) cvt" where
  "cvt_s_c env paddr from = Some (0, word_of_int (sint from))"

definition cvt_s_uc :: "(u16, u8) cvt" where
  "cvt_s_uc env paddr from = Some (0, word_of_int (sint from))"

definition cvt_s_s :: "(u16, u16) cvt" where
  "cvt_s_s env paddr from = Some (0, word_of_int (sint from))"

definition cvt_s_us :: "(u16, u16) cvt" where
  "cvt_s_us env paddr from = Some (0, word_of_int (sint from))"

definition cvt_s_l :: "(u16, u32) cvt" where
  "cvt_s_l env paddr from = Some (0, word_of_int (sint from))"

definition cvt_s_ul :: "(u16, u32) cvt" where
  "cvt_s_ul env paddr from = Some (0, word_of_int (sint from))"

definition cvt_s_f :: "(u16, float) cvt" where
  "cvt_s_f env paddr from = Some (0, fint (sint from))"

definition cvt_s_d :: "(u16, double) cvt" where
  "cvt_s_d env paddr from = Some (0, dint (sint from))"

definition cvt_s_e :: "(u16, u16) cvt" where
  "cvt_s_e env paddr from = Some (0, word_of_int (sint from))"

section \<open>From Ushort\<close>

definition cvt_us_c :: "(u16, u8) cvt" where
  "cvt_us_c env paddr from = Some (0, word_of_int (uint from))"

definition cvt_us_uc :: "(u16, u8) cvt" where
  "cvt_us_uc env paddr from = Some (0, word_of_int (uint from))"

definition cvt_us_s :: "(u16, u16) cvt" where
  "cvt_us_s env paddr from = Some (0, word_of_int (uint from))"

definition cvt_us_us :: "(u16, u16) cvt" where
  "cvt_us_us env paddr from = Some (0, word_of_int (uint from))"

definition cvt_us_l :: "(u16, u32) cvt" where
  "cvt_us_l env paddr from = Some (0, word_of_int (uint from))"

definition cvt_us_ul :: "(u16, u32) cvt" where
  "cvt_us_ul env paddr from = Some (0, word_of_int (uint from))"

definition cvt_us_f :: "(u16, float) cvt" where
  "cvt_us_f env paddr from = Some (0, fint (uint from))"

definition cvt_us_d :: "(u16, double) cvt" where
  "cvt_us_d env paddr from = Some (0, dint (uint from))"

definition cvt_us_e :: "(u16, u16) cvt" where
  "cvt_us_e env paddr from = Some (0, word_of_int (uint from))"

section \<open>From Long\<close>

definition cvt_l_c :: "(u32, u8) cvt" where
  "cvt_l_c env paddr from = Some (0, word_of_int (sint from))"

definition cvt_l_uc :: "(u32, u8) cvt" where
  "cvt_l_uc env paddr from = Some (0, word_of_int (sint from))"

definition cvt_l_s :: "(u32, u16) cvt" where
  "cvt_l_s env paddr from = Some (0, word_of_int (sint from))"

definition cvt_l_us :: "(u32, u16) cvt" where
  "cvt_l_us env paddr from = Some (0, word_of_int (sint from))"

definition cvt_l_l :: "(u32, u32) cvt" where
  "cvt_l_l env paddr from = Some (0, word_of_int (sint from))"

definition cvt_l_ul :: "(u32, u32) cvt" where
  "cvt_l_ul env paddr from = Some (0, word_of_int (sint from))"

definition cvt_l_f :: "(u32, float) cvt" where
  "cvt_l_f env paddr from = Some (0, fint (sint from))"

definition cvt_l_d :: "(u32, double) cvt" where
  "cvt_l_d env paddr from = Some (0, dint (sint from))"

definition cvt_l_e :: "(u32, u16) cvt" where
  "cvt_l_e env paddr from = Some (0, word_of_int (sint from))"

section \<open>From Ulong\<close>

definition cvt_ul_c :: "(u32, u8) cvt" where
  "cvt_ul_c env paddr from = Some (0, word_of_int (uint from))"

definition cvt_ul_uc :: "(u32, u8) cvt" where
  "cvt_ul_uc env paddr from = Some (0, word_of_int (uint from))"

definition cvt_ul_s :: "(u32, u16) cvt" where
  "cvt_ul_s env paddr from = Some (0, word_of_int (uint from))"

definition cvt_ul_us :: "(u32, u16) cvt" where
  "cvt_ul_us env paddr from = Some (0, word_of_int (uint from))"

definition cvt_ul_l :: "(u32, u32) cvt" where
  "cvt_ul_l env paddr from = Some (0, word_of_int (uint from))"

definition cvt_ul_ul :: "(u32, u32) cvt" where
  "cvt_ul_ul env paddr from = Some (0, word_of_int (uint from))"

definition cvt_ul_f :: "(u32, float) cvt" where
  "cvt_ul_f env paddr from = Some (0, fint (uint from))"

definition cvt_ul_d :: "(u32, double) cvt" where
  "cvt_ul_d env paddr from = Some (0, dint (uint from))"

definition cvt_ul_e :: "(u32, u16) cvt" where
  "cvt_ul_e env paddr from = Some (0, word_of_int (uint from))"

section \<open>From Float\<close>

definition cvt_f_c :: "(float, u8) cvt" where
  "cvt_f_c env paddr from = map_option (Pair 0) (dcast_word env DBF_CHAR from)"

definition cvt_f_uc :: "(float, u8) cvt" where
  "cvt_f_uc env paddr from = map_option (Pair 0) (dcast_word env DBF_UCHAR from)"

definition cvt_f_s :: "(float, u16) cvt" where
  "cvt_f_s env paddr from = map_option (Pair 0) (dcast_word env DBF_SHORT from)"

definition cvt_f_us :: "(float, u16) cvt" where
  "cvt_f_us env paddr from = map_option (Pair 0) (dcast_word env DBF_USHORT from)"

definition cvt_f_l :: "(float, u32) cvt" where
  "cvt_f_l env paddr from = map_option (Pair 0) (dcast_word env DBF_LONG from)"

definition cvt_f_ul :: "(float, u32) cvt" where
  "cvt_f_ul env paddr from = map_option (Pair 0) (dcast_word env DBF_ULONG from)"

definition cvt_f_f :: "(float, float) cvt" where
  "cvt_f_f env paddr from = Some (0, from)"

definition cvt_f_d :: "(float, double) cvt" where
  "cvt_f_d env paddr from = Some (0, from)"

definition cvt_f_e :: "(float, u16) cvt" where
  "cvt_f_e env paddr from = map_option (Pair 0) (dcast_word env DBF_ENUM from)"

section \<open>From Double\<close>

definition cvt_d_c :: "(double, u8) cvt" where
  "cvt_d_c env paddr from = map_option (Pair 0) (dcast_word env DBF_CHAR from)"

definition cvt_d_uc :: "(double, u8) cvt" where
  "cvt_d_uc env paddr from = map_option (Pair 0) (dcast_word env DBF_UCHAR from)"

definition cvt_d_s :: "(double, u16) cvt" where
  "cvt_d_s env paddr from = map_option (Pair 0) (dcast_word env DBF_SHORT from)"

definition cvt_d_us :: "(double, u16) cvt" where
  "cvt_d_us env paddr from = map_option (Pair 0) (dcast_word env DBF_USHORT from)"

definition cvt_d_l :: "(double, u32) cvt" where
  "cvt_d_l env paddr from = map_option (Pair 0) (dcast_word env DBF_LONG from)"

definition cvt_d_ul :: "(double, u32) cvt" where
  "cvt_d_ul env paddr from = map_option (Pair 0) (dcast_word env DBF_ULONG from)"

definition cvt_d_f :: "(double, float) cvt" where
  "cvt_d_f env paddr from = Some (0, epicsConvertDoubleToFloat from)"

definition cvt_d_d :: "(double, double) cvt" where
  "cvt_d_d env paddr from = Some (0, from)"

definition cvt_d_e :: "(double, u16) cvt" where
  "cvt_d_e env paddr from = map_option (Pair 0) (dcast_word env DBF_ENUM from)"

section \<open>From Enum\<close>

definition cvt_e_c :: "(u16, u8) cvt" where
  "cvt_e_c env paddr from = Some (0, word_of_int (uint from))"

definition cvt_e_uc :: "(u16, u8) cvt" where
  "cvt_e_uc env paddr from = Some (0, word_of_int (uint from))"

definition cvt_e_s :: "(u16, u16) cvt" where
  "cvt_e_s env paddr from = Some (0, word_of_int (uint from))"

definition cvt_e_us :: "(u16, u16) cvt" where
  "cvt_e_us env paddr from = Some (0, word_of_int (uint from))"

definition cvt_e_l :: "(u16, u32) cvt" where
  "cvt_e_l env paddr from = Some (0, word_of_int (uint from))"

definition cvt_e_ul :: "(u16, u32) cvt" where
  "cvt_e_ul env paddr from = Some (0, word_of_int (uint from))"

definition cvt_e_f :: "(u16, float) cvt" where
  "cvt_e_f env paddr from = Some (0, fint (uint from))"

definition cvt_e_d :: "(u16, double) cvt" where
  "cvt_e_d env paddr from = Some (0, dint (uint from))"

definition cvt_e_e :: "(u16, u16) cvt" where
  "cvt_e_e env paddr from = Some (0, word_of_int (uint from))"

section \<open>The tables\<close>

text \<open>An entry reads the first element of a memory; its result is one element of the other type.\<close>

type_synonym fast_routine = "conv_env \<Rightarrow> db_addr option \<Rightarrow> dbbuf \<Rightarrow> (int \<times> dbbuf) option"

definition fast_entry :: "(dbbuf \<Rightarrow> 'a list option) \<Rightarrow> ('b list \<Rightarrow> dbbuf) \<Rightarrow> ('a, 'b) cvt \<Rightarrow> fast_routine" where
  "fast_entry un pack f env paddr from = (case un from of
     Some (x # _) \<Rightarrow> map_option (\<lambda>(status, y). (status, pack [y])) (f env paddr x)
   | _ \<Rightarrow> None)"

definition fast_row_Char :: "dbf_type \<Rightarrow> fast_routine option" where
  "fast_row_Char t = (case t of
     DBF_CHAR \<Rightarrow> Some (fast_entry un_Chars Chars cvt_c_c)
   | DBF_UCHAR \<Rightarrow> Some (fast_entry un_Chars Uchars cvt_c_uc)
   | DBF_SHORT \<Rightarrow> Some (fast_entry un_Chars Shorts cvt_c_s)
   | DBF_USHORT \<Rightarrow> Some (fast_entry un_Chars Ushorts cvt_c_us)
   | DBF_LONG \<Rightarrow> Some (fast_entry un_Chars Longs cvt_c_l)
   | DBF_ULONG \<Rightarrow> Some (fast_entry un_Chars Ulongs cvt_c_ul)
   | DBF_FLOAT \<Rightarrow> Some (fast_entry un_Chars Floats cvt_c_f)
   | DBF_DOUBLE \<Rightarrow> Some (fast_entry un_Chars Doubles cvt_c_d)
   | DBF_ENUM \<Rightarrow> Some (fast_entry un_Chars Enums cvt_c_e)
   | _ \<Rightarrow> None)"

definition fast_row_Uchar :: "dbf_type \<Rightarrow> fast_routine option" where
  "fast_row_Uchar t = (case t of
     DBF_CHAR \<Rightarrow> Some (fast_entry un_Uchars Chars cvt_uc_c)
   | DBF_UCHAR \<Rightarrow> Some (fast_entry un_Uchars Uchars cvt_uc_uc)
   | DBF_SHORT \<Rightarrow> Some (fast_entry un_Uchars Shorts cvt_uc_s)
   | DBF_USHORT \<Rightarrow> Some (fast_entry un_Uchars Ushorts cvt_uc_us)
   | DBF_LONG \<Rightarrow> Some (fast_entry un_Uchars Longs cvt_uc_l)
   | DBF_ULONG \<Rightarrow> Some (fast_entry un_Uchars Ulongs cvt_uc_ul)
   | DBF_FLOAT \<Rightarrow> Some (fast_entry un_Uchars Floats cvt_uc_f)
   | DBF_DOUBLE \<Rightarrow> Some (fast_entry un_Uchars Doubles cvt_uc_d)
   | DBF_ENUM \<Rightarrow> Some (fast_entry un_Uchars Enums cvt_uc_e)
   | _ \<Rightarrow> None)"

definition fast_row_Short :: "dbf_type \<Rightarrow> fast_routine option" where
  "fast_row_Short t = (case t of
     DBF_CHAR \<Rightarrow> Some (fast_entry un_Shorts Chars cvt_s_c)
   | DBF_UCHAR \<Rightarrow> Some (fast_entry un_Shorts Uchars cvt_s_uc)
   | DBF_SHORT \<Rightarrow> Some (fast_entry un_Shorts Shorts cvt_s_s)
   | DBF_USHORT \<Rightarrow> Some (fast_entry un_Shorts Ushorts cvt_s_us)
   | DBF_LONG \<Rightarrow> Some (fast_entry un_Shorts Longs cvt_s_l)
   | DBF_ULONG \<Rightarrow> Some (fast_entry un_Shorts Ulongs cvt_s_ul)
   | DBF_FLOAT \<Rightarrow> Some (fast_entry un_Shorts Floats cvt_s_f)
   | DBF_DOUBLE \<Rightarrow> Some (fast_entry un_Shorts Doubles cvt_s_d)
   | DBF_ENUM \<Rightarrow> Some (fast_entry un_Shorts Enums cvt_s_e)
   | _ \<Rightarrow> None)"

definition fast_row_Ushort :: "dbf_type \<Rightarrow> fast_routine option" where
  "fast_row_Ushort t = (case t of
     DBF_CHAR \<Rightarrow> Some (fast_entry un_Ushorts Chars cvt_us_c)
   | DBF_UCHAR \<Rightarrow> Some (fast_entry un_Ushorts Uchars cvt_us_uc)
   | DBF_SHORT \<Rightarrow> Some (fast_entry un_Ushorts Shorts cvt_us_s)
   | DBF_USHORT \<Rightarrow> Some (fast_entry un_Ushorts Ushorts cvt_us_us)
   | DBF_LONG \<Rightarrow> Some (fast_entry un_Ushorts Longs cvt_us_l)
   | DBF_ULONG \<Rightarrow> Some (fast_entry un_Ushorts Ulongs cvt_us_ul)
   | DBF_FLOAT \<Rightarrow> Some (fast_entry un_Ushorts Floats cvt_us_f)
   | DBF_DOUBLE \<Rightarrow> Some (fast_entry un_Ushorts Doubles cvt_us_d)
   | DBF_ENUM \<Rightarrow> Some (fast_entry un_Ushorts Enums cvt_us_e)
   | _ \<Rightarrow> None)"

definition fast_row_Long :: "dbf_type \<Rightarrow> fast_routine option" where
  "fast_row_Long t = (case t of
     DBF_CHAR \<Rightarrow> Some (fast_entry un_Longs Chars cvt_l_c)
   | DBF_UCHAR \<Rightarrow> Some (fast_entry un_Longs Uchars cvt_l_uc)
   | DBF_SHORT \<Rightarrow> Some (fast_entry un_Longs Shorts cvt_l_s)
   | DBF_USHORT \<Rightarrow> Some (fast_entry un_Longs Ushorts cvt_l_us)
   | DBF_LONG \<Rightarrow> Some (fast_entry un_Longs Longs cvt_l_l)
   | DBF_ULONG \<Rightarrow> Some (fast_entry un_Longs Ulongs cvt_l_ul)
   | DBF_FLOAT \<Rightarrow> Some (fast_entry un_Longs Floats cvt_l_f)
   | DBF_DOUBLE \<Rightarrow> Some (fast_entry un_Longs Doubles cvt_l_d)
   | DBF_ENUM \<Rightarrow> Some (fast_entry un_Longs Enums cvt_l_e)
   | _ \<Rightarrow> None)"

definition fast_row_Ulong :: "dbf_type \<Rightarrow> fast_routine option" where
  "fast_row_Ulong t = (case t of
     DBF_CHAR \<Rightarrow> Some (fast_entry un_Ulongs Chars cvt_ul_c)
   | DBF_UCHAR \<Rightarrow> Some (fast_entry un_Ulongs Uchars cvt_ul_uc)
   | DBF_SHORT \<Rightarrow> Some (fast_entry un_Ulongs Shorts cvt_ul_s)
   | DBF_USHORT \<Rightarrow> Some (fast_entry un_Ulongs Ushorts cvt_ul_us)
   | DBF_LONG \<Rightarrow> Some (fast_entry un_Ulongs Longs cvt_ul_l)
   | DBF_ULONG \<Rightarrow> Some (fast_entry un_Ulongs Ulongs cvt_ul_ul)
   | DBF_FLOAT \<Rightarrow> Some (fast_entry un_Ulongs Floats cvt_ul_f)
   | DBF_DOUBLE \<Rightarrow> Some (fast_entry un_Ulongs Doubles cvt_ul_d)
   | DBF_ENUM \<Rightarrow> Some (fast_entry un_Ulongs Enums cvt_ul_e)
   | _ \<Rightarrow> None)"

definition fast_row_Float :: "dbf_type \<Rightarrow> fast_routine option" where
  "fast_row_Float t = (case t of
     DBF_CHAR \<Rightarrow> Some (fast_entry un_Floats Chars cvt_f_c)
   | DBF_UCHAR \<Rightarrow> Some (fast_entry un_Floats Uchars cvt_f_uc)
   | DBF_SHORT \<Rightarrow> Some (fast_entry un_Floats Shorts cvt_f_s)
   | DBF_USHORT \<Rightarrow> Some (fast_entry un_Floats Ushorts cvt_f_us)
   | DBF_LONG \<Rightarrow> Some (fast_entry un_Floats Longs cvt_f_l)
   | DBF_ULONG \<Rightarrow> Some (fast_entry un_Floats Ulongs cvt_f_ul)
   | DBF_FLOAT \<Rightarrow> Some (fast_entry un_Floats Floats cvt_f_f)
   | DBF_DOUBLE \<Rightarrow> Some (fast_entry un_Floats Doubles cvt_f_d)
   | DBF_ENUM \<Rightarrow> Some (fast_entry un_Floats Enums cvt_f_e)
   | _ \<Rightarrow> None)"

definition fast_row_Double :: "dbf_type \<Rightarrow> fast_routine option" where
  "fast_row_Double t = (case t of
     DBF_CHAR \<Rightarrow> Some (fast_entry un_Doubles Chars cvt_d_c)
   | DBF_UCHAR \<Rightarrow> Some (fast_entry un_Doubles Uchars cvt_d_uc)
   | DBF_SHORT \<Rightarrow> Some (fast_entry un_Doubles Shorts cvt_d_s)
   | DBF_USHORT \<Rightarrow> Some (fast_entry un_Doubles Ushorts cvt_d_us)
   | DBF_LONG \<Rightarrow> Some (fast_entry un_Doubles Longs cvt_d_l)
   | DBF_ULONG \<Rightarrow> Some (fast_entry un_Doubles Ulongs cvt_d_ul)
   | DBF_FLOAT \<Rightarrow> Some (fast_entry un_Doubles Floats cvt_d_f)
   | DBF_DOUBLE \<Rightarrow> Some (fast_entry un_Doubles Doubles cvt_d_d)
   | DBF_ENUM \<Rightarrow> Some (fast_entry un_Doubles Enums cvt_d_e)
   | _ \<Rightarrow> None)"

definition fast_row_Enum :: "dbf_type \<Rightarrow> fast_routine option" where
  "fast_row_Enum t = (case t of
     DBF_CHAR \<Rightarrow> Some (fast_entry un_Enums Chars cvt_e_c)
   | DBF_UCHAR \<Rightarrow> Some (fast_entry un_Enums Uchars cvt_e_uc)
   | DBF_SHORT \<Rightarrow> Some (fast_entry un_Enums Shorts cvt_e_s)
   | DBF_USHORT \<Rightarrow> Some (fast_entry un_Enums Ushorts cvt_e_us)
   | DBF_LONG \<Rightarrow> Some (fast_entry un_Enums Longs cvt_e_l)
   | DBF_ULONG \<Rightarrow> Some (fast_entry un_Enums Ulongs cvt_e_ul)
   | DBF_FLOAT \<Rightarrow> Some (fast_entry un_Enums Floats cvt_e_f)
   | DBF_DOUBLE \<Rightarrow> Some (fast_entry un_Enums Doubles cvt_e_d)
   | DBF_ENUM \<Rightarrow> Some (fast_entry un_Enums Enums cvt_e_e)
   | _ \<Rightarrow> None)"

text \<open>The rows of the tables; \<open>string_fast\<close> holds the entries of strings.\<close>

definition dbFastGetConvertRoutine :: "(dbf_type \<Rightarrow> dbf_type \<Rightarrow> fast_routine) \<Rightarrow> dbf_type \<Rightarrow> dbf_type \<Rightarrow> fast_routine option" where
  "dbFastGetConvertRoutine string_fast s t =
     (if t \<notin> {DBF_STRING, DBF_CHAR, DBF_UCHAR, DBF_SHORT, DBF_USHORT, DBF_LONG, DBF_ULONG, DBF_FLOAT, DBF_DOUBLE, DBF_ENUM} then None
      else if (s = DBF_STRING \<or> t = DBF_STRING) \<and> s \<notin> {DBF_INLINK, DBF_OUTLINK, DBF_FWDLINK, DBF_NOACCESS} then Some (string_fast s t)
      else case s of
        DBF_CHAR \<Rightarrow> fast_row_Char t
      | DBF_UCHAR \<Rightarrow> fast_row_Uchar t
      | DBF_SHORT \<Rightarrow> fast_row_Short t
      | DBF_USHORT \<Rightarrow> fast_row_Ushort t
      | DBF_LONG \<Rightarrow> fast_row_Long t
      | DBF_ULONG \<Rightarrow> fast_row_Ulong t
      | DBF_FLOAT \<Rightarrow> fast_row_Float t
      | DBF_DOUBLE \<Rightarrow> fast_row_Double t
      | DBF_ENUM \<Rightarrow> fast_row_Enum t
      | DBF_MENU \<Rightarrow> fast_row_Enum t
      | DBF_DEVICE \<Rightarrow> fast_row_Enum t
      | _ \<Rightarrow> None)"

definition dbFastPutConvertRoutine :: "(dbf_type \<Rightarrow> dbf_type \<Rightarrow> fast_routine) \<Rightarrow> dbf_type \<Rightarrow> dbf_type \<Rightarrow> fast_routine option" where
  "dbFastPutConvertRoutine string_fast s t =
     (if t \<in> {DBF_INLINK, DBF_OUTLINK, DBF_FWDLINK, DBF_NOACCESS} then None
      else if (s = DBF_STRING \<or> t = DBF_STRING) \<and> s \<in> {DBF_STRING, DBF_CHAR, DBF_UCHAR, DBF_SHORT, DBF_USHORT, DBF_LONG, DBF_ULONG, DBF_FLOAT, DBF_DOUBLE, DBF_ENUM} then Some (string_fast s t)
      else let t = (if t = DBF_MENU \<or> t = DBF_DEVICE then DBF_ENUM else t)
           in case s of
             DBF_CHAR \<Rightarrow> fast_row_Char t
           | DBF_UCHAR \<Rightarrow> fast_row_Uchar t
           | DBF_SHORT \<Rightarrow> fast_row_Short t
           | DBF_USHORT \<Rightarrow> fast_row_Ushort t
           | DBF_LONG \<Rightarrow> fast_row_Long t
           | DBF_ULONG \<Rightarrow> fast_row_Ulong t
           | DBF_FLOAT \<Rightarrow> fast_row_Float t
           | DBF_DOUBLE \<Rightarrow> fast_row_Double t
           | DBF_ENUM \<Rightarrow> fast_row_Enum t
           | _ \<Rightarrow> None)"

section \<open>They convert one number\<close>

definition num_result :: "dbf_type \<Rightarrow> num option \<Rightarrow> (int \<times> dbf_type \<times> num list) option" where
  "num_result t v = map_option (\<lambda>v. (0, t, [v])) v"


lemmas fast_Char_routines = cvt_c_c_def cvt_c_uc_def cvt_c_s_def cvt_c_us_def cvt_c_l_def cvt_c_ul_def cvt_c_f_def cvt_c_d_def cvt_c_e_def

lemmas fast_Uchar_routines = cvt_uc_c_def cvt_uc_uc_def cvt_uc_s_def cvt_uc_us_def cvt_uc_l_def cvt_uc_ul_def cvt_uc_f_def cvt_uc_d_def cvt_uc_e_def

lemmas fast_Short_routines = cvt_s_c_def cvt_s_uc_def cvt_s_s_def cvt_s_us_def cvt_s_l_def cvt_s_ul_def cvt_s_f_def cvt_s_d_def cvt_s_e_def

lemmas fast_Ushort_routines = cvt_us_c_def cvt_us_uc_def cvt_us_s_def cvt_us_us_def cvt_us_l_def cvt_us_ul_def cvt_us_f_def cvt_us_d_def cvt_us_e_def

lemmas fast_Long_routines = cvt_l_c_def cvt_l_uc_def cvt_l_s_def cvt_l_us_def cvt_l_l_def cvt_l_ul_def cvt_l_f_def cvt_l_d_def cvt_l_e_def

lemmas fast_Ulong_routines = cvt_ul_c_def cvt_ul_uc_def cvt_ul_s_def cvt_ul_us_def cvt_ul_l_def cvt_ul_ul_def cvt_ul_f_def cvt_ul_d_def cvt_ul_e_def

lemmas fast_Float_routines = cvt_f_c_def cvt_f_uc_def cvt_f_s_def cvt_f_us_def cvt_f_l_def cvt_f_ul_def cvt_f_f_def cvt_f_d_def cvt_f_e_def

lemmas fast_Double_routines = cvt_d_c_def cvt_d_uc_def cvt_d_s_def cvt_d_us_def cvt_d_l_def cvt_d_ul_def cvt_d_f_def cvt_d_d_def cvt_d_e_def

lemmas fast_Enum_routines = cvt_e_c_def cvt_e_uc_def cvt_e_s_def cvt_e_us_def cvt_e_l_def cvt_e_ul_def cvt_e_f_def cvt_e_d_def cvt_e_e_def

lemma fast_cast:
  "map_option (\<lambda>x. (0 :: int, t, [Whole (uint x)])) (dcast_word env DBF_UCHAR d :: u8 option) = map_option (\<lambda>i. (0, t, [Whole i])) (dcast env DBF_UCHAR d)"
  "map_option (\<lambda>x. (0 :: int, t, [Whole (char_val (plain_signed env) x)])) (dcast_word env DBF_CHAR d :: u8 option) = map_option (\<lambda>i. (0, t, [Whole i])) (dcast env DBF_CHAR d)"
  "map_option (\<lambda>x. (0 :: int, t, [Whole (sint x)])) (dcast_word env DBF_SHORT d :: u16 option) = map_option (\<lambda>i. (0, t, [Whole i])) (dcast env DBF_SHORT d)"
  "map_option (\<lambda>x. (0 :: int, t, [Whole (uint x)])) (dcast_word env DBF_USHORT d :: u16 option) = map_option (\<lambda>i. (0, t, [Whole i])) (dcast env DBF_USHORT d)"
  "map_option (\<lambda>x. (0 :: int, t, [Whole (sint x)])) (dcast_word env DBF_LONG d :: u32 option) = map_option (\<lambda>i. (0, t, [Whole i])) (dcast env DBF_LONG d)"
  "map_option (\<lambda>x. (0 :: int, t, [Whole (uint x)])) (dcast_word env DBF_ULONG d :: u32 option) = map_option (\<lambda>i. (0, t, [Whole i])) (dcast env DBF_ULONG d)"
  by (auto simp: dcast_word_def option.map_comp comp_def wrap_words [where env = env] dcast_wrap intro!: option.map_cong0)

lemma fast_row_Char_nums:
  assumes "fast_row_Char t = Some r" "xs \<noteq> []"
  shows "buf_nums env (r env paddr (Chars xs)) = num_result t (num_conv env DBF_CHAR t (hd (dbnums env (Chars xs))))"
  using assms by (cases t; cases xs) (auto simp: fast_row_Char_def fast_entry_def fast_Char_routines buf_nums_def
    num_result_def num_conv_def wrap_words [symmetric] word_values option.map_comp comp_def fast_cast)

lemma fast_row_Uchar_nums:
  assumes "fast_row_Uchar t = Some r" "xs \<noteq> []"
  shows "buf_nums env (r env paddr (Uchars xs)) = num_result t (num_conv env DBF_UCHAR t (hd (dbnums env (Uchars xs))))"
  using assms by (cases t; cases xs) (auto simp: fast_row_Uchar_def fast_entry_def fast_Uchar_routines buf_nums_def
    num_result_def num_conv_def wrap_words [symmetric] word_values option.map_comp comp_def fast_cast)

lemma fast_row_Short_nums:
  assumes "fast_row_Short t = Some r" "xs \<noteq> []"
  shows "buf_nums env (r env paddr (Shorts xs)) = num_result t (num_conv env DBF_SHORT t (hd (dbnums env (Shorts xs))))"
  using assms by (cases t; cases xs) (auto simp: fast_row_Short_def fast_entry_def fast_Short_routines buf_nums_def
    num_result_def num_conv_def wrap_words [symmetric] word_values option.map_comp comp_def fast_cast)

lemma fast_row_Ushort_nums:
  assumes "fast_row_Ushort t = Some r" "xs \<noteq> []"
  shows "buf_nums env (r env paddr (Ushorts xs)) = num_result t (num_conv env DBF_USHORT t (hd (dbnums env (Ushorts xs))))"
  using assms by (cases t; cases xs) (auto simp: fast_row_Ushort_def fast_entry_def fast_Ushort_routines buf_nums_def
    num_result_def num_conv_def wrap_words [symmetric] word_values option.map_comp comp_def fast_cast)

lemma fast_row_Long_nums:
  assumes "fast_row_Long t = Some r" "xs \<noteq> []"
  shows "buf_nums env (r env paddr (Longs xs)) = num_result t (num_conv env DBF_LONG t (hd (dbnums env (Longs xs))))"
  using assms by (cases t; cases xs) (auto simp: fast_row_Long_def fast_entry_def fast_Long_routines buf_nums_def
    num_result_def num_conv_def wrap_words [symmetric] word_values option.map_comp comp_def fast_cast)

lemma fast_row_Ulong_nums:
  assumes "fast_row_Ulong t = Some r" "xs \<noteq> []"
  shows "buf_nums env (r env paddr (Ulongs xs)) = num_result t (num_conv env DBF_ULONG t (hd (dbnums env (Ulongs xs))))"
  using assms by (cases t; cases xs) (auto simp: fast_row_Ulong_def fast_entry_def fast_Ulong_routines buf_nums_def
    num_result_def num_conv_def wrap_words [symmetric] word_values option.map_comp comp_def fast_cast)

lemma fast_row_Float_nums:
  assumes "fast_row_Float t = Some r" "xs \<noteq> []"
  shows "buf_nums env (r env paddr (Floats xs)) = num_result t (num_conv env DBF_FLOAT t (hd (dbnums env (Floats xs))))"
  using assms by (cases t; cases xs) (auto simp: fast_row_Float_def fast_entry_def fast_Float_routines buf_nums_def
    num_result_def num_conv_def wrap_words [symmetric] word_values option.map_comp comp_def fast_cast)

lemma fast_row_Double_nums:
  assumes "fast_row_Double t = Some r" "xs \<noteq> []"
  shows "buf_nums env (r env paddr (Doubles xs)) = num_result t (num_conv env DBF_DOUBLE t (hd (dbnums env (Doubles xs))))"
  using assms by (cases t; cases xs) (auto simp: fast_row_Double_def fast_entry_def fast_Double_routines buf_nums_def
    num_result_def num_conv_def wrap_words [symmetric] word_values option.map_comp comp_def fast_cast)

lemma fast_row_Enum_nums:
  assumes "fast_row_Enum t = Some r" "xs \<noteq> []"
  shows "buf_nums env (r env paddr (Enums xs)) = num_result t (num_conv env DBF_ENUM t (hd (dbnums env (Enums xs))))"
  using assms by (cases t; cases xs) (auto simp: fast_row_Enum_def fast_entry_def fast_Enum_routines buf_nums_def
    num_result_def num_conv_def wrap_words [symmetric] word_values option.map_comp comp_def fast_cast)

abbreviation no_fast_strings :: "dbf_type \<Rightarrow> dbf_type \<Rightarrow> fast_routine" where
  "no_fast_strings \<equiv> \<lambda>_ _ _ _ _. None"

lemmas fast_row_nums = fast_row_Char_nums fast_row_Uchar_nums fast_row_Short_nums fast_row_Ushort_nums fast_row_Long_nums fast_row_Ulong_nums fast_row_Float_nums fast_row_Double_nums fast_row_Enum_nums

lemma nums_nonempty: "dbnums env b \<noteq> [] \<Longrightarrow> (case b of Strings xs \<Rightarrow> False | Chars xs \<Rightarrow> xs \<noteq> [] | Uchars xs \<Rightarrow> xs \<noteq> []
    | Shorts xs \<Rightarrow> xs \<noteq> [] | Ushorts xs \<Rightarrow> xs \<noteq> [] | Longs xs \<Rightarrow> xs \<noteq> [] | Ulongs xs \<Rightarrow> xs \<noteq> []
    | Floats xs \<Rightarrow> xs \<noteq> [] | Doubles xs \<Rightarrow> xs \<noteq> [] | Enums xs \<Rightarrow> xs \<noteq> [])"
  by (cases b) simp_all

lemma fast_get_nums:
  assumes "dbFastGetConvertRoutine string_fast s t = Some r" "t \<in> numeric_types" "store_type s \<in> numeric_types"
    and "buf_type fld = store_type s" "dbnums env fld \<noteq> []"
  shows "buf_nums env (r env paddr fld) = num_result t (num_conv env s t (hd (dbnums env fld)))"
proof -
  have "num_conv env s t = num_conv env (store_type s) t"
    by (simp add: num_conv_def store_type_def fun_eq_iff split: num.splits)
  then show ?thesis using assms nums_nonempty [OF assms(5)]
    by (cases s; cases fld) (auto simp: dbFastGetConvertRoutine_def store_type_def fast_row_nums split: if_splits)
qed

lemma fast_put_nums:
  assumes "dbFastPutConvertRoutine string_fast s t = Some r" "s \<in> numeric_types" "store_type t \<in> numeric_types"
    and "buf_type buf = s" "dbnums env buf \<noteq> []"
  shows "buf_nums env (r env paddr buf) = num_result (store_type t) (num_conv env s (store_type t) (hd (dbnums env buf)))"
proof -
  have t: "(if t = DBF_MENU \<or> t = DBF_DEVICE then DBF_ENUM else t) = store_type t" "t \<noteq> DBF_STRING"
    "t \<notin> {DBF_INLINK, DBF_OUTLINK, DBF_FWDLINK, DBF_NOACCESS}"
    using assms(3) by (auto simp: store_type_def split: if_splits)
  show ?thesis using assms(1,2,4,5) nums_nonempty [OF assms(5)] t
    by (cases s; cases buf) (auto simp: dbFastPutConvertRoutine_def fast_row_nums Let_def)
qed

text \<open>C21: The conversions of single values agree with the array routines, both ways, between numeric types: reading
  one element of a field at offset 0 gives the same status and the same number through either table, and
  writing one element through the array routine stores the number that the single-value routine gives, as the first
  element of the field. (Text is not covered: the two ways differ on an empty string.)\<close>

theorem fast_routines_agree:
  assumes G: "dbFastGetConvertRoutine fast_gets s t = Some fg" "dbGetConvertRoutine gets s t = Some g"
    and P: "dbFastPutConvertRoutine fast_puts t s = Some fp" "dbPutConvertRoutine puts t s = Some p"
    and t: "t \<in> numeric_types" "store_type s \<in> numeric_types"
    and f: "buf_type fld = store_type s" "\<not> is_string_field paddr" "in_array (dbnums env fld) 1 ne 0"
    and b: "buf_type buf = t" "dbnums env buf \<noteq> []"
  shows "buf_nums env (g env paddr fld 1 ne 0) = buf_nums env (fg env (Some paddr) fld) \<and>
    buf_nums env (p env paddr fld buf 1 ne 0) =
      map_option (\<lambda>(status, ty, vs). (status, ty, vs @ tl (dbnums env fld))) (buf_nums env (fp env (Some paddr) buf))"
proof
  obtain xs where w: "window (dbnums env fld) 1 ne 0 = [hd (dbnums env fld)]" "dbnums env fld = hd (dbnums env fld) # xs"
    using window_one [OF f(3)] by auto
  then have ne: "dbnums env fld \<noteq> []" by auto
  show "buf_nums env (g env paddr fld 1 ne 0) = buf_nums env (fg env (Some paddr) fld)"
    using fast_get_nums [OF G(1) t f(1) ne] get_routine_nums [OF G(2) t f] unfolding w(1)
    by (simp add: num_result_def split: option.splits)
  have l: "1 \<le> int (length (dbnums env buf))" using b(2) by (cases "dbnums env buf") simp_all
  have h: "take (nat 1) (dbnums env buf) = [hd (dbnums env buf)]" using b(2) by (cases "dbnums env buf") simp_all
  have pw: "put_window (dbnums env fld) [v] ne 0 = v # tl (dbnums env fld)" for v
    using f(3) w(2) by (cases "dbnums env fld") (auto simp: put_window_def Let_def in_array_def)
  show "buf_nums env (p env paddr fld buf 1 ne 0) =
      map_option (\<lambda>(status, ty, vs). (status, ty, vs @ tl (dbnums env fld))) (buf_nums env (fp env (Some paddr) buf))"
    using fast_put_nums [OF P(1) t b, of "Some paddr"] put_routine_nums [OF P(2) t b(1) f(1,3) l, of paddr] pw unfolding h
    by (simp add: num_result_def option.map_comp comp_def split: option.splits)
qed

theorem fast_routines_agree_witness:
  "\<exists>fg g fp p. dbFastGetConvertRoutine no_fast_strings DBF_DOUBLE DBF_CHAR = Some fg \<and>
     dbGetConvertRoutine no_strings DBF_DOUBLE DBF_CHAR = Some g \<and>
     dbFastPutConvertRoutine no_fast_strings DBF_CHAR DBF_DOUBLE = Some fp \<and>
     dbPutConvertRoutine no_string_puts DBF_CHAR DBF_DOUBLE = Some p \<and>
     buf_nums conv_env0 (g conv_env0 array_field (Doubles [Fin (7 / 2), Fin 2]) 1 2 0) =
       buf_nums conv_env0 (fg conv_env0 (Some array_field) (Doubles [Fin (7 / 2), Fin 2])) \<and>
     buf_nums conv_env0 (p conv_env0 array_field (Doubles [Fin (7 / 2), Fin 2]) (Chars [200]) 1 2 0) =
       Some (0, DBF_DOUBLE, [Dbl (Fin 200), Dbl (Fin 2)])"
proof -
  let ?fg = "fast_entry un_Doubles Chars cvt_d_c" and ?g = "get_entry un_Doubles Chars getDoubleChar"
  let ?fp = "fast_entry un_Chars Doubles cvt_c_d" and ?p = "put_entry un_Chars un_Doubles Doubles putCharDouble"
  have t: "dbFastGetConvertRoutine no_fast_strings DBF_DOUBLE DBF_CHAR = Some ?fg"
      "dbGetConvertRoutine no_strings DBF_DOUBLE DBF_CHAR = Some ?g"
      "dbFastPutConvertRoutine no_fast_strings DBF_CHAR DBF_DOUBLE = Some ?fp"
      "dbPutConvertRoutine no_string_puts DBF_CHAR DBF_DOUBLE = Some ?p"
    by (simp_all add: dbFastGetConvertRoutine_def fast_row_Double_def dbGetConvertRoutine_def get_row_Double_def
        dbFastPutConvertRoutine_def fast_row_Char_def dbPutConvertRoutine_def put_row_Char_def)
  have "buf_nums conv_env0 (?fp conv_env0 (Some array_field) (Chars [200])) = Some (0, DBF_DOUBLE, [Dbl (Fin 200)])"
    using dint_exact [of 200] by (simp add: fast_entry_def cvt_c_d_def buf_nums_def conv_env0_def char_val_def)
  then show ?thesis
    using t fast_routines_agree [OF t, where fld = "Doubles [Fin (7 / 2), Fin 2]" and paddr = array_field and env = conv_env0
        and ne = 2 and buf = "Chars [200]"]
    by (simp add: store_type_def is_string_field_def array_field_def in_array_def)
qed
end
