(* ===== verification/DbText.thy ===== *)
theory DbText
  imports CvtFast DbFastConvert
begin

text \<open>
  The conversions between numbers and strings: the routines of dbConvert.c and dbFastLinkConv.c from and to
  \<open>DBF_STRING\<close>, menus and enumerations, and the scanners they use.
\<close>

section \<open>Scanning\<close>

text \<open>White space, a sign, decimal digits: the number and the rest, as \<open>strtol\<close> and \<open>sscanf\<close> read it.\<close>

definition scan_dec :: "string \<Rightarrow> (int \<times> string) option" where
  "scan_dec s =
     (let s = skip_space s;
          neg = (case s of c # _ \<Rightarrow> c = CHR ''-'' | [] \<Rightarrow> False);
          s = (case s of c # r \<Rightarrow> if c = CHR ''-'' \<or> c = CHR ''+'' then r else s | [] \<Rightarrow> []);
          ds = takeWhile is_digit s
      in if ds = [] then None
         else Some (if neg then - int (read_nat ds) else int (read_nat ds), dropWhile is_digit s))"

text \<open>\<open>sscanf\<close> into a signed or unsigned integer of \<open>w\<close> bits: \<open>Some None\<close> is a matching failure, and a number
  that does not fit is undefined (\<open>None\<close>). The unsigned conversions accept a sign and negate.\<close>

definition sscanf_signed :: "nat \<Rightarrow> string \<Rightarrow> int option option" where
  "sscanf_signed w s = (case scan_dec s of None \<Rightarrow> Some None
     | Some (v, _) \<Rightarrow> if - (2 ^ (w - 1)) \<le> v \<and> v < 2 ^ (w - 1) then Some (Some v) else None)"

definition sscanf_unsigned :: "nat \<Rightarrow> string \<Rightarrow> int option option" where
  "sscanf_unsigned w s = (case scan_dec s of None \<Rightarrow> Some None
     | Some (v, _) \<Rightarrow> if \<bar>v\<bar> < 2 ^ w then Some (Some (v mod 2 ^ w)) else None)"

text \<open>\<open>strtol\<close> and \<open>strtoul\<close> saturate; \<open>None\<close> is \<open>end == from\<close>.\<close>

definition c_strtol :: "nat \<Rightarrow> string \<Rightarrow> int option" where
  "c_strtol bits s = map_option (\<lambda>(v, _). max (- (2 ^ (bits - 1))) (min (2 ^ (bits - 1) - 1) v)) (scan_dec s)"

definition c_strtoul :: "nat \<Rightarrow> string \<Rightarrow> int option" where
  "c_strtoul bits s = map_option (\<lambda>(v, _). if \<bar>v\<bar> < 2 ^ bits then v mod 2 ^ bits else 2 ^ bits - 1) (scan_dec s)"

text \<open>
  What the routines need from outside: \<open>strtod\<close> (characters consumed, value, range error), the width of
  \<open>long\<close>, and the routines of record support: the status and precision, the state strings, and the choices of a
  menu. \<open>put_enum\<close> gives the status and the field it leaves.
\<close>

record text_env = printf_env +
  strtod :: "string \<Rightarrow> nat \<times> double \<times> bool"
  long_bits :: nat
  get_prec :: "db_addr \<Rightarrow> (int \<times> int) option"
  get_enum :: "db_addr \<Rightarrow> (int \<times> string) option"
  put_enum :: "db_addr \<Rightarrow> string \<Rightarrow> (int \<times> u16 option) option"
  enum_count :: "db_addr \<Rightarrow> (int \<times> nat) option"
  menu_choices :: "db_addr \<Rightarrow> string option list option"

definition epicsScanDouble :: "text_env \<Rightarrow> string \<Rightarrow> double option" where
  "epicsScanDouble tenv str =
     (let str = skip_space str
      in case strtod tenv str of (n, v, erange) \<Rightarrow>
           if n = 0 \<or> erange \<or> skip_space (drop n str) \<noteq> [] then None else Some v)"

text \<open>\<open>epicsParseFloat\<close>: only positive numbers are refused for being small.\<close>

definition epicsScanFloat :: "text_env \<Rightarrow> string \<Rightarrow> float option" where
  "epicsScanFloat tenv str = (case epicsScanDouble tenv str of None \<Rightarrow> None
     | Some v \<Rightarrow>
         let a = (if dlt v (Fin 0) then dneg v else v)
         in if dlt (Fin 0) v \<and> dle a FLT_MIN then None
            else if dfinite v \<and> dle FLT_MAX a then None
            else Some (ftrunc v))"

definition S_db_onlyOne :: int where "S_db_onlyOne = M_dbAccess + 11"

abbreviation MAX_STRING_SIZE :: nat where "MAX_STRING_SIZE \<equiv> 40"

section \<open>Reading a field of strings\<close>

text \<open>
  The strings of a client are \<open>MAX_STRING_SIZE\<close> bytes apart, and these routines step through the field in the
  same way: where a string of the field has another size, only the first one is found (a read elsewhere is
  undefined here).
\<close>

definition text_at :: "db_addr \<Rightarrow> string list \<Rightarrow> int \<Rightarrow> string option" where
  "text_at paddr pfield psrc =
     (if psrc = 0 \<or> addr_size paddr = int MAX_STRING_SIZE
      then if 0 \<le> psrc \<and> psrc < int (length pfield) then Some (pfield ! nat psrc) else None
      else None)"

text \<open>An empty string reads as 0; text that does not start with a number ends the loop with the status \<open>-1\<close>.\<close>

definition text_elem :: "(string \<Rightarrow> 'b option option) \<Rightarrow> 'b \<Rightarrow> string \<Rightarrow> 'b option option" where
  "text_elem conv zero s = (case conv s of None \<Rightarrow> None | Some (Some y) \<Rightarrow> Some (Some y)
     | Some None \<Rightarrow> if s = [] then Some (Some zero) else Some None)"

fun get_text_loop :: "(string \<Rightarrow> 'b option option) \<Rightarrow> db_addr \<Rightarrow> string list \<Rightarrow> int \<Rightarrow> nat \<Rightarrow> int \<Rightarrow> int \<Rightarrow> (int \<times> 'b list) option" where
  "get_text_loop conv paddr pfield no_elements 0 psrc offset = Some (0, [])"
| "get_text_loop conv paddr pfield no_elements (Suc n) psrc offset =
     (case text_at paddr pfield psrc of None \<Rightarrow> None
      | Some s \<Rightarrow>
          (case conv s of None \<Rightarrow> None
           | Some None \<Rightarrow> Some (- 1, [])
           | Some (Some y) \<Rightarrow>
               let offset = offset + 1; psrc = (if offset = no_elements then 0 else psrc + 1)
               in map_option (\<lambda>(status, ys). (status, y # ys)) (get_text_loop conv paddr pfield no_elements n psrc offset)))"

definition get_text :: "(string \<Rightarrow> 'b option option) \<Rightarrow> 'b \<Rightarrow> db_addr \<Rightarrow> string list \<Rightarrow> int \<Rightarrow> int \<Rightarrow> int \<Rightarrow> (int \<times> 'b list) option" where
  "get_text conv zero paddr pfield nRequest no_elements offset =
     (if nRequest < 0 then None
      else get_text_loop (text_elem conv zero) paddr pfield no_elements (nat nRequest) offset offset)"

definition getStringString :: "(string, string) getconv" where
  "getStringString env paddr =
     (let size = addr_size paddr; sizeto = (if int MAX_STRING_SIZE \<le> size then int MAX_STRING_SIZE - 1 else size)
      in get_conv (\<lambda>s. if sizeto < 0 then None else Some (take (nat sizeto) s)))"

definition getStringChar :: "text_env \<Rightarrow> (string, u8) getconv" where
  "getStringChar tenv env paddr = get_text (\<lambda>s. map_option (map_option word_of_int) (sscanf_signed 16 s)) 0 paddr"

definition getStringUchar :: "text_env \<Rightarrow> (string, u8) getconv" where
  "getStringUchar tenv env paddr = get_text (\<lambda>s. map_option (map_option word_of_int) (sscanf_unsigned 16 s)) 0 paddr"

definition getStringShort :: "text_env \<Rightarrow> (string, u16) getconv" where
  "getStringShort tenv env paddr = get_text (\<lambda>s. map_option (map_option word_of_int) (sscanf_signed 16 s)) 0 paddr"

definition getStringUshort :: "text_env \<Rightarrow> (string, u16) getconv" where
  "getStringUshort tenv env paddr = get_text (\<lambda>s. map_option (map_option word_of_int) (sscanf_unsigned 16 s)) 0 paddr"

definition getStringLong :: "text_env \<Rightarrow> (string, u32) getconv" where
  "getStringLong tenv env paddr = get_text (\<lambda>s. map_option (map_option word_of_int) (sscanf_signed 32 s)) 0 paddr"

text \<open>Via \<open>double\<close>, so that numbers like 1.0e3 convert; the cast is undefined out of range.\<close>

definition ulong_text :: "text_env \<Rightarrow> conv_env \<Rightarrow> string \<Rightarrow> u32 option option" where
  "ulong_text tenv env s = (case epicsScanDouble tenv s of None \<Rightarrow> Some None
     | Some v \<Rightarrow> map_option Some (dcast_word env DBF_ULONG v))"

definition getStringUlong :: "text_env \<Rightarrow> (string, u32) getconv" where
  "getStringUlong tenv env paddr = get_text (ulong_text tenv env) 0 paddr"

definition getStringFloat :: "text_env \<Rightarrow> (string, float) getconv" where
  "getStringFloat tenv env paddr = get_text (\<lambda>s. Some (epicsScanFloat tenv s)) (Fin 0) paddr"

definition getStringDouble :: "text_env \<Rightarrow> (string, double) getconv" where
  "getStringDouble tenv env paddr = get_text (\<lambda>s. Some (epicsScanDouble tenv s)) (Fin 0) paddr"

definition getStringEnum :: "text_env \<Rightarrow> (string, u16) getconv" where
  "getStringEnum tenv env paddr = getStringUshort tenv env paddr"

section \<open>Reading numbers as strings\<close>

text \<open>A string written to a buffer of \<open>room\<close> bytes with its NUL.\<close>

definition fits :: "nat \<Rightarrow> string option \<Rightarrow> string option" where
  "fits room t = (case t of Some s \<Rightarrow> if length s < room then Some s else None | None \<Rightarrow> None)"

definition getCharString :: "(u8, string) getconv" where
  "getCharString env paddr = get_conv (\<lambda>x. fits MAX_STRING_SIZE (cvtCharToString env x))"

definition getUcharString :: "(u8, string) getconv" where
  "getUcharString env paddr = get_conv (\<lambda>x. fits MAX_STRING_SIZE (cvtUcharToString x))"

definition getShortString :: "(u16, string) getconv" where
  "getShortString env paddr = get_conv (\<lambda>x. fits MAX_STRING_SIZE (cvtShortToString x))"

definition getUshortString :: "(u16, string) getconv" where
  "getUshortString env paddr = get_conv (\<lambda>x. fits MAX_STRING_SIZE (cvtUshortToString x))"

definition getLongString :: "(u32, string) getconv" where
  "getLongString env paddr = get_conv (\<lambda>x. fits MAX_STRING_SIZE (cvtLongToString x))"

definition getUlongString :: "(u32, string) getconv" where
  "getUlongString env paddr = get_conv (\<lambda>x. fits MAX_STRING_SIZE (cvtUlongToString x))"

text \<open>The status of the routine is that of \<open>get_precision\<close>; the precision is passed as an \<open>unsigned short\<close>.\<close>

definition text_precision :: "text_env \<Rightarrow> db_addr option \<Rightarrow> int \<times> nat" where
  "text_precision tenv paddr = (case Option.bind paddr (get_prec tenv) of
     Some (status, precision) \<Rightarrow> (status, nat (precision mod 65536))
   | None \<Rightarrow> (0, 6))"

definition with_status :: "int \<Rightarrow> (int \<times> 'a) option \<Rightarrow> (int \<times> 'a) option" where
  "with_status status r = map_option (\<lambda>(_, a). (status, a)) r"

definition getFloatString :: "text_env \<Rightarrow> (float, string) getconv" where
  "getFloatString tenv env paddr pfield nRequest no_elements offset =
     (case text_precision tenv (Some paddr) of (status, precision) \<Rightarrow>
        with_status status
          (get_conv (\<lambda>x. fits MAX_STRING_SIZE (cvtFloatToString (printf_env.truncate tenv) x precision)) pfield nRequest no_elements offset))"

definition getDoubleString :: "text_env \<Rightarrow> (double, string) getconv" where
  "getDoubleString tenv env paddr pfield nRequest no_elements offset =
     (case text_precision tenv (Some paddr) of (status, precision) \<Rightarrow>
        with_status status
          (get_conv (\<lambda>x. fits MAX_STRING_SIZE (cvtDoubleToString (printf_env.truncate tenv) x precision)) pfield nRequest no_elements offset))"

definition getEnumString :: "text_env \<Rightarrow> (u16, string) getconv" where
  "getEnumString tenv env paddr pfield nRequest no_elements offset = (case get_enum tenv paddr of
     Some (status, s) \<Rightarrow> Some (status, [s])
   | None \<Rightarrow> Some (M_dbAccess + 3, []))"

text \<open>A choice as it is copied by \<open>strncpy\<close>, which leaves no room for the NUL of one that is too long.\<close>

definition choice :: "text_env \<Rightarrow> db_addr \<Rightarrow> u16 \<Rightarrow> string option" where
  "choice tenv paddr i = (case menu_choices tenv paddr of
     Some cs \<Rightarrow> if unat i < length cs then cs ! unat i else None
   | None \<Rightarrow> None)"

definition getMenuString :: "text_env \<Rightarrow> (u16, string) getconv" where
  "getMenuString tenv env paddr pfield nRequest no_elements offset =
     (case pfield of [] \<Rightarrow> None | choice_ind # _ \<Rightarrow>
        if no_elements \<noteq> 1 then Some (S_db_onlyOne, [])
        else case choice tenv paddr choice_ind of
               None \<Rightarrow> Some (S_db_badChoice, [])
             | Some s \<Rightarrow> map_option (\<lambda>s. (0, [s])) (fits MAX_STRING_SIZE (Some s)))"

definition getDeviceString :: "text_env \<Rightarrow> (u16, string) getconv" where
  "getDeviceString tenv env paddr pfield nRequest no_elements offset =
     (case pfield of [] \<Rightarrow> None | choice_ind # _ \<Rightarrow>
        if no_elements \<noteq> 1 then Some (S_db_onlyOne, [])
        else case choice tenv paddr choice_ind of
               None \<Rightarrow> Some (S_db_badChoice, [])
             | Some s \<Rightarrow> map_option (\<lambda>s. (0, [s])) (fits MAX_STRING_SIZE (Some s)))"

section \<open>Writing strings\<close>

fun put_text_loop :: "(string \<Rightarrow> 'b option option) \<Rightarrow> 'b list \<Rightarrow> int \<Rightarrow> nat \<Rightarrow> string list \<Rightarrow> int \<Rightarrow> int \<Rightarrow> (int \<times> 'b list) option" where
  "put_text_loop conv pfield no_elements 0 pbuffer pdest offset = Some (0, pfield)"
| "put_text_loop conv pfield no_elements (Suc n) [] pdest offset = None"
| "put_text_loop conv pfield no_elements (Suc n) (s # pbuffer) pdest offset =
     (case conv s of None \<Rightarrow> None
      | Some None \<Rightarrow> Some (- 1, pfield)
      | Some (Some y) \<Rightarrow>
          if 0 \<le> pdest \<and> pdest < int (length pfield)
          then let offset = offset + 1
               in put_text_loop conv (pfield[nat pdest := y]) no_elements n pbuffer
                    (if offset = no_elements then 0 else pdest + 1) offset
          else None)"

definition put_text :: "(string \<Rightarrow> 'b option option) \<Rightarrow> 'b list \<Rightarrow> string list \<Rightarrow> int \<Rightarrow> int \<Rightarrow> int \<Rightarrow> (int \<times> 'b list) option" where
  "put_text conv pfield pbuffer nRequest no_elements offset =
     (if nRequest < 0 then None else put_text_loop conv pfield no_elements (nat nRequest) pbuffer offset offset)"

definition putStringString :: "(string, string) putconv" where
  "putStringString env paddr =
     (let size = addr_size paddr in put_conv (\<lambda>s. if size < 1 then None else Some (take (nat size - 1) s)))"

definition putStringChar :: "text_env \<Rightarrow> (string, u8) putconv" where
  "putStringChar tenv env paddr = put_text (\<lambda>s. map_option (map_option word_of_int) (sscanf_signed 16 s))"

definition putStringUchar :: "text_env \<Rightarrow> (string, u8) putconv" where
  "putStringUchar tenv env paddr = put_text (\<lambda>s. map_option (map_option word_of_int) (sscanf_unsigned 16 s))"

definition putStringShort :: "text_env \<Rightarrow> (string, u16) putconv" where
  "putStringShort tenv env paddr = put_text (\<lambda>s. map_option (map_option word_of_int) (sscanf_signed 16 s))"

definition putStringUshort :: "text_env \<Rightarrow> (string, u16) putconv" where
  "putStringUshort tenv env paddr = put_text (\<lambda>s. map_option (map_option word_of_int) (sscanf_unsigned 16 s))"

definition putStringLong :: "text_env \<Rightarrow> (string, u32) putconv" where
  "putStringLong tenv env paddr = put_text (\<lambda>s. map_option (map_option word_of_int) (sscanf_signed (long_bits tenv) s))"

definition putStringUlong :: "text_env \<Rightarrow> (string, u32) putconv" where
  "putStringUlong tenv env paddr = put_text (ulong_text tenv env)"

definition putStringFloat :: "text_env \<Rightarrow> (string, float) putconv" where
  "putStringFloat tenv env paddr = put_text (\<lambda>s. Some (epicsScanFloat tenv s))"

definition putStringDouble :: "text_env \<Rightarrow> (string, double) putconv" where
  "putStringDouble tenv env paddr = put_text (\<lambda>s. Some (epicsScanDouble tenv s))"

text \<open>\<open>sscanf(s, "%u%n", &ind, &nchars)\<close> with \<open>nchars\<close> the length of the string: \<open>Some None\<close> when it is not a
  number as a whole, or not below \<open>n\<close>.\<close>

definition index_text :: "nat \<Rightarrow> string \<Rightarrow> u16 option option" where
  "index_text n s = (case scan_dec s of
     Some (v, rest) \<Rightarrow>
       if 2 ^ 32 \<le> \<bar>v\<bar> then None
       else if rest = [] \<and> v mod 2 ^ 32 < int n then Some (Some (word_of_int (v mod 2 ^ 32))) else Some None
   | None \<Rightarrow> Some None)"

text \<open>The status and the new value of the field, if it is written.\<close>

definition enum_from_text :: "text_env \<Rightarrow> db_addr \<Rightarrow> string \<Rightarrow> (int \<times> u16 option) option" where
  "enum_from_text tenv paddr s = (case put_enum tenv paddr s of
     None \<Rightarrow> Some (S_db_noRSET, None)
   | Some (status, v) \<Rightarrow>
       if status = 0 then Some (0, v)
       else case enum_count tenv paddr of
              None \<Rightarrow> Some (S_db_noRSET, None)
            | Some (status, nchoices) \<Rightarrow>
                if status \<noteq> 0 then Some (status, None)
                else case index_text nchoices s of
                       None \<Rightarrow> None
                     | Some (Some ind) \<Rightarrow> Some (0, Some ind)
                     | Some None \<Rightarrow> Some (S_db_badChoice, None))"

definition set_enum :: "u16 list \<Rightarrow> (int \<times> u16 option) option \<Rightarrow> (int \<times> u16 list) option" where
  "set_enum pfield r = (case r of None \<Rightarrow> None
     | Some (status, None) \<Rightarrow> Some (status, pfield)
     | Some (status, Some v) \<Rightarrow> if pfield = [] then None else Some (status, pfield[0 := v]))"

definition putStringEnum :: "text_env \<Rightarrow> (string, u16) putconv" where
  "putStringEnum tenv env paddr pfield pbuffer nRequest no_elements offset =
     (case pbuffer of [] \<Rightarrow> None | s # _ \<Rightarrow> set_enum pfield (enum_from_text tenv paddr s))"

fun find_choice :: "string \<Rightarrow> nat \<Rightarrow> string option list \<Rightarrow> nat option" where
  "find_choice s ind [] = None"
| "find_choice s ind (pchoice # cs) = (if pchoice = Some s then Some ind else find_choice s (ind + 1) cs)"

definition menu_from_text :: "text_env \<Rightarrow> db_addr \<Rightarrow> string \<Rightarrow> (int \<times> u16 option) option" where
  "menu_from_text tenv paddr s = (case menu_choices tenv paddr of
     None \<Rightarrow> Some (S_db_badChoice, None)
   | Some cs \<Rightarrow>
       (case find_choice s 0 cs of
          Some ind \<Rightarrow> Some (0, Some (of_nat ind))
        | None \<Rightarrow> (case index_text (length cs) s of
              None \<Rightarrow> None
            | Some (Some ind) \<Rightarrow> Some (0, Some ind)
            | Some None \<Rightarrow> Some (S_db_badChoice, None))))"

definition putStringMenu :: "text_env \<Rightarrow> (string, u16) putconv" where
  "putStringMenu tenv env paddr pfield pbuffer nRequest no_elements offset =
     (if no_elements \<noteq> 1 then Some (S_db_onlyOne, pfield)
      else case pbuffer of [] \<Rightarrow> None | s # _ \<Rightarrow> set_enum pfield (menu_from_text tenv paddr s))"

definition putStringDevice :: "text_env \<Rightarrow> (string, u16) putconv" where
  "putStringDevice tenv env paddr pfield pbuffer nRequest no_elements offset =
     (if no_elements \<noteq> 1 then Some (S_db_onlyOne, pfield)
      else case pbuffer of [] \<Rightarrow> None | s # _ \<Rightarrow> set_enum pfield (menu_from_text tenv paddr s))"

section \<open>Writing numbers to a field of strings\<close>

text \<open>The text is written to the field whatever the size of its strings; beyond that size it is undefined.\<close>

definition putCharString :: "(u8, string) putconv" where
  "putCharString env paddr = put_conv (\<lambda>x. fits (nat (addr_size paddr)) (cvtCharToString env x))"

definition putUcharString :: "(u8, string) putconv" where
  "putUcharString env paddr = put_conv (\<lambda>x. fits (nat (addr_size paddr)) (cvtUcharToString x))"

definition putShortString :: "(u16, string) putconv" where
  "putShortString env paddr = put_conv (\<lambda>x. fits (nat (addr_size paddr)) (cvtShortToString x))"

definition putUshortString :: "(u16, string) putconv" where
  "putUshortString env paddr = put_conv (\<lambda>x. fits (nat (addr_size paddr)) (cvtUshortToString x))"

definition putLongString :: "(u32, string) putconv" where
  "putLongString env paddr = put_conv (\<lambda>x. fits (nat (addr_size paddr)) (cvtLongToString x))"

definition putUlongString :: "(u32, string) putconv" where
  "putUlongString env paddr = put_conv (\<lambda>x. fits (nat (addr_size paddr)) (cvtUlongToString x))"

definition putEnumString :: "(u16, string) putconv" where
  "putEnumString env paddr = put_conv (\<lambda>x. fits (nat (addr_size paddr)) (cvtUshortToString x))"

definition putFloatString :: "text_env \<Rightarrow> (float, string) putconv" where
  "putFloatString tenv env paddr pfield pbuffer nRequest no_elements offset =
     (case text_precision tenv (Some paddr) of (status, precision) \<Rightarrow>
        with_status status
          (put_conv (\<lambda>x. fits (nat (addr_size paddr)) (cvtFloatToString (printf_env.truncate tenv) x precision)) pfield pbuffer nRequest no_elements offset))"

definition putDoubleString :: "text_env \<Rightarrow> (double, string) putconv" where
  "putDoubleString tenv env paddr pfield pbuffer nRequest no_elements offset =
     (case text_precision tenv (Some paddr) of (status, precision) \<Rightarrow>
        with_status status
          (put_conv (\<lambda>x. fits (nat (addr_size paddr)) (cvtDoubleToString (printf_env.truncate tenv) x precision)) pfield pbuffer nRequest no_elements offset))"

section \<open>The entries of the tables\<close>

definition string_gets :: "text_env \<Rightarrow> dbf_type \<Rightarrow> dbf_type \<Rightarrow> get_routine" where
  "string_gets tenv s t =
     (case s of
        DBF_STRING \<Rightarrow> (case t of
            DBF_STRING \<Rightarrow> get_entry un_Strings Strings getStringString
          | DBF_CHAR \<Rightarrow> get_entry un_Strings Chars (getStringChar tenv)
          | DBF_UCHAR \<Rightarrow> get_entry un_Strings Uchars (getStringUchar tenv)
          | DBF_SHORT \<Rightarrow> get_entry un_Strings Shorts (getStringShort tenv)
          | DBF_USHORT \<Rightarrow> get_entry un_Strings Ushorts (getStringUshort tenv)
          | DBF_LONG \<Rightarrow> get_entry un_Strings Longs (getStringLong tenv)
          | DBF_ULONG \<Rightarrow> get_entry un_Strings Ulongs (getStringUlong tenv)
          | DBF_FLOAT \<Rightarrow> get_entry un_Strings Floats (getStringFloat tenv)
          | DBF_DOUBLE \<Rightarrow> get_entry un_Strings Doubles (getStringDouble tenv)
          | _ \<Rightarrow> get_entry un_Strings Enums (getStringEnum tenv))
      | DBF_CHAR \<Rightarrow> get_entry un_Chars Strings getCharString
      | DBF_UCHAR \<Rightarrow> get_entry un_Uchars Strings getUcharString
      | DBF_SHORT \<Rightarrow> get_entry un_Shorts Strings getShortString
      | DBF_USHORT \<Rightarrow> get_entry un_Ushorts Strings getUshortString
      | DBF_LONG \<Rightarrow> get_entry un_Longs Strings getLongString
      | DBF_ULONG \<Rightarrow> get_entry un_Ulongs Strings getUlongString
      | DBF_FLOAT \<Rightarrow> get_entry un_Floats Strings (getFloatString tenv)
      | DBF_DOUBLE \<Rightarrow> get_entry un_Doubles Strings (getDoubleString tenv)
      | DBF_ENUM \<Rightarrow> get_entry un_Enums Strings (getEnumString tenv)
      | DBF_MENU \<Rightarrow> get_entry un_Enums Strings (getMenuString tenv)
      | _ \<Rightarrow> get_entry un_Enums Strings (getDeviceString tenv))"

definition string_puts :: "text_env \<Rightarrow> dbf_type \<Rightarrow> dbf_type \<Rightarrow> put_routine" where
  "string_puts tenv s t =
     (case s of
        DBF_STRING \<Rightarrow> (case t of
            DBF_STRING \<Rightarrow> put_entry un_Strings un_Strings Strings putStringString
          | DBF_CHAR \<Rightarrow> put_entry un_Strings un_Chars Chars (putStringChar tenv)
          | DBF_UCHAR \<Rightarrow> put_entry un_Strings un_Uchars Uchars (putStringUchar tenv)
          | DBF_SHORT \<Rightarrow> put_entry un_Strings un_Shorts Shorts (putStringShort tenv)
          | DBF_USHORT \<Rightarrow> put_entry un_Strings un_Ushorts Ushorts (putStringUshort tenv)
          | DBF_LONG \<Rightarrow> put_entry un_Strings un_Longs Longs (putStringLong tenv)
          | DBF_ULONG \<Rightarrow> put_entry un_Strings un_Ulongs Ulongs (putStringUlong tenv)
          | DBF_FLOAT \<Rightarrow> put_entry un_Strings un_Floats Floats (putStringFloat tenv)
          | DBF_DOUBLE \<Rightarrow> put_entry un_Strings un_Doubles Doubles (putStringDouble tenv)
          | DBF_ENUM \<Rightarrow> put_entry un_Strings un_Enums Enums (putStringEnum tenv)
          | DBF_MENU \<Rightarrow> put_entry un_Strings un_Enums Enums (putStringMenu tenv)
          | _ \<Rightarrow> put_entry un_Strings un_Enums Enums (putStringDevice tenv))
      | DBF_CHAR \<Rightarrow> put_entry un_Chars un_Strings Strings putCharString
      | DBF_UCHAR \<Rightarrow> put_entry un_Uchars un_Strings Strings putUcharString
      | DBF_SHORT \<Rightarrow> put_entry un_Shorts un_Strings Strings putShortString
      | DBF_USHORT \<Rightarrow> put_entry un_Ushorts un_Strings Strings putUshortString
      | DBF_LONG \<Rightarrow> put_entry un_Longs un_Strings Strings putLongString
      | DBF_ULONG \<Rightarrow> put_entry un_Ulongs un_Strings Strings putUlongString
      | DBF_FLOAT \<Rightarrow> put_entry un_Floats un_Strings Strings (putFloatString tenv)
      | DBF_DOUBLE \<Rightarrow> put_entry un_Doubles un_Strings Strings (putDoubleString tenv)
      | _ \<Rightarrow> put_entry un_Enums un_Strings Strings putEnumString)"

section \<open>Single values\<close>

text \<open>\<open>cvt_st_*\<close>: the empty string is 0, and what does not start with a number fails with \<open>-1\<close>; the destination
  is then not written.\<close>

type_synonym 'b text_cvt = "text_env \<Rightarrow> conv_env \<Rightarrow> string \<Rightarrow> (int \<times> 'b option) option"

definition cvt_text :: "(string \<Rightarrow> 'b option option) \<Rightarrow> 'b \<Rightarrow> string \<Rightarrow> (int \<times> 'b option) option" where
  "cvt_text conv zero from =
     (if from = [] then Some (0, Some zero)
      else case conv from of None \<Rightarrow> None | Some (Some y) \<Rightarrow> Some (0, Some y) | Some None \<Rightarrow> Some (- 1, None))"

definition cvt_st_st :: "db_addr option \<Rightarrow> string \<Rightarrow> (int \<times> string option) option" where
  "cvt_st_st paddr from =
     (let size = (case paddr of Some a \<Rightarrow> if addr_size a < int MAX_STRING_SIZE then addr_size a - 1 else int MAX_STRING_SIZE - 1
                  | None \<Rightarrow> int MAX_STRING_SIZE - 1)
      in if size < 0 then None else Some (0, Some (take (nat size) from)))"

definition cvt_st_c :: "u8 text_cvt" where
  "cvt_st_c tenv env = cvt_text (\<lambda>s. Some (map_option word_of_int (c_strtol (long_bits tenv) s))) 0"

definition cvt_st_uc :: "u8 text_cvt" where
  "cvt_st_uc tenv env = cvt_text (\<lambda>s. Some (map_option word_of_int (c_strtoul (long_bits tenv) s))) 0"

definition cvt_st_s :: "u16 text_cvt" where
  "cvt_st_s tenv env = cvt_text (\<lambda>s. Some (map_option word_of_int (c_strtol (long_bits tenv) s))) 0"

definition cvt_st_us :: "u16 text_cvt" where
  "cvt_st_us tenv env = cvt_text (\<lambda>s. Some (map_option word_of_int (c_strtoul (long_bits tenv) s))) 0"

definition cvt_st_l :: "u32 text_cvt" where
  "cvt_st_l tenv env = cvt_text (\<lambda>s. Some (map_option word_of_int (c_strtol (long_bits tenv) s))) 0"

definition cvt_st_ul :: "u32 text_cvt" where
  "cvt_st_ul tenv env = cvt_text (ulong_text tenv env) 0"

definition cvt_st_f :: "float text_cvt" where
  "cvt_st_f tenv env = cvt_text (\<lambda>s. Some (epicsScanFloat tenv s)) (Fin 0)"

definition cvt_st_d :: "double text_cvt" where
  "cvt_st_d tenv env = cvt_text (\<lambda>s. Some (epicsScanDouble tenv s)) (Fin 0)"

text \<open>The status, and what is written at \<open>paddr->pfield\<close>, not at \<open>to\<close>. A null \<open>paddr\<close> is dereferenced.\<close>

definition cvt_st_e :: "text_env \<Rightarrow> db_addr option \<Rightarrow> string \<Rightarrow> (int \<times> u16 option) option" where
  "cvt_st_e tenv paddr from = (case paddr of None \<Rightarrow> None | Some a \<Rightarrow> enum_from_text tenv a from)"

definition cvt_st_menu :: "text_env \<Rightarrow> db_addr option \<Rightarrow> string \<Rightarrow> (int \<times> u16 option) option" where
  "cvt_st_menu tenv paddr from = (case paddr of None \<Rightarrow> None | Some a \<Rightarrow> menu_from_text tenv a from)"

definition cvt_st_device :: "text_env \<Rightarrow> db_addr option \<Rightarrow> string \<Rightarrow> (int \<times> u16 option) option" where
  "cvt_st_device tenv paddr from = (case paddr of None \<Rightarrow> None | Some a \<Rightarrow> menu_from_text tenv a from)"

definition cvt_c_st :: "conv_env \<Rightarrow> u8 \<Rightarrow> (int \<times> string option) option" where
  "cvt_c_st env from = map_option (\<lambda>s. (0, Some s)) (cvtCharToString env from)"

definition cvt_uc_st :: "conv_env \<Rightarrow> u8 \<Rightarrow> (int \<times> string option) option" where
  "cvt_uc_st env from = map_option (\<lambda>s. (0, Some s)) (cvtUcharToString from)"

definition cvt_s_st :: "conv_env \<Rightarrow> u16 \<Rightarrow> (int \<times> string option) option" where
  "cvt_s_st env from = map_option (\<lambda>s. (0, Some s)) (cvtShortToString from)"

definition cvt_us_st :: "conv_env \<Rightarrow> u16 \<Rightarrow> (int \<times> string option) option" where
  "cvt_us_st env from = map_option (\<lambda>s. (0, Some s)) (cvtUshortToString from)"

definition cvt_l_st :: "conv_env \<Rightarrow> u32 \<Rightarrow> (int \<times> string option) option" where
  "cvt_l_st env from = map_option (\<lambda>s. (0, Some s)) (cvtLongToString from)"

definition cvt_ul_st :: "conv_env \<Rightarrow> u32 \<Rightarrow> (int \<times> string option) option" where
  "cvt_ul_st env from = map_option (\<lambda>s. (0, Some s)) (cvtUlongToString from)"

definition cvt_f_st :: "text_env \<Rightarrow> db_addr option \<Rightarrow> float \<Rightarrow> (int \<times> string option) option" where
  "cvt_f_st tenv paddr from = (case text_precision tenv paddr of (status, precision) \<Rightarrow>
     map_option (\<lambda>s. (status, Some s)) (cvtFloatToString (printf_env.truncate tenv) from precision))"

definition cvt_d_st :: "text_env \<Rightarrow> db_addr option \<Rightarrow> double \<Rightarrow> (int \<times> string option) option" where
  "cvt_d_st tenv paddr from = (case text_precision tenv paddr of (status, precision) \<Rightarrow>
     map_option (\<lambda>s. (status, Some s)) (cvtDoubleToString (printf_env.truncate tenv) from precision))"

definition cvt_e_st_get :: "text_env \<Rightarrow> db_addr option \<Rightarrow> u16 \<Rightarrow> (int \<times> string option) option" where
  "cvt_e_st_get tenv paddr from = (case Option.bind paddr (get_enum tenv) of
     Some (status, s) \<Rightarrow> Some (status, Some s)
   | None \<Rightarrow> Some (M_dbAccess + 3, None))"

definition cvt_e_st_put :: "u16 \<Rightarrow> (int \<times> string option) option" where
  "cvt_e_st_put from = map_option (\<lambda>s. (0, Some s)) (cvtUshortToString from)"

definition cvt_menu_st :: "text_env \<Rightarrow> db_addr option \<Rightarrow> u16 \<Rightarrow> (int \<times> string option) option" where
  "cvt_menu_st tenv paddr from = (case Option.bind paddr (\<lambda>a. choice tenv a from) of
     None \<Rightarrow> Some (S_db_badChoice, None)
   | Some s \<Rightarrow> map_option (\<lambda>s. (0, Some s)) (fits MAX_STRING_SIZE (Some s)))"

definition cvt_device_st :: "text_env \<Rightarrow> db_addr option \<Rightarrow> u16 \<Rightarrow> (int \<times> string option) option" where
  "cvt_device_st tenv paddr from = (case Option.bind paddr (\<lambda>a. choice tenv a from) of
     None \<Rightarrow> Some (S_db_badChoice, None)
   | Some s \<Rightarrow> map_option (\<lambda>s. (0, Some s)) (fits MAX_STRING_SIZE (Some s)))"

text \<open>An entry: what is written to a destination of \<open>room\<close> bytes where it is a string.\<close>

definition one_entry :: "(dbbuf \<Rightarrow> 'a list option) \<Rightarrow> ('b list \<Rightarrow> dbbuf) \<Rightarrow> ('a \<Rightarrow> (int \<times> 'b option) option)
    \<Rightarrow> dbbuf \<Rightarrow> (int \<times> dbbuf) option" where
  "one_entry un pack f from = (case un from of
     Some (x # _) \<Rightarrow> map_option (\<lambda>(status, y). (status, pack (case y of Some y \<Rightarrow> [y] | None \<Rightarrow> []))) (f x)
   | _ \<Rightarrow> None)"

definition fit_text :: "nat \<Rightarrow> (int \<times> string option) option \<Rightarrow> (int \<times> string option) option" where
  "fit_text room r = (case r of Some (status, Some s) \<Rightarrow> if length s < room then r else None | _ \<Rightarrow> r)"

definition number_texts :: "text_env \<Rightarrow> conv_env \<Rightarrow> db_addr option \<Rightarrow> nat \<Rightarrow> dbf_type \<Rightarrow> (dbbuf \<Rightarrow> (int \<times> dbbuf) option) option" where
  "number_texts tenv env paddr room s = (case s of
     DBF_CHAR \<Rightarrow> Some (one_entry un_Chars Strings (\<lambda>x. fit_text room (cvt_c_st env x)))
   | DBF_UCHAR \<Rightarrow> Some (one_entry un_Uchars Strings (\<lambda>x. fit_text room (cvt_uc_st env x)))
   | DBF_SHORT \<Rightarrow> Some (one_entry un_Shorts Strings (\<lambda>x. fit_text room (cvt_s_st env x)))
   | DBF_USHORT \<Rightarrow> Some (one_entry un_Ushorts Strings (\<lambda>x. fit_text room (cvt_us_st env x)))
   | DBF_LONG \<Rightarrow> Some (one_entry un_Longs Strings (\<lambda>x. fit_text room (cvt_l_st env x)))
   | DBF_ULONG \<Rightarrow> Some (one_entry un_Ulongs Strings (\<lambda>x. fit_text room (cvt_ul_st env x)))
   | DBF_FLOAT \<Rightarrow> Some (one_entry un_Floats Strings (\<lambda>x. fit_text room (cvt_f_st tenv paddr x)))
   | DBF_DOUBLE \<Rightarrow> Some (one_entry un_Doubles Strings (\<lambda>x. fit_text room (cvt_d_st tenv paddr x)))
   | _ \<Rightarrow> None)"

definition text_numbers :: "text_env \<Rightarrow> conv_env \<Rightarrow> dbf_type \<Rightarrow> (dbbuf \<Rightarrow> (int \<times> dbbuf) option) option" where
  "text_numbers tenv env t = (case t of
     DBF_CHAR \<Rightarrow> Some (one_entry un_Strings Chars (cvt_st_c tenv env))
   | DBF_UCHAR \<Rightarrow> Some (one_entry un_Strings Uchars (cvt_st_uc tenv env))
   | DBF_SHORT \<Rightarrow> Some (one_entry un_Strings Shorts (cvt_st_s tenv env))
   | DBF_USHORT \<Rightarrow> Some (one_entry un_Strings Ushorts (cvt_st_us tenv env))
   | DBF_LONG \<Rightarrow> Some (one_entry un_Strings Longs (cvt_st_l tenv env))
   | DBF_ULONG \<Rightarrow> Some (one_entry un_Strings Ulongs (cvt_st_ul tenv env))
   | DBF_FLOAT \<Rightarrow> Some (one_entry un_Strings Floats (cvt_st_f tenv env))
   | DBF_DOUBLE \<Rightarrow> Some (one_entry un_Strings Doubles (cvt_st_d tenv env))
   | _ \<Rightarrow> None)"

text \<open>The rows and columns of strings. A string read as an enumeration would be written to the field that is
  read (\<open>cvt_st_e\<close>): that entry is undefined here.\<close>

definition string_fast_gets :: "text_env \<Rightarrow> dbf_type \<Rightarrow> dbf_type \<Rightarrow> fast_routine" where
  "string_fast_gets tenv s t env paddr from =
     (if s = DBF_STRING
      then if t = DBF_STRING then one_entry un_Strings Strings (\<lambda>x. fit_text MAX_STRING_SIZE (cvt_st_st paddr x)) from
           else (case text_numbers tenv env t of Some f \<Rightarrow> f from | None \<Rightarrow> None)
      else case s of
          DBF_ENUM \<Rightarrow> one_entry un_Enums Strings (\<lambda>x. fit_text MAX_STRING_SIZE (cvt_e_st_get tenv paddr x)) from
        | DBF_MENU \<Rightarrow> one_entry un_Enums Strings (cvt_menu_st tenv paddr) from
        | DBF_DEVICE \<Rightarrow> one_entry un_Enums Strings (cvt_device_st tenv paddr) from
        | _ \<Rightarrow> (case number_texts tenv env paddr MAX_STRING_SIZE s of Some f \<Rightarrow> f from | None \<Rightarrow> None))"

text \<open>On a put the destination is the field, of \<open>addr_size\<close> bytes.\<close>

definition string_fast_puts :: "text_env \<Rightarrow> dbf_type \<Rightarrow> dbf_type \<Rightarrow> fast_routine" where
  "string_fast_puts tenv s t env paddr from =
     (let size = (case paddr of Some a \<Rightarrow> nat (addr_size a) | None \<Rightarrow> MAX_STRING_SIZE)
      in if s = DBF_STRING
         then case t of
             DBF_STRING \<Rightarrow> one_entry un_Strings Strings (\<lambda>x. fit_text size (cvt_st_st paddr x)) from
           | DBF_ENUM \<Rightarrow> one_entry un_Strings Enums (cvt_st_e tenv paddr) from
           | DBF_MENU \<Rightarrow> one_entry un_Strings Enums (cvt_st_menu tenv paddr) from
           | DBF_DEVICE \<Rightarrow> one_entry un_Strings Enums (cvt_st_device tenv paddr) from
           | _ \<Rightarrow> (case text_numbers tenv env t of Some f \<Rightarrow> f from | None \<Rightarrow> None)
         else if s = DBF_ENUM then one_entry un_Enums Strings (\<lambda>x. fit_text size (cvt_e_st_put x)) from
         else (case number_texts tenv env paddr size s of Some f \<Rightarrow> f from | None \<Rightarrow> None))"

end
