(* ===== verification/DbRoundTrip.thy ===== *)
theory DbRoundTrip
  imports DbConvert
begin

text \<open>
  Reading back what was written to a field: the conversions that lose nothing.
\<close>

section \<open>Round trips\<close>

lemma put_window_length [simp]:
  assumes "in_array fld n ne off" "length ys = nat n"
  shows "length (put_window fld ys ne off) = length fld"
  using assms by (auto simp: put_window_def in_array_def Let_def min_def)

lemma in_array_cong: "length xs = length ys \<Longrightarrow> in_array xs = in_array ys"
  by (simp add: in_array_def fun_eq_iff)

lemma drop_prefix: "xs = a @ b \<Longrightarrow> drop (length a) xs = b"
  by simp

lemma window_put:
  assumes a: "in_array fld n ne off" and l: "length ys = nat n"
  shows "window (put_window fld ys ne off) n ne off = ys"
proof -
  let ?m = "nat (ne - off)"
  have i: "in_array (put_window fld ys ne off) n ne off" using a put_window_length [OF a l] in_array_cong by metis
  have b: "nat off + ?m = nat ne" "nat off \<le> length fld" using a by (auto simp: in_array_def simp flip: nat_add_distrib)
  show ?thesis
  proof (cases "off + n \<le> ne")
    case True
    then have "length ys \<le> ?m" using l a by (simp add: in_array_def)
    then show ?thesis unfolding window_eq [OF i] using True a b l by (simp add: put_window_def Let_def in_array_def)
  next
    case False
    then have m: "\<not> length ys \<le> ?m" "nat (n - (ne - off)) = length ys - ?m" "length ys - ?m \<le> nat off" "?m \<le> length ys"
      using l a by (auto simp: in_array_def)
    let ?pre = "drop ?m ys @ drop (length ys - ?m) (take (nat off) fld)"
    have d: "length ?pre = nat off" using m(3) b(2) by (auto simp: min_def)
    have "put_window fld ys ne off = ?pre @ take ?m ys @ drop (nat ne) fld"
      using m(1) by (simp add: put_window_def Let_def)
    then have "drop (length ?pre) (put_window fld ys ne off) = take ?m ys @ drop (nat ne) fld"
      by (rule drop_prefix)
    then have "drop (nat off) (put_window fld ys ne off) = take ?m ys @ drop (nat ne) fld" by (simp only: d)
    moreover have "take (length ys - ?m) (put_window fld ys ne off) = drop ?m ys" using m(1) by (simp add: put_window_def Let_def)
    ultimately show ?thesis unfolding window_eq [OF i] using False m by simp
  qed
qed

text \<open>The conversions that lose nothing.\<close>

definition widens :: "conv_env \<Rightarrow> dbf_type \<Rightarrow> dbf_type \<Rightarrow> bool" where
  "widens env s t \<longleftrightarrow> s \<in> numeric_types - {DBF_FLOAT, DBF_DOUBLE} \<and> (t = DBF_DOUBLE \<or>
     t \<in> numeric_types - {DBF_FLOAT, DBF_DOUBLE} \<and> fst (int_range env t) \<le> fst (int_range env s) \<and> snd (int_range env s) \<le> snd (int_range env t))"

lemma wrap_range: "fst (int_range env t) \<le> i \<Longrightarrow> i \<le> snd (int_range env t) \<Longrightarrow> wrap env t i = i"
  by (auto simp: wrap_def split: prod.splits)

lemma int_range_small: "fst (int_range env t) \<le> i \<Longrightarrow> i \<le> snd (int_range env t) \<Longrightarrow> \<bar>i\<bar> < 2 ^ 53"
  by (auto simp: int_range_def split: dbf_type.splits if_splits)

lemma dcast_dint:
  assumes "fst (int_range env t) \<le> i" "i \<le> snd (int_range env t)"
  shows "dcast env t (dint i) = Some i"
proof -
  have "dint i = Fin (of_int i)" using int_range_small [OF assms] by (rule dint_exact)
  moreover have "trunc_rat (of_int i) = i" by (simp add: trunc_rat_def)
  ultimately show ?thesis using assms by (auto simp: dcast_def Let_def split: prod.splits)
qed

lemma widens_back:
  assumes w: "widens env s t" and v: "v = Whole i" "fst (int_range env s) \<le> i" "i \<le> snd (int_range env s)"
  shows "\<exists>v'. num_conv env s t v = Some v' \<and> num_conv env t s v' = Some v"
  using w v dcast_dint [of env s i] wrap_range [of env s i] wrap_range [of env t i]
  by (auto simp: num_conv_def widens_def)

lemma word_ranges:
  "uint b \<le> 255" "uint h \<le> 65535" "uint l \<le> 4294967295" "- 128 \<le> sint b" "sint b \<le> 127"
  "- 32768 \<le> sint h" "sint h \<le> 32767" "- 2147483648 \<le> sint l" "sint l \<le> 2147483647"
  for b :: u8 and h :: u16 and l :: u32
  using uint_bounded [of b] uint_bounded [of h] uint_bounded [of l]
    sint_range_size [of b] sint_range_size [of h] sint_range_size [of l] by (simp_all add: word_size)

lemma dbnums_range:
  assumes "v \<in> set (dbnums env b)" "buf_type b \<in> numeric_types - {DBF_FLOAT, DBF_DOUBLE}"
  shows "\<exists>i. v = Whole i \<and> fst (int_range env (buf_type b)) \<le> i \<and> i \<le> snd (int_range env (buf_type b))"
  using assms word_ranges by (cases b) (auto simp: int_range_def char_val_def)

lemma those_exists: "(\<forall>x \<in> set xs. \<exists>y. f x = Some y \<and> g y = Some x) \<Longrightarrow> \<exists>ys. those (map f xs) = Some ys \<and> those (map g ys) = Some xs"
  by (induction xs) auto

text \<open>C20: A client reads back what it wrote. When the type of the field represents every value of the client's
  integer type, a write to any window of the array (at offset 0 where the routine copies) succeeds, and
  reading the window with the same type returns the client's values.\<close>

theorem put_get_roundtrip:
  assumes P: "dbPutConvertRoutine string_put s t = Some rp" and G: "dbGetConvertRoutine string_get t s = Some rg"
    and w: "widens env s (store_type t)" and off: "off = 0 \<or> \<not> same_rep s (store_type t)"
    and f: "buf_type buf = s" "buf_type fld = store_type t" "\<not> is_string_field paddr"
    and n: "in_array (dbnums env fld) n ne off" "n \<le> int (length (dbnums env buf))"
  shows "\<exists>fld'. rp env paddr fld buf n ne off = Some (0, fld') \<and>
    buf_nums env (rg env paddr fld' n ne off) = Some (0, s, take (nat n) (dbnums env buf))"
proof -
  let ?t = "store_type t" and ?vs = "take (nat n) (dbnums env buf)"
  have s: "s \<in> numeric_types - {DBF_FLOAT, DBF_DOUBLE}" and t: "?t \<in> numeric_types" and ss: "store_type s = s"
    using w by (auto simp: widens_def store_type_def)
  have "\<exists>v'. num_conv env s ?t v = Some v' \<and> num_conv env ?t s v' = Some v" if v: "v \<in> set ?vs" for v
  proof -
    obtain i where i: "v = Whole i" "fst (int_range env s) \<le> i" "i \<le> snd (int_range env s)"
      using dbnums_range [OF in_set_takeD [OF v]] s unfolding f(1) by blast
    show ?thesis by (rule widens_back [OF w i])
  qed
  then obtain ws where ws: "those (map (num_conv env s ?t) ?vs) = Some ws" "those (map (num_conv env ?t s) ws) = Some ?vs"
    using those_exists [of ?vs "num_conv env s ?t" "num_conv env ?t s"] by auto
  have l: "length ws = nat n" using those_length [OF ws(1)] n by (simp add: in_array_def)
  have "buf_nums env (rp env paddr fld buf n ne off) = Some (0, ?t, put_window (dbnums env fld) ws ne off)"
    using put_routine_nums [OF P _ t f(1,2) n off] s ws(1) by auto
  then obtain fld' where fld': "rp env paddr fld buf n ne off = Some (0, fld')" "buf_type fld' = ?t"
      "dbnums env fld' = put_window (dbnums env fld) ws ne off"
    by (auto simp: buf_nums_def)
  have ia: "in_array (dbnums env fld') n ne off"
    using n(1) put_window_length [OF n(1) l] in_array_cong [of "dbnums env fld'" "dbnums env fld"] by (simp add: fld')
  have c: "num_conv env t s = num_conv env ?t s"
    by (simp add: num_conv_def store_type_def fun_eq_iff split: num.splits)
  have "buf_nums env (rg env paddr fld' n ne off) = Some (0, s, ?vs)"
    using get_routine_nums [OF G _ t fld'(2) f(3) ia] s
    by (auto simp: c fld'(3) window_put [OF n(1) l] ws(2))
  then show ?thesis using fld'(1) by blast
qed

theorem put_get_roundtrip_witness:
  "\<exists>rp rg fld'. dbPutConvertRoutine no_string_puts DBF_UCHAR DBF_LONG = Some rp \<and>
     dbGetConvertRoutine no_strings DBF_LONG DBF_UCHAR = Some rg \<and>
     rp conv_env0 array_field (Longs [10, 20, 30, 40]) (Uchars [200, 7]) 2 4 3 = Some (0, fld') \<and>
     buf_nums conv_env0 (rg conv_env0 array_field fld' 2 4 3) = Some (0, DBF_UCHAR, [Whole 200, Whole 7])"
proof -
  have P: "dbPutConvertRoutine no_string_puts DBF_UCHAR DBF_LONG = Some (put_entry un_Uchars un_Longs Longs putUcharLong)"
    by (simp add: dbPutConvertRoutine_def put_row_Uchar_def)
  have G: "dbGetConvertRoutine no_strings DBF_LONG DBF_UCHAR = Some (get_entry un_Longs Uchars getLongUchar)"
    by (simp add: dbGetConvertRoutine_def get_row_Long_def)
  show ?thesis
    using P G put_get_roundtrip [OF P G, where env = conv_env0 and buf = "Uchars [200, 7]" and fld = "Longs [10, 20, 30, 40]"
        and paddr = array_field and n = 2 and ne = 4 and off = 3]
    by (auto simp: widens_def store_type_def same_rep_def doubleton_eq_iff int_range_def in_array_def is_string_field_def array_field_def)
qed

end
