(* ===== verification/DbAccess.thy ===== *)
theory DbAccess
  imports DbFastConvert DbRoundTrip
begin

text \<open>
  dbAccess.c: how clients read and write the fields of a record. The record support entry table, the memory
  of a field and what lies behind a scan list or access security are arguments.
\<close>

section \<open>The environment\<close>

abbreviation (input) DBE_PROPERTY :: u16 where "DBE_PROPERTY \<equiv> 8"

abbreviation (input) SPC_NOMOD :: nat where "SPC_NOMOD \<equiv> 1"
abbreviation (input) SPC_DBADDR :: nat where "SPC_DBADDR \<equiv> 2"
abbreviation (input) SPC_SCAN :: nat where "SPC_SCAN \<equiv> 3"
abbreviation (input) SPC_AS :: nat where "SPC_AS \<equiv> 6"
abbreviation (input) SPC_ATTRIBUTE :: nat where "SPC_ATTRIBUTE \<equiv> 7"

definition S_db_badDbrtype :: int where "S_db_badDbrtype = M_dbAccess + 3"
definition S_db_noSupport :: int where "S_db_noSupport = M_dbAccess + 33"
definition S_db_putDisabled :: int where "S_db_putDisabled = M_dbAccess + 41"

text \<open>The numbers of the field types; a request type is such a number, or one of the two requests for
  alarm acknowledgement, whose numbers are those of \<open>DBF_MENU\<close> and \<open>DBF_DEVICE\<close>.\<close>

definition dbf_types :: "dbf_type list" where
  "dbf_types = [DBF_STRING, DBF_CHAR, DBF_UCHAR, DBF_SHORT, DBF_USHORT, DBF_LONG, DBF_ULONG, DBF_FLOAT, DBF_DOUBLE,
     DBF_ENUM, DBF_MENU, DBF_DEVICE, DBF_INLINK, DBF_OUTLINK, DBF_FWDLINK, DBF_NOACCESS]"

fun dbf_code :: "dbf_type \<Rightarrow> int" where
  "dbf_code DBF_STRING = 0" | "dbf_code DBF_CHAR = 1" | "dbf_code DBF_UCHAR = 2" | "dbf_code DBF_SHORT = 3"
| "dbf_code DBF_USHORT = 4" | "dbf_code DBF_LONG = 5" | "dbf_code DBF_ULONG = 6" | "dbf_code DBF_FLOAT = 7"
| "dbf_code DBF_DOUBLE = 8" | "dbf_code DBF_ENUM = 9" | "dbf_code DBF_MENU = 10" | "dbf_code DBF_DEVICE = 11"
| "dbf_code DBF_INLINK = 12" | "dbf_code DBF_OUTLINK = 13" | "dbf_code DBF_FWDLINK = 14" | "dbf_code DBF_NOACCESS = 15"

abbreviation (input) DBR_ENUM :: int where "DBR_ENUM \<equiv> 9"
abbreviation (input) DBR_PUT_ACKT :: int where "DBR_PUT_ACKT \<equiv> 10"
abbreviation (input) DBR_PUT_ACKS :: int where "DBR_PUT_ACKS \<equiv> 11"

definition INVALID_DB_REQ :: "int \<Rightarrow> bool" where
  "INVALID_DB_REQ x \<longleftrightarrow> x < 0 \<or> DBR_ENUM < x"

text \<open>
  The record support entry table, as far as data access uses it. \<open>array_info\<close> gives a status, the number
  of valid elements and the offset; what it does to \<open>paddr->pfield\<close> is part of \<open>pfield\<close> below.
\<close>

type_synonym enum_strs = "nat \<times> string list"

record ('a, 'w) rset =
  rset_special :: "(db_addr \<Rightarrow> nat \<Rightarrow> 'a dbCommon_scheme \<Rightarrow> 'w \<Rightarrow> int \<times> 'a dbCommon_scheme \<times> 'w) option"
  array_info :: "(db_addr \<Rightarrow> 'a dbCommon_scheme \<Rightarrow> int \<times> int \<times> int) option"
  put_array :: "(db_addr \<Rightarrow> int \<Rightarrow> 'a dbCommon_scheme \<Rightarrow> int \<times> 'a dbCommon_scheme) option"
  units_of :: "(db_addr \<Rightarrow> 'a dbCommon_scheme \<Rightarrow> string) option"
  precision_of :: "(db_addr \<Rightarrow> 'a dbCommon_scheme \<Rightarrow> int) option"
  enum_strs_of :: "(db_addr \<Rightarrow> 'a dbCommon_scheme \<Rightarrow> enum_strs) option"
  graphic_of :: "(db_addr \<Rightarrow> 'a dbCommon_scheme \<Rightarrow> double \<times> double) option"
  control_of :: "(db_addr \<Rightarrow> 'a dbCommon_scheme \<Rightarrow> double \<times> double) option"
  alarm_of :: "(db_addr \<Rightarrow> 'a dbCommon_scheme \<Rightarrow> int \<times> alarm_limits) option"

text \<open>
  \<open>pfield\<close> and \<open>set_pfield\<close> are the memory at \<open>paddr->pfield\<close>; \<open>scan_of\<close>, \<open>disp_of\<close> and \<open>monitored\<close> the
  fields SCAN and DISP and whether the record has monitors; \<open>menu_of\<close> the choices of a menu or device field,
  a missing one being \<open>None\<close>; \<open>link_text\<close> the text of a link field from the static database, \<open>put_link\<close> the
  write to a link field, and \<open>attr_text\<close> the text at \<open>paddr->pfield\<close> of an attribute.
\<close>

record ('a, 'w) db_env =
  conv :: conv_env
  pfield :: "db_addr \<Rightarrow> 'a dbCommon_scheme \<Rightarrow> dbbuf"
  set_pfield :: "db_addr \<Rightarrow> dbbuf \<Rightarrow> 'a dbCommon_scheme \<Rightarrow> 'a dbCommon_scheme"
  prset :: "('a, 'w) rset option"
  scan_of :: "'a dbCommon_scheme \<Rightarrow> enum16"
  disp_of :: "'a dbCommon_scheme \<Rightarrow> u8"
  monitored :: "'a dbCommon_scheme \<Rightarrow> bool"
  scan_delete :: "'a dbCommon_scheme \<Rightarrow> 'w \<Rightarrow> 'w"
  scan_add :: "'a dbCommon_scheme \<Rightarrow> 'w \<Rightarrow> 'w"
  as_callback :: "('a dbCommon_scheme \<Rightarrow> 'w \<Rightarrow> 'w) option"
  menu_of :: "db_addr \<Rightarrow> string option list option"
  link_text :: "db_addr \<Rightarrow> 'a dbCommon_scheme \<Rightarrow> int \<times> string"
  attr_text :: "db_addr \<Rightarrow> string option"
  put_link :: "db_addr \<Rightarrow> int \<Rightarrow> dbbuf \<Rightarrow> int \<Rightarrow> 'a dbCommon_scheme \<Rightarrow> 'w \<Rightarrow> (int \<times> 'a dbCommon_scheme \<times> 'w) option"
  string_get :: "dbf_type \<Rightarrow> dbf_type \<Rightarrow> get_routine"
  string_put :: "dbf_type \<Rightarrow> dbf_type \<Rightarrow> put_routine"
  string_fast_get :: "dbf_type \<Rightarrow> dbf_type \<Rightarrow> fast_routine"
  string_fast_put :: "dbf_type \<Rightarrow> dbf_type \<Rightarrow> fast_routine"

section \<open>Writing\<close>

definition dbPutSpecial :: "('a, 'w) db_env \<Rightarrow> db_addr \<Rightarrow> nat \<Rightarrow> 'a dbCommon_scheme \<Rightarrow> 'w \<Rightarrow> int \<times> 'a dbCommon_scheme \<times> 'w" where
  "dbPutSpecial env paddr pass precord w =
     (let special = special_type paddr
      in if special < 100
         then if special = SPC_NOMOD \<and> pass = 0 then (S_db_noMod, precord, w)
              else if special = SPC_SCAN
                then if pass = 0 then (0, precord, scan_delete env precord w) else (0, precord, scan_add env precord w)
              else if special = SPC_AS \<and> pass = 1
                then (case as_callback env of Some f \<Rightarrow> (0, precord, f precord w) | None \<Rightarrow> (0, precord, w))
              else (0, precord, w)
         else case Option.bind (prset env) rset_special of
                Some pspecial \<Rightarrow> pspecial paddr pass precord w
              | None \<Rightarrow> if pass = 0 then (S_db_noSupport, precord, w) else (0, precord, w))"

definition dbIsValueField :: "dbFldDes \<Rightarrow> bool" where
  "dbIsValueField d \<longleftrightarrow> fld_name d = ''VAL''"

text \<open>The memory of a field whose first element is overwritten.\<close>

definition set_first :: "dbbuf \<Rightarrow> dbbuf \<Rightarrow> dbbuf" where
  "set_first b v = (case b of
     Strings xs \<Rightarrow> (case un_Strings v of Some (y # _) \<Rightarrow> Strings (xs[0 := y]) | _ \<Rightarrow> b)
   | Chars xs \<Rightarrow> (case un_Chars v of Some (y # _) \<Rightarrow> Chars (xs[0 := y]) | _ \<Rightarrow> b)
   | Uchars xs \<Rightarrow> (case un_Uchars v of Some (y # _) \<Rightarrow> Uchars (xs[0 := y]) | _ \<Rightarrow> b)
   | Shorts xs \<Rightarrow> (case un_Shorts v of Some (y # _) \<Rightarrow> Shorts (xs[0 := y]) | _ \<Rightarrow> b)
   | Ushorts xs \<Rightarrow> (case un_Ushorts v of Some (y # _) \<Rightarrow> Ushorts (xs[0 := y]) | _ \<Rightarrow> b)
   | Longs xs \<Rightarrow> (case un_Longs v of Some (y # _) \<Rightarrow> Longs (xs[0 := y]) | _ \<Rightarrow> b)
   | Ulongs xs \<Rightarrow> (case un_Ulongs v of Some (y # _) \<Rightarrow> Ulongs (xs[0 := y]) | _ \<Rightarrow> b)
   | Floats xs \<Rightarrow> (case un_Floats v of Some (y # _) \<Rightarrow> Floats (xs[0 := y]) | _ \<Rightarrow> b)
   | Doubles xs \<Rightarrow> (case un_Doubles v of Some (y # _) \<Rightarrow> Doubles (xs[0 := y]) | _ \<Rightarrow> b)
   | Enums xs \<Rightarrow> (case un_Enums v of Some (y # _) \<Rightarrow> Enums (xs[0 := y]) | _ \<Rightarrow> b))"

text \<open>The conversion of \<open>dbPut\<close>: status, number of elements, record. \<open>None\<close> is undefined behaviour, which
  includes a call through a null entry of a table.\<close>

definition put_value ::
  "('a, 'w) db_env \<Rightarrow> db_addr \<Rightarrow> dbf_type \<Rightarrow> dbbuf \<Rightarrow> int \<Rightarrow> int \<Rightarrow> 'a dbCommon_scheme \<Rightarrow> (int \<times> int \<times> 'a dbCommon_scheme) option" where
  "put_value env paddr dbr pbuffer nRequest offset precord =
     (if addr_elements paddr \<le> 1
      then case dbFastPutConvertRoutine (string_fast_put env) dbr (field_type paddr) of
             None \<Rightarrow> None
           | Some convert \<Rightarrow>
               (case convert (conv env) (Some paddr) pbuffer of
                  None \<Rightarrow> None
                | Some (status, v) \<Rightarrow>
                    Some (status, 1, if status = 0 then set_pfield env paddr (set_first (pfield env paddr precord) v) precord else precord))
      else let nRequest = (if addr_elements paddr < nRequest then addr_elements paddr else nRequest)
           in case dbPutConvertRoutine (string_put env) dbr (field_type paddr) of
                None \<Rightarrow> None
              | Some convert \<Rightarrow>
                  (case convert (conv env) paddr (pfield env paddr precord) pbuffer nRequest (addr_elements paddr) offset of
                     None \<Rightarrow> None
                   | Some (status, v) \<Rightarrow> Some (status, nRequest, set_pfield env paddr v precord)))"

text \<open>The monitor events of a write.\<close>

definition put_events :: "('a, 'w) db_env \<Rightarrow> db_addr \<Rightarrow> dbFldDes \<Rightarrow> 'a dbCommon_scheme \<Rightarrow> 'a dbCommon_scheme" where
  "put_events env paddr d precord =
     (let isValueField = dbIsValueField d;
          precord = (if isValueField then precord\<lparr>udf := FALSE\<rparr> else precord);
          precord = (if monitored env precord \<and> \<not> (isValueField \<and> process_passive d)
                     then db_post_events (field paddr) (DBE_VALUE OR DBE_LOG) precord else precord)
      in if monitored env precord \<and> fld_prop d then db_post_events [] DBE_PROPERTY precord else precord)"

definition dbPut ::
  "('a, 'w) db_env \<Rightarrow> db_addr \<Rightarrow> int \<Rightarrow> dbbuf \<Rightarrow> int \<Rightarrow> 'a dbCommon_scheme \<Rightarrow> 'w \<Rightarrow> (int \<times> 'a dbCommon_scheme \<times> 'w) option" where
  "dbPut env paddr dbrType pbuffer nRequest precord w =
     (if special_type paddr = SPC_ATTRIBUTE then Some (S_db_noMod, precord, w)
      else if dbrType = DBR_PUT_ACKT \<and> dbf_code (field_type paddr) \<le> dbf_code DBF_DEVICE
        then (case pbuffer of Ushorts (x # _) \<Rightarrow> (case putAckt x precord of (status, precord) \<Rightarrow> Some (status, precord, w)) | _ \<Rightarrow> None)
      else if dbrType = DBR_PUT_ACKS \<and> dbf_code (field_type paddr) \<le> dbf_code DBF_DEVICE
        then (case pbuffer of Ushorts (x # _) \<Rightarrow> (case putAcks x precord of (status, precord) \<Rightarrow> Some (status, precord, w)) | _ \<Rightarrow> None)
      else if INVALID_DB_REQ dbrType \<or> dbf_code DBF_DEVICE < dbf_code (field_type paddr)
        then Some (S_db_badDbrtype, precord, w)
      else
        case (if special_type paddr \<noteq> 0 then dbPutSpecial env paddr 0 precord w else (0, precord, w)) of (status, precord, w) \<Rightarrow>
        if status \<noteq> 0 then Some (status, precord, w)
        else case pfldDes paddr of None \<Rightarrow> None | Some d \<Rightarrow>
        let (status, offset) = (case (fld_special d = SPC_DBADDR, Option.bind (prset env) array_info) of
               (True, Some f) \<Rightarrow> (case f paddr precord of (status, _, offset) \<Rightarrow> (status, offset))
             | _ \<Rightarrow> (0, 0))
        in if status \<noteq> 0 then Some (status, precord, w)
           else case put_value env paddr (dbf_types ! nat dbrType) pbuffer nRequest offset precord of
             None \<Rightarrow> None
           | Some (status, nRequest, precord) \<Rightarrow>
               let (status, precord) = (case (status = 0 \<and> fld_special d = SPC_DBADDR, Option.bind (prset env) put_array) of
                      (True, Some f) \<Rightarrow> f paddr nRequest precord
                    | _ \<Rightarrow> (status, precord));
                   (status2, precord, w) = (if special_type paddr \<noteq> 0 then dbPutSpecial env paddr 1 precord w else (0, precord, w))
               in if status2 \<noteq> 0 then Some (status, precord, w)
                  else if status \<noteq> 0 then Some (status, precord, w)
                  else Some (0, put_events env paddr d precord, w))"

text \<open>A write from outside, under the lock of the record: it may process the record.\<close>

definition dbPutField ::
  "('a, 'w) db_env \<Rightarrow> 'w rec_env \<Rightarrow> ('a dbCommon_scheme \<Rightarrow> 'w \<Rightarrow> int \<times> 'a dbCommon_scheme \<times> 'w) option
     \<Rightarrow> db_addr \<Rightarrow> int \<Rightarrow> dbbuf \<Rightarrow> int \<Rightarrow> 'a dbCommon_scheme \<Rightarrow> 'w \<Rightarrow> (int \<times> 'a dbCommon_scheme \<times> 'w) option" where
  "dbPutField env renv process paddr dbrType pbuffer nRequest precord w =
     (if special_type paddr = SPC_ATTRIBUTE then Some (S_db_noMod, precord, w)
      else if disp_of env precord \<noteq> 0 \<and> field paddr \<noteq> ''DISP'' then Some (S_db_putDisabled, precord, w)
      else if dbf_code DBF_INLINK \<le> dbf_code (field_type paddr) \<and> dbf_code (field_type paddr) \<le> dbf_code DBF_FWDLINK
        then put_link env paddr dbrType pbuffer nRequest precord w
      else case dbPut env paddr dbrType pbuffer nRequest precord w of None \<Rightarrow> None
        | Some (status, precord, w) \<Rightarrow>
            if status \<noteq> 0 then Some (status, precord, w)
            else case pfldDes paddr of None \<Rightarrow> None | Some d \<Rightarrow>
              if field paddr = ''PROC'' \<or> process_passive d \<and> scan_of env precord = 0 \<and> dbrType < DBR_PUT_ACKT
              then if pact precord \<noteq> 0 then Some (0, precord\<lparr>rpro := TRUE\<rparr>, w)
                   else Some (dbProcess renv process (precord\<lparr>putf := TRUE\<rparr>) w)
              else Some (status, precord, w))"

section \<open>Reading\<close>

text \<open>A field log: a value that was captured when an event was posted, or just the record.\<close>

record db_field_log =
  pfl_rec :: bool
  pfl_type :: dbf_type
  pfl_size :: int
  pfl_elements :: int
  pfl_field :: dbbuf
  pfl_stat :: enum16
  pfl_sevr :: enum16
  pfl_time :: time_stamp

abbreviation (input) DBR_STATUS :: u32 where "DBR_STATUS \<equiv> 0x1"
abbreviation (input) DBR_UNITS :: u32 where "DBR_UNITS \<equiv> 0x2"
abbreviation (input) DBR_PRECISION :: u32 where "DBR_PRECISION \<equiv> 0x4"
abbreviation (input) DBR_TIME :: u32 where "DBR_TIME \<equiv> 0x8"
abbreviation (input) DBR_ENUM_STRS :: u32 where "DBR_ENUM_STRS \<equiv> 0x10"
abbreviation (input) DBR_GR_LONG :: u32 where "DBR_GR_LONG \<equiv> 0x20"
abbreviation (input) DBR_GR_DOUBLE :: u32 where "DBR_GR_DOUBLE \<equiv> 0x40"
abbreviation (input) DBR_CTRL_LONG :: u32 where "DBR_CTRL_LONG \<equiv> 0x80"
abbreviation (input) DBR_CTRL_DOUBLE :: u32 where "DBR_CTRL_DOUBLE \<equiv> 0x100"
abbreviation (input) DBR_AL_LONG :: u32 where "DBR_AL_LONG \<equiv> 0x200"
abbreviation (input) DBR_AL_DOUBLE :: u32 where "DBR_AL_DOUBLE \<equiv> 0x400"

abbreviation (input) MAX_STRING_SIZE :: nat where "MAX_STRING_SIZE \<equiv> 40"
abbreviation (input) DB_MAX_CHOICES :: nat where "DB_MAX_CHOICES \<equiv> 30"

text \<open>The blocks \<open>getOptions\<close> puts in front of the values, one after the other, and their sizes. \<open>Unset n\<close> are
  \<open>n\<close> bytes that are passed over without being written.\<close>

datatype option_block = Status enum16 enum16 enum16 enum16 | Units string | Precision int | Time time_stamp
  | Enum_strs enum_strs | Gr_long int int | Gr_double double double | Ctrl_long int int | Ctrl_double double double
  | Al_long int int int int | Al_double double double double double | Unset nat

fun block_size :: "option_block \<Rightarrow> nat" where
  "block_size (Status _ _ _ _) = 8"
| "block_size (Units _) = 16"
| "block_size (Precision _) = 8"
| "block_size (Time _) = 8"
| "block_size (Enum_strs _) = 8 + DB_MAX_CHOICES * MAX_STRING_SIZE"
| "block_size (Gr_long _ _) = 8"
| "block_size (Gr_double _ _) = 16"
| "block_size (Ctrl_long _ _) = 8"
| "block_size (Ctrl_double _ _) = 16"
| "block_size (Al_long _ _ _ _) = 16"
| "block_size (Al_double _ _ _ _) = 32"
| "block_size (Unset n) = n"

definition dbValueSize :: "int \<Rightarrow> nat" where
  "dbValueSize dbr_type = [MAX_STRING_SIZE, 1, 1, 2, 2, 4, 4, 4, 8, 2] ! nat dbr_type"

definition dbBufferSize :: "int \<Rightarrow> u32 \<Rightarrow> nat \<Rightarrow> nat" where
  "dbBufferSize dbr_type options no_elements =
     dbValueSize dbr_type * no_elements
     + (if options AND DBR_STATUS \<noteq> 0 then 8 else 0)
     + (if options AND DBR_UNITS \<noteq> 0 then 16 else 0)
     + (if options AND DBR_PRECISION \<noteq> 0 then 8 else 0)
     + (if options AND DBR_TIME \<noteq> 0 then 8 else 0)
     + (if options AND DBR_ENUM_STRS \<noteq> 0 then 8 + DB_MAX_CHOICES * MAX_STRING_SIZE else 0)
     + (if options AND DBR_GR_LONG \<noteq> 0 then 8 else 0)
     + (if options AND DBR_GR_DOUBLE \<noteq> 0 then 16 else 0)
     + (if options AND DBR_CTRL_LONG \<noteq> 0 then 8 else 0)
     + (if options AND DBR_CTRL_DOUBLE \<noteq> 0 then 16 else 0)
     + (if options AND DBR_AL_LONG \<noteq> 0 then 16 else 0)
     + (if options AND DBR_AL_DOUBLE \<noteq> 0 then 32 else 0)"

text \<open>A block, and the options with the ones that could not be served turned off. \<open>None\<close> is undefined
  behaviour: a null menu, or a limit outside the range of \<open>epicsInt32\<close>.\<close>

definition choice_strs :: "string option list \<Rightarrow> enum_strs" where
  "choice_strs cs = (let cs = take DB_MAX_CHOICES cs
     in (length cs, map (\<lambda>c. case c of None \<Rightarrow> [] | Some s \<Rightarrow> take (MAX_STRING_SIZE - 1) s) cs))"

definition get_enum_strs :: "('a, 'w) db_env \<Rightarrow> db_addr \<Rightarrow> u32 \<Rightarrow> 'a dbCommon_scheme \<Rightarrow> (option_block list \<times> u32) option" where
  "get_enum_strs env paddr options precord = (case field_type paddr of
     DBF_ENUM \<Rightarrow> (case Option.bind (prset env) enum_strs_of of
         Some f \<Rightarrow> Some ([Enum_strs (f paddr precord)], options)
       | None \<Rightarrow> Some ([Enum_strs (0, [])], options XOR DBR_ENUM_STRS))
   | DBF_MENU \<Rightarrow> (case menu_of env paddr of
         Some cs \<Rightarrow> Some ([Enum_strs (choice_strs cs)], options)
       | None \<Rightarrow> None)
   | DBF_DEVICE \<Rightarrow> (case menu_of env paddr of
         Some cs \<Rightarrow> Some ([Enum_strs (choice_strs cs)], options)
       | None \<Rightarrow> Some ([Enum_strs (0, [])], options XOR DBR_ENUM_STRS))
   | _ \<Rightarrow> Some ([Enum_strs (0, [])], options XOR DBR_ENUM_STRS))"

text \<open>\<open>get_graphics\<close> and \<open>get_control\<close> differ in the routine they ask, their options and their blocks.\<close>

definition get_limits ::
  "conv_env \<Rightarrow> (double \<times> double) option \<Rightarrow> u32 \<Rightarrow> u32 \<Rightarrow> (int \<Rightarrow> int \<Rightarrow> option_block) \<Rightarrow> (double \<Rightarrow> double \<Rightarrow> option_block)
     \<Rightarrow> u32 \<Rightarrow> (option_block list \<times> u32) option" where
  "get_limits cenv lims long_opt double_opt long_block double_block options =
     (case (if options AND long_opt \<noteq> 0
            then (case lims of
                    Some (u, l) \<Rightarrow> (case (dcast cenv DBF_LONG u, dcast cenv DBF_LONG l) of
                        (Some u, Some l) \<Rightarrow> Some ([long_block u l], options) | _ \<Rightarrow> None)
                  | None \<Rightarrow> Some ([long_block 0 0], options XOR long_opt))
            else Some ([], options)) of
        None \<Rightarrow> None
      | Some (blocks, options) \<Rightarrow>
          if options AND double_opt \<noteq> 0
          then (case lims of
                  Some (u, l) \<Rightarrow> Some (blocks @ [double_block u l], options)
                | None \<Rightarrow> Some (blocks @ [double_block (Fin 0) (Fin 0)], options XOR double_opt))
          else Some (blocks, options))"

definition get_graphics :: "('a, 'w) db_env \<Rightarrow> db_addr \<Rightarrow> u32 \<Rightarrow> 'a dbCommon_scheme \<Rightarrow> (option_block list \<times> u32) option" where
  "get_graphics env paddr options precord =
     get_limits (conv env) (map_option (\<lambda>f. f paddr precord) (Option.bind (prset env) graphic_of))
       DBR_GR_LONG DBR_GR_DOUBLE Gr_long Gr_double options"

definition get_control :: "('a, 'w) db_env \<Rightarrow> db_addr \<Rightarrow> u32 \<Rightarrow> 'a dbCommon_scheme \<Rightarrow> (option_block list \<times> u32) option" where
  "get_control env paddr options precord =
     get_limits (conv env) (map_option (\<lambda>f. f paddr precord) (Option.bind (prset env) control_of))
       DBR_CTRL_LONG DBR_CTRL_DOUBLE Ctrl_long Ctrl_double options"

definition al_int :: "conv_env \<Rightarrow> double \<Rightarrow> int option" where
  "al_int cenv d = (if dfinite d then dcast cenv DBF_LONG d else Some 0)"

text \<open>\<open>get_alarm\<close> advances the caller's pointer \<open>*ppbuffer\<close> over each block but writes both blocks through the
  pointer \<open>pbuffer\<close> it started with: where both options are on, the block of doubles is written over the block of
  integers, and as many bytes as the latter has stay unwritten at the end.\<close>

definition get_alarm :: "('a, 'w) db_env \<Rightarrow> db_addr \<Rightarrow> u32 \<Rightarrow> 'a dbCommon_scheme \<Rightarrow> (option_block list \<times> u32) option" where
  "get_alarm env paddr options precord =
     (let (no_data, a, b, c, d) = (case Option.bind (prset env) alarm_of of
            Some f \<Rightarrow> f paddr precord | None \<Rightarrow> (1, NaN, NaN, NaN, NaN))
      in case (if options AND DBR_AL_LONG \<noteq> 0
               then (case (al_int (conv env) a, al_int (conv env) b, al_int (conv env) c, al_int (conv env) d) of
                       (Some a, Some b, Some c, Some d) \<Rightarrow>
                         Some ([Al_long a b c d], if no_data \<noteq> 0 then options XOR DBR_AL_LONG else options)
                     | _ \<Rightarrow> None)
               else Some ([], options)) of
           None \<Rightarrow> None
         | Some (blocks, options) \<Rightarrow>
             if options AND DBR_AL_DOUBLE \<noteq> 0
             then Some (Al_double a b c d # map (\<lambda>block. Unset (block_size block)) blocks,
                        if no_data \<noteq> 0 then options XOR DBR_AL_DOUBLE else options)
             else Some (blocks, options))"

text \<open>One option after the other: each step adds blocks and may turn options off.\<close>

definition opt_step ::
  "u32 \<Rightarrow> (u32 \<Rightarrow> (option_block list \<times> u32) option) \<Rightarrow> (option_block list \<times> u32) option \<Rightarrow> (option_block list \<times> u32) option" where
  "opt_step opts f r = (case r of None \<Rightarrow> None
     | Some (blocks, options) \<Rightarrow>
         if options AND opts \<noteq> 0 then map_option (\<lambda>(bs, options). (blocks @ bs, options)) (f options)
         else Some (blocks, options))"

definition from_record :: "db_field_log option \<Rightarrow> bool" where
  "from_record pfl = (case pfl of None \<Rightarrow> True | Some l \<Rightarrow> pfl_rec l)"

definition getOptions :: "('a, 'w) db_env \<Rightarrow> db_addr \<Rightarrow> u32 \<Rightarrow> db_field_log option \<Rightarrow> 'a dbCommon_scheme \<Rightarrow> (option_block list \<times> u32) option" where
  "getOptions env paddr options pfl precord =
     (let ft = (if from_record pfl then field_type paddr else pfl_type (the pfl));
          r = Some ([], options);
          r = opt_step DBR_STATUS (\<lambda>options. Some ([if from_record pfl
                then Status (stat precord) (sevr precord) (acks precord) (ackt precord)
                else Status (pfl_stat (the pfl)) (pfl_sevr (the pfl)) (acks precord) (ackt precord)], options)) r;
          r = opt_step DBR_UNITS (\<lambda>options. case Option.bind (prset env) units_of of
                Some f \<Rightarrow> Some ([Units (take (DB_UNITS_SIZE - 1) (f paddr precord))], options)
              | None \<Rightarrow> Some ([Units []], options XOR DBR_UNITS)) r;
          r = opt_step DBR_PRECISION (\<lambda>options. case Option.bind (prset env) precision_of of
                Some f \<Rightarrow> if ft = DBF_FLOAT \<or> ft = DBF_DOUBLE then Some ([Precision (f paddr precord)], options)
                          else Some ([Precision 0], options XOR DBR_PRECISION)
              | None \<Rightarrow> Some ([Precision 0], options XOR DBR_PRECISION)) r;
          r = opt_step DBR_TIME (\<lambda>options. Some ([Time (if from_record pfl then rtime precord else pfl_time (the pfl))], options)) r;
          r = opt_step DBR_ENUM_STRS (\<lambda>options. get_enum_strs env paddr options precord) r;
          r = opt_step (DBR_GR_LONG OR DBR_GR_DOUBLE) (\<lambda>options. get_graphics env paddr options precord) r;
          r = opt_step (DBR_CTRL_LONG OR DBR_CTRL_DOUBLE) (\<lambda>options. get_control env paddr options precord) r
      in opt_step (DBR_AL_LONG OR DBR_AL_DOUBLE) (\<lambda>options. get_alarm env paddr options precord) r)"

text \<open>The text of a link or of an attribute: at most \<open>maxlen - 1\<close> characters, terminated. A client asking for
  characters is told the length with the NUL. Without room for the NUL the behaviour is undefined.\<close>

definition text_value :: "int \<Rightarrow> string \<Rightarrow> int option \<Rightarrow> (int \<times> int option \<times> dbbuf option) option" where
  "text_value dbrType s nRequest =
     (if dbrType = dbf_code DBF_STRING then Some (0, map_option (\<lambda>_. 1) nRequest, Some (Strings [take (MAX_STRING_SIZE - 1) s]))
      else let n = (case nRequest of Some n \<Rightarrow> n | None \<Rightarrow> 1); maxlen = nat n; s = take (maxlen - 1) s
           in if n \<le> 0 then None
              else Some (0, map_option (\<lambda>_. int (length s) + 1) nRequest,
                         Some (Chars (map of_char s @ replicate (maxlen - length s) 0))))"

definition getLinkValue ::
  "('a, 'w) db_env \<Rightarrow> db_addr \<Rightarrow> int \<Rightarrow> int option \<Rightarrow> 'a dbCommon_scheme \<Rightarrow> (int \<times> int option \<times> dbbuf option) option" where
  "getLinkValue env paddr dbrType nRequest precord =
     (if nRequest = Some 0 then Some (0, nRequest, None)
      else if dbrType = dbf_code DBF_DOUBLE then Some (0, map_option (\<lambda>_. 1) nRequest, Some (Doubles [NaN]))
      else if dbrType \<in> {dbf_code DBF_STRING, dbf_code DBF_CHAR, dbf_code DBF_UCHAR}
        then case link_text env paddr precord of (status, s) \<Rightarrow>
               if status \<noteq> 0 then Some (status, nRequest, None) else text_value dbrType s nRequest
      else Some (S_db_badDbrtype, nRequest, None))"

definition getAttrValue ::
  "('a, 'w) db_env \<Rightarrow> db_addr \<Rightarrow> int \<Rightarrow> int option \<Rightarrow> (int \<times> int option \<times> dbbuf option) option" where
  "getAttrValue env paddr dbrType nRequest = (case attr_text env paddr of
     None \<Rightarrow> Some (S_db_badField, nRequest, None)
   | Some s \<Rightarrow>
       if dbrType \<in> {dbf_code DBF_STRING, dbf_code DBF_CHAR, dbf_code DBF_UCHAR} then text_value dbrType s nRequest
       else Some (S_db_badDbrtype, nRequest, None))"

text \<open>A string field read as characters ends with a NUL, and the client is told its length.\<close>

definition end_long_string :: "int \<Rightarrow> dbbuf \<Rightarrow> (int \<times> dbbuf) option" where
  "end_long_string nReq v = (case v of
     Chars cs \<Rightarrow> if 1 \<le> nReq \<and> nReq \<le> int (length cs)
       then let cs = cs[nat (nReq - 1) := 0] in Some (int (length (takeWhile (\<lambda>c. c \<noteq> 0) cs)) + 1, Chars cs)
       else None
   | _ \<Rightarrow> None)"

text \<open>The values: status, the number of elements told to the client, and what is written to its buffer.\<close>

definition get_value ::
  "('a, 'w) db_env \<Rightarrow> db_addr \<Rightarrow> int \<Rightarrow> int option \<Rightarrow> db_field_log option \<Rightarrow> 'a dbCommon_scheme
     \<Rightarrow> (int \<times> int option \<times> dbbuf option) option" where
  "get_value env paddr dbrType nRequest pfl precord =
     (let isrec = from_record pfl;
          ft = (if isrec then field_type paddr else pfl_type (the pfl));
          capacity = (if isrec then addr_elements paddr else pfl_elements (the pfl));
          mem = (if isrec then pfield env paddr precord else pfl_field (the pfl));
          addr = (if isrec then paddr
                  else paddr\<lparr>field_type := ft, addr_size := pfl_size (the pfl), addr_elements := capacity\<rparr>)
      in if isrec \<and> pfldDes paddr = None then None
         else
      let (status, no_elements, offset) =
            (case (isrec \<and> fld_special (the (pfldDes paddr)) = SPC_DBADDR, Option.bind (prset env) array_info) of
               (True, Some f) \<Rightarrow> f paddr precord
             | _ \<Rightarrow> (0, capacity, 0));
          dbr = dbf_types ! nat dbrType
      in if dbf_code DBF_INLINK \<le> dbf_code ft \<and> dbf_code ft \<le> dbf_code DBF_FWDLINK
           then getLinkValue env paddr dbrType nRequest precord
         else if special_type paddr = SPC_ATTRIBUTE then getAttrValue env paddr dbrType nRequest
         else if INVALID_DB_REQ dbrType \<or> dbf_code DBF_DEVICE < dbf_code ft
           then Some (S_db_badDbrtype, nRequest, None)
         else if offset = 0 \<and> (nRequest = None \<or> no_elements = 1)
           then case dbFastGetConvertRoutine (string_fast_get env) ft dbr of None \<Rightarrow> None
                | Some convert \<Rightarrow>
                    map_option (\<lambda>(status, v). (status, map_option (\<lambda>_. 1) nRequest, Some v)) (convert (conv env) (Some addr) mem)
         else
           let nRequest = map_option (\<lambda>n. if no_elements < n then no_elements else n) nRequest;
               n = (case nRequest of Some n \<Rightarrow> n | None \<Rightarrow> 1)
           in case dbGetConvertRoutine (string_get env) ft dbr of
                None \<Rightarrow> Some (S_db_badDbrtype, nRequest, None)
              | Some convert \<Rightarrow>
                  (case (if n \<le> 0 then Some (status, None)
                         else map_option (\<lambda>(status, v). (status, Some v)) (convert (conv env) addr mem n capacity offset)) of
                     None \<Rightarrow> None
                   | Some (status, v) \<Rightarrow>
                       if status = 0 \<and> dbr = DBF_CHAR \<and> nRequest \<noteq> None \<and> is_string_field paddr
                       then (case v of None \<Rightarrow> None
                             | Some v \<Rightarrow> map_option (\<lambda>(nReq, v). (0, Some nReq, Some v)) (end_long_string n v))
                       else Some (status, nRequest, v)))"

text \<open>A read: status, options served, number of elements, the blocks of the options, the values.\<close>

definition dbGet ::
  "('a, 'w) db_env \<Rightarrow> db_addr \<Rightarrow> int \<Rightarrow> u32 option \<Rightarrow> int option \<Rightarrow> db_field_log option \<Rightarrow> 'a dbCommon_scheme
     \<Rightarrow> (int \<times> u32 option \<times> int option \<times> option_block list \<times> dbbuf option) option" where
  "dbGet env paddr dbrType options nRequest pfl precord =
     (case (case options of
              Some ops \<Rightarrow> if ops \<noteq> 0 then map_option (\<lambda>(bs, ops). (bs, Some ops)) (getOptions env paddr ops pfl precord)
                         else Some ([], options)
            | None \<Rightarrow> Some ([], None)) of
        None \<Rightarrow> None
      | Some (blocks, options) \<Rightarrow>
          if nRequest = Some 0 then Some (0, options, nRequest, blocks, None)
          else map_option (\<lambda>(status, nRequest, v). (status, options, nRequest, blocks, v))
                 (get_value env paddr dbrType nRequest pfl precord))"

end
