(* ===== verification/DbAccessLaws.thy ===== *)
theory DbAccessLaws
  imports DbAccess AiRecord
begin

text \<open>
  What reading and writing fields guarantees: the memory of a field as an interface, the effect of a write on
  the field, the monitors and the processing of the record, reading back, and the size of a reply.
\<close>

section \<open>The size of a reply\<close>

lemma and_power_bit: "x AND 2 ^ k \<noteq> 0 \<longleftrightarrow> bit x k" for x :: u32
  by (simp add: and_exp_eq_0_iff_not_bit)

lemma opt_bits:
  "x AND 1 \<noteq> 0 \<longleftrightarrow> bit x 0" "x AND 2 \<noteq> 0 \<longleftrightarrow> bit x 1" "x AND 4 \<noteq> 0 \<longleftrightarrow> bit x 2" "x AND 8 \<noteq> 0 \<longleftrightarrow> bit x 3"
  "x AND 16 \<noteq> 0 \<longleftrightarrow> bit x 4" "x AND 32 \<noteq> 0 \<longleftrightarrow> bit x 5" "x AND 64 \<noteq> 0 \<longleftrightarrow> bit x 6" "x AND 128 \<noteq> 0 \<longleftrightarrow> bit x 7"
  "x AND 256 \<noteq> 0 \<longleftrightarrow> bit x 8" "x AND 512 \<noteq> 0 \<longleftrightarrow> bit x 9" "x AND 1024 \<noteq> 0 \<longleftrightarrow> bit x 10"
  for x :: u32
  using and_power_bit [of x 0] and_power_bit [of x 1] and_power_bit [of x 2] and_power_bit [of x 3] and_power_bit [of x 4]
    and_power_bit [of x 5] and_power_bit [of x 6] and_power_bit [of x 7] and_power_bit [of x 8] and_power_bit [of x 9]
    and_power_bit [of x 10] by simp_all

abbreviation opt_size :: "u32 \<Rightarrow> nat" where
  "opt_size options \<equiv> dbBufferSize 0 options 0"

lemma opt_size_or: "x AND y = 0 \<Longrightarrow> opt_size (x OR y) = opt_size x + opt_size y"
proof -
  assume "x AND y = 0"
  then have "\<not> (bit x k \<and> bit y k)" for k by (metis bit_0_eq bit_and_iff bot_apply bot_bool_def)
  then show ?thesis unfolding dbBufferSize_def opt_bits by (auto simp: bit_or_iff)
qed

definition total :: "option_block list \<Rightarrow> nat" where
  "total bs = sum_list (map block_size bs)"

lemma total_simps [simp]: "total [] = 0" "total (b # bs) = block_size b + total bs" "total (xs @ ys) = total xs + total ys"
  by (simp_all add: total_def)

text \<open>A step serves the options \<open>opts\<close>: it adds the blocks of those that are on and turns off at most those.\<close>

definition serves :: "u32 \<Rightarrow> (u32 \<Rightarrow> (option_block list \<times> u32) option) \<Rightarrow> bool" where
  "serves opts f \<longleftrightarrow> (\<forall>x bs y. x AND opts \<noteq> 0 \<longrightarrow> f x = Some (bs, y) \<longrightarrow> total bs = opt_size (x AND opts) \<and>
     (\<forall>k. bit y k \<longrightarrow> bit x k) \<and> (\<forall>k. \<not> bit opts k \<longrightarrow> bit y k = bit x k))"

definition served :: "u32 \<Rightarrow> u32 \<Rightarrow> (option_block list \<times> u32) option \<Rightarrow> bool" where
  "served opts x r \<longleftrightarrow> (\<forall>bs y. r = Some (bs, y) \<longrightarrow> total bs = opt_size (x AND opts) \<and>
     (\<forall>k. bit y k \<longrightarrow> bit x k) \<and> (\<forall>k. \<not> bit opts k \<longrightarrow> bit y k = bit x k))"

lemma served_step:
  assumes r: "served done x r" and f: "serves opts f" and d: "done AND opts = 0"
  shows "served (done OR opts) x (opt_step opts f r)"
  unfolding served_def
proof (intro allI impI)
  fix bs y assume *: "opt_step opts f r = Some (bs, y)"
  then obtain bs0 z where z: "r = Some (bs0, z)" by (cases r) (auto simp: opt_step_def)
  have z2: "total bs0 = opt_size (x AND done)" "\<And>k. bit z k \<Longrightarrow> bit x k" "\<And>k. \<not> bit done k \<Longrightarrow> bit z k = bit x k"
    using r z by (auto simp: served_def)
  have dis: "\<not> (bit done k \<and> bit opts k)" for k using d by (metis bit_0_eq bit_and_iff bot_apply bot_bool_def)
  have zo: "z AND opts = x AND opts" using z2(3) dis by (intro bit_word_eqI) (auto simp: bit_and_iff)
  have sum: "opt_size (x AND (done OR opts)) = opt_size (x AND done) + opt_size (x AND opts)"
  proof -
    have "(x AND done) AND (x AND opts) = 0" using dis by (intro bit_word_eqI) (auto simp: bit_and_iff)
    moreover have "x AND (done OR opts) = (x AND done) OR (x AND opts)" by (simp add: bit.conj_disj_distrib)
    ultimately show ?thesis using opt_size_or by metis
  qed
  show "total bs = opt_size (x AND (done OR opts)) \<and> (\<forall>k. bit y k \<longrightarrow> bit x k)
      \<and> (\<forall>k. \<not> bit (done OR opts) k \<longrightarrow> bit y k = bit x k)"
  proof (cases "z AND opts = 0")
    case True
    then have "bs = bs0" "y = z" using * z by (auto simp: opt_step_def)
    moreover have "opt_size (x AND opts) = 0" using True zo by (simp add: dbBufferSize_def)
    ultimately show ?thesis using z2 sum by (auto simp: bit_or_iff)
  next
    case False
    then obtain bs1 where "f z = Some (bs1, y)" "bs = bs0 @ bs1" using * z by (auto simp: opt_step_def)
    with f have y: "total bs1 = opt_size (z AND opts)" "\<And>k. bit y k \<Longrightarrow> bit z k" "\<And>k. \<not> bit opts k \<Longrightarrow> bit y k = bit z k"
      using False unfolding serves_def by blast+
    have "total bs = opt_size (x AND (done OR opts))" using z2(1) y(1) sum unfolding zo \<open>bs = bs0 @ bs1\<close> by simp
    moreover have "bit x k" if "bit y k" for k using z2(2) y(2) that by blast
    moreover have "bit y k = bit x k" if "\<not> bit (done OR opts) k" for k
    proof -
      have "\<not> bit opts k" "\<not> bit done k" using that by (simp_all add: bit_or_iff)
      then show ?thesis using y(3) [of k] z2(3) [of k] by simp
    qed
    ultimately show ?thesis by blast
  qed
qed

lemma servesI: "(\<And>x. served opts x (f x)) \<Longrightarrow> serves opts f"
  by (auto simp: serves_def served_def)

lemma served_start: "served 0 x (Some ([], x))"
  by (simp add: served_def dbBufferSize_def)

lemma serves_bit:
  assumes m: "m = 2 ^ k" and f: "\<And>x bs y. f x = Some (bs, y) \<Longrightarrow> total bs = opt_size m \<and> (y = x \<or> y = x XOR m)"
  shows "serves m f"
  unfolding serves_def
proof (intro allI impI)
  fix x bs y assume x: "x AND m \<noteq> 0" and y: "f x = Some (bs, y)"
  have b: "bit x k" using x unfolding m and_power_bit .
  have xm: "x AND m = m" unfolding m using b by (intro bit_word_eqI) (auto simp: bit_and_iff bit_exp_iff)
  have "bit (x XOR m) j = (bit x j \<and> j \<noteq> k)" if "j < 32" for j
    using b that by (auto simp: m bit_xor_iff bit_exp_iff)
  moreover have "bit m j = (j = k \<and> j < 32)" for j by (auto simp: m bit_exp_iff)
  moreover have "\<not> bit w j" if "\<not> j < 32" for w :: u32 and j using that bit_imp_le_length [of w j] by auto
  ultimately show "total bs = opt_size (x AND m) \<and> (\<forall>j. bit y j \<longrightarrow> bit x j) \<and> (\<forall>j. \<not> bit m j \<longrightarrow> bit y j = bit x j)"
    unfolding xm using f [OF y] by metis
qed

lemma get_limits_steps:
  "get_limits cenv lims long_opt double_opt long_block double_block options =
     opt_step double_opt (\<lambda>options. case lims of
         Some (u, l) \<Rightarrow> Some ([double_block u l], options)
       | None \<Rightarrow> Some ([double_block (Fin 0) (Fin 0)], options XOR double_opt))
     (opt_step long_opt (\<lambda>options. case lims of
         Some (u, l) \<Rightarrow> (case (dcast cenv DBF_LONG u, dcast cenv DBF_LONG l) of
             (Some u, Some l) \<Rightarrow> Some ([long_block u l], options) | _ \<Rightarrow> None)
       | None \<Rightarrow> Some ([long_block 0 0], options XOR long_opt))
     (Some ([], options)))"
  by (auto simp: get_limits_def opt_step_def split: option.splits prod.splits)

lemma serves_limits:
  assumes m: "a = 2 ^ i" "b = 2 ^ j" "a AND b = 0"
    and s: "\<And>u l. block_size (la u l) = opt_size a" "\<And>u l. block_size (lb u l) = opt_size b"
  shows "serves (a OR b) (get_limits cenv lims a b la lb)"
proof (rule servesI)
  fix x
  have "served (0 OR a) x (opt_step a (\<lambda>options. case lims of
         Some (u, l) \<Rightarrow> (case (dcast cenv DBF_LONG u, dcast cenv DBF_LONG l) of
             (Some u, Some l) \<Rightarrow> Some ([la u l], options) | _ \<Rightarrow> None)
       | None \<Rightarrow> Some ([la 0 0], options XOR a)) (Some ([], x)))"
    by (rule served_step [OF served_start serves_bit [OF m(1)]]) (auto simp: s split: option.splits prod.splits)
  then have "served ((0 OR a) OR b) x (get_limits cenv lims a b la lb x)"
    unfolding get_limits_steps
    by (rule served_step [OF _ serves_bit [OF m(2)]]) (auto simp: s m(3) split: option.splits)
  then show "served (a OR b) x (get_limits cenv lims a b la lb x)" by simp
qed

text \<open>The alarm blocks have the sizes of two blocks, one after the other.\<close>

lemma serves_alarm: "serves (DBR_AL_LONG OR DBR_AL_DOUBLE) (\<lambda>options. get_alarm env paddr options precord)"
proof (rule servesI)
  fix x
  obtain n a b c d where l: "(case Option.bind (prset env) alarm_of of
            Some f \<Rightarrow> f paddr precord | None \<Rightarrow> (1, NaN, NaN, NaN, NaN)) = (n, a, b, c, d)" by (metis prod.exhaust)
  define long where "long = opt_step DBR_AL_LONG (\<lambda>options. case (al_int (conv env) a, al_int (conv env) b, al_int (conv env) c, al_int (conv env) d) of
            (Some a, Some b, Some c, Some d) \<Rightarrow> Some ([Al_long a b c d], if n \<noteq> 0 then options XOR DBR_AL_LONG else options)
          | _ \<Rightarrow> None) (Some ([], x))"
  define both where "both = opt_step DBR_AL_DOUBLE (\<lambda>options. Some ([Al_double a b c d], if n \<noteq> 0 then options XOR DBR_AL_DOUBLE else options)) long"
  have "served (0 OR DBR_AL_LONG) x long" unfolding long_def
    by (rule served_step [OF served_start serves_bit [where k = 9]]) (auto simp: dbBufferSize_def split: option.splits if_splits)
  then have b: "served ((0 OR DBR_AL_LONG) OR DBR_AL_DOUBLE) x both" unfolding both_def
    by (rule served_step [OF _ serves_bit [where k = 10]]) (auto simp: dbBufferSize_def)
  have "rel_option (rel_prod (\<lambda>bs bs'. total bs = total bs') (=)) both (get_alarm env paddr x precord)"
    by (auto simp: both_def long_def get_alarm_def l opt_step_def split: option.splits)
  then have "served ((0 OR DBR_AL_LONG) OR DBR_AL_DOUBLE) x (get_alarm env paddr x precord)"
    using b by (cases both; cases "get_alarm env paddr x precord") (auto simp: served_def)
  then show "served (DBR_AL_LONG OR DBR_AL_DOUBLE) x (get_alarm env paddr x precord)" by simp
qed

lemma serves_enum_strs: "serves DBR_ENUM_STRS (\<lambda>options. get_enum_strs env paddr options precord)"
  by (rule serves_bit [where k = 4]) (auto simp: get_enum_strs_def dbBufferSize_def split: dbf_type.splits option.splits)

text \<open>The alarm blocks come last.\<close>

lemma alarm_last:
  "\<exists>r. served 0x1FF options r \<and>
     getOptions env paddr options pfl precord = opt_step (DBR_AL_LONG OR DBR_AL_DOUBLE) (\<lambda>x. get_alarm env paddr x precord) r"
proof -
  define s where "s = (\<lambda>x :: u32. Some ([if from_record pfl
                then Status (stat precord) (sevr precord) (acks precord) (ackt precord)
                else Status (pfl_stat (the pfl)) (pfl_sevr (the pfl)) (acks precord) (ackt precord)], x))"
  define u where "u = (\<lambda>x :: u32. case Option.bind (prset env) units_of of
                Some f \<Rightarrow> Some ([Units (take (DB_UNITS_SIZE - 1) (f paddr precord))], x)
              | None \<Rightarrow> Some ([Units []], x XOR DBR_UNITS))"
  define p where "p = (\<lambda>x :: u32. case Option.bind (prset env) precision_of of
                Some f \<Rightarrow> if (if from_record pfl then field_type paddr else pfl_type (the pfl)) = DBF_FLOAT \<or>
                             (if from_record pfl then field_type paddr else pfl_type (the pfl)) = DBF_DOUBLE
                          then Some ([Precision (f paddr precord)], x)
                          else Some ([Precision 0], x XOR DBR_PRECISION)
              | None \<Rightarrow> Some ([Precision 0], x XOR DBR_PRECISION))"
  define t where "t = (\<lambda>x :: u32. Some ([Time (if from_record pfl then rtime precord else pfl_time (the pfl))], x))"
  define g where "g = (\<lambda>x. get_graphics env paddr x precord)"
  define c where "c = (\<lambda>x. get_control env paddr x precord)"
  have "serves 1 s"
    by (rule serves_bit [where k = 0]) (auto simp: s_def dbBufferSize_def split: if_splits)
  note s1 = served_step [OF served_start this, of options]
  have "serves 2 u"
    by (rule serves_bit [where k = 1]) (auto simp: u_def dbBufferSize_def split: option.splits)
  note s2 = served_step [OF s1 this]
  have "serves 4 p"
    by (rule serves_bit [where k = 2]) (auto simp: p_def dbBufferSize_def split: option.splits if_splits)
  note s3 = served_step [OF s2 this]
  have "serves 8 t"
    by (rule serves_bit [where k = 3]) (auto simp: t_def dbBufferSize_def)
  note s4 = served_step [OF s3 this]
  note s5 = served_step [OF s4 serves_enum_strs [of env paddr precord]]
  have "serves (DBR_GR_LONG OR DBR_GR_DOUBLE) g" unfolding g_def get_graphics_def
    by (rule serves_limits [where i = 5 and j = 6]) (simp_all add: dbBufferSize_def)
  note s6 = served_step [OF s5 this]
  have "serves (DBR_CTRL_LONG OR DBR_CTRL_DOUBLE) c" unfolding c_def get_control_def
    by (rule serves_limits [where i = 7 and j = 8]) (simp_all add: dbBufferSize_def)
  note s7 = served_step [OF s6 this]
  have "getOptions env paddr options pfl precord =
      opt_step (DBR_AL_LONG OR DBR_AL_DOUBLE) (\<lambda>x. get_alarm env paddr x precord)
      (opt_step (DBR_CTRL_LONG OR DBR_CTRL_DOUBLE) c (opt_step (DBR_GR_LONG OR DBR_GR_DOUBLE) g
      (opt_step DBR_ENUM_STRS (\<lambda>x. get_enum_strs env paddr x precord)
      (opt_step 8 t (opt_step 4 p (opt_step 2 u (opt_step 1 s (Some ([], options)))))))))"
    by (simp only: getOptions_def Let_def s_def u_def p_def t_def g_def c_def)
  then show ?thesis using s7 by (intro exI conjI) simp_all
qed

lemma served_options:
  "served 0x7FF options (getOptions env paddr options pfl precord)"
proof -
  obtain r where "served 0x1FF options r"
    "getOptions env paddr options pfl precord = opt_step (DBR_AL_LONG OR DBR_AL_DOUBLE) (\<lambda>x. get_alarm env paddr x precord) r"
    using alarm_last by blast
  then show ?thesis using served_step [OF _ serves_alarm [of env paddr precord], of "0x1FF" options r] by simp
qed

lemma options_fit:
  assumes "getOptions env paddr options pfl precord = Some (blocks, options')" "options AND 0x7FF = options"
  shows "total blocks = opt_size options" "options' AND options = options'"
proof -
  note s = served_options [of options env paddr pfl precord, unfolded served_def, rule_format, OF assms(1)]
  show "options' AND options = options'" using s by (intro bit_word_eqI) (auto simp: bit_and_iff)
  show "total blocks = opt_size options" using s assms(2) by simp
qed

text \<open>C25: A client that asks for the alarm limits both as integers and as doubles gets neither the integers nor a
  reply it can read: both options are reported as served, but the doubles stand where the integers belong, and the
  16 bytes after them are left unwritten.\<close>

theorem alarm_blocks_overlap:
  assumes get: "dbGet env paddr dbrType (Some options) nRequest pfl precord = Some (status, options', n, blocks, v)"
    and both: "options AND DBR_AL_LONG \<noteq> 0" "options AND DBR_AL_DOUBLE \<noteq> 0"
    and sup: "prset env = Some rset" "alarm_of rset = Some f" "f paddr precord = (0, a, b, c, d)"
  shows "\<exists>pre ops. blocks = pre @ [Al_double a b c d, Unset 16] \<and> options' = Some ops \<and>
    ops AND DBR_AL_LONG \<noteq> 0 \<and> ops AND DBR_AL_DOUBLE \<noteq> 0"
proof -
  have "options \<noteq> 0" using both by auto
  then obtain ops where g: "getOptions env paddr options pfl precord = Some (blocks, ops)" "options' = Some ops"
    using get by (auto simp: dbGet_def split: option.splits if_splits)
  obtain r where r: "served 0x1FF options r"
    "getOptions env paddr options pfl precord = opt_step (DBR_AL_LONG OR DBR_AL_DOUBLE) (\<lambda>x. get_alarm env paddr x precord) r"
    using alarm_last by blast
  then obtain pre z where z: "r = Some (pre, z)" using g(1) by (cases r) (auto simp: opt_step_def)
  have "bit z k = bit options k" if "\<not> bit (0x1FF :: u32) k" for k using r(1) that by (auto simp: z served_def)
  from this [of 9] this [of 10] have zb: "z AND DBR_AL_LONG \<noteq> 0" "z AND DBR_AL_DOUBLE \<noteq> 0"
    using both unfolding opt_bits by (simp_all add: bit_numeral_rec)
  have "z AND (DBR_AL_LONG OR DBR_AL_DOUBLE) \<noteq> 0"
  proof
    assume "z AND (DBR_AL_LONG OR DBR_AL_DOUBLE) = 0"
    then have "bit (z AND 0x600) 9 = False" by simp
    then show False using zb(1) unfolding opt_bits by (simp add: bit_and_iff bit_numeral_rec)
  qed
  then obtain bs where bs: "get_alarm env paddr z precord = Some (bs, ops)" "blocks = pre @ bs"
    using r(2) g(1) by (cases "get_alarm env paddr z precord") (auto simp: z opt_step_def)
  then have "bs = [Al_double a b c d, Unset 16]" "ops = z"
    using sup zb by (auto simp: get_alarm_def split: option.splits)
  then show ?thesis using bs(2) g(2) zb by blast
qed

section \<open>The memory of a field\<close>

text \<open>
  What \<open>dbPut\<close> relies on: the memory of the field holds what was written to it, and is apart from the
  bookkeeping of the record.
\<close>

locale field_memory =
  fixes env :: "('a, 'w) db_env" and paddr :: db_addr
  assumes get_set: "buf_type b = buf_type (pfield env paddr p) \<Longrightarrow>
      length (dbnums (conv env) b) = length (dbnums (conv env) (pfield env paddr p)) \<Longrightarrow>
      pfield env paddr (set_pfield env paddr b p) = b"
    and set_keeps: "posts (set_pfield env paddr b p) = posts p" "udf (set_pfield env paddr b p) = udf p"
      "pact (set_pfield env paddr b p) = pact p" "monitored env (set_pfield env paddr b p) = monitored env p"
    and apart: "pfield env paddr (p\<lparr>posts := x\<rparr>) = pfield env paddr p" "pfield env paddr (p\<lparr>udf := y\<rparr>) = pfield env paddr p"
      "pfield env paddr (p\<lparr>rpro := y\<rparr>) = pfield env paddr p" "pfield env paddr (p\<lparr>putf := y\<rparr>) = pfield env paddr p"
      "monitored env (p\<lparr>posts := x\<rparr>) = monitored env p" "monitored env (p\<lparr>udf := y\<rparr>) = monitored env p"
    and scan_apart: "scan_of env (set_pfield env paddr b p) = scan_of env p" "scan_of env (p\<lparr>posts := x\<rparr>) = scan_of env p"
      "scan_of env (p\<lparr>udf := y\<rparr>) = scan_of env p"

text \<open>A numeric field without special processing, and a request that its memory and the client's buffer hold.\<close>

definition put_count :: "db_addr \<Rightarrow> int \<Rightarrow> int" where
  "put_count paddr n = (if addr_elements paddr \<le> 1 then 1 else min (addr_elements paddr) n)"

definition plain_put :: "('a, 'w) db_env \<Rightarrow> db_addr \<Rightarrow> dbFldDes \<Rightarrow> dbf_type \<Rightarrow> dbbuf \<Rightarrow> int \<Rightarrow> 'a dbCommon_scheme \<Rightarrow> bool" where
  "plain_put env paddr d s buf n p \<longleftrightarrow>
     pfldDes paddr = Some d \<and> fld_special d \<noteq> SPC_DBADDR \<and> special_type paddr = 0
     \<and> s \<in> numeric_types \<and> store_type (field_type paddr) \<in> numeric_types
     \<and> buf_type buf = s \<and> buf_type (pfield env paddr p) = store_type (field_type paddr)
     \<and> 1 \<le> addr_elements paddr \<and> int (length (dbnums (conv env) (pfield env paddr p))) = addr_elements paddr
     \<and> 0 \<le> put_count paddr n \<and> put_count paddr n \<le> int (length (dbnums (conv env) buf))"

lemma plain_putD:
  assumes "plain_put env paddr d s buf n p"
  shows "s \<in> numeric_types" "store_type (field_type paddr) \<in> numeric_types" "buf_type buf = s"
    "buf_type (pfield env paddr p) = store_type (field_type paddr)"
    "1 \<le> addr_elements paddr" "int (length (dbnums (conv env) (pfield env paddr p))) = addr_elements paddr"
    "length (dbnums (conv env) (pfield env paddr p)) = nat (addr_elements paddr)"
    "0 \<le> put_count paddr n" "put_count paddr n \<le> int (length (dbnums (conv env) buf))"
    "special_type paddr = 0" "pfldDes paddr = Some d" "fld_special d \<noteq> SPC_DBADDR"
  using assms unfolding plain_put_def by (blast, blast, blast, blast, blast, blast, metis nat_int, blast+)

definition put_nums :: "('a, 'w) db_env \<Rightarrow> db_addr \<Rightarrow> dbf_type \<Rightarrow> dbbuf \<Rightarrow> int \<Rightarrow> num list option" where
  "put_nums env paddr s buf n = those (map (num_conv (conv env) s (store_type (field_type paddr)))
     (take (nat (put_count paddr n)) (dbnums (conv env) buf)))"

lemma numeric_put_routine:
  "s \<in> numeric_types \<Longrightarrow> store_type t \<in> numeric_types \<Longrightarrow> \<exists>r. dbPutConvertRoutine sp s t = Some r"
  by (cases t) (auto simp: dbPutConvertRoutine_def put_row_Char_def put_row_Uchar_def put_row_Short_def put_row_Ushort_def
      put_row_Long_def put_row_Ulong_def put_row_Float_def put_row_Double_def put_row_Enum_def store_type_def)

lemma numeric_fast_put:
  "s \<in> numeric_types \<Longrightarrow> store_type t \<in> numeric_types \<Longrightarrow> \<exists>r. dbFastPutConvertRoutine sp s t = Some r"
  by (cases t) (auto simp: dbFastPutConvertRoutine_def fast_row_Char_def fast_row_Uchar_def fast_row_Short_def fast_row_Ushort_def
      fast_row_Long_def fast_row_Ulong_def fast_row_Float_def fast_row_Double_def fast_row_Enum_def store_type_def Let_def)

lemma numeric_get_routine:
  "s \<in> numeric_types \<Longrightarrow> store_type t \<in> numeric_types \<Longrightarrow> \<exists>r. dbGetConvertRoutine sp t s = Some r"
  by (cases t) (auto simp: dbGetConvertRoutine_def get_row_Char_def get_row_Uchar_def get_row_Short_def get_row_Ushort_def
      get_row_Long_def get_row_Ulong_def get_row_Float_def get_row_Double_def get_row_Enum_def store_type_def)

lemma numeric_fast_get:
  "s \<in> numeric_types \<Longrightarrow> store_type t \<in> numeric_types \<Longrightarrow> \<exists>r. dbFastGetConvertRoutine sp t s = Some r"
  by (cases t) (auto simp: dbFastGetConvertRoutine_def fast_row_Char_def fast_row_Uchar_def fast_row_Short_def fast_row_Ushort_def
      fast_row_Long_def fast_row_Ulong_def fast_row_Float_def fast_row_Double_def fast_row_Enum_def store_type_def Let_def)

lemma type_code: "dbf_types ! nat (dbf_code t) = t" "0 \<le> dbf_code t"
  by (cases t; simp add: dbf_types_def)+

lemma numeric_code: "s \<in> numeric_types \<Longrightarrow> dbf_code s \<le> DBR_ENUM" "store_type t \<in> numeric_types \<Longrightarrow> dbf_code t \<le> dbf_code DBF_DEVICE"
  by (auto simp: store_type_def split: if_splits)

lemma set_first_nums:
  assumes "buf_type v = buf_type b" "dbnums cenv v = [x]" "length (dbnums cenv b) = 1"
  shows "dbnums cenv (set_first b v) = [x]" "buf_type (set_first b v) = buf_type b"
proof -
  have "dbnums cenv (set_first b v) = [x] \<and> buf_type (set_first b v) = buf_type b"
    using assms by (cases b; cases v) (auto simp: set_first_def length_Suc_conv)
  then show "dbnums cenv (set_first b v) = [x]" "buf_type (set_first b v) = buf_type b" by auto
qed

lemma put_value_plain:
  assumes P: "plain_put env paddr d s buf n p" and v: "put_nums env paddr s buf n = Some vs"
  shows "\<exists>b. put_value env paddr s buf n 0 p = Some (0, put_count paddr n, set_pfield env paddr b p)
    \<and> buf_type b = buf_type (pfield env paddr p)
    \<and> dbnums (conv env) b = put_window (dbnums (conv env) (pfield env paddr p)) vs (addr_elements paddr) 0"
proof (cases "addr_elements paddr \<le> 1")
  case True
  let ?mem = "pfield env paddr p"
  have one: "addr_elements paddr = 1" "length (dbnums (conv env) ?mem) = 1" "dbnums (conv env) buf \<noteq> []"
    using P True by (auto simp: plain_put_def put_count_def)
  then obtain x where x: "vs = [x]" "num_conv (conv env) s (store_type (field_type paddr)) (hd (dbnums (conv env) buf)) = Some x"
    using v True by (cases "dbnums (conv env) buf") (auto simp: put_nums_def put_count_def split: option.splits)
  obtain r where r: "dbFastPutConvertRoutine (string_fast_put env) s (field_type paddr) = Some r"
    using numeric_fast_put P unfolding plain_put_def by metis
  have "buf_nums (conv env) (r (conv env) (Some paddr) buf) = Some (0, store_type (field_type paddr), [x])"
    using fast_put_nums [OF r] P one(3) x(2) by (auto simp: plain_put_def num_result_def)
  then obtain w where w: "r (conv env) (Some paddr) buf = Some (0, w)" "buf_type w = store_type (field_type paddr)" "dbnums (conv env) w = [x]"
    by (auto simp: buf_nums_def)
  have b: "dbnums (conv env) (set_first ?mem w) = [x]" "buf_type (set_first ?mem w) = buf_type ?mem"
    using set_first_nums [of w ?mem "conv env" x] w one(2) P by (auto simp: plain_put_def)
  have "put_value env paddr s buf n 0 p = Some (0, put_count paddr n, set_pfield env paddr (set_first ?mem w) p)"
    using r w one by (simp add: put_value_def put_count_def)
  moreover have "put_window (dbnums (conv env) ?mem) vs (addr_elements paddr) 0 = [x]"
    using one x by (auto simp: put_window_def length_Suc_conv)
  ultimately show ?thesis using b by (intro exI [of _ "set_first ?mem w"]) simp
next
  case False
  let ?mem = "pfield env paddr p" and ?n = "put_count paddr n"
  have n: "?n = (if addr_elements paddr < n then addr_elements paddr else n)" using False by (auto simp: put_count_def)
  obtain r where r: "dbPutConvertRoutine (string_put env) s (field_type paddr) = Some r"
    using numeric_put_routine P unfolding plain_put_def by metis
  have "in_array (dbnums (conv env) ?mem) ?n (addr_elements paddr) 0"
    using P False by (auto simp: plain_put_def in_array_def put_count_def)
  then have "buf_nums (conv env) (r (conv env) paddr ?mem buf ?n (addr_elements paddr) 0) =
      Some (0, store_type (field_type paddr), put_window (dbnums (conv env) ?mem) vs (addr_elements paddr) 0)"
    using put_routine_nums [OF r, of buf ?mem "conv env" ?n "addr_elements paddr" 0 paddr] P v
    by (simp add: plain_put_def put_nums_def)
  then obtain b where "r (conv env) paddr ?mem buf ?n (addr_elements paddr) 0 = Some (0, b)" "buf_type b = store_type (field_type paddr)"
      "dbnums (conv env) b = put_window (dbnums (conv env) ?mem) vs (addr_elements paddr) 0"
    by (auto simp: buf_nums_def)
  then show ?thesis using r False P n by (intro exI [of _ b]) (simp add: put_value_def Let_def plain_put_def)
qed

lemma dbPut_plain:
  assumes P: "plain_put env paddr d s buf n p" and v: "put_nums env paddr s buf n = Some vs"
  shows "\<exists>b. dbPut env paddr (dbf_code s) buf n p w = Some (0, put_events env paddr d (set_pfield env paddr b p), w)
    \<and> buf_type b = buf_type (pfield env paddr p)
    \<and> dbnums (conv env) b = put_window (dbnums (conv env) (pfield env paddr p)) vs (addr_elements paddr) 0"
proof -
  obtain b where b: "put_value env paddr s buf n 0 p = Some (0, put_count paddr n, set_pfield env paddr b p)"
      "buf_type b = buf_type (pfield env paddr p)"
      "dbnums (conv env) b = put_window (dbnums (conv env) (pfield env paddr p)) vs (addr_elements paddr) 0"
    using put_value_plain [OF P v] by blast
  have c: "dbf_code s \<le> DBR_ENUM" "0 \<le> dbf_code s" "dbf_code (field_type paddr) \<le> dbf_code DBF_DEVICE"
    using P type_code(2) [of s] unfolding plain_put_def by (blast intro: numeric_code)+
  have "dbPut env paddr (dbf_code s) buf n p w = Some (0, put_events env paddr d (set_pfield env paddr b p), w)"
    using P b(1) c by (simp add: dbPut_def plain_put_def INVALID_DB_REQ_def type_code(1))
  then show ?thesis using b by blast
qed

context field_memory
begin

lemma put_reads_back:
  "buf_type b = buf_type (pfield env paddr p) \<Longrightarrow> length (dbnums (conv env) b) = length (dbnums (conv env) (pfield env paddr p))
    \<Longrightarrow> pfield env paddr (put_events env paddr d (set_pfield env paddr b p)) = b"
  using get_set by (simp add: put_events_def Let_def db_post_events_def apart)

lemma put_events_fields:
  "posts (put_events env paddr d (set_pfield env paddr b p)) = posts p
     @ (if monitored env p \<and> \<not> (dbIsValueField d \<and> process_passive d) then [(field paddr, DBE_VALUE OR DBE_LOG)] else [])
     @ (if monitored env p \<and> fld_prop d then [([], DBE_PROPERTY)] else [])"
  "udf (put_events env paddr d (set_pfield env paddr b p)) = (if dbIsValueField d then 0 else udf p)"
  "pact (put_events env paddr d (set_pfield env paddr b p)) = pact p"
  "scan_of env (put_events env paddr d (set_pfield env paddr b p)) = scan_of env p"
  by (simp_all add: put_events_def Let_def db_post_events_def apart set_keeps scan_apart)

lemma put_plain:
  assumes P: "plain_put env paddr d s buf n p" and v: "put_nums env paddr s buf n = Some vs"
  shows "\<exists>b. dbPut env paddr (dbf_code s) buf n p w = Some (0, put_events env paddr d (set_pfield env paddr b p), w)
    \<and> pfield env paddr (put_events env paddr d (set_pfield env paddr b p)) = b
    \<and> buf_type b = store_type (field_type paddr)
    \<and> dbnums (conv env) b = put_window (dbnums (conv env) (pfield env paddr p)) vs (addr_elements paddr) 0
    \<and> length (dbnums (conv env) b) = nat (addr_elements paddr)"
proof -
  obtain b where b: "dbPut env paddr (dbf_code s) buf n p w = Some (0, put_events env paddr d (set_pfield env paddr b p), w)"
      "buf_type b = buf_type (pfield env paddr p)"
      "dbnums (conv env) b = put_window (dbnums (conv env) (pfield env paddr p)) vs (addr_elements paddr) 0"
    using dbPut_plain [OF P v] by blast
  have ia: "in_array (dbnums (conv env) (pfield env paddr p)) (put_count paddr n) (addr_elements paddr) 0"
    using P by (auto simp: plain_put_def in_array_def put_count_def)
  have "put_count paddr n \<le> int (length (dbnums (conv env) buf))" using P by (simp add: plain_put_def)
  then have "length vs = nat (put_count paddr n)"
    using those_length [OF v [unfolded put_nums_def]] by (auto simp: min_def nat_le_iff)
  then have l: "length (dbnums (conv env) b) = length (dbnums (conv env) (pfield env paddr p))"
    unfolding b(3) using put_window_length [OF ia] by simp
  moreover have "pfield env paddr (put_events env paddr d (set_pfield env paddr b p)) = b"
    using put_reads_back [OF b(2) l] .
  moreover have "buf_type b = store_type (field_type paddr)" using b(2) P by (simp add: plain_put_def)
  moreover have "length (dbnums (conv env) b) = nat (addr_elements paddr)" using l plain_putD(7) [OF P] by simp
  ultimately show ?thesis using b by blast
qed

end

text \<open>Writing a numeric field succeeds and does this: the client's values, converted to the type of the
  field, replace its first elements and the others stay; the value field is no longer undefined; monitors are
  told, except of the value field of a record that the write is going to process; a field that holds a
  property of the record posts a property event. Nothing else of the record's bookkeeping changes.\<close>

theorem dbPut_numeric_field:
  assumes "field_memory env paddr" "plain_put env paddr d s buf n p" "put_nums env paddr s buf n = Some vs"
  shows "\<exists>p'. dbPut env paddr (dbf_code s) buf n p w = Some (0, p', w)
    \<and> dbnums (conv env) (pfield env paddr p') = put_window (dbnums (conv env) (pfield env paddr p)) vs (addr_elements paddr) 0
    \<and> posts p' = posts p
        @ (if monitored env p \<and> \<not> (dbIsValueField d \<and> process_passive d) then [(field paddr, DBE_VALUE OR DBE_LOG)] else [])
        @ (if monitored env p \<and> fld_prop d then [([], DBE_PROPERTY)] else [])
    \<and> udf p' = (if dbIsValueField d then 0 else udf p) \<and> pact p' = pact p"
proof -
  obtain b where "dbPut env paddr (dbf_code s) buf n p w = Some (0, put_events env paddr d (set_pfield env paddr b p), w)"
      "pfield env paddr (put_events env paddr d (set_pfield env paddr b p)) = b"
      "dbnums (conv env) b = put_window (dbnums (conv env) (pfield env paddr p)) vs (addr_elements paddr) 0"
    using field_memory.put_plain [OF assms, of w] by blast
  then show ?thesis using field_memory.put_events_fields [OF assms(1)]
    by (intro exI [of _ "put_events env paddr d (set_pfield env paddr b p)"]) simp
qed

lemma widening_values:
  assumes w: "widens env s (store_type t)" and b: "buf_type buf = s"
  shows "\<exists>ws. those (map (num_conv env s (store_type t)) (take k (dbnums env buf))) = Some ws \<and>
    those (map (num_conv env t s) ws) = Some (take k (dbnums env buf))"
proof (rule those_exists, rule ballI)
  fix v assume v: "v \<in> set (take k (dbnums env buf))"
  have s: "s \<in> numeric_types - {DBF_FLOAT, DBF_DOUBLE}" using w unfolding widens_def by blast
  obtain i where i: "v = Whole i" "fst (int_range env s) \<le> i" "i \<le> snd (int_range env s)"
    using dbnums_range [OF in_set_takeD [OF v]] s unfolding b by blast
  have "num_conv env t s = num_conv env (store_type t) s"
    by (simp add: num_conv_def store_type_def fun_eq_iff split: num.splits)
  then show "\<exists>y. num_conv env s (store_type t) v = Some y \<and> num_conv env t s y = Some v"
    using widens_back [OF w i] by simp
qed

text \<open>A value that is written can be read back: if the type of the field represents every value of the
  client's type, \<open>dbGet\<close> after \<open>dbPut\<close>, with the same type, returns as many of the client's values as the
  field has room for, whether the field is a scalar or an array.\<close>

theorem dbPut_then_dbGet:
  assumes F: "field_memory env paddr" and P: "plain_put env paddr d s buf n p" and n: "0 < n"
    and w: "widens (conv env) s (store_type (field_type paddr))" and str: "fld_type d \<noteq> DBF_STRING"
  shows "\<exists>p' b. dbPut env paddr (dbf_code s) buf n p world = Some (0, p', world)
    \<and> dbGet env paddr (dbf_code s) None (Some (put_count paddr n)) None p' = Some (0, None, Some (put_count paddr n), [], Some b)
    \<and> buf_type b = s \<and> dbnums (conv env) b = take (nat (put_count paddr n)) (dbnums (conv env) buf)"
proof -
  let ?t = "store_type (field_type paddr)" and ?m = "put_count paddr n" and ?e = "conv env"
  note pl = plain_putD [OF P]
  let ?vs = "take (nat ?m) (dbnums ?e buf)"
  obtain ws where ws: "put_nums env paddr s buf n = Some ws" "those (map (num_conv ?e (field_type paddr) s) ws) = Some ?vs"
    using widening_values [OF w pl(3)] unfolding put_nums_def by blast
  obtain p' b where p': "dbPut env paddr (dbf_code s) buf n p world = Some (0, p', world)" "pfield env paddr p' = b"
      "buf_type b = ?t" "dbnums ?e b = put_window (dbnums ?e (pfield env paddr p)) ws (addr_elements paddr) 0"
      "length (dbnums ?e b) = nat (addr_elements paddr)"
    using field_memory.put_plain [OF F P ws(1)] by blast
  have l: "length ws = nat ?m"
    using those_length [OF ws(1) [unfolded put_nums_def]] pl(9) by (auto simp: min_def nat_le_iff)
  have m: "0 < ?m" "?m \<le> addr_elements paddr" using n pl(5) by (auto simp: put_count_def)
  have old: "in_array (dbnums ?e (pfield env paddr p)) ?m (addr_elements paddr) 0"
    and new: "in_array (dbnums ?e b) ?m (addr_elements paddr) 0"
    using pl(5,6) m p'(5) by (simp_all add: in_array_def)
  have win: "window (dbnums ?e b) ?m (addr_elements paddr) 0 = ws" unfolding p'(4) by (rule window_put [OF old l])
  have code: "dbf_code s \<le> DBR_ENUM" "dbf_code (field_type paddr) \<le> dbf_code DBF_DEVICE"
    using numeric_code pl(1,2) by metis+
  have nstr: "\<not> is_string_field paddr" using str pl(11) by (simp add: is_string_field_def)
  have "\<exists>v. get_value env paddr (dbf_code s) (Some ?m) None p' = Some (0, Some ?m, Some v) \<and> buf_nums ?e (Some (0, v)) = Some (0, s, ?vs)"
  proof (cases "addr_elements paddr = 1")
    case True
    then have "?m = 1" using m by simp
    then obtain x where x: "ws = [x]" using l by (auto simp: length_Suc_conv)
    have bx: "dbnums ?e b = [x]" using win window_one [OF new [unfolded \<open>?m = 1\<close>]] p'(5) True x \<open>?m = 1\<close>
      by (cases "dbnums ?e b") auto
    obtain r where r: "dbFastGetConvertRoutine (string_fast_get env) (field_type paddr) s = Some r"
      using numeric_fast_get pl(1,2) by metis
    have "buf_nums ?e (r ?e (Some paddr) b) = Some (0, s, ?vs)"
      using fast_get_nums [OF r pl(1,2) p'(3), of ?e "Some paddr"] ws(2) by (auto simp: bx x num_result_def split: option.splits)
    then obtain v where "r ?e (Some paddr) b = Some (0, v)" "buf_nums ?e (Some (0, v)) = Some (0, s, ?vs)"
      by (auto simp: buf_nums_def)
    then show ?thesis using r pl code True p'(2) \<open>?m = 1\<close> type_code(2) [of s]
      by (simp add: get_value_def from_record_def Let_def INVALID_DB_REQ_def type_code(1))
  next
    case False
    obtain r where r: "dbGetConvertRoutine (string_get env) (field_type paddr) s = Some r"
      using numeric_get_routine pl(1,2) by metis
    have "buf_nums ?e (r ?e paddr b ?m (addr_elements paddr) 0) = Some (0, s, ?vs)"
      using get_routine_nums [OF r pl(1,2) p'(3) nstr new] ws(2) by (simp add: win)
    then obtain v where "r ?e paddr b ?m (addr_elements paddr) 0 = Some (0, v)" "buf_nums ?e (Some (0, v)) = Some (0, s, ?vs)"
      by (auto simp: buf_nums_def)
    then show ?thesis using r pl code False m p'(2) nstr type_code(2) [of s]
      by (simp add: get_value_def from_record_def Let_def INVALID_DB_REQ_def type_code(1))
  qed
  then obtain v where v: "get_value env paddr (dbf_code s) (Some ?m) None p' = Some (0, Some ?m, Some v)"
      "buf_type v = s" "dbnums ?e v = ?vs"
    by (auto simp: buf_nums_def)
  have "dbGet env paddr (dbf_code s) None (Some ?m) None p' = Some (0, None, Some ?m, [], Some v)"
    using v(1) m(1) by (simp add: dbGet_def)
  then show ?thesis using p'(1) v(2,3) by blast
qed

text \<open>C23: A write from outside is processed exactly once. With writes disabled nothing happens. Otherwise the
  field gets the values; if the field is PROC, or processes passive records and the record is passive, the
  record is processed with the new values, unless it is active: then the record remembers to process again,
  and the end of the active processing queues it. In all other cases nothing is processed.\<close>

theorem dbPutField_processes_once:
  assumes F: "field_memory env paddr" and P: "plain_put env paddr d s buf n p" and v: "put_nums env paddr s buf n = Some vs"
  shows "if disp_of env p \<noteq> 0 \<and> field paddr \<noteq> ''DISP''
    then dbPutField env renv process paddr (dbf_code s) buf n p w = Some (S_db_putDisabled, p, w)
    else \<exists>p'. dbnums (conv env) (pfield env paddr p') = put_window (dbnums (conv env) (pfield env paddr p)) vs (addr_elements paddr) 0
      \<and> pact p' = pact p \<and>
      dbPutField env renv process paddr (dbf_code s) buf n p w =
        (if field paddr = ''PROC'' \<or> process_passive d \<and> scan_of env p = 0
         then if pact p \<noteq> 0 then Some (0, p', w) else Some (dbProcess renv process p' w)
         else Some (0, p', w))
      \<and> ((field paddr = ''PROC'' \<or> process_passive d \<and> scan_of env p = 0) \<and> pact p \<noteq> 0 \<longrightarrow>
          (\<exists>w'. snd (recGblFwdLink renv p' w) = scan_once renv (rec_name p') w'))"
proof (cases "disp_of env p \<noteq> 0 \<and> field paddr \<noteq> ''DISP''")
  case True
  then show ?thesis using plain_putD(10) [OF P] by (auto simp: dbPutField_def)
next
  case False
  note pl = plain_putD [OF P]
  obtain b where b: "dbPut env paddr (dbf_code s) buf n p w = Some (0, put_events env paddr d (set_pfield env paddr b p), w)"
      "pfield env paddr (put_events env paddr d (set_pfield env paddr b p)) = b"
      "dbnums (conv env) b = put_window (dbnums (conv env) (pfield env paddr p)) vs (addr_elements paddr) 0"
    using field_memory.put_plain [OF F P v, of w] by blast
  let ?q = "put_events env paddr d (set_pfield env paddr b p)"
  have q: "pact ?q = pact p" "scan_of env ?q = scan_of env p"
    using field_memory.put_events_fields [OF F] by simp_all
  have mem: "pfield env paddr (?q\<lparr>rpro := 1\<rparr>) = b" "pfield env paddr (?q\<lparr>putf := 1\<rparr>) = b"
    using b(2) F by (simp_all add: field_memory_def)
  have code: "dbf_code s < DBR_PUT_ACKT" "dbf_code (field_type paddr) < dbf_code DBF_INLINK"
    using numeric_code(1) [OF pl(1)] numeric_code(2) [OF pl(2)] by simp_all
  define go where "go \<longleftrightarrow> field paddr = ''PROC'' \<or> process_passive d \<and> scan_of env p = 0"
  let ?p' = "if go then (if pact p \<noteq> 0 then ?q\<lparr>rpro := 1\<rparr> else ?q\<lparr>putf := 1\<rparr>) else ?q"
  have "dbPutField env renv process paddr (dbf_code s) buf n p w =
      (if go then if pact p \<noteq> 0 then Some (0, ?p', w) else Some (dbProcess renv process ?p' w) else Some (0, ?p', w))"
  proof -
    have c: "(field paddr = ''PROC'' \<or> process_passive d \<and> scan_of env ?q = 0 \<and> dbf_code s < DBR_PUT_ACKT) = go"
      using code(1) unfolding go_def q(2) by blast
    have l: "\<not> (dbf_code DBF_INLINK \<le> dbf_code (field_type paddr) \<and> dbf_code (field_type paddr) \<le> dbf_code DBF_FWDLINK)"
      using code(2) by linarith
    show ?thesis unfolding dbPutField_def pl(10,11) b(1) option.case prod.case c q(1) if_not_P [OF False] if_not_P [OF l]
      by simp
  qed
  moreover have "pfield env paddr ?p' = b" "pact ?p' = pact p" using mem b(2) q by simp_all
  moreover have "\<exists>w'. snd (recGblFwdLink renv (?q\<lparr>rpro := 1\<rparr>) w) = scan_once renv (rec_name (?q\<lparr>rpro := 1\<rparr>)) w'"
    by (auto simp: recGblFwdLink_def Let_def)
  ultimately show ?thesis using b(3) unfolding go_def [symmetric] if_not_P [OF False] by (intro exI [of _ ?p']) auto
qed

text \<open>An error of the record support after the write is lost: when the record's \<open>special\<close> routine
  refuses the new value, \<open>dbPut\<close> still returns 0, without telling the monitors, and \<open>dbPutField\<close> goes on to
  process the record as after a successful write.\<close>

theorem dbPut_hides_special_error:
  assumes s: "special_type paddr \<ge> 100" "Option.bind (prset env) rset_special = Some f"
    and a: "0 \<le> dbrType" "dbrType \<le> DBR_ENUM" "dbf_code (field_type paddr) \<le> dbf_code DBF_DEVICE"
    and d: "pfldDes paddr = Some d" "fld_special d \<noteq> SPC_DBADDR"
    and before: "f paddr 0 p w = (0, p0, w0)"
    and put: "put_value env paddr (dbf_types ! nat dbrType) buf n 0 p0 = Some (0, k, p1)"
    and after: "f paddr 1 p1 w0 = (e, p2, w2)" "e \<noteq> 0"
  shows "dbPut env paddr dbrType buf n p w = Some (0, p2, w2)"
proof -
  have "dbPutSpecial env paddr 0 p w = (0, p0, w0)" "dbPutSpecial env paddr 1 p1 w0 = (e, p2, w2)"
    using s before after by (simp_all add: dbPutSpecial_def Let_def)
  then show ?thesis using s(1) a d put after(2) by (simp add: dbPut_def INVALID_DB_REQ_def)
qed

section \<open>The value of an analog input\<close>

text \<open>The environment of an ai record: its record support table (\<open>special\<close>, \<open>get_units\<close> and so on of
  aiRecord.c), and its value field as the memory of a \<open>DBF_DOUBLE\<close> field.\<close>

definition ai_rset :: "bool \<Rightarrow> 'w ai_dset \<Rightarrow> (unit aiRecord_ext, 'w) rset" where
  "ai_rset sgnd dset = \<lparr>
     rset_special = Some (\<lambda>a pass p w. ai_special dset (dbAddr.truncate a) (int pass) p w),
     array_info = None, put_array = None,
     units_of = Some (\<lambda>a p. takeWhile (\<lambda>c. c \<noteq> CHR 0x00)
       (ai_get_units (dbAddr.truncate a) p (replicate DB_UNITS_SIZE (CHR 0x00)))),
     precision_of = Some (\<lambda>a p. ai_get_precision (dbAddr.truncate a) p),
     enum_strs_of = None,
     graphic_of = Some (\<lambda>a p. ai_get_graphic_double sgnd (dbAddr.truncate a) p (Fin 0, Fin 0)),
     control_of = Some (\<lambda>a p. ai_get_control_double sgnd (dbAddr.truncate a) p (Fin 0, Fin 0)),
     alarm_of = Some (\<lambda>a p. (0, ai_get_alarm_double (dbAddr.truncate a) p))\<rparr>"

text \<open>\<open>scan\<close>, \<open>disp\<close> and \<open>mon\<close>: the fields SCAN and DISP, and whether there are monitors.\<close>

definition ai_env :: "'w ai_dset \<Rightarrow> enum16 \<Rightarrow> u8 \<Rightarrow> bool \<Rightarrow> (unit aiRecord_ext, 'w) db_env" where
  "ai_env dset scan disp mon = \<lparr>
     conv = conv_env0,
     pfield = \<lambda>a p. if field a = ''LINR'' then Enums [ai_linr p] else Doubles [ai_val p],
     set_pfield = \<lambda>a b p. (case b of Doubles (v # _) \<Rightarrow> p\<lparr>ai_val := v\<rparr> | Enums (v # _) \<Rightarrow> p\<lparr>ai_linr := v\<rparr> | _ \<Rightarrow> p),
     prset = Some (ai_rset False dset),
     scan_of = \<lambda>_. scan, disp_of = \<lambda>_. disp, monitored = \<lambda>_. mon,
     scan_delete = \<lambda>_ w. w, scan_add = \<lambda>_ w. w, as_callback = None, menu_of = \<lambda>_. None,
     link_text = \<lambda>_ _. (0, []), attr_text = \<lambda>_. None, put_link = \<lambda>_ _ _ _ _ _. None,
     string_get = no_strings, string_put = no_string_puts, string_fast_get = no_fast_strings, string_fast_put = no_fast_strings\<rparr>"

definition ai_val_des :: dbFldDes where
  "ai_val_des = \<lparr>fld_name = ''VAL'', fld_type = DBF_DOUBLE, fld_special = 0, process_passive = True, fld_prop = False\<rparr>"

definition ai_val_addr :: db_addr where
  "ai_val_addr = \<lparr>field = ''VAL'', field_type = DBF_DOUBLE, special_type = 0, pfldDes = Some ai_val_des,
     addr_elements = 1, addr_size = 8\<rparr>"

interpretation ai_value: field_memory "ai_env dset scan disp mon" ai_val_addr
proof (unfold_locales, goal_cases)
  case (1 b p)
  then have "buf_type b = DBF_DOUBLE" "length (dbnums conv_env0 b) = 1" by (simp_all add: ai_env_def ai_val_addr_def)
  then show ?case by (cases b) (auto simp: ai_env_def ai_val_addr_def length_Suc_conv)
qed (auto simp: ai_env_def split: dbbuf.splits list.splits)

lemma ai_plain_put:
  "buf_type buf \<in> numeric_types \<Longrightarrow> dbnums conv_env0 buf \<noteq> [] \<Longrightarrow>
    plain_put (ai_env dset scan disp mon) ai_val_addr ai_val_des (buf_type buf) buf n p"
  by (cases "dbnums conv_env0 buf")
    (auto simp: plain_put_def ai_env_def ai_val_addr_def ai_val_des_def store_type_def put_count_def)

lemma ai_put_nums: "put_nums (ai_env dset scan disp mon) ai_val_addr DBF_LONG (Longs [7]) 1 = Some [Dbl (Fin 7)]"
  using dint_exact [of 7]
  by (simp add: put_nums_def ai_env_def ai_val_addr_def put_count_def store_type_def num_conv_def)

lemma ai_field: "field_memory (ai_env dset scan disp mon) ai_val_addr"
  by (rule ai_value.field_memory_axioms)

section \<open>Examples\<close>

text \<open>A device support whose linear conversion refuses after the write, and the field LINR.\<close>

definition refusing_dset :: "'w ai_dset" where
  "refusing_dset = \<lparr>ai_number = 6, ai_dev_init_record = None, read_ai = None,
     special_linconv = Some (\<lambda>r after w. (if after = 1 then 1 else 0, r, w))\<rparr>"

definition ai_linr_addr :: db_addr where
  "ai_linr_addr = \<lparr>field = ''LINR'', field_type = DBF_MENU, special_type = SPC_LINCONV,
     pfldDes = Some \<lparr>fld_name = ''LINR'', fld_type = DBF_MENU, fld_special = SPC_LINCONV, process_passive = True, fld_prop = False\<rparr>,
     addr_elements = 1, addr_size = 2\<rparr>"

abbreviation (input) linear_env :: "(unit aiRecord_ext, nat) db_env" where
  "linear_env \<equiv> ai_env refusing_dset 0 0 True"

lemma opt_step_Some: "opt_step opts f (Some (bs, x)) =
    (if x AND opts \<noteq> 0 then map_option (\<lambda>(cs, y). (bs @ cs, y)) (f x) else Some (bs, x))"
  by (simp add: opt_step_def)

theorem alarm_blocks_overlap_witness:
  "\<exists>pre. dbGet linear_env ai_val_addr 8 (Some 0x600) (Some 0) None ai0 =
     Some (0, Some 0x600, Some 0, pre @ [Al_double (Fin 90) (Fin 80) (Fin 20) (Fin 10), Unset 16], None)"
proof -
  have al: "ai_get_alarm_double (dbAddr.truncate ai_val_addr) ai0 = (Fin 90, Fin 80, Fin 20, Fin 10)"
    by (simp add: ai_get_alarm_double_def ai_val_addr_def dbAddr.truncate_def ai0_simps)
  have "dcast conv_env0 DBF_LONG (Fin 90) = Some 90" "dcast conv_env0 DBF_LONG (Fin 80) = Some 80"
      "dcast conv_env0 DBF_LONG (Fin 20) = Some 20" "dcast conv_env0 DBF_LONG (Fin 10) = Some 10"
    by (simp_all add: dcast_def int_range_def trunc_rat_def)
  then have "\<exists>bs. getOptions linear_env ai_val_addr 0x600 None ai0 = Some (bs, 0x600)"
    unfolding getOptions_def Let_def
    by (simp add: opt_step_Some from_record_def ai_env_def ai_rset_def get_alarm_def al al_int_def Let_def)
  then obtain bs where "getOptions linear_env ai_val_addr 0x600 None ai0 = Some (bs, 0x600)" by blast
  then have g: "dbGet linear_env ai_val_addr 8 (Some 0x600) (Some 0) None ai0 = Some (0, Some 0x600, Some 0, bs, None)"
    by (simp add: dbGet_def)
  show ?thesis
    using alarm_blocks_overlap [OF g _ _ _ _ , of "ai_rset False refusing_dset"] g al
    by (auto simp: ai_env_def ai_rset_def)
qed

theorem dbPut_numeric_field_witness:
  "\<exists>p'. dbPut linear_env ai_val_addr 5 (Longs [7]) 1 ai0 0 = Some (0, p', 0)
    \<and> pfield linear_env ai_val_addr p' = Doubles [Fin 7] \<and> posts p' = posts ai0"
proof -
  have P: "plain_put linear_env ai_val_addr ai_val_des DBF_LONG (Longs [7]) 1 ai0"
    using ai_plain_put [of "Longs [7]" refusing_dset 0 0 True 1 ai0] by simp
  show ?thesis using dbPut_numeric_field [OF ai_field P ai_put_nums, of 0]
    by (auto simp: ai_env_def ai_val_addr_def ai_val_des_def put_window_def dbIsValueField_def)
qed

theorem dbPut_then_dbGet_witness:
  "\<exists>p' b. dbPut linear_env ai_val_addr 5 (Longs [7]) 1 ai0 0 = Some (0, p', 0)
    \<and> dbGet linear_env ai_val_addr 5 None (Some 1) None p' = Some (0, None, Some 1, [], Some b)
    \<and> dbnums conv_env0 b = [Whole 7]"
proof -
  have P: "plain_put linear_env ai_val_addr ai_val_des DBF_LONG (Longs [7]) 1 ai0"
    using ai_plain_put [of "Longs [7]" refusing_dset 0 0 True 1 ai0] by simp
  show ?thesis using dbPut_then_dbGet [OF ai_field P, of 0]
    by (auto simp: ai_env_def ai_val_addr_def ai_val_des_def put_count_def widens_def store_type_def)
qed

theorem dbPutField_processes_once_witness:
  "\<exists>p'. pfield linear_env ai_val_addr p' = Doubles [Fin 7] \<and>
     dbPutField linear_env env0 None ai_val_addr 5 (Longs [7]) 1 ai0 0 = Some (dbProcess env0 None p' 0)"
proof -
  have P: "plain_put linear_env ai_val_addr ai_val_des DBF_LONG (Longs [7]) 1 ai0"
    using ai_plain_put [of "Longs [7]" refusing_dset 0 0 True 1 ai0] by simp
  show ?thesis using dbPutField_processes_once [OF ai_field P ai_put_nums, of env0 None 0]
    by (auto simp: ai_env_def ai_val_addr_def ai_val_des_def put_window_def ai0_simps)
qed

theorem dbPut_hides_special_error_witness:
  "\<exists>p1 p2. ai_special refusing_dset (dbAddr.truncate ai_linr_addr) 1 p1 (0 :: nat) = (1, p2, 0) \<and> ai_linr p1 = 2
    \<and> dbPut linear_env ai_linr_addr 9 (Enums [2]) 1 ai0 0 = Some (0, p2, 0)"
proof -
  let ?f = "\<lambda>a pass p w. ai_special refusing_dset (dbAddr.truncate a) (int pass) p (w :: nat)"
  let ?p0 = "ai0\<lparr>ai_init := True\<rparr>"
  let ?p1 = "?p0\<lparr>ai_linr := 2\<rparr>"
  have f: "Option.bind (prset linear_env) rset_special = Some ?f" by (simp add: ai_env_def ai_rset_def)
  have t: "special_type (dbAddr.truncate ai_linr_addr) = SPC_LINCONV" by (simp add: ai_linr_addr_def dbAddr.truncate_def)
  have before: "?f ai_linr_addr 0 ai0 0 = (0, ?p0, 0)"
    by (simp add: ai_special_def t refusing_dset_def ai0_simps)
  have put: "put_value linear_env ai_linr_addr (dbf_types ! nat 9) (Enums [2]) 1 0 ?p0 = Some (0, 1, ?p1)"
    by (simp add: put_value_def ai_env_def ai_linr_addr_def dbf_types_def dbFastPutConvertRoutine_def fast_row_Enum_def
        fast_entry_def cvt_e_e_def set_first_def)
  obtain p2 where after: "?f ai_linr_addr 1 ?p1 0 = (1, p2, 0)"
    by (simp add: ai_special_def t refusing_dset_def Let_def)
  have "dbPut linear_env ai_linr_addr 9 (Enums [2]) 1 ai0 0 = Some (0, p2, 0)"
    by (rule dbPut_hides_special_error [OF _ f _ _ _ _ _ before put after]) (simp add: ai_linr_addr_def)+
  with after show ?thesis by - (rule exI [of _ ?p1], rule exI [of _ p2], simp)
qed

end
