(* ===== verification/DbTextLaws.thy ===== *)
theory DbTextLaws
  imports DbText DbRoundTrip DbAccessLaws
begin

text \<open>
  What the conversions between numbers and strings guarantee: integers survive the way through a string, and
  the room a text needs.
\<close>

section \<open>Scanning what was printed\<close>

lemma scan_dec_digits:
  assumes "ds \<noteq> []" "\<forall>c \<in> set ds. is_digit c"
  shows "scan_dec ds = Some (int (read_nat ds), [])" "scan_dec (CHR ''-'' # ds) = Some (- int (read_nat ds), [])"
proof -
  obtain d es where ds: "ds = d # es" using assms(1) by (cases ds) auto
  then have d: "is_digit d" "takeWhile is_digit es = es" "dropWhile is_digit es = []" using assms(2) by simp_all
  then have "skip_space (d # es) = d # es" "d \<noteq> CHR ''-''" "d \<noteq> CHR ''+''" "\<not> isspace CHR ''-''"
    using digit_not_space [of d] digit_not_sign [of d] by (simp_all add: skip_space_def isspace_def)
  moreover from this have "skip_space (CHR ''-'' # d # es) = CHR ''-'' # d # es" by (simp add: skip_space_def)
  ultimately show "scan_dec ds = Some (int (read_nat ds), [])" "scan_dec (CHR ''-'' # ds) = Some (- int (read_nat ds), [])"
    unfolding ds scan_dec_def Let_def by (simp_all add: d)
qed

lemma scan_show_int: "scan_dec (show_int i) = Some (i, [])"
  using scan_dec_digits [OF show_nat_nonempty show_nat_digits] by (simp add: show_int_def read_show_nat)

lemma sscanf_show_int:
  "- (2 ^ (w - 1)) \<le> i \<Longrightarrow> i < 2 ^ (w - 1) \<Longrightarrow> sscanf_signed w (show_int i) = Some (Some i)"
  "0 \<le> i \<Longrightarrow> i < 2 ^ w \<Longrightarrow> sscanf_unsigned w (show_int i) = Some (Some i)"
  by (simp_all add: sscanf_signed_def sscanf_unsigned_def scan_show_int)

lemma skip_show_nat: "skip_space (show_nat n) = show_nat n"
proof -
  obtain d ds where "show_nat n = d # ds" using show_nat_nonempty [of n] by (cases "show_nat n") auto
  then show ?thesis using show_nat_digits [of n] digit_not_space [of d] by (simp add: skip_space_def)
qed

text \<open>\<open>strtod\<close> reads an integer exactly: what the C standard says of a decimal number that a double holds.\<close>

definition reads_integers :: "text_env \<Rightarrow> bool" where
  "reads_integers tenv \<longleftrightarrow> (\<forall>n < 2 ^ 32. strtod tenv (show_nat n) = (length (show_nat n), Fin (of_nat n), False))"

lemma ulong_show_int:
  assumes "reads_integers tenv" "0 \<le> i" "i < 2 ^ 32"
  shows "ulong_text tenv env (show_int i) = Some (Some (word_of_int i))"
proof -
  obtain n where i: "i = int n" using assms(2) by (rule nonneg_int_cases)
  then have n: "n < 2 ^ 32" using assms(3) by simp
  then have "strtod tenv (show_nat n) = (length (show_nat n), Fin (of_nat n), False)"
    using assms(1) by (simp add: reads_integers_def)
  then have "epicsScanDouble tenv (show_int i) = Some (Fin (of_nat n))"
    by (simp add: i epicsScanDouble_def show_int_def skip_show_nat Let_def show_nat_nonempty) (simp add: skip_space_def)
  moreover have "dcast env DBF_ULONG (Fin (of_nat n)) = Some i"
    using n by (simp add: i dcast_def trunc_rat_def int_range_def)
  ultimately show ?thesis by (simp add: ulong_text_def dcast_word_def)
qed

lemma ulong_show: "reads_integers tenv \<Longrightarrow> ulong_text tenv env (show_int (uint x)) = Some (Some x)"
  using ulong_show_int [of tenv "uint x" env] uint_lt2p [of x] by simp

section \<open>Printing\<close>

text \<open>C26: The six routines that print integers without \<open>sprintf\<close> print the decimal number exactly for every
  value of their type; none writes a digit outside its local array, and the result with its NUL fits in the
  12 bytes that the longest needs. This holds whether plain \<open>char\<close> is signed or not, although
  \<open>cvtCharToString\<close> compares its signed argument with \<open>CHAR_MIN\<close>.\<close>

theorem cvt_integers_exact:
  "cvtCharToString env a = Some (show_int (sint a)) \<and> cvtUcharToString a = Some (show_int (uint a))
   \<and> cvtShortToString b = Some (show_int (sint b)) \<and> cvtUshortToString b = Some (show_int (uint b))
   \<and> cvtLongToString c = Some (show_int (sint c)) \<and> cvtUlongToString c = Some (show_int (uint c))
   \<and> length (show_int (sint a)) < 12 \<and> length (show_int (uint a)) < 12 \<and> length (show_int (sint b)) < 12
   \<and> length (show_int (uint b)) < 12 \<and> length (show_int (sint c)) < 12 \<and> length (show_int (uint c)) < 12"
  using show_int_length [of "sint a"] show_int_length [of "uint a"] show_int_length [of "sint b"] show_int_length [of "uint b"]
    show_int_length [of "sint c"] show_int_length [of "uint c"] uint_range_size [of a] sint_range_size [of a]
    uint_range_size [of b] sint_range_size [of b] uint_range_size [of c] sint_range_size [of c]
  by (simp add: cvt_signed_prints cvt_unsigned_prints word_size abs_le_iff)

section \<open>Arrays\<close>

text \<open>Where every string converts, the loop is the one of the numeric routines.\<close>

lemma put_text_loop_conv:
  assumes "\<forall>s \<in> set (take n pbuffer). cnv s = Some (Some (g s))"
  shows "put_text_loop cnv flds ne n pbuffer pdest offset = map_option (Pair 0) (put_loop (\<lambda>s. Some (g s)) flds ne n pbuffer pdest offset)"
  using assms
proof (induction cnv flds ne n pbuffer pdest offset rule: put_text_loop.induct)
  case (3 cnv flds ne n s pbuffer pdest offset)
  then show ?case by (auto simp: Let_def)
qed simp_all

lemma put_text_window:
  assumes "in_array fld n ne off" "n \<le> int (length ss)" "\<forall>s \<in> set ss. cnv s = Some (Some (g s))"
  shows "put_text cnv fld ss n ne off = Some (0, put_window fld (map g (take (nat n) ss)) ne off)"
proof -
  have "\<forall>s \<in> set (take (nat n) ss). cnv s = Some (Some (g s))" using assms(3) by (meson in_set_takeD)
  then have "put_text_loop cnv fld ne (nat n) ss off off
      = map_option (Pair 0) (put_loop (\<lambda>s. Some (g s)) fld ne (nat n) ss off off)"
    by (rule put_text_loop_conv)
  also have "\<dots> = Some (0, put_window fld (map g (take (nat n) ss)) ne off)"
    unfolding put_loop_window [OF assms(1,2)] by (simp add: those_total)
  finally show ?thesis using assms(1) by (simp add: put_text_def in_array_def)
qed

lemma put_window_all: "length ys = length xs \<Longrightarrow> put_window xs ys (int (length xs)) 0 = ys"
  by (simp add: put_window_def)

lemma get_all:
  assumes "xs \<noteq> []" "\<forall>x. cnv x = Some (h x)"
  shows "get_conv cnv xs (int (length xs)) (int (length xs)) 0 = Some (0, map h xs)"
proof -
  have i: "in_array xs (int (length xs)) (int (length xs)) 0" using assms(1) by (simp add: in_array_def)
  then have "window xs (int (length xs)) (int (length xs)) 0 = xs" by (simp add: window_def)
  then show ?thesis using assms(2) by (simp add: get_conv_window [OF i] ext [of cnv "\<lambda>x. Some (h x)"])
qed

lemma put_all:
  assumes "xs \<noteq> []" "length fld = length xs" "\<forall>x \<in> set xs. cnv (h x) = Some (Some x)"
  shows "put_text cnv fld (map h xs) (int (length xs)) (int (length xs)) 0 = Some (0, xs)"
proof -
  have g: "\<forall>s \<in> set (map h xs). cnv s = Some (Some (the (the (cnv s))))" using assms(3) by simp
  have "map ((\<lambda>s. the (the (cnv s))) \<circ> h) xs = xs" using assms(3) by (simp add: map_idI)
  then show ?thesis
    using put_text_window [OF _ _ g, of fld "int (length xs)" "int (length xs)" 0] assms(1,2)
      put_window_all [of xs fld]
    by (simp add: in_array_def put_window_def)
qed

lemma fits_int: "\<bar>i\<bar> \<le> 4294967295 \<Longrightarrow> 12 \<le> room \<Longrightarrow> fits room (Some (show_int i)) = Some (show_int i)"
  using show_int_length [of i] by (simp add: fits_def)

lemma text_word_ranges:
  "\<bar>uint (a :: u8)\<bar> \<le> 4294967295" "\<bar>sint a\<bar> \<le> 4294967295" "\<bar>uint (b :: u16)\<bar> \<le> 4294967295" "\<bar>sint b\<bar> \<le> 4294967295"
  "\<bar>uint (c :: u32)\<bar> \<le> 4294967295" "\<bar>sint c\<bar> \<le> 4294967295"
  using uint_range_size [of a] sint_range_size [of a] uint_range_size [of b] sint_range_size [of b]
    uint_range_size [of c] sint_range_size [of c]
  by (auto simp: word_size abs_le_iff)

lemmas int_texts = cvt_signed_prints cvt_unsigned_prints fits_int text_word_ranges text_word_ranges [simplified]

lemma word_text:
  fixes w :: "'a::len word"
  shows "LENGTH('a) \<le> bits \<Longrightarrow> sscanf_signed bits (show_int (sint w)) = Some (Some (sint w))"
    "LENGTH('a) \<le> bits \<Longrightarrow> sscanf_unsigned bits (show_int (uint w)) = Some (Some (uint w))"
proof -
  assume l: "LENGTH('a) \<le> bits"
  have p: "(2 :: int) ^ (LENGTH('a) - 1) \<le> 2 ^ (bits - 1)" "(2 :: int) ^ LENGTH('a) \<le> 2 ^ bits"
    using l by (simp_all add: power_increasing)
  show "sscanf_signed bits (show_int (sint w)) = Some (Some (sint w))"
    using sint_greater_eq [of w] sint_less [of w] p(1)
    by (intro sscanf_show_int; unfold One_nat_def; linarith)
  show "sscanf_unsigned bits (show_int (uint w)) = Some (Some (uint w))"
    using uint_lt2p [of w] p(2) by (intro sscanf_show_int) (simp, linarith)
qed

lemma text_get_all:
  assumes "xs \<noteq> []" "\<And>x. c x = Some (show_int (v x))" "\<And>x. \<bar>v x\<bar> \<le> 4294967295"
  shows "get_conv (\<lambda>x. fits MAX_STRING_SIZE (c x)) xs (int (length xs)) (int (length xs)) 0 = Some (0, map (\<lambda>x. show_int (v x)) xs)"
  using get_all [OF assms(1), of "\<lambda>x. fits MAX_STRING_SIZE (c x)" "\<lambda>x. show_int (v x)"] assms(2,3) by (simp add: fits_int)

lemma text_put_all:
  assumes "xs \<noteq> []" "length fld = length xs" "\<And>x. cnv (show_int (v x)) = Some (Some x)"
  shows "put_text cnv fld (map (\<lambda>x. show_int (v x)) xs) (int (length xs)) (int (length xs)) 0 = Some (0, xs)"
  using put_all [OF assms(1,2), of cnv "\<lambda>x. show_int (v x)"] assms(3) by simp

lemma text_Char:
  assumes "xs \<noteq> []" "length fld = length xs"
  shows "getCharString env paddr xs (int (length xs)) (int (length xs)) 0 = Some (0, map (\<lambda>x. show_int (sint x)) xs)"
    "putStringChar tenv env paddr' fld (map (\<lambda>x. show_int (sint x)) xs) (int (length xs)) (int (length xs)) 0 = Some (0, xs)"
  unfolding getCharString_def putStringChar_def
  by - ((rule text_get_all [OF assms(1), of "cvtCharToString env" sint]; simp add: int_texts), (rule text_put_all [OF assms(1,2), of _ sint]; simp add: word_text))

lemma text_Uchar:
  assumes "xs \<noteq> []" "length fld = length xs"
  shows "getUcharString env paddr xs (int (length xs)) (int (length xs)) 0 = Some (0, map (\<lambda>x. show_int (uint x)) xs)"
    "putStringUchar tenv env paddr' fld (map (\<lambda>x. show_int (uint x)) xs) (int (length xs)) (int (length xs)) 0 = Some (0, xs)"
  unfolding getUcharString_def putStringUchar_def
  by - ((rule text_get_all [OF assms(1), of cvtUcharToString uint]; simp add: int_texts), (rule text_put_all [OF assms(1,2), of _ uint]; simp add: word_text))

lemma text_Short:
  assumes "xs \<noteq> []" "length fld = length xs"
  shows "getShortString env paddr xs (int (length xs)) (int (length xs)) 0 = Some (0, map (\<lambda>x. show_int (sint x)) xs)"
    "putStringShort tenv env paddr' fld (map (\<lambda>x. show_int (sint x)) xs) (int (length xs)) (int (length xs)) 0 = Some (0, xs)"
  unfolding getShortString_def putStringShort_def
  by - ((rule text_get_all [OF assms(1), of cvtShortToString sint]; simp add: int_texts), (rule text_put_all [OF assms(1,2), of _ sint]; simp add: word_text))

lemma text_Ushort:
  assumes "xs \<noteq> []" "length fld = length xs"
  shows "getUshortString env paddr xs (int (length xs)) (int (length xs)) 0 = Some (0, map (\<lambda>x. show_int (uint x)) xs)"
    "putStringUshort tenv env paddr' fld (map (\<lambda>x. show_int (uint x)) xs) (int (length xs)) (int (length xs)) 0 = Some (0, xs)"
  unfolding getUshortString_def putStringUshort_def
  by - ((rule text_get_all [OF assms(1), of cvtUshortToString uint]; simp add: int_texts), (rule text_put_all [OF assms(1,2), of _ uint]; simp add: word_text))

lemma text_Long:
  assumes "xs \<noteq> []" "length fld = length xs" "32 \<le> long_bits tenv"
  shows "getLongString env paddr xs (int (length xs)) (int (length xs)) 0 = Some (0, map (\<lambda>x. show_int (sint x)) xs)"
    "putStringLong tenv env paddr' fld (map (\<lambda>x. show_int (sint x)) xs) (int (length xs)) (int (length xs)) 0 = Some (0, xs)"
  unfolding getLongString_def putStringLong_def
  by - ((rule text_get_all [OF assms(1), of cvtLongToString sint]; simp add: int_texts), (rule text_put_all [OF assms(1,2), of _ sint]; simp add: word_text assms(3)))

lemma text_Ulong:
  assumes "xs \<noteq> []" "length fld = length xs" "reads_integers tenv"
  shows "getUlongString env paddr xs (int (length xs)) (int (length xs)) 0 = Some (0, map (\<lambda>x. show_int (uint x)) xs)"
    "putStringUlong tenv env paddr' fld (map (\<lambda>x. show_int (uint x)) xs) (int (length xs)) (int (length xs)) 0 = Some (0, xs)"
  unfolding getUlongString_def putStringUlong_def
  by - ((rule text_get_all [OF assms(1), of cvtUlongToString uint]; simp add: int_texts), (rule text_put_all [OF assms(1,2), of _ uint]; simp add: ulong_show assms(3)))

lemmas texts = text_Char text_Uchar text_Short text_Ushort text_Long text_Ulong

lemma string_columns:
  "dbGetConvertRoutine gs t DBF_STRING = Some g \<Longrightarrow> g = gs t DBF_STRING"
  "dbPutConvertRoutine ps DBF_STRING t = Some p \<Longrightarrow> p = ps DBF_STRING t"
  "dbPutConvertRoutine ps t DBF_STRING = Some p \<Longrightarrow> p = ps t DBF_STRING"
  by (cases t; simp add: dbGetConvertRoutine_def dbPutConvertRoutine_def get_row_Char_def get_row_Uchar_def get_row_Short_def
      get_row_Ushort_def get_row_Long_def get_row_Ulong_def get_row_Float_def get_row_Double_def get_row_Enum_def
      put_row_Char_def put_row_Uchar_def put_row_Short_def
      put_row_Ushort_def put_row_Long_def put_row_Ulong_def put_row_Float_def put_row_Double_def put_row_Enum_def)+

text \<open>C24: Integers survive the way through text: an array of any of the six integer types that is read as strings and
  written back as strings to an array of the type and length comes back unchanged, whatever was there
  before and whether plain \<open>char\<close> is signed or not.\<close>

theorem text_roundtrip:
  assumes t: "t \<in> {DBF_CHAR, DBF_UCHAR, DBF_SHORT, DBF_USHORT, DBF_LONG, DBF_ULONG}" "buf_type fld = t" "buf_type old = t"
    and n: "field_length fld = n" "field_length old = n" "0 < n"
    and env: "32 \<le> long_bits tenv" "reads_integers tenv"
    and r: "dbGetConvertRoutine (string_gets tenv) t DBF_STRING = Some g"
      "dbPutConvertRoutine (string_puts tenv) DBF_STRING t = Some p"
  shows "\<exists>ss. g env paddr fld n n 0 = Some (0, Strings ss) \<and> p env paddr' old (Strings ss) n n 0 = Some (0, fld)"
  using t n env unfolding string_columns(1) [OF r(1)] string_columns(2) [OF r(2)]
  by (cases fld; cases old) (auto simp: string_gets_def string_puts_def get_entry_def put_entry_def field_length_def texts)

section \<open>Every routine keeps the type and the length of the field\<close>

section \<open>Floating point numbers as strings\<close>

text \<open>The text of a number: sign, and the digits of \<open>n\<close> with \<open>p\<close> places.\<close>

definition number_text :: "double \<Rightarrow> nat \<Rightarrow> nat \<Rightarrow> string" where
  "number_text v p n = (if dval v < 0 then ''-'' else []) @ decimal p n"

lemma number_text_length: "p \<le> 8 \<Longrightarrow> n \<le> 10000001 * 10 ^ p \<Longrightarrow> length (number_text v p n) \<le> 18"
  using decimal_length [of p n] by (simp add: number_text_def)

text \<open>A field that holds one \<open>double\<close>, read as a string.\<close>

definition double_field :: "('a, 'w) db_env \<Rightarrow> text_env \<Rightarrow> db_addr \<Rightarrow> nat \<Rightarrow> 'a dbCommon_scheme \<Rightarrow> double \<Rightarrow> bool" where
  "double_field env tenv paddr prec p v \<longleftrightarrow>
     string_fast_get env = string_fast_gets tenv \<and> field_type paddr = DBF_DOUBLE \<and> special_type paddr \<noteq> SPC_ATTRIBUTE
     \<and> addr_elements paddr = 1 \<and> (\<exists>d. pfldDes paddr = Some d \<and> fld_special d \<noteq> SPC_DBADDR)
     \<and> pfield env paddr p = Doubles [v] \<and> get_prec tenv paddr = Some (0, int prec)"

text \<open>C27: A double read as a string through \<open>dbGet\<close> arrives as the decimal number with as many places as
  the record's precision says whose last place is nearest to the value (up to a millionth of that place), for all
  values up to ten million and precisions up to 8; the text has at most 18 characters.\<close>

theorem dbGet_text_of_double:
  assumes f: "double_field env tenv paddr prec p v" and v: "dfinite v" "\<bar>dval v\<bar> \<le> 10000000" and prec: "prec \<le> 8"
  shows "\<exists>n. dbGet env paddr (dbf_code DBF_STRING) None (Some 1) None p = Some (0, None, Some 1, [], Some (Strings [number_text v prec n]))
    \<and> \<bar>of_nat n - \<bar>dval v\<bar> * 10 ^ prec\<bar> \<le> 1 / 2 + 1 / 1000000 \<and> length (number_text v prec n) \<le> 18"
proof -
  obtain n where n: "cvtDoubleToString (printf_env.truncate tenv) v prec = Some (number_text v prec n)"
      "n \<le> 10000001 * 10 ^ prec" "\<bar>of_nat n - \<bar>dval v\<bar> * 10 ^ prec\<bar> \<le> 1 / 2 + 1 / 1000000"
    using cvtDoubleToString_decimal [OF v prec, of "printf_env.truncate tenv"] unfolding number_text_def by blast
  have l: "length (number_text v prec n) \<le> 18" by (rule number_text_length [OF prec n(2)])
  have "nat (int prec mod 65536) = prec" using prec by simp
  then have "text_precision tenv (Some paddr) = (0, prec)" using f by (simp add: text_precision_def double_field_def)
  then have "string_fast_gets tenv DBF_DOUBLE DBF_STRING (conv env) (Some paddr) (Doubles [v])
      = Some (0, Strings [number_text v prec n])"
    using l by (simp add: string_fast_gets_def number_texts_def one_entry_def cvt_d_st_def n(1) fit_text_def)
  moreover have "dbFastGetConvertRoutine (string_fast_get env) DBF_DOUBLE DBF_STRING = Some (string_fast_gets tenv DBF_DOUBLE DBF_STRING)"
    using f by (simp add: dbFastGetConvertRoutine_def double_field_def)
  ultimately have "dbGet env paddr (dbf_code DBF_STRING) None (Some 1) None p = Some (0, None, Some 1, [], Some (Strings [number_text v prec n]))"
    using f by (auto simp: double_field_def dbGet_def get_value_def from_record_def INVALID_DB_REQ_def dbf_types_def Let_def)
  then show ?thesis using n(3) l by blast
qed

text \<open>C28: A number written to a string field is printed without regard to the size of the field. Between
  10^15 and 10^16 the text has at least 16 characters, so a put of such a double to a field of 16 bytes, as EGU of
  the analog records, runs over its end: the behaviour is undefined.\<close>

theorem dbPut_double_overruns_text:
  assumes env: "string_fast_put env = string_fast_puts tenv"
    and f: "field_type paddr = DBF_STRING" "special_type paddr = 0" "addr_elements paddr = 1" "addr_size paddr \<le> 16"
      "pfldDes paddr = Some d" "fld_special d \<noteq> SPC_DBADDR" "get_prec tenv paddr = Some (status, int prec)" "prec \<le> 8"
    and v: "dfinite v" "10 ^ 15 \<le> dval v" "dval v \<le> 10 ^ 16"
    and fmt: "\<And>p v. dfinite v \<Longrightarrow> 10 ^ 15 \<le> dval v \<Longrightarrow> 16 \<le> length (fmt_f tenv p v)"
  shows "dbPut env paddr (dbf_code DBF_DOUBLE) (Doubles [v]) 1 p w = None"
proof -
  have "nat (int prec mod 65536) = prec" using f(8) by simp
  then have prec: "text_precision tenv (Some paddr) = (status, prec)" using f(7) by (simp add: text_precision_def)
  have "\<not> isnan v" "dlt (Fin 10000000) v" "\<not> dlt (Fin 10000000000000000) v" "\<not> dlt v (Fin (- 10000000000000000))"
    using v by (simp_all add: dlt_finite dfinite_def)
  then have "cvtDoubleToString (printf_env.truncate tenv) v prec
      = Some (fmt_f (printf_env.truncate tenv) (if 3 < prec then 3 else prec) v)"
    using f(8) by (simp add: cvtDoubleToString_def Let_def)
  moreover have "fmt_f (printf_env.truncate tenv) = fmt_f tenv" by (simp add: printf_env.truncate_def)
  ultimately have "fit_text (nat (addr_size paddr)) (cvt_d_st tenv (Some paddr) v) = None"
    using fmt [OF v(1,2), of "if 3 < prec then 3 else prec"] f(4)
    by (simp add: cvt_d_st_def prec fit_text_def)
  then have "string_fast_puts tenv DBF_DOUBLE DBF_STRING (conv env) (Some paddr) (Doubles [v]) = None"
    by (simp add: string_fast_puts_def number_texts_def one_entry_def)
  moreover have "dbFastPutConvertRoutine (string_fast_put env) DBF_DOUBLE DBF_STRING = Some (string_fast_puts tenv DBF_DOUBLE DBF_STRING)"
    using env by (simp add: dbFastPutConvertRoutine_def)
  ultimately have "put_value env paddr DBF_DOUBLE (Doubles [v]) 1 0 p = None"
    using f by (simp add: put_value_def)
  then show ?thesis using f by (simp add: dbPut_def INVALID_DB_REQ_def dbf_types_def)
qed

section \<open>Examples\<close>

definition text_env0 :: text_env where
  "text_env0 = \<lparr>plain_signed = False, fmt_e = (\<lambda>w p v. replicate (max w (p + 8)) (CHR ''0'')),
     fmt_f = (\<lambda>p v. number_text v p (nat \<lfloor>\<bar>dval v\<bar> * 10 ^ p\<rfloor>)),
     strtod = (\<lambda>s. let ds = takeWhile is_digit s in (length ds, Fin (of_nat (read_nat ds)), False)),
     long_bits = 32, get_prec = (\<lambda>_. Some (0, 1)), get_enum = (\<lambda>_. None), put_enum = (\<lambda>_ _. None),
     enum_count = (\<lambda>_. None), menu_choices = (\<lambda>_. None)\<rparr>"

lemma text_env0_integers: "reads_integers text_env0"
proof -
  have t: "takeWhile is_digit (show_nat n) = show_nat n" for n using show_nat_digits [of n] by simp
  show ?thesis by (simp add: reads_integers_def text_env0_def Let_def read_show_nat t)
qed

lemma show_nat_long: "10 ^ k \<le> n \<Longrightarrow> k < length (show_nat n)"
proof (induction k arbitrary: n)
  case 0
  then show ?case using show_nat_nonempty [of n] by simp
next
  case (Suc k)
  have "(10 :: nat) \<le> 10 ^ Suc k" by simp
  then have "10 \<le> n" using Suc.prems by (rule order_trans)
  moreover have "10 ^ k \<le> n div 10" using Suc.prems by (simp add: less_eq_div_iff_mult_less_eq)
  ultimately show ?case using Suc.IH [of "n div 10"] by (simp add: show_nat_div)
qed

lemma text_env0_fmt: "10 ^ 15 \<le> dval v \<Longrightarrow> 16 \<le> length (fmt_f text_env0 p v)"
proof -
  assume v: "10 ^ 15 \<le> dval v"
  have "10 ^ 15 * 10 ^ p \<le> \<bar>dval v\<bar> * 10 ^ p" using v by (intro mult_right_mono) simp_all
  then have "(10 ^ 15 * 10 ^ p :: int) \<le> \<lfloor>\<bar>dval v\<bar> * 10 ^ p\<rfloor>" by (simp add: le_floor_iff)
  then have "10 ^ 15 * 10 ^ p \<le> nat \<lfloor>\<bar>dval v\<bar> * 10 ^ p\<rfloor>" by (subst le_nat_iff) simp_all
  then have "10 ^ 15 \<le> nat \<lfloor>\<bar>dval v\<bar> * 10 ^ p\<rfloor> div 10 ^ p" by (simp add: less_eq_div_iff_mult_less_eq)
  from show_nat_long [OF this] show ?thesis by (simp add: text_env0_def number_text_def decimal_def)
qed

abbreviation (input) text_ai_env :: "(unit aiRecord_ext, nat) db_env" where
  "text_ai_env \<equiv> (ai_env refusing_dset 0 0 True)\<lparr>string_get := string_gets text_env0, string_fast_get := string_fast_gets text_env0, string_fast_put := string_fast_puts text_env0\<rparr>"

definition ai_egu_addr :: db_addr where
  "ai_egu_addr = \<lparr>field = ''EGU'', field_type = DBF_STRING, special_type = 0,
     pfldDes = Some \<lparr>fld_name = ''EGU'', fld_type = DBF_STRING, fld_special = 0, process_passive = False, fld_prop = True\<rparr>,
     addr_elements = 1, addr_size = 16\<rparr>"

theorem text_roundtrip_witness:
  "\<exists>ss. string_gets text_env0 DBF_SHORT DBF_STRING conv_env0 array_field (Shorts [-5, 700]) 2 2 0 = Some (0, Strings ss)
    \<and> string_puts text_env0 DBF_STRING DBF_SHORT conv_env0 array_field (Shorts [0, 1]) (Strings ss) 2 2 0 = Some (0, Shorts [-5, 700])"
proof -
  have g: "dbGetConvertRoutine (string_gets text_env0) DBF_SHORT DBF_STRING = Some (string_gets text_env0 DBF_SHORT DBF_STRING)"
    by (simp add: dbGetConvertRoutine_def get_row_Short_def)
  have p: "dbPutConvertRoutine (string_puts text_env0) DBF_STRING DBF_SHORT = Some (string_puts text_env0 DBF_STRING DBF_SHORT)"
    by (simp add: dbPutConvertRoutine_def)
  show ?thesis
    by (rule text_roundtrip [OF _ _ _ _ _ _ _ text_env0_integers g p]) (simp_all add: field_length_def text_env0_def)
qed

theorem dbGet_text_of_double_witness:
  "dbGet text_ai_env ai_val_addr 0 None (Some 1) None (ai0\<lparr>ai_val := Fin (43 / 2)\<rparr>) = Some (0, None, Some 1, [], Some (Strings [''21.5'']))"
proof -
  let ?p = "ai0\<lparr>ai_val := Fin (43 / 2)\<rparr>"
  have "double_field text_ai_env text_env0 ai_val_addr 1 ?p (Fin (43 / 2))"
    by (simp add: double_field_def ai_env_def ai_val_addr_def ai_val_des_def text_env0_def)
  from dbGet_text_of_double [OF this] obtain n where
    n: "dbGet text_ai_env ai_val_addr 0 None (Some 1) None ?p = Some (0, None, Some 1, [], Some (Strings [number_text (Fin (43 / 2)) 1 n]))"
      "\<bar>of_nat n - \<bar>dval (Fin (43 / 2))\<bar> * 10 ^ 1\<bar> \<le> (1 / 2 + 1 / 1000000 :: rat)" by auto
  have "\<bar>(of_nat n :: rat) - 215\<bar> < 1" using n(2) by simp
  then have "(of_nat n :: rat) < of_nat 216" "(of_nat 214 :: rat) < of_nat n" by (simp_all add: abs_less_iff)
  then have "n = 215" by (simp only: of_nat_less_iff)
  moreover have "number_text (Fin (43 / 2)) 1 215 = ''21.5''"
    by (simp add: number_text_def decimal_def show_nat.simps digit_char_def char_of_def bit_0)
  ultimately show ?thesis using n(1) by simp
qed

theorem dbPut_double_overruns_text_witness:
  "dbPut text_ai_env ai_egu_addr 8 (Doubles [Fin (10 ^ 15)]) 1 ai0 0 = None"
  using dbPut_double_overruns_text [of text_ai_env text_env0 ai_egu_addr _ 0 1 "Fin (10 ^ 15)" ai0 0]
  by (simp add: text_env0_fmt ai_egu_addr_def) (simp add: text_env0_def)

end
