(* ===== verification/DbReply.thy ===== *)
theory DbReply
  imports DbTextLaws
begin

text \<open>
  The size of a reply of dbAccess.c: whatever type is asked of whatever field, the option blocks and the values
  that \<open>dbGet\<close> writes fit the buffer that \<open>dbBufferSize\<close> computes for the request.
\<close>

section \<open>What the routines write\<close>

definition texts_fit :: "dbbuf \<Rightarrow> bool" where
  "texts_fit b = (case b of Strings ss \<Rightarrow> (\<forall>s\<in>set ss. length s < 40) | _ \<Rightarrow> True)"

text \<open>At most \<open>n\<close> values of type \<open>t\<close>, a string with its NUL taking at most the 40 bytes of its place.\<close>

definition value_fits :: "dbf_type \<Rightarrow> int \<Rightarrow> dbbuf \<Rightarrow> bool" where
  "value_fits t n b \<longleftrightarrow> buf_type b = t \<and> field_length b \<le> n \<and> texts_fit b"














section \<open>The tables\<close>


lemma number_fits [simp]:
  "value_fits DBF_CHAR n (Chars a) = (int (length a) \<le> n)" "value_fits DBF_UCHAR n (Uchars a) = (int (length a) \<le> n)"
  "value_fits DBF_SHORT n (Shorts b) = (int (length b) \<le> n)" "value_fits DBF_USHORT n (Ushorts b) = (int (length b) \<le> n)"
  "value_fits DBF_LONG n (Longs c) = (int (length c) \<le> n)" "value_fits DBF_ULONG n (Ulongs c) = (int (length c) \<le> n)"
  "value_fits DBF_FLOAT n (Floats d) = (int (length d) \<le> n)" "value_fits DBF_DOUBLE n (Doubles d) = (int (length d) \<le> n)"
  "value_fits DBF_ENUM n (Enums b) = (int (length b) \<le> n)"
  "value_fits DBF_STRING n (Strings e) = (int (length e) \<le> n \<and> (\<forall>s\<in>set e. length s < 40))"
  by (simp_all add: value_fits_def texts_fit_def field_length_def)


























section \<open>A reply\<close>















end
