(* ===== verification/DbEvent.thy ===== *)
theory DbEvent
  imports DbAccess
begin

text \<open>
  ioc/db/dbEvent.c: the event queues between records that post monitors and the event task of a client.
  Records append field logs to a ring of \<open>EVENTQUESIZE\<close> entries; the event task takes them out and calls
  the client. A queue holds the subscriptions whose \<open>ev_que\<close> it is. A failed assertion, the use of a freed
  subscription and a null pointer are \<open>None\<close>. Each definition is what one thread does while it holds the lock
  of the queue.
\<close>

section \<open>Data\<close>

abbreviation EVENTSPERQUE :: nat where "EVENTSPERQUE \<equiv> 32"
abbreviation EVENTENTRIES :: nat where "EVENTENTRIES \<equiv> 4"
abbreviation EVENTQUESIZE :: nat where "EVENTQUESIZE \<equiv> 128"

text \<open>\<open>sizeof (union native_value)\<close>, whose largest member is a double.\<close>

abbreviation SIZEOF_NATIVE_VALUE :: int where "SIZEOF_NATIVE_VALUE \<equiv> 8"

text \<open>A slot of the ring: empty, the place holder of a canceled event, or a subscription.\<close>

datatype ev_slot = EVENTQEMPTY | canceledEvent | Event nat

text \<open>\<open>pLastLog\<close> points into \<open>valque\<close>: its index. \<open>user_sub\<close> is whether the callback is not \<open>NULL\<close>.
  \<open>chan\<close> is the address of the channel without the pointer to the field, which is \<open>chan_field\<close>.\<close>

record evSubscrip =
  chan :: db_addr
  chan_field :: nat
  ev_select :: u8
  enabled :: bool
  npend :: nat
  nreplace :: nat
  pLastLog :: "nat option"
  callBackInProgress :: bool
  user_sub :: bool
  useValque :: bool

record event_que =
  evque :: "ev_slot list"
  valque :: "db_field_log option list"
  putix :: nat
  getix :: nat
  quota :: nat
  nDuplicates :: nat
  nCanceled :: nat
  subs :: "nat \<rightharpoonup> evSubscrip"

definition RNGINC :: "nat \<Rightarrow> nat" where
  "RNGINC i = (if EVENTQUESIZE - 1 \<le> i then 0 else i + 1)"

definition ringSpace :: "event_que \<Rightarrow> nat" where
  "ringSpace q =
     (if evque q ! putix q = EVENTQEMPTY
      then if putix q < getix q then getix q - putix q else EVENTQUESIZE + getix q - putix q
      else 0)"

section \<open>Subscriptions\<close>

text \<open>\<open>freeListCalloc\<close> clears the memory.\<close>

definition create_ev_que :: event_que where
  "create_ev_que = \<lparr>evque = replicate EVENTQUESIZE EVENTQEMPTY, valque = replicate EVENTQUESIZE None,
     putix = 0, getix = 0, quota = 0, nDuplicates = 0, nCanceled = 0, subs = Map.empty\<rparr>"

definition new_sub :: "db_addr \<Rightarrow> nat \<Rightarrow> u8 \<Rightarrow> evSubscrip" where
  "new_sub c fld sel = \<lparr>chan = c, chan_field = fld, ev_select = sel, enabled = False, npend = 0, nreplace = 0,
     pLastLog = None, callBackInProgress = False, user_sub = True,
     useValque = (addr_elements c = 1 \<and> special_type c \<noteq> SPC_DBADDR \<and> addr_size c \<le> SIZEOF_NATIVE_VALUE)\<rparr>"

definition has_quota :: "event_que \<Rightarrow> bool" where
  "has_quota q \<longleftrightarrow> quota q + nCanceled q < EVENTQUESIZE - EVENTENTRIES"

definition add_sub :: "nat \<Rightarrow> evSubscrip \<Rightarrow> event_que \<Rightarrow> event_que" where
  "add_sub s p q = q\<lparr>quota := quota q + EVENTENTRIES, subs := (subs q)(s \<mapsto> p)\<rparr>"

text \<open>The loop along \<open>nextque\<close>: the first queue with quota left, or a new one at the end.\<close>

fun add_loop :: "nat \<Rightarrow> evSubscrip \<Rightarrow> event_que list \<Rightarrow> event_que list" where
  "add_loop s p [] = [add_sub s p create_ev_que]"
| "add_loop s p (q # qs) = (if has_quota q then add_sub s p q # qs else q # add_loop s p qs)"

text \<open>\<open>s\<close> is the memory of the new subscription; the second result is whether it was made.\<close>

definition db_add_event :: "nat \<Rightarrow> db_addr \<Rightarrow> nat \<Rightarrow> u32 \<Rightarrow> event_que list \<Rightarrow> event_que list \<times> bool" where
  "db_add_event s c fld sel qs =
     (if sel = 0 \<or> 255 < sel then (qs, False) else (add_loop s (new_sub c fld (ucast sel)) qs, True))"

text \<open>The list of the monitors of the record, \<open>mlis\<close>, holds the subscriptions that are enabled.\<close>

definition db_event_enable :: "nat \<Rightarrow> event_que \<Rightarrow> nat list \<Rightarrow> (event_que \<times> nat list) option" where
  "db_event_enable s q mlis = map_option (\<lambda>p.
     if enabled p then (q, mlis) else (q\<lparr>subs := (subs q)(s \<mapsto> p\<lparr>enabled := True\<rparr>)\<rparr>, mlis @ [s])) (subs q s)"

definition db_event_disable :: "nat \<Rightarrow> event_que \<Rightarrow> nat list \<Rightarrow> (event_que \<times> nat list) option" where
  "db_event_disable s q mlis = map_option (\<lambda>p.
     if enabled p then (q\<lparr>subs := (subs q)(s \<mapsto> p\<lparr>enabled := False\<rparr>)\<rparr>, remove1 s mlis) else (q, mlis)) (subs q s)"

text \<open>\<open>event_remove\<close> nulls an entry of the queue, without deleting its log.\<close>

definition event_remove :: "event_que \<Rightarrow> nat \<Rightarrow> ev_slot \<Rightarrow> event_que option" where
  "event_remove q index placeHolder = (case evque q ! index of
     Event s \<Rightarrow> (case subs q s of
         Some p \<Rightarrow>
           let q = q\<lparr>evque := (evque q)[index := placeHolder], valque := (valque q)[index := None]\<rparr>
           in if npend p = 1 then Some (q\<lparr>subs := (subs q)(s \<mapsto> p\<lparr>pLastLog := None, npend := npend p - 1\<rparr>)\<rparr>)
              else if 1 < npend p \<and> 1 \<le> nDuplicates q
                then Some (q\<lparr>nDuplicates := nDuplicates q - 1, subs := (subs q)(s \<mapsto> p\<lparr>npend := npend p - 1\<rparr>)\<rparr>)
              else None
       | None \<Rightarrow> None)
   | _ \<Rightarrow> None)"

text \<open>The loop that purges a subscription from the queue: from \<open>getix\<close> to the first empty slot, or once
  around. It meets \<open>getix\<close> again after \<open>EVENTQUESIZE\<close> slots, so that many iterations are all.\<close>

fun purge_loop :: "nat \<Rightarrow> nat \<Rightarrow> nat \<Rightarrow> event_que \<Rightarrow> event_que option" where
  "purge_loop s 0 ix q = Some q"
| "purge_loop s (Suc n) ix q =
     (if evque q ! ix = EVENTQEMPTY then Some q
      else case (if evque q ! ix = Event s
                 then if nCanceled q < 65535 then event_remove (q\<lparr>nCanceled := nCanceled q + 1\<rparr>) ix canceledEvent else None
                 else Some q) of
             None \<Rightarrow> None
           | Some q \<Rightarrow> if RNGINC ix = getix q then Some q else purge_loop s n (RNGINC ix) q)"

text \<open>\<open>db_cancel_event\<close> up to the point where it may wait for a callback in progress, and after it.\<close>

definition cancel_purge :: "nat \<Rightarrow> event_que \<Rightarrow> event_que option" where
  "cancel_purge s q = (case subs q s of
     None \<Rightarrow> None
   | Some p \<Rightarrow>
       (case purge_loop s EVENTQUESIZE (getix q) (q\<lparr>subs := (subs q)(s \<mapsto> p\<lparr>user_sub := False\<rparr>)\<rparr>) of
          None \<Rightarrow> None
        | Some q \<Rightarrow> (case subs q s of Some p \<Rightarrow> if npend p = 0 then Some q else None | None \<Rightarrow> None)))"

definition cancel_free :: "nat \<Rightarrow> event_que \<Rightarrow> event_que" where
  "cancel_free s q = q\<lparr>quota := quota q - EVENTENTRIES, subs := (subs q)(s := None)\<rparr>"

section \<open>Posting\<close>

text \<open>The queue, and whether the event task is notified.\<close>

definition db_queue_event_log :: "bool \<Rightarrow> nat \<Rightarrow> db_field_log \<Rightarrow> event_que \<Rightarrow> (event_que \<times> bool) option" where
  "db_queue_event_log flowCtrlMode s pLog q = (case subs q s of
     None \<Rightarrow> None
   | Some p \<Rightarrow>
       let lastLog = Option.bind (pLastLog p) (\<lambda>ix. valque q ! ix)
       in if 0 < npend p \<and> lastLog = None then None
          else if 0 < npend p \<and> pfl_rec (the lastLog) \<and> pfl_rec pLog then Some (q, False)
          else let rngSpace = ringSpace q
          in if 0 < npend p \<and> (flowCtrlMode \<or> rngSpace \<le> EVENTSPERQUE)
             then Some (q\<lparr>valque := (valque q)[the (pLastLog p) := Some pLog],
                          subs := (subs q)(s \<mapsto> p\<lparr>nreplace := nreplace p + 1\<rparr>)\<rparr>, False)
             else if evque q ! putix q \<noteq> EVENTQEMPTY then None
             else Some (q\<lparr>evque := (evque q)[putix q := Event s], valque := (valque q)[putix q := Some pLog],
                          nDuplicates := (if 0 < npend p then nDuplicates q + 1 else nDuplicates q),
                          subs := (subs q)(s \<mapsto> p\<lparr>pLastLog := Some (putix q), npend := npend p + 1\<rparr>),
                          putix := RNGINC (putix q)\<rparr>, rngSpace = EVENTQUESIZE))"

text \<open>The log of a subscription: the value of a scalar field, or only that the record has changed (the cleared
  fields are not read then).\<close>

definition db_create_event_log :: "('a, 'w) db_env \<Rightarrow> evSubscrip \<Rightarrow> 'a dbCommon_scheme \<Rightarrow> db_field_log" where
  "db_create_event_log env p prec =
     (if useValque p
      then \<lparr>pfl_rec = False, pfl_type = field_type (chan p), pfl_size = addr_size (chan p), pfl_elements = addr_elements (chan p),
            pfl_field = pfield env (chan p) prec, pfl_stat = stat prec, pfl_sevr = sevr prec, pfl_time = rtime prec\<rparr>
      else \<lparr>pfl_rec = True, pfl_type = DBF_STRING, pfl_size = 0, pfl_elements = 0, pfl_field = Strings [],
            pfl_stat = 0, pfl_sevr = 0, pfl_time = (0, 0)\<rparr>)"

text \<open>
  \<open>mlis\<close> names the queue and the subscription of each monitor of the record. \<open>pre_chain\<close> are the filters of
  a channel, plugins that may drop or change the log; \<open>flow\<close> the flow control mode of the client a queue
  belongs to. A null \<open>pField\<close> posts every field.
\<close>

definition event_matches :: "evSubscrip \<Rightarrow> nat option \<Rightarrow> u32 \<Rightarrow> bool" where
  "event_matches p pField caEventMask \<longleftrightarrow>
     (pField = None \<or> pField = Some (chan_field p)) \<and> caEventMask AND ucast (ev_select p) \<noteq> 0"

fun db_post_events ::
  "('a, 'w) db_env \<Rightarrow> (evSubscrip \<Rightarrow> db_field_log \<Rightarrow> db_field_log option) \<Rightarrow> (nat \<Rightarrow> bool) \<Rightarrow> 'a dbCommon_scheme
     \<Rightarrow> nat option \<Rightarrow> u32 \<Rightarrow> (nat \<times> nat) list \<Rightarrow> (nat \<Rightarrow> event_que) \<Rightarrow> (nat \<Rightarrow> event_que) option" where
  "db_post_events env pre_chain flow prec pField caEventMask [] qs = Some qs"
| "db_post_events env pre_chain flow prec pField caEventMask ((k, s) # mlis) qs = (case subs (qs k) s of
     None \<Rightarrow> None
   | Some p \<Rightarrow>
       (case (if event_matches p pField caEventMask then pre_chain p (db_create_event_log env p prec) else None) of
          None \<Rightarrow> db_post_events env pre_chain flow prec pField caEventMask mlis qs
        | Some pLog \<Rightarrow> (case db_queue_event_log (flow k) s pLog (qs k) of
              None \<Rightarrow> None
            | Some (q, notify) \<Rightarrow> db_post_events env pre_chain flow prec pField caEventMask mlis (qs(k := q)))))"

definition db_post_single_event ::
  "('a, 'w) db_env \<Rightarrow> (evSubscrip \<Rightarrow> db_field_log \<Rightarrow> db_field_log option) \<Rightarrow> bool \<Rightarrow> 'a dbCommon_scheme
     \<Rightarrow> nat \<Rightarrow> event_que \<Rightarrow> event_que option" where
  "db_post_single_event env pre_chain flow prec s q = (case subs q s of
     None \<Rightarrow> None
   | Some p \<Rightarrow> (case pre_chain p (db_create_event_log env p prec) of
         None \<Rightarrow> Some q
       | Some pLog \<Rightarrow> map_option fst (db_queue_event_log flow s pLog q)))"

section \<open>The event task\<close>

text \<open>Where the event task is: outside the queue, in the loop of \<open>event_read\<close>, or in the callback of a
  subscription, with the lock released. \<open>pSuicideEvent\<close> is a subscription that its own callback canceled.\<close>

datatype ev_reader = Outside | Reading | Callback nat db_field_log

record ev_state =
  que :: event_que
  reader :: ev_reader
  pSuicideEvent :: "nat option"

definition read_enter :: "bool \<Rightarrow> ev_state \<Rightarrow> ev_state" where
  "read_enter flowCtrlMode st =
     (if flowCtrlMode \<and> nDuplicates (que st) = 0 then st else st\<lparr>reader := Reading\<rparr>)"

text \<open>One iteration of the loop, up to the callback.\<close>

definition read_next :: "ev_state \<Rightarrow> ev_state option" where
  "read_next st =
     (let q = que st
      in case evque q ! getix q of
           EVENTQEMPTY \<Rightarrow> Some (st\<lparr>reader := Outside\<rparr>)
         | canceledEvent \<Rightarrow>
             if 0 < nCanceled q
             then Some (st\<lparr>que := q\<lparr>evque := (evque q)[getix q := EVENTQEMPTY], valque := (valque q)[getix q := None],
                                    getix := RNGINC (getix q), nCanceled := nCanceled q - 1\<rparr>\<rparr>)
             else None
         | Event s \<Rightarrow>
             (case (event_remove q (getix q) EVENTQEMPTY, valque q ! getix q) of
                (Some q', Some pfl) \<Rightarrow>
                  let q' = q'\<lparr>getix := RNGINC (getix q)\<rparr>
                  in (case subs q' s of
                        Some p \<Rightarrow> if user_sub p
                                  then Some (st\<lparr>que := q'\<lparr>subs := (subs q')(s \<mapsto> p\<lparr>callBackInProgress := True\<rparr>)\<rparr>,
                                                reader := Callback s pfl\<rparr>)
                                  else Some (st\<lparr>que := q'\<rparr>)
                      | None \<Rightarrow> None)
              | _ \<Rightarrow> None))"

text \<open>After the callback. The filters that run between the queue and the callback count as part of it.\<close>

definition read_end :: "ev_state \<Rightarrow> ev_state option" where
  "read_end st = (case reader st of
     Callback s pfl \<Rightarrow>
       if pSuicideEvent st = Some s then Some (st\<lparr>reader := Reading, pSuicideEvent := None\<rparr>)
       else (case subs (que st) s of
               Some p \<Rightarrow> Some (st\<lparr>que := (que st)\<lparr>subs := (subs (que st))(s \<mapsto> p\<lparr>callBackInProgress := False\<rparr>)\<rparr>, reader := Reading\<rparr>)
             | None \<Rightarrow> None)
   | _ \<Rightarrow> None)"

text \<open>The whole cancel, by the event task itself or by another thread, which returns without the release when it has to
  wait for a callback in progress; \<open>cancel_free\<close> follows when that is over.\<close>

definition db_cancel_event :: "bool \<Rightarrow> nat \<Rightarrow> ev_state \<Rightarrow> nat list \<Rightarrow> (ev_state \<times> nat list) option" where
  "db_cancel_event on_task s st mlis = (case db_event_disable s (que st) mlis of
     None \<Rightarrow> None
   | Some (q, mlis) \<Rightarrow> (case cancel_purge s q of
         None \<Rightarrow> None
       | Some q \<Rightarrow>
           Some (if on_task then st\<lparr>que := cancel_free s q, pSuicideEvent := Some s\<rparr>
                 else if (case subs q s of Some p \<Rightarrow> callBackInProgress p | None \<Rightarrow> False) then st\<lparr>que := q\<rparr>
                 else st\<lparr>que := cancel_free s q\<rparr>, mlis)))"

text \<open>The whole call, for callbacks that leave the queue alone, with what was delivered. Each iteration frees a
  slot, so \<open>EVENTQUESIZE\<close> iterations and the test that ends the loop are all.\<close>

fun event_read_loop :: "nat \<Rightarrow> ev_state \<Rightarrow> (nat \<times> db_field_log) list \<Rightarrow> (ev_state \<times> (nat \<times> db_field_log) list) option" where
  "event_read_loop 0 st out = None"
| "event_read_loop (Suc n) st out = (case read_next st of
     None \<Rightarrow> None
   | Some st' \<Rightarrow> (case reader st' of
         Outside \<Rightarrow> Some (st', out)
       | Reading \<Rightarrow> event_read_loop n st' out
       | Callback s pfl \<Rightarrow> (case read_end st' of
             None \<Rightarrow> None
           | Some st'' \<Rightarrow> event_read_loop n st'' (out @ [(s, pfl)]))))"

definition event_read :: "bool \<Rightarrow> ev_state \<Rightarrow> (ev_state \<times> (nat \<times> db_field_log) list) option" where
  "event_read flowCtrlMode st =
     (let st = read_enter flowCtrlMode st
      in if reader st = Reading then event_read_loop (EVENTQUESIZE + 1) st [] else Some (st, []))"

section \<open>All interleavings\<close>

text \<open>
  The threads: records that post logs (\<open>flow\<close> is the flow control mode they see), clients that subscribe and
  cancel, and the event task. A cancel by another thread returns only when no callback is in progress; a
  callback that cancels its own subscription does not wait. The address of a freed subscription may be
  used again.
\<close>

datatype ev_label = Add nat | Post nat db_field_log | Cancel nat | Free nat | Deliver nat db_field_log | Internal

inductive ev_step :: "ev_state \<Rightarrow> ev_label \<Rightarrow> ev_state \<Rightarrow> bool" where
  add: "has_quota (que st) \<Longrightarrow> subs (que st) s = None \<Longrightarrow> ev_step st (Add s) (st\<lparr>que := add_sub s (new_sub c fld sel) (que st)\<rparr>)"
| post: "subs (que st) s = Some p \<Longrightarrow> user_sub p \<Longrightarrow> db_queue_event_log flow s l (que st) = Some (q', notify) \<Longrightarrow>
    ev_step st (Post s l) (st\<lparr>que := q'\<rparr>)"
| cancel: "subs (que st) s = Some p \<Longrightarrow> user_sub p \<Longrightarrow> cancel_purge s (que st) = Some q' \<Longrightarrow>
    ev_step st (Cancel s) (st\<lparr>que := q'\<rparr>)"
| free: "subs (que st) s = Some p \<Longrightarrow> \<not> user_sub p \<Longrightarrow> \<not> callBackInProgress p \<Longrightarrow>
    ev_step st (Free s) (st\<lparr>que := cancel_free s (que st)\<rparr>)"
| suicide: "reader st = Callback s pfl \<Longrightarrow> pSuicideEvent st \<noteq> Some s \<Longrightarrow> subs (que st) s = Some p \<Longrightarrow> user_sub p \<Longrightarrow>
    cancel_purge s (que st) = Some q' \<Longrightarrow>
    ev_step st (Cancel s) (st\<lparr>que := cancel_free s q', pSuicideEvent := Some s\<rparr>)"
| enter: "reader st = Outside \<Longrightarrow> ev_step st Internal (read_enter flow st)"
| deliver: "reader st = Reading \<Longrightarrow> read_next st = Some st' \<Longrightarrow> reader st' = Callback s l \<Longrightarrow> ev_step st (Deliver s l) st'"
| skip: "reader st = Reading \<Longrightarrow> read_next st = Some st' \<Longrightarrow> reader st' = Reading \<or> reader st' = Outside \<Longrightarrow> ev_step st Internal st'"
| "end": "read_end st = Some st' \<Longrightarrow> ev_step st Internal st'"

definition ev_init :: ev_state where
  "ev_init = \<lparr>que = create_ev_que, reader = Outside, pSuicideEvent = None\<rparr>"

text \<open>The states after a history, newest first. With \<open>clean\<close>, subscriptions are only added while no canceled entry
  is left in the queue.\<close>

inductive ev_run :: "bool \<Rightarrow> ev_label list \<Rightarrow> ev_state \<Rightarrow> bool" for clean where
  start: "ev_run clean [] ev_init"
| step: "ev_run clean tr st \<Longrightarrow> ev_step st a st' \<Longrightarrow> (clean \<and> (\<exists>s. a = Add s) \<Longrightarrow> nCanceled (que st) = 0) \<Longrightarrow> ev_run clean (a # tr) st'"

end
