(* ===== verification/DbEventRing.thy ===== *)
theory DbEventRing
  imports DbEvent
begin

text \<open>
  The event queue of DbEvent seen as a list: the cells of the ring from \<open>getix\<close> on. Posting appends to the
  list or replaces the last cell of a subscription, the event task takes the head, and a cancel turns all
  cells of a subscription into place holders. \<open>qinv\<close> ties the counters of the queue and of its
  subscriptions to the list.
\<close>

section \<open>The ring and its list\<close>

type_synonym cell = "ev_slot \<times> db_field_log option"

definition cells :: "event_que \<Rightarrow> cell list" where
  "cells q = rotate (getix q) (zip (evque q) (valque q))"

fun cell_ok :: "cell \<Rightarrow> bool" where
  "cell_ok (EVENTQEMPTY, l) \<longleftrightarrow> False"
| "cell_ok (canceledEvent, l) \<longleftrightarrow> l = None"
| "cell_ok (Event s, l) \<longleftrightarrow> l \<noteq> None"

abbreviation free_cell :: cell where "free_cell \<equiv> (EVENTQEMPTY, None)"

definition ring :: "event_que \<Rightarrow> cell list \<Rightarrow> bool" where
  "ring q c \<longleftrightarrow> length (evque q) = 128 \<and> length (valque q) = 128 \<and> getix q < 128 \<and> length c \<le> 128 \<and>
     cells q = c @ replicate (128 - length c) free_cell \<and> putix q = (getix q + length c) mod 128 \<and> list_all cell_ok c"

lemma cell_ok_not_empty: "cell_ok x \<Longrightarrow> fst x \<noteq> EVENTQEMPTY"
  by (cases x rule: cell_ok.cases) auto

lemma rotate_update:
  assumes "k < length xs"
  shows "rotate g (xs[(g + k) mod length xs := x]) = (rotate g xs)[k := x]"
proof (rule nth_equalityI)
  fix i assume "i < length (rotate g (xs[(g + k) mod length xs := x]))"
  then have i: "i < length xs" by simp
  have b: "(g + n) mod length xs < length xs" for n
    by (rule mod_less_divisor) (use i in linarith)
  then have "(g + k) mod length xs = (g + i) mod length xs \<longleftrightarrow> k = i"
    using i assms b nth_eq_iff_index_eq [of "rotate g [0..<length xs]" k i]
    by (simp add: nth_rotate)
  then show "rotate g (xs[(g + k) mod length xs := x]) ! i = (rotate g xs)[k := x] ! i"
    using i assms b by (auto simp: nth_rotate nth_list_update)
qed simp

lemma RNGINC_mod: "i < 128 \<Longrightarrow> RNGINC i = (i + 1) mod 128"
  by (cases "i = 127") (auto simp: RNGINC_def)

lemma RNGINC_pos [simp]: "RNGINC ((g + k) mod 128) = (g + Suc k) mod 128"
  by (simp add: RNGINC_mod mod_simps)

text \<open>The ring depends only on its own fields.\<close>

lemma ring_more [simp]:
  "ring (q\<lparr>nDuplicates := d\<rparr>) c = ring q c" "ring (q\<lparr>nCanceled := n\<rparr>) c = ring q c"
  "ring (q\<lparr>subs := m\<rparr>) c = ring q c" "ring (q\<lparr>quota := u\<rparr>) c = ring q c"
  by (simp_all add: ring_def cells_def)

lemma ringD:
  assumes "ring q c"
  shows "length (evque q) = 128" "length (valque q) = 128" "getix q < 128" "length c \<le> 128"
    "cells q = c @ replicate (128 - length c) free_cell" "putix q = (getix q + length c) mod 128" "list_all cell_ok c"
  using assms by (simp_all add: ring_def)

lemma ring_cell:
  assumes "ring q c" "k < 128"
  shows "(c @ replicate (128 - length c) free_cell) ! k =
    (evque q ! ((getix q + k) mod 128), valque q ! ((getix q + k) mod 128))"
proof -
  have "cells q ! k = (evque q ! ((getix q + k) mod 128), valque q ! ((getix q + k) mod 128))"
    using assms(2) ringD(1,2) [OF assms(1)] by (simp add: cells_def nth_rotate)
  then show ?thesis by (simp add: ringD(5) [OF assms(1)])
qed

lemma ring_slot:
  assumes "ring q c" "k < length c"
  shows "evque q ! ((getix q + k) mod 128) = fst (c ! k)" "valque q ! ((getix q + k) mod 128) = snd (c ! k)"
  using ring_cell [OF assms(1), of k] assms(2) ringD(4) [OF assms(1)] by (auto simp: nth_append)

lemma ring_head:
  assumes "ring q (x # c)"
  shows "evque q ! getix q = fst x" "valque q ! getix q = snd x"
  using ring_slot [OF assms, of 0] assms by (auto simp: ring_def)

lemma ring_room:
  assumes "ring q c" "length c < 128"
  shows "evque q ! putix q = EVENTQEMPTY"
  using ring_cell [OF assms(1), of "length c"] assms(2) ringD(6) [OF assms(1)] by (simp add: nth_append)

lemma ring_full:
  assumes "ring q c" "length c = 128"
  shows "evque q ! putix q \<noteq> EVENTQEMPTY"
proof -
  obtain x c' where "c = x # c'" using assms(2) by (cases c) auto
  moreover have "putix q = getix q" using assms by (auto simp: ring_def)
  ultimately show ?thesis
    using assms ring_head [of q x c'] cell_ok_not_empty [of x] by (auto simp: ring_def)
qed

lemma ring_empty:
  assumes "ring q []"
  shows "evque q ! getix q = EVENTQEMPTY"
  using ring_room [OF assms] assms by (simp add: ring_def)

lemma ringSpace_list:
  assumes "ring q c"
  shows "ringSpace q = 128 - length c"
proof (cases "length c < 128")
  case True
  then show ?thesis
  proof (cases "getix q + length c < 128")
    case False
    have "putix q = getix q + length c - 128"
      using True False ringD(3,6) [OF assms] le_mod_geq [of 128 "getix q + length c"] by simp
    then show ?thesis
      using True False ringD(3) [OF assms] ring_room [OF assms True] unfolding ringSpace_def by simp
  next
    case in_order: True
    then have "putix q = getix q + length c" using ringD(6) [OF assms] by simp
    then show ?thesis
      using in_order True ring_room [OF assms True] unfolding ringSpace_def by simp
  qed
next
  case False
  then show ?thesis using assms ring_full [OF assms] by (auto simp: ringSpace_def ring_def)
qed

text \<open>The three changes of the ring.\<close>

lemma ring_append:
  assumes "ring q c" "length c < 128"
  shows "ring (q\<lparr>evque := (evque q)[putix q := Event s], valque := (valque q)[putix q := Some l], putix := RNGINC (putix q)\<rparr>)
           (c @ [(Event s, Some l)])"
proof -
  have p: "putix q = (getix q + length c) mod 128" and len: "length (zip (evque q) (valque q)) = 128"
    using assms by (auto simp: ring_def)
  have "rotate (getix q) ((zip (evque q) (valque q))[putix q := (Event s, Some l)]) = (cells q)[length c := (Event s, Some l)]"
    using rotate_update [of "length c" "zip (evque q) (valque q)" "getix q" "(Event s, Some l)"] assms(2)
    unfolding len p cells_def by simp
  moreover have "replicate (128 - length c) free_cell = free_cell # replicate (128 - Suc (length c)) free_cell"
    using assms(2) by (metis Suc_diff_Suc replicate_Suc)
  ultimately show ?thesis
    using assms by (simp add: ring_def update_zip cells_def)
qed

lemma ring_update:
  assumes "ring q c" "k < length c" "cell_ok (e, l)"
  shows "ring (q\<lparr>evque := (evque q)[(getix q + k) mod 128 := e], valque := (valque q)[(getix q + k) mod 128 := l]\<rparr>) (c[k := (e, l)])"
proof -
  have len: "length (zip (evque q) (valque q)) = 128"
    using assms by (auto simp: ring_def)
  have "rotate (getix q) ((zip (evque q) (valque q))[(getix q + k) mod 128 := (e, l)]) = (cells q)[k := (e, l)]"
    using rotate_update [of k "zip (evque q) (valque q)" "getix q" "(e, l)"] assms(1,2)
    unfolding len cells_def by (simp add: ring_def)
  then show ?thesis
    using assms by (simp add: ring_def update_zip cells_def list_update_append list_all_length nth_list_update)
qed

lemma ring_take:
  assumes "ring q (x # c)"
  shows "ring (q\<lparr>evque := (evque q)[getix q := EVENTQEMPTY], valque := (valque q)[getix q := None], getix := RNGINC (getix q)\<rparr>) c"
proof -
  let ?z = "zip (evque q) (valque q)" and ?g = "getix q"
  have len: "length ?z = 128" and g: "?g < 128"
    using assms by (auto simp: ring_def)
  have "rotate ?g (?z[?g := free_cell]) = (cells q)[0 := free_cell]"
    using rotate_update [of 0 ?z ?g free_cell] g unfolding len cells_def by simp
  also have "\<dots> = free_cell # c @ replicate (127 - length c) free_cell"
    using assms by (simp add: ring_def)
  finally have "rotate (Suc ?g) (?z[?g := free_cell]) = (c @ replicate (127 - length c) free_cell) @ [free_cell]"
    by (simp add: rotate_Suc)
  moreover have "rotate (RNGINC ?g) (?z[?g := free_cell]) = rotate (Suc ?g) (?z[?g := free_cell])"
    using g len rotate_conv_mod [of "Suc ?g" "?z[?g := free_cell]"] by (simp add: RNGINC_mod)
  moreover have "replicate (127 - length c) free_cell @ [free_cell] = replicate (128 - length c) free_cell"
    using ringD(4) [OF assms] by (simp add: replicate_append_same Suc_diff_le flip: replicate_Suc)
  ultimately show ?thesis
    using assms by (simp add: ring_def update_zip cells_def RNGINC_mod mod_simps)
qed

section \<open>What the list says of a subscription\<close>

fun lives :: "cell list \<Rightarrow> nat list" where
  "lives [] = []"
| "lives ((Event s, l) # c) = s # lives c"
| "lives (x # c) = lives c"

fun pending :: "nat \<Rightarrow> cell list \<Rightarrow> db_field_log list" where
  "pending s [] = []"
| "pending s ((e, l) # c) = (if e = Event s then the l # pending s c else pending s c)"

definition holders :: "cell list \<Rightarrow> nat" where
  "holders c = length (filter (\<lambda>x. fst x = canceledEvent) c)"

definition drop_sub :: "nat \<Rightarrow> cell list \<Rightarrow> cell list" where
  "drop_sub s = map (\<lambda>x. if fst x = Event s then (canceledEvent, None) else x)"

lemma lives_append [simp]: "lives (c @ d) = lives c @ lives d"
  by (induction c rule: lives.induct) auto

lemma pending_append [simp]: "pending s (c @ d) = pending s c @ pending s d"
  by (induction c rule: pending.induct) auto

lemma in_lives: "s \<in> set (lives c) \<longleftrightarrow> Event s \<in> fst ` set c"
  by (induction c rule: lives.induct) auto

lemma length_pending: "length (pending s c) = count_list (lives c) s"
  by (induction c rule: lives.induct) auto

lemma pending_Nil [simp]: "pending s c = [] \<longleftrightarrow> s \<notin> set (lives c)"
  using length_pending [of s c] count_list_0_iff [of "lives c" s] by auto

lemma length_lives: "list_all cell_ok c \<Longrightarrow> length (lives c) + holders c = length c"
  by (induction c rule: lives.induct) (auto simp: holders_def)

lemma holders_simps [simp]:
  "holders [] = 0" "holders (x # c) = (if fst x = canceledEvent then 1 else 0) + holders c"
  "holders (c @ d) = holders c + holders d"
  by (auto simp: holders_def)

lemma drop_sub_simps [simp]:
  "drop_sub s [] = []" "drop_sub s (x # c) = (if fst x = Event s then (canceledEvent, None) else x) # drop_sub s c"
  "drop_sub s (c @ d) = drop_sub s c @ drop_sub s d" "length (drop_sub s c) = length c"
  by (auto simp: drop_sub_def)

lemma lives_drop_sub: "lives (drop_sub s c) = filter (\<lambda>t. t \<noteq> s) (lives c)"
  by (induction c rule: lives.induct) auto

lemma pending_drop_sub: "pending t (drop_sub s c) = (if t = s then [] else pending t c)"
  by (induction c rule: lives.induct) auto

text \<open>The counters of a subscription: \<open>pLastLog\<close> points to its last cell.\<close>

definition lastpos :: "nat \<Rightarrow> cell list \<Rightarrow> nat \<Rightarrow> bool" where
  "lastpos s c j \<longleftrightarrow> j < length c \<and> fst (c ! j) = Event s \<and> s \<notin> set (lives (drop (Suc j) c))"

definition sub_ok :: "nat \<Rightarrow> cell list \<Rightarrow> nat \<Rightarrow> evSubscrip \<Rightarrow> bool" where
  "sub_ok g c s p \<longleftrightarrow> npend p = count_list (lives c) s \<and>
     (if npend p = 0 then pLastLog p = None else \<exists>j. lastpos s c j \<and> pLastLog p = Some ((g + j) mod 128))"

definition qinv :: "event_que \<Rightarrow> cell list \<Rightarrow> bool" where
  "qinv q c \<longleftrightarrow> ring q c \<and> (\<forall>s p. subs q s = Some p \<longrightarrow> sub_ok (getix q) c s p) \<and> set (lives c) \<subseteq> dom (subs q) \<and>
     nDuplicates q + card (set (lives c)) = length (lives c) \<and> nCanceled q = holders c"

lemma qinvD:
  assumes "qinv q c"
  shows "ring q c" "\<And>s p. subs q s = Some p \<Longrightarrow> sub_ok (getix q) c s p" "set (lives c) \<subseteq> dom (subs q)"
    "nDuplicates q + card (set (lives c)) = length (lives c)" "nCanceled q = holders c"
  using assms by (auto simp: qinv_def)

lemma qinv_init: "qinv create_ev_que []"
  by (simp add: qinv_def ring_def create_ev_que_def cells_def zip_replicate)

text \<open>The last cell of a subscription, seen in the list of its pending logs.\<close>

lemma lastpos_split:
  assumes "lastpos s c j" "list_all cell_ok c"
  obtains xs l ys where "c = xs @ (Event s, Some l) # ys" "length xs = j" "s \<notin> set (lives ys)"
proof -
  have j: "j < length c" "fst (c ! j) = Event s" "s \<notin> set (lives (drop (Suc j) c))"
    using assms(1) by (auto simp: lastpos_def)
  then have "cell_ok (c ! j)" using assms(2) by (simp add: list_all_length)
  then obtain l where "c ! j = (Event s, Some l)"
    using j(2) by (cases "c ! j" rule: cell_ok.cases) auto
  then show thesis
    using that [of "take j c" l "drop (Suc j) c"] j id_take_nth_drop [OF j(1)] by simp
qed

lemma lives_concat: "lives c = concat (map (\<lambda>e. case e of Event s \<Rightarrow> [s] | _ \<Rightarrow> []) (map fst c))"
  by (induction c rule: lives.induct) auto

lemma lives_fst: "map fst c = map fst d \<Longrightarrow> lives c = lives d"
  unfolding lives_concat by simp

lemma sub_ok_fst:
  assumes "map fst c = map fst d"
  shows "sub_ok g c s p = sub_ok g d s p"
proof -
  have "length c = length d" using assms map_eq_imp_length_eq by blast
  moreover have "lives (drop n c) = lives (drop n d)" for n
    by (rule lives_fst) (simp add: assms flip: drop_map)
  moreover have "j < length c \<Longrightarrow> fst (c ! j) = fst (d ! j)" for j
    using assms \<open>length c = length d\<close> by (metis nth_map)
  ultimately have "lastpos s c = lastpos s d"
    unfolding lastpos_def fun_eq_iff by auto
  then show ?thesis
    unfolding sub_ok_def lives_fst [OF assms] by simp
qed

lemma lastpos_append: "lastpos t c j \<Longrightarrow> t \<noteq> s \<Longrightarrow> lastpos t (c @ [(Event s, l)]) j"
  by (simp add: lastpos_def nth_append)

lemma lastpos_new: "lastpos s (c @ [(Event s, l)]) (length c)"
  by (simp add: lastpos_def)

lemma sub_ok_append:
  assumes "sub_ok g c t p" "t \<noteq> s"
  shows "sub_ok g (c @ [(Event s, l)]) t p"
proof -
  have "count_list (lives (c @ [(Event s, l)])) t = count_list (lives c) t" using assms(2) by simp
  then show ?thesis
    using assms(1) lastpos_append [OF _ assms(2), of c _ l] unfolding sub_ok_def by (metis (no_types))
qed

lemma sub_ok_new:
  assumes "sub_ok g c s p"
  shows "sub_ok g (c @ [(Event s, l)]) s (p\<lparr>pLastLog := Some ((g + length c) mod 128), npend := npend p + 1\<rparr>)"
proof -
  have "count_list (lives (c @ [(Event s, l)])) s = count_list (lives c) s + 1" by simp
  then show ?thesis
    using assms lastpos_new [of s c l] unfolding sub_ok_def by fastforce
qed

section \<open>Posting\<close>

fun replace_last :: "nat \<Rightarrow> db_field_log \<Rightarrow> cell list \<Rightarrow> cell list" where
  "replace_last s l [] = []"
| "replace_last s l (x # c) =
     (if fst x = Event s \<and> s \<notin> set (lives c) then (Event s, Some l) # c else x # replace_last s l c)"

text \<open>What posting means: a log that says nothing new is dropped; the last pending log is replaced when the client is
  in flow control mode or 96 cells are taken; otherwise the log is appended, for which there must be room.\<close>

definition post_list :: "bool \<Rightarrow> nat \<Rightarrow> db_field_log \<Rightarrow> cell list \<Rightarrow> cell list option" where
  "post_list flow s l c =
     (if pending s c \<noteq> [] \<and> pfl_rec (last (pending s c)) \<and> pfl_rec l then Some c
      else if pending s c \<noteq> [] \<and> (flow \<or> 96 \<le> length c) then Some (replace_last s l c)
      else if length c < 128 then Some (c @ [(Event s, Some l)]) else None)"

lemma replace_last_split:
  "s \<notin> set (lives ys) \<Longrightarrow> replace_last s l (xs @ (Event s, l') # ys) = xs @ (Event s, Some l) # ys"
  by (induction xs) auto

text \<open>What the operations leave of a subscription.\<close>

definition flags :: "event_que \<Rightarrow> nat \<rightharpoonup> bool \<times> bool" where
  "flags q s = map_option (\<lambda>p. (user_sub p, callBackInProgress p)) (subs q s)"

definition keeps :: "event_que \<Rightarrow> event_que \<Rightarrow> bool" where
  "keeps q q' \<longleftrightarrow> flags q' = flags q \<and> quota q' = quota q"

lemma dom_flags: "dom (flags q) = dom (subs q)"
  by (auto simp: flags_def)

lemma flags_upd: "subs q s = Some p \<Longrightarrow> user_sub p' = user_sub p \<Longrightarrow> callBackInProgress p' = callBackInProgress p \<Longrightarrow>
  subs q' = (subs q)(s \<mapsto> p') \<Longrightarrow> flags q' = flags q"
  by (auto simp: flags_def fun_eq_iff)

lemma last_log:
  assumes "qinv q c" "subs q s = Some p" "0 < npend p"
  obtains xs l ys where "c = xs @ (Event s, Some l) # ys" "s \<notin> set (lives ys)"
    "pLastLog p = Some ((getix q + length xs) mod 128)" "valque q ! the (pLastLog p) = Some l" "last (pending s c) = l"
proof -
  obtain j where j: "lastpos s c j" "pLastLog p = Some ((getix q + j) mod 128)"
    using qinvD(2) [OF assms(1,2)] assms(3) by (auto simp: sub_ok_def)
  obtain xs l ys where c: "c = xs @ (Event s, Some l) # ys" "length xs = j" "s \<notin> set (lives ys)"
    using lastpos_split [OF j(1) ringD(7) [OF qinvD(1) [OF assms(1)]]] by blast
  moreover have "c ! j = (Event s, Some l)" "j < length c"
    using nth_append_length [of xs "(Event s, Some l)" ys] c(1,2) by auto
  then have "valque q ! ((getix q + j) mod 128) = Some l"
    using ring_slot(2) [OF qinvD(1) [OF assms(1)], of j] by simp
  ultimately show thesis using that j(2) by auto
qed

lemma npend_pending: "qinv q c \<Longrightarrow> subs q s = Some p \<Longrightarrow> npend p = length (pending s c)"
  using qinvD(2) [of q c s p] by (simp add: sub_ok_def length_pending)

lemma queue_ignores:
  assumes "qinv q c" "subs q s = Some p" "pending s c \<noteq> []" "pfl_rec (last (pending s c))" "pfl_rec l"
  shows "db_queue_event_log flow s l q = Some (q, False)"
proof -
  have "0 < npend p" using npend_pending [OF assms(1,2)] assms(3) by (metis length_greater_0_conv)
  then obtain xs l' ys where "c = xs @ (Event s, Some l') # ys" "pLastLog p = Some ((getix q + length xs) mod 128)"
    "valque q ! the (pLastLog p) = Some l'" "last (pending s c) = l'"
    using last_log [OF assms(1,2)] by metis
  then show ?thesis using assms \<open>0 < npend p\<close> by (simp add: db_queue_event_log_def)
qed

lemma queue_replaces:
  assumes inv: "qinv q c" "subs q s = Some p" and pend: "pending s c \<noteq> []" "\<not> (pfl_rec (last (pending s c)) \<and> pfl_rec l)"
    and full: "flow \<or> 96 \<le> length c"
  shows "\<exists>q'. db_queue_event_log flow s l q = Some (q', False) \<and> qinv q' (replace_last s l c) \<and> keeps q q'"
proof -
  have np: "0 < npend p" using npend_pending [OF inv] pend(1) by (metis length_greater_0_conv)
  obtain xs l' ys where c: "c = xs @ (Event s, Some l') # ys" "s \<notin> set (lives ys)"
    and last: "pLastLog p = Some ((getix q + length xs) mod 128)" "valque q ! the (pLastLog p) = Some l'" "last (pending s c) = l'"
    using last_log [OF inv np] by metis
  let ?i = "(getix q + length xs) mod 128" and ?c = "xs @ (Event s, Some l) # ys"
  define q' where "q' = q\<lparr>valque := (valque q)[?i := Some l], subs := (subs q)(s \<mapsto> p\<lparr>nreplace := nreplace p + 1\<rparr>)\<rparr>"
  have "ringSpace q \<le> 32 \<or> flow"
    using full ringSpace_list [OF qinvD(1) [OF inv(1)]] by auto
  then have run: "db_queue_event_log flow s l q = Some (q', False)"
    using np last pend inv(2) by (auto simp: db_queue_event_log_def q'_def Let_def)
  have "(evque q)[?i := Event s] = evque q"
    using ring_slot(1) [OF qinvD(1) [OF inv(1)], of "length xs"] c by (intro list_update_same_conv [THEN iffD2])
      (auto simp: ringD(1) [OF qinvD(1) [OF inv(1)]])
  then have "ring q' ?c"
    using ring_update [OF qinvD(1) [OF inv(1)], of "length xs" "Event s" "Some l"] c by (simp add: q'_def ring_def cells_def)
  moreover have same: "map fst ?c = map fst c" using c by simp
  moreover have "sub_ok (getix q) c s (p\<lparr>nreplace := nreplace p + 1\<rparr>)"
    using qinvD(2) [OF inv] by (simp add: sub_ok_def)
  ultimately have "qinv q' ?c"
    using qinvD [OF inv(1)] sub_ok_fst [OF same] lives_fst [OF same] c(1)
    by (auto simp: qinv_def q'_def)
  moreover have "keeps q q'"
    using inv(2) by (simp add: keeps_def q'_def flags_def fun_eq_iff)
  ultimately show ?thesis
    using run replace_last_split [OF c(2)] c(1) by auto
qed

lemma queue_appends:
  assumes inv: "qinv q c" "subs q s = Some p" and room: "length c < 128"
    and new: "pending s c = [] \<or> \<not> flow \<and> length c < 96 \<and> \<not> (pfl_rec (last (pending s c)) \<and> pfl_rec l)"
  shows "\<exists>q'. db_queue_event_log flow s l q = Some (q', c = []) \<and> qinv q' (c @ [(Event s, Some l)]) \<and> keeps q q'"
proof -
  let ?p = "p\<lparr>pLastLog := Some (putix q), npend := npend p + 1\<rparr>" and ?c = "c @ [(Event s, Some l)]"
  define q' where "q' = q\<lparr>evque := (evque q)[putix q := Event s], valque := (valque q)[putix q := Some l],
    nDuplicates := (if 0 < npend p then nDuplicates q + 1 else nDuplicates q), subs := (subs q)(s \<mapsto> ?p),
    putix := RNGINC (putix q)\<rparr>"
  note r = qinvD(1) [OF inv(1)]
  have np: "npend p = length (pending s c)" by (rule npend_pending [OF inv])
  have free: "evque q ! putix q = EVENTQEMPTY" by (rule ring_room [OF r room])
  have "128 - length c = 128 \<longleftrightarrow> c = []" using room by (cases c) auto
  moreover have "\<exists>l'. valque q ! the (pLastLog p) = Some l' \<and> last (pending s c) = l' \<and> pLastLog p \<noteq> None" if "0 < npend p"
    using last_log [OF inv that] by (metis option.distinct(1))
  ultimately have run: "db_queue_event_log flow s l q = Some (q', c = [])"
    using np new inv(2) room free ringSpace_list [OF r]
    by (cases "pending s c = []") (auto simp: db_queue_event_log_def q'_def Let_def)
  have "ring q' ?c"
    using ring_append [OF r room, where s = s and l = l] by (simp add: q'_def ring_def cells_def)
  moreover have "sub_ok (getix q) ?c s ?p"
    using sub_ok_new [OF qinvD(2) [OF inv]] ringD(6) [OF r] by simp
  moreover have "nDuplicates q' + card (set (lives ?c)) = length (lives ?c)"
    using qinvD(4) [OF inv(1)] np card_insert_if [of "set (lives c)" s] by (auto simp: q'_def insert_absorb)
  ultimately have "qinv q' ?c"
    using qinvD [OF inv(1)] sub_ok_append by (auto simp: qinv_def q'_def)
  moreover have "keeps q q'"
    using inv(2) by (simp add: keeps_def q'_def flags_def fun_eq_iff)
  ultimately show ?thesis using run by auto
qed

lemma queue_overflows:
  assumes "qinv q c" "subs q s = Some p" "length c = 128" "pending s c = []"
  shows "db_queue_event_log flow s l q = None"
  using assms npend_pending [OF assms(1,2)] ring_full [OF qinvD(1) [OF assms(1)]]
  by (simp add: db_queue_event_log_def Let_def)

lemma post_refines:
  assumes "qinv q c" "subs q s = Some p"
  shows "case post_list flow s l c of
      None \<Rightarrow> db_queue_event_log flow s l q = None
    | Some c' \<Rightarrow> \<exists>q' notify. db_queue_event_log flow s l q = Some (q', notify) \<and> qinv q' c' \<and> keeps q q'"
proof (cases "post_list flow s l c")
  case None
  then have "pending s c = [] \<and> length c = 128"
    using ringD(4) [OF qinvD(1) [OF assms(1)]] by (auto simp: post_list_def split: if_splits)
  then show ?thesis using None queue_overflows [OF assms] by simp
next
  case (Some c')
  consider "pending s c \<noteq> []" "pfl_rec (last (pending s c))" "pfl_rec l"
    | "pending s c \<noteq> []" "\<not> (pfl_rec (last (pending s c)) \<and> pfl_rec l)" "flow \<or> 96 \<le> length c"
    | "pending s c = [] \<or> \<not> flow \<and> length c < 96 \<and> \<not> (pfl_rec (last (pending s c)) \<and> pfl_rec l)"
    by (metis not_le)
  then show ?thesis
  proof cases
    case 1
    then show ?thesis using Some queue_ignores [OF assms 1] assms(1) by (auto simp: post_list_def keeps_def)
  next
    case 2
    then have "c' = replace_last s l c" using Some by (auto simp: post_list_def split: if_splits)
    then show ?thesis using Some queue_replaces [OF assms 2] by auto
  next
    case 3
    then have "c' = c @ [(Event s, Some l)] \<and> length c < 128"
      using Some by (auto simp: post_list_def split: if_splits)
    then show ?thesis using Some queue_appends [OF assms _ 3] by auto
  qed
qed

section \<open>Removing\<close>

lemma event_remove_run:
  assumes "evque q ! ix = Event s" "subs q s = Some p" "1 \<le> npend p" "1 < npend p \<Longrightarrow> 1 \<le> nDuplicates q"
  shows "event_remove q ix h = Some (q\<lparr>evque := (evque q)[ix := h], valque := (valque q)[ix := None],
     nDuplicates := (if npend p = 1 then nDuplicates q else nDuplicates q - 1),
     subs := (subs q)(s \<mapsto> p\<lparr>pLastLog := (if npend p = 1 then None else pLastLog p), npend := npend p - 1\<rparr>)\<rparr>)"
  using assms by (simp add: event_remove_def Let_def)

lemma card_remove_dup:
  assumes "d + card (set (xs @ s # ys)) = length (xs @ s # ys)"
  shows "if s \<in> set (xs @ ys) then 1 \<le> d \<and> (d - 1) + card (set (xs @ ys)) = length (xs @ ys)
         else d + card (set (xs @ ys)) = length (xs @ ys)"
proof (cases "s \<in> set (xs @ ys)")
  case True
  then have "set (xs @ s # ys) = set (xs @ ys)" by auto
  then show ?thesis using True assms card_length [of "xs @ ys"] by simp
next
  case False
  then have "card (set (xs @ s # ys)) = Suc (card (set (xs @ ys)))" by simp
  then show ?thesis using False assms by simp
qed

lemma lastpos_holder:
  assumes "lastpos t (xs @ x # ys) j" "j \<noteq> length xs"
  shows "lastpos t (xs @ (canceledEvent, None) # ys) j"
proof (cases "j < length xs")
  case True
  then show ?thesis using assms(1) by (cases x; cases "fst x") (auto simp: lastpos_def nth_append)
next
  case False
  then obtain i where "j = length xs + Suc i" using assms(2) by (metis less_imp_Suc_add linorder_neqE_nat add_Suc_right)
  then show ?thesis using assms(1) by (simp add: lastpos_def nth_append)
qed

lemma lastpos_not_at:
  assumes "lastpos t (xs @ x # ys) j" "fst x \<noteq> Event t \<or> t \<in> set (lives ys)"
  shows "j \<noteq> length xs"
  using assms by (auto simp: lastpos_def)

text \<open>Removing the first cell of a subscription that is met, leaving a place holder.\<close>

lemma cancel_cell:
  assumes inv: "qinv q (xs @ (Event s, Some l) # ys)" and first: "s \<notin> set (lives xs)"
  shows "\<exists>q'. event_remove (q\<lparr>nCanceled := nCanceled q + 1\<rparr>) ((getix q + length xs) mod 128) canceledEvent = Some q' \<and>
    qinv q' (xs @ (canceledEvent, None) # ys) \<and> keeps q q' \<and> getix q' = getix q"
proof -
  let ?c = "xs @ (Event s, Some l) # ys" and ?d = "xs @ (canceledEvent, None) # ys" and ?i = "(getix q + length xs) mod 128"
  note r = qinvD(1) [OF inv]
  obtain p where p: "subs q s = Some p" using qinvD(3) [OF inv] by auto
  then have ok: "sub_ok (getix q) ?c s p" by (rule qinvD(2) [OF inv])
  then have np: "npend p = Suc (count_list (lives ys) s)"
    using first by (simp add: sub_ok_def count_list_0_iff)
  let ?p = "p\<lparr>pLastLog := (if npend p = 1 then None else pLastLog p), npend := npend p - 1\<rparr>"
  define q' where "q' = q\<lparr>evque := (evque q)[?i := canceledEvent], valque := (valque q)[?i := None], nCanceled := nCanceled q + 1,
    nDuplicates := (if npend p = 1 then nDuplicates q else nDuplicates q - 1), subs := (subs q)(s \<mapsto> ?p)\<rparr>"
  have dup: "if s \<in> set (lives xs @ lives ys) then 1 \<le> nDuplicates q \<and> nDuplicates q - 1 + card (set (lives xs @ lives ys)) = length (lives xs @ lives ys)
      else nDuplicates q + card (set (lives xs @ lives ys)) = length (lives xs @ lives ys)"
    by (rule card_remove_dup) (use qinvD(4) [OF inv] in simp)
  have more: "s \<in> set (lives ys) \<longleftrightarrow> 1 < npend p" unfolding np using count_list_0_iff [of "lives ys" s] by auto
  have "evque q ! ?i = Event s" using ring_slot(1) [OF r, of "length xs"] by simp
  then have run: "event_remove (q\<lparr>nCanceled := nCanceled q + 1\<rparr>) ?i canceledEvent = Some q'"
    using event_remove_run [of "q\<lparr>nCanceled := nCanceled q + 1\<rparr>" ?i s p canceledEvent] p np dup more by (simp add: q'_def split: if_splits)
  have "ring q' ?d"
    using ring_update [OF r, of "length xs" canceledEvent None] by (simp add: q'_def ring_def cells_def)
  moreover have "sub_ok (getix q) ?d s ?p"
    using ok np more first lastpos_not_at [of s xs "(Event s, Some l)" ys] lastpos_holder [of s xs "(Event s, Some l)" ys]
    by (fastforce simp: sub_ok_def)
  moreover have "sub_ok (getix q) ?d t p'" if "t \<noteq> s" "sub_ok (getix q) ?c t p'" for t p'
  proof -
    have "count_list (lives ?d) t = count_list (lives ?c) t" using that(1) by simp
    then show ?thesis
      using that lastpos_not_at [of t xs "(Event s, Some l)" ys] lastpos_holder [of t xs "(Event s, Some l)" ys]
      unfolding sub_ok_def by (metis fst_conv ev_slot.inject)
  qed
  moreover have "nDuplicates q' + card (set (lives ?d)) = length (lives ?d)"
    using dup more first np by (auto simp: q'_def split: if_splits)
  ultimately have "qinv q' ?d"
    using qinvD [OF inv] by (auto simp: qinv_def q'_def)
  moreover have "keeps q q'"
    using p by (simp add: keeps_def q'_def flags_def fun_eq_iff)
  ultimately show ?thesis using run by (auto simp: q'_def)
qed

lemma keeps_trans: "keeps a b \<Longrightarrow> keeps b c \<Longrightarrow> keeps a c"
  by (simp add: keeps_def)

lemma keeps_refl [simp]: "keeps q q"
  by (simp add: keeps_def)

lemma once_around:
  assumes "(g :: nat) < 128" "(g + k) mod 128 = g" "0 < k" "k \<le> 128"
  shows "k = 128"
proof (cases "g + k < 128")
  case False
  then have "(g + k) mod 128 = g + k - 128" using assms(1,4) by (simp add: le_mod_geq)
  then show ?thesis using assms(2) False by simp
qed (use assms in simp)

lemma purge_refines:
  assumes "qinv q (xs @ ys)" "s \<notin> set (lives xs)" "length xs + n = 128"
  shows "\<exists>q'. purge_loop s n ((getix q + length xs) mod 128) q = Some q' \<and> qinv q' (xs @ drop_sub s ys) \<and> keeps q q'"
  using assms
proof (induction n arbitrary: xs ys q)
  case 0
  then have "ys = []" using ringD(4) [OF qinvD(1)] by fastforce
  then show ?case using 0 by simp
next
  case (Suc n)
  note r = qinvD(1) [OF Suc.prems(1)]
  show ?case
  proof (cases ys)
    case Nil
    then have "evque q ! ((getix q + length xs) mod 128) = EVENTQEMPTY"
      using ring_room [OF r] ringD(6) [OF r] Suc.prems(3) by simp
    then show ?thesis using Suc.prems(1) Nil by simp
  next
    case (Cons y zs)
    let ?y = "if fst y = Event s then (canceledEvent, None) else y" and ?i = "(getix q + length xs) mod 128"
    have e: "evque q ! ?i = fst y" using ring_slot(1) [OF r, of "length xs"] Cons by simp
    have y: "cell_ok y" using ringD(7) [OF r] Cons by simp
    obtain q1 where step: "(if evque q ! ?i = Event s
        then if nCanceled q < 65535 then event_remove (q\<lparr>nCanceled := nCanceled q + 1\<rparr>) ?i canceledEvent else None
        else Some q) = Some q1" and q1: "qinv q1 (xs @ ?y # zs)" "keeps q q1" "getix q1 = getix q"
    proof (cases "fst y = Event s")
      case True
      then obtain l where "y = (Event s, Some l)" using y by (cases y rule: cell_ok.cases) auto
      moreover have "nCanceled q < 65535"
        using qinvD(5) [OF Suc.prems(1)] length_lives [OF ringD(7) [OF r]] ringD(4) [OF r] by simp
      ultimately show thesis
        using cancel_cell [of q xs s l zs] Suc.prems(1,2) Cons e that by auto
    next
      case False
      then show thesis using that [of q] Suc.prems(1) Cons e by simp
    qed
    have ne: "fst y \<noteq> EVENTQEMPTY" by (rule cell_ok_not_empty [OF y])
    have ys: "xs @ drop_sub s ys = (xs @ [?y]) @ drop_sub s zs" using Cons by simp
    show ?thesis
    proof (cases "RNGINC ?i = getix q1")
      case True
      then have "(getix q + Suc (length xs)) mod 128 = getix q"
        using q1(3) by simp
      then have "length xs = 127"
        using once_around [OF ringD(3) [OF r], of "Suc (length xs)"] Suc.prems(3) by simp
      then have "zs = []" using ringD(4) [OF qinvD(1) [OF q1(1)]] by simp
      then show ?thesis using True step e ne q1 Cons by simp
    next
      case False
      have "s \<notin> set (lives (xs @ [?y]))" using Suc.prems(2) by (cases y; cases "fst y") auto
      then obtain q' where "purge_loop s n ((getix q1 + length (xs @ [?y])) mod 128) q1 = Some q'"
        "qinv q' ((xs @ [?y]) @ drop_sub s zs)" "keeps q1 q'"
        using Suc.IH [of q1 "xs @ [?y]" zs] q1(1) Suc.prems(3) by auto
      then show ?thesis
        using False step e ne ys q1(2,3) keeps_trans [of q q1 q'] by auto
    qed
  qed
qed

text \<open>The flags after a subscription was changed.\<close>

lemma qinv_flag:
  assumes "qinv q c" "subs q s = Some p" "npend p' = npend p" "pLastLog p' = pLastLog p"
  shows "qinv (q\<lparr>subs := (subs q)(s \<mapsto> p')\<rparr>) c"
proof -
  have "sub_ok (getix q) c s p'" using qinvD(2) [OF assms(1,2)] assms(3,4) by (simp add: sub_ok_def)
  then show ?thesis using qinvD [OF assms(1)] by (auto simp: qinv_def)
qed

lemma cancel_refines:
  assumes inv: "qinv q c" and s: "subs q s = Some p"
  shows "\<exists>q'. cancel_purge s q = Some q' \<and> qinv q' (drop_sub s c) \<and>
    flags q' = (flags q)(s \<mapsto> (False, callBackInProgress p)) \<and> quota q' = quota q"
proof -
  let ?q = "q\<lparr>subs := (subs q)(s \<mapsto> p\<lparr>user_sub := False\<rparr>)\<rparr>"
  have inv': "qinv ?q ([] @ c)" using qinv_flag [OF inv s, of "p\<lparr>user_sub := False\<rparr>"] by simp
  have "getix ?q = (getix ?q + length []) mod 128" using ringD(3) [OF qinvD(1) [OF inv]] by simp
  then obtain q' where q': "purge_loop s 128 (getix ?q) ?q = Some q'" "qinv q' (drop_sub s c)" "keeps ?q q'"
    using purge_refines [OF inv', of s 128] by auto
  have "flags ?q = (flags q)(s \<mapsto> (False, callBackInProgress p))" by (auto simp: flags_def fun_eq_iff)
  then have f: "flags q' = (flags q)(s \<mapsto> (False, callBackInProgress p))" "quota q' = quota q"
    using q'(3) by (simp_all add: keeps_def)
  then have "flags q' s = Some (False, callBackInProgress p)" by simp
  then obtain p' where p': "subs q' s = Some p'" by (auto simp: flags_def)
  have "npend p' = 0" using npend_pending [OF q'(2) p'] by (simp add: pending_drop_sub)
  then show ?thesis using q' p' f s by (auto simp: cancel_purge_def)
qed

text \<open>The head of the list is taken.\<close>

lemma lastpos_tl: "lastpos t (x # c) j \<Longrightarrow> j \<noteq> 0 \<Longrightarrow> lastpos t c (j - 1)"
  by (cases j) (auto simp: lastpos_def)

lemma sub_ok_tl:
  assumes "sub_ok g (x # c) t p" "fst x \<noteq> Event t" "g < 128"
  shows "sub_ok (RNGINC g) c t p"
proof -
  have count: "count_list (lives (x # c)) t = count_list (lives c) t" using assms(2) by (cases x; cases "fst x") auto
  have "j \<noteq> 0 \<and> (g + j) mod 128 = (RNGINC g + (j - 1)) mod 128" if "lastpos t (x # c) j" for j
    using that assms(2,3) by (cases j) (auto simp: lastpos_def RNGINC_mod mod_simps)
  then show ?thesis
    using assms(1) lastpos_tl [of t x c] unfolding sub_ok_def count by (metis (no_types))
qed

lemma take_holder:
  assumes "qinv q (x # c)" "fst x = canceledEvent"
  shows "0 < nCanceled q"
    "qinv (q\<lparr>evque := (evque q)[getix q := EVENTQEMPTY], valque := (valque q)[getix q := None],
       getix := RNGINC (getix q), nCanceled := nCanceled q - 1\<rparr>) c"
proof -
  let ?q = "q\<lparr>evque := (evque q)[getix q := EVENTQEMPTY], valque := (valque q)[getix q := None],
       getix := RNGINC (getix q), nCanceled := nCanceled q - 1\<rparr>"
  have "ring ?q c" using ring_take [OF qinvD(1) [OF assms(1)]] by (simp add: ring_def cells_def)
  moreover have "lives (x # c) = lives c" using assms(2) by (cases x) auto
  moreover have "sub_ok (RNGINC (getix q)) c t p" if "subs q t = Some p" for t p
    using sub_ok_tl [OF qinvD(2) [OF assms(1) that]] assms(2) ringD(3) [OF qinvD(1) [OF assms(1)]] by simp
  ultimately show "qinv ?q c" using qinvD(3-5) [OF assms(1)] assms(2) by (simp add: qinv_def)
  show "0 < nCanceled q" using qinvD(5) [OF assms(1)] assms(2) by simp
qed

lemma take_event:
  assumes inv: "qinv q ((Event s, Some l) # c)"
  shows "\<exists>q'. event_remove q (getix q) EVENTQEMPTY = Some q' \<and> valque q ! getix q = Some l \<and>
    qinv (q'\<lparr>getix := RNGINC (getix q)\<rparr>) c \<and> keeps q q'"
proof -
  let ?g = "getix q"
  note r = qinvD(1) [OF inv]
  obtain p where p: "subs q s = Some p" using qinvD(3) [OF inv] by auto
  then have ok: "sub_ok ?g ((Event s, Some l) # c) s p" by (rule qinvD(2) [OF inv])
  then have np: "npend p = Suc (count_list (lives c) s)" by (simp add: sub_ok_def)
  let ?p = "p\<lparr>pLastLog := (if npend p = 1 then None else pLastLog p), npend := npend p - 1\<rparr>"
  define q' where "q' = q\<lparr>evque := (evque q)[?g := EVENTQEMPTY], valque := (valque q)[?g := None],
    nDuplicates := (if npend p = 1 then nDuplicates q else nDuplicates q - 1), subs := (subs q)(s \<mapsto> ?p)\<rparr>"
  have dup: "if s \<in> set ([] @ lives c) then 1 \<le> nDuplicates q \<and> nDuplicates q - 1 + card (set ([] @ lives c)) = length ([] @ lives c)
      else nDuplicates q + card (set ([] @ lives c)) = length ([] @ lives c)"
    by (rule card_remove_dup) (use qinvD(4) [OF inv] in simp)
  have more: "s \<in> set (lives c) \<longleftrightarrow> 1 < npend p" unfolding np using count_list_0_iff [of "lives c" s] by auto
  have slot: "evque q ! ?g = Event s" "valque q ! ?g = Some l" using ring_head [OF r] by simp_all
  have run: "event_remove q ?g EVENTQEMPTY = Some q'"
    using event_remove_run [of q ?g s p EVENTQEMPTY] slot p np dup more by (simp add: q'_def split: if_splits)
  have g: "?g < 128" by (rule ringD(3) [OF r])
  have "ring (q'\<lparr>getix := RNGINC ?g\<rparr>) c"
    using ring_take [OF r] by (simp add: q'_def ring_def cells_def)
  moreover have "sub_ok (RNGINC ?g) c s ?p"
  proof (cases "npend p = 1")
    case False
    then obtain j where j: "lastpos s ((Event s, Some l) # c) j" "pLastLog p = Some ((?g + j) mod 128)"
      using ok np by (auto simp: sub_ok_def)
    have "j \<noteq> 0" using j(1) more np False by (cases j) (auto simp: lastpos_def)
    moreover from this have "(?g + j) mod 128 = (RNGINC ?g + (j - 1)) mod 128"
      using g by (cases j) (auto simp: RNGINC_mod mod_simps)
    ultimately show ?thesis
      using lastpos_tl [OF j(1)] j(2) np False unfolding sub_ok_def by auto
  qed (use np in \<open>simp add: sub_ok_def\<close>)
  moreover have "sub_ok (RNGINC ?g) c t p'" if "t \<noteq> s" "subs q t = Some p'" for t p'
    using sub_ok_tl [OF qinvD(2) [OF inv that(2)]] that(1) g by simp
  moreover have "nDuplicates q' + card (set (lives c)) = length (lives c)"
    using dup more np by (auto simp: q'_def split: if_splits)
  ultimately have "qinv (q'\<lparr>getix := RNGINC ?g\<rparr>) c"
    using qinvD(3,5) [OF inv] by (auto simp: qinv_def q'_def)
  moreover have "keeps q q'"
    using p by (simp add: keeps_def q'_def flags_def fun_eq_iff)
  ultimately show ?thesis using run slot by auto
qed

end
