(* ===== verification/DbEventLaws.thy ===== *)
theory DbEventLaws
  imports DbEventRing "HOL-Library.Sublist"
begin

text \<open>
  The event queue in every history of posts, subscriptions, cancels and deliveries (DbEvent): what the queue
  guarantees to a subscription, that no assertion of the code fails as long as subscriptions are made while no
  canceled entry is left, and a history in which one does fail.
\<close>

section \<open>The lists of a history\<close>

lemma replace_last_simps [simp]:
  "length (replace_last s l c) = length c" "lives (replace_last s l c) = lives c" "holders (replace_last s l c) = holders c"
  "t \<noteq> s \<Longrightarrow> pending t (replace_last s l c) = pending t c"
  by (induction c rule: lives.induct) auto

lemma pending_replace_last: "s \<in> set (lives c) \<Longrightarrow> pending s (replace_last s l c) = butlast (pending s c) @ [l]"
  by (induction c rule: lives.induct) auto

fun posted :: "nat \<Rightarrow> ev_label list \<Rightarrow> db_field_log list" where
  "posted s (Post t l # tr) = (if t = s then posted s tr @ [l] else posted s tr)"
| "posted s (Add t # tr) = (if t = s then [] else posted s tr)"
| "posted s (a # tr) = posted s tr"
| "posted s [] = []"

fun delivered :: "nat \<Rightarrow> ev_label list \<Rightarrow> db_field_log list" where
  "delivered s (Deliver t l # tr) = (if t = s then delivered s tr @ [l] else delivered s tr)"
| "delivered s (Add t # tr) = (if t = s then [] else delivered s tr)"
| "delivered s (a # tr) = delivered s tr"
| "delivered s [] = []"

text \<open>The logs that a client has seen or will see, against the logs that were posted: a subsequence that ends
  with the newest log, or with a log that makes the client read the record, as the newest does.\<close>

definition up_to_date :: "db_field_log list \<Rightarrow> db_field_log list \<Rightarrow> bool" where
  "up_to_date seen all \<longleftrightarrow> subseq seen all \<and>
     (all \<noteq> [] \<longrightarrow> seen \<noteq> [] \<and> (last seen = last all \<or> pfl_rec (last seen) \<and> pfl_rec (last all)))"

lemma up_to_date_Nil [simp]: "up_to_date [] []"
  by (simp add: up_to_date_def)

lemma up_to_date_append: "up_to_date xs ys \<Longrightarrow> up_to_date (xs @ [l]) (ys @ [l])"
  by (simp add: up_to_date_def)

lemma up_to_date_replace:
  assumes "up_to_date (xs @ zs) ys" "zs \<noteq> []"
  shows "up_to_date (xs @ butlast zs @ [l]) (ys @ [l])"
proof -
  have "xs @ zs = (xs @ butlast zs) @ [last zs]" using assms(2) by simp
  then have "subseq (xs @ butlast zs) ys"
    using assms(1) unfolding up_to_date_def by (metis list_emb_append2 subseq_order.trans subseq_rev_drop_many subseq_order.order_refl)
  then have "subseq ((xs @ butlast zs) @ [l]) (ys @ [l])" by (rule list_emb_append_mono) simp
  then show ?thesis by (simp add: up_to_date_def)
qed

lemma up_to_date_ignore:
  assumes "up_to_date (xs @ zs) ys" "zs \<noteq> []" "pfl_rec (last zs)" "pfl_rec l"
  shows "up_to_date (xs @ zs) (ys @ [l])"
  using assms by (auto simp: up_to_date_def intro: list_emb_append2)

section \<open>The invariant\<close>

definition users :: "event_que \<Rightarrow> nat set" where
  "users q = {s. \<exists>b. flags q s = Some (True, b)}"

text \<open>Beyond 96 cells, each further cell is the first of a subscription or a place holder. With \<open>clean\<close>
  there is a free cell for every subscription that has none in the queue.\<close>

definition room_ok :: "bool \<Rightarrow> event_que \<Rightarrow> cell list \<Rightarrow> bool" where
  "room_ok clean q c \<longleftrightarrow> length c \<le> 96 + card (set (lives c)) + holders c \<and>
     (clean \<longrightarrow> length c + card (users q) \<le> 127 + card (set (lives c)))"

definition quota_ok :: "event_que \<Rightarrow> bool" where
  "quota_ok q \<longleftrightarrow> finite (dom (flags q)) \<and> quota q = 4 * card (dom (flags q)) \<and> card (dom (flags q)) \<le> 31"

text \<open>\<open>callBackInProgress\<close> is set just while the event task runs the callback of a subscription that is not
  freed.\<close>

definition busy :: "ev_state \<Rightarrow> nat \<Rightarrow> bool" where
  "busy st s \<longleftrightarrow> (\<exists>l. reader st = Callback s l) \<and> pSuicideEvent st \<noteq> Some s"

definition reader_ok :: "ev_state \<Rightarrow> bool" where
  "reader_ok st \<longleftrightarrow> (\<forall>s b f. flags (que st) s = Some (b, f) \<longrightarrow> f = busy st s) \<and> (\<forall>s. busy st s \<longrightarrow> s \<in> dom (flags (que st))) \<and>
     (\<forall>s. pSuicideEvent st = Some s \<longrightarrow> (\<exists>l. reader st = Callback s l))"

definition ev_inv :: "bool \<Rightarrow> ev_label list \<Rightarrow> ev_state \<Rightarrow> cell list \<Rightarrow> bool" where
  "ev_inv clean tr st c \<longleftrightarrow> qinv (que st) c \<and> quota_ok (que st) \<and> set (lives c) \<subseteq> users (que st) \<and>
     room_ok clean (que st) c \<and> reader_ok st \<and>
     (\<forall>s \<in> users (que st). up_to_date (delivered s tr @ pending s c) (posted s tr))"

lemma ev_invD:
  assumes "ev_inv clean tr st c"
  shows "qinv (que st) c" "quota_ok (que st)" "set (lives c) \<subseteq> users (que st)" "room_ok clean (que st) c" "reader_ok st"
    "\<And>s. s \<in> users (que st) \<Longrightarrow> up_to_date (delivered s tr @ pending s c) (posted s tr)"
  using assms by (auto simp: ev_inv_def)

lemma keeps_simps:
  assumes "keeps q q'"
  shows "flags q' = flags q" "users q' = users q" "quota_ok q' = quota_ok q" "room_ok clean q' c = room_ok clean q c"
  using assms by (auto simp: keeps_def users_def quota_ok_def room_ok_def)

lemma users_flags: "users q \<subseteq> dom (flags q)"
  by (auto simp: users_def)

lemma users_bound:
  assumes "quota_ok q"
  shows "finite (users q)" "card (users q) \<le> 31"
proof -
  show "finite (users q)" using users_flags assms finite_subset unfolding quota_ok_def by blast
  have "card (users q) \<le> card (dom (flags q))" using users_flags assms card_mono unfolding quota_ok_def by blast
  then show "card (users q) \<le> 31" using assms unfolding quota_ok_def by linarith
qed

lemma users_iff: "s \<in> users q \<longleftrightarrow> (\<exists>p. subs q s = Some p \<and> user_sub p)"
  by (auto simp: users_def flags_def)

section \<open>The steps\<close>

lemma inv_init: "ev_inv clean [] ev_init []"
proof -
  have "flags create_ev_que = Map.empty" by (simp add: flags_def create_ev_que_def fun_eq_iff)
  moreover have "quota create_ev_que = 0" by (simp add: create_ev_que_def)
  ultimately show ?thesis
    by (auto simp: ev_inv_def ev_init_def qinv_init quota_ok_def room_ok_def reader_ok_def busy_def users_def)
qed

lemma flags_add: "flags (add_sub s p q) = (flags q)(s \<mapsto> (user_sub p, callBackInProgress p))"
  by (auto simp: flags_def add_sub_def fun_eq_iff)

lemma qinv_add:
  assumes "qinv q c" "subs q s = None"
  shows "qinv (add_sub s (new_sub ch fld sel) q) c"
proof -
  have "s \<notin> set (lives c)" using assms(2) qinvD(3) [OF assms(1)] by auto
  then have "sub_ok (getix q) c s (new_sub ch fld sel)" by (simp add: sub_ok_def new_sub_def count_list_0_iff)
  then show ?thesis using qinvD [OF assms(1)] by (auto simp: qinv_def add_sub_def ring_def cells_def)
qed

lemma inv_add:
  assumes inv: "ev_inv clean tr st c" and q: "has_quota (que st)" and s: "subs (que st) s = None"
    and clean: "clean \<Longrightarrow> nCanceled (que st) = 0"
  shows "ev_inv clean (Add s # tr) (st\<lparr>que := add_sub s (new_sub ch fld sel) (que st)\<rparr>) c"
proof -
  let ?q = "add_sub s (new_sub ch fld sel) (que st)"
  note i = ev_invD [OF inv]
  have fresh: "s \<notin> dom (flags (que st))" "s \<notin> users (que st)" "s \<notin> set (lives c)"
    using s i(3) users_flags [of "que st"] by (auto simp: dom_flags)
  have "pending s c = []" using fresh(3) pending_Nil by blast
  then have none: "up_to_date (pending s c) []" by (simp only: up_to_date_Nil)
  have f: "flags ?q = (flags (que st))(s \<mapsto> (True, False))" by (simp add: flags_add new_sub_def)
  then have u: "users ?q = insert s (users (que st))" by (auto simp: users_def)
  have "card (dom (flags (que st))) \<le> 30" using q i(2) by (simp add: has_quota_def quota_ok_def)
  then have "quota_ok ?q" using i(2) fresh(1) f by (simp add: quota_ok_def add_sub_def)
  moreover have "room_ok clean ?q c"
  proof -
    have "length c + card (users ?q) \<le> 127 + card (set (lives c))" if clean
    proof -
      have "holders c = 0" using clean [OF that] qinvD(5) [OF i(1)] by simp
      moreover have "card (users ?q) \<le> 31" using users_bound(2) [OF \<open>quota_ok ?q\<close>] .
      ultimately show ?thesis using i(4) by (simp add: room_ok_def)
    qed
    then show ?thesis using i(4) by (simp add: room_ok_def)
  qed
  moreover have "\<not> busy st s" using i(5) fresh(1) by (auto simp: reader_ok_def)
  then have "reader_ok (st\<lparr>que := ?q\<rparr>)"
    using i(5) f by (auto simp: reader_ok_def busy_def)
  moreover have "up_to_date (delivered t (Add s # tr) @ pending t c) (posted t (Add s # tr))" if "t \<in> users ?q" for t
    using that i(6) [of t] fresh u none by (cases "t = s") auto
  ultimately show ?thesis
    using qinv_add [OF i(1) s] i(3) u by (auto simp: ev_inv_def)
qed

lemma post_list_lives: "post_list flow s l c = Some c' \<Longrightarrow> set (lives c') \<subseteq> insert s (set (lives c))"
  by (auto simp: post_list_def split: if_splits)

lemma room_post:
  assumes "room_ok clean q c" "post_list flow s l c = Some c'" "quota_ok q"
  shows "room_ok clean q c'"
proof -
  have "card (users q) \<le> 31" by (rule users_bound(2) [OF assms(3)])
  then show ?thesis
    using assms(1,2) by (auto simp: room_ok_def post_list_def insert_absorb split: if_splits)
qed

lemma post_up_to_date:
  assumes "post_list flow s l c = Some c'" "up_to_date (xs @ pending s c) ys"
  shows "up_to_date (xs @ pending s c') (ys @ [l])"
proof -
  consider "c' = c" "pending s c \<noteq> []" "pfl_rec (last (pending s c))" "pfl_rec l"
    | "c' = replace_last s l c" "pending s c \<noteq> []" | "c' = c @ [(Event s, Some l)]"
    using assms(1) by (auto simp: post_list_def split: if_splits)
  then show ?thesis
  proof cases
    case 1
    then show ?thesis using assms(2) up_to_date_ignore by simp
  next
    case 2
    then have "pending s c' = butlast (pending s c) @ [l]" using pending_replace_last [of s c l] by simp
    then show ?thesis using up_to_date_replace [OF assms(2) 2(2)] by simp
  next
    case 3
    then show ?thesis using up_to_date_append [OF assms(2), of l] by simp
  qed
qed

lemma post_list_other: "post_list flow s l c = Some c' \<Longrightarrow> t \<noteq> s \<Longrightarrow> pending t c' = pending t c"
  by (auto simp: post_list_def split: if_splits)

lemma post_Some:
  assumes "qinv q c" "subs q s = Some p" "db_queue_event_log flow s l q = Some (q', notify)"
  obtains c' where "post_list flow s l c = Some c'" "qinv q' c'" "keeps q q'"
  using post_refines [OF assms(1,2), of flow l] assms(3) by (auto split: option.splits)

lemma inv_post:
  assumes inv: "ev_inv clean tr st c" and s: "subs (que st) s = Some p" "user_sub p"
    and run: "db_queue_event_log flow s l (que st) = Some (q', notify)"
  shows "\<exists>c'. ev_inv clean (Post s l # tr) (st\<lparr>que := q'\<rparr>) c'"
proof -
  note i = ev_invD [OF inv]
  obtain c' where c': "post_list flow s l c = Some c'" "qinv q' c'" and k: "keeps (que st) q'"
    using post_Some [OF i(1) s(1) run] .
  have "s \<in> users (que st)" using s by (auto simp: users_iff)
  then have "set (lives c') \<subseteq> users q'" using post_list_lives [OF c'(1)] i(3) keeps_simps(2) [OF k] by auto
  moreover have "up_to_date (delivered t (Post s l # tr) @ pending t c') (posted t (Post s l # tr))" if "t \<in> users q'" for t
    using that i(6) [of t] post_up_to_date [OF c'(1)] post_list_other [OF c'(1)] keeps_simps(2) [OF k] by (cases "t = s") auto
  moreover have "room_ok clean q' c'" using room_post [OF i(4) c'(1) i(2)] keeps_simps(4) [OF k] by simp
  moreover have "reader_ok (st\<lparr>que := q'\<rparr>)" using i(5) keeps_simps(1) [OF k] by (simp add: reader_ok_def busy_def)
  ultimately have "ev_inv clean (Post s l # tr) (st\<lparr>que := q'\<rparr>) c'"
    using c'(2) i(2) keeps_simps(3) [OF k] by (simp add: ev_inv_def)
  then show ?thesis ..
qed

text \<open>A cancel: the purge, and the release of the subscription.\<close>

lemma card_filter_lives: "card (set (filter (\<lambda>t. t \<noteq> s) xs)) = card (set xs) - (if s \<in> set xs then 1 else 0)"
proof -
  have "set (filter (\<lambda>t. t \<noteq> s) xs) = set xs - {s}" by auto
  then show ?thesis by (simp add: card_Diff_singleton_if)
qed

lemma holders_drop_sub: "holders (drop_sub s c) = holders c + count_list (lives c) s"
  by (induction c rule: lives.induct) auto

lemma room_cancel:
  assumes "room_ok clean q c" "users q' = users q - {s}" "s \<in> users q" "finite (users q)"
  shows "room_ok clean q' (drop_sub s c)"
proof -
  have "card (users q') = card (users q) - 1" "0 < card (users q)"
    using assms(2-4) by (auto simp: card_gt_0_iff)
  moreover have "s \<in> set (lives c) \<Longrightarrow> 0 < count_list (lives c) s \<and> 0 < card (set (lives c))"
    using count_list_0_iff [of "lives c" s] by (auto simp: card_gt_0_iff)
  ultimately show ?thesis
    using assms(1) by (auto simp: room_ok_def holders_drop_sub lives_drop_sub card_filter_lives simp del: set_filter)
qed

lemma cancel_Some:
  assumes "qinv q c" "subs q s = Some p" "cancel_purge s q = Some q'"
  shows "qinv q' (drop_sub s c)" "flags q' = (flags q)(s \<mapsto> (False, callBackInProgress p))" "quota q' = quota q"
  using cancel_refines [OF assms(1,2)] assms(3) by auto

lemma inv_cancel:
  assumes inv: "ev_inv clean tr st c" and s: "subs (que st) s = Some p" "user_sub p"
    and run: "cancel_purge s (que st) = Some q'"
  shows "ev_inv clean (Cancel s # tr) (st\<lparr>que := q'\<rparr>) (drop_sub s c)"
proof -
  note i = ev_invD [OF inv] and c = cancel_Some [OF ev_invD(1) [OF inv] s(1) run]
  have fs: "flags (que st) s = Some (True, callBackInProgress p)" using s by (simp add: flags_def)
  have u: "users q' = users (que st) - {s}" using c(2) by (auto simp: users_def)
  have su: "s \<in> users (que st)" using s by (auto simp: users_iff)
  have "dom (flags q') = dom (flags (que st))" using c(2) fs by auto
  then have "quota_ok q'" using i(2) c(3) by (simp add: quota_ok_def)
  moreover have "reader_ok (st\<lparr>que := q'\<rparr>)" using i(5) c(2) fs by (auto simp: reader_ok_def busy_def)
  moreover have "up_to_date (delivered t (Cancel s # tr) @ pending t (drop_sub s c)) (posted t (Cancel s # tr))" if "t \<in> users q'" for t
    using that i(6) [of t] u by (simp add: pending_drop_sub)
  moreover have "set (lives (drop_sub s c)) \<subseteq> users q'" using i(3) u by (auto simp: lives_drop_sub)
  ultimately show ?thesis
    using c(1) room_cancel [OF i(4) u su users_bound(1) [OF i(2)]] by (simp add: ev_inv_def)
qed

lemma flags_free: "flags (cancel_free s q) = (flags q)(s := None)"
  by (auto simp: flags_def cancel_free_def fun_eq_iff)

lemma inv_free:
  assumes inv: "ev_inv clean tr st c" and s: "subs (que st) s = Some p" "\<not> user_sub p"
    and sui: "if busy st s then su = Some s else su = pSuicideEvent st"
  shows "ev_inv clean tr (st\<lparr>que := cancel_free s (que st), pSuicideEvent := su\<rparr>) c"
proof -
  let ?q = "cancel_free s (que st)"
  note i = ev_invD [OF inv]
  have fs: "flags (que st) s = Some (False, callBackInProgress p)" using s by (simp add: flags_def)
  have u: "users ?q = users (que st)" using fs by (auto simp: users_def flags_free)
  have "dom (flags ?q) = dom (flags (que st)) - {s}" "s \<in> dom (flags (que st))" using fs by (auto simp: flags_free)
  then have "quota_ok ?q" using i(2) by (auto simp: quota_ok_def cancel_free_def card_Diff_singleton)
  moreover have "s \<notin> set (lives c)" using i(3) s by (auto simp: users_iff)
  then have "qinv ?q c" using qinvD [OF i(1)] by (auto simp: qinv_def cancel_free_def ring_def cells_def)
  moreover have "reader_ok (st\<lparr>que := ?q, pSuicideEvent := su\<rparr>)"
    using i(5) sui by (auto simp: reader_ok_def busy_def flags_free split: if_splits)
  ultimately show ?thesis
    using i u by (simp add: ev_inv_def room_ok_def)
qed

text \<open>The event task.\<close>

lemma read_next_Nil: "qinv (que st) [] \<Longrightarrow> read_next st = Some (st\<lparr>reader := Outside\<rparr>)"
  using ring_empty [OF qinvD(1)] by (simp add: read_next_def Let_def)

lemma read_next_holder:
  assumes "qinv (que st) (x # c)" "fst x = canceledEvent"
  shows "\<exists>q'. read_next st = Some (st\<lparr>que := q'\<rparr>) \<and> qinv q' c \<and> keeps (que st) q'"
proof -
  have e: "evque (que st) ! getix (que st) = canceledEvent"
    using ring_head(1) [OF qinvD(1) [OF assms(1)]] assms(2) by simp
  let ?q = "(que st)\<lparr>evque := (evque (que st))[getix (que st) := EVENTQEMPTY], valque := (valque (que st))[getix (que st) := None],
       getix := RNGINC (getix (que st)), nCanceled := nCanceled (que st) - 1\<rparr>"
  show ?thesis
    using e take_holder [OF assms] by (intro exI [of _ ?q]) (simp add: read_next_def Let_def keeps_def flags_def fun_eq_iff)
qed

lemma read_next_event:
  assumes inv: "qinv (que st) ((Event s, Some l) # c)" and s: "s \<in> users (que st)"
  shows "\<exists>q'. read_next st = Some (st\<lparr>que := q', reader := Callback s l\<rparr>) \<and> qinv q' c \<and>
    flags q' = (flags (que st))(s \<mapsto> (True, True)) \<and> quota q' = quota (que st)"
proof -
  obtain q1 where q1: "event_remove (que st) (getix (que st)) EVENTQEMPTY = Some q1" "valque (que st) ! getix (que st) = Some l"
    "qinv (q1\<lparr>getix := RNGINC (getix (que st))\<rparr>) c" "keeps (que st) q1"
    using take_event [OF inv] by blast
  have "evque (que st) ! getix (que st) = Event s"
    using ring_head(1) [OF qinvD(1) [OF inv]] by simp
  moreover obtain p where p: "subs q1 s = Some p" "user_sub p"
    using s keeps_simps(2) [OF q1(4)] users_iff [of s q1] by auto
  moreover have "qinv (q1\<lparr>getix := RNGINC (getix (que st)), subs := (subs q1)(s \<mapsto> p\<lparr>callBackInProgress := True\<rparr>)\<rparr>) c"
    using qinv_flag [OF q1(3), of s p "p\<lparr>callBackInProgress := True\<rparr>"] p by simp
  moreover have "flags (q1\<lparr>getix := RNGINC (getix (que st)), subs := (subs q1)(s \<mapsto> p\<lparr>callBackInProgress := True\<rparr>)\<rparr>)
      = (flags (que st))(s \<mapsto> (True, True))"
    using p keeps_simps(1) [OF q1(4)] by (auto simp: flags_def fun_eq_iff)
  ultimately show ?thesis
    using q1 by (auto simp: read_next_def Let_def keeps_def)
qed

lemma room_take:
  assumes "room_ok clean q (x # c)" "users q' = users q" "cell_ok x"
  shows "room_ok clean q' c"
proof (cases x rule: cell_ok.cases)
  case (3 s l)
  then have "card (set (lives (x # c))) \<le> Suc (card (set (lives c)))" by (simp add: card_insert_if)
  then show ?thesis using assms 3 unfolding room_ok_def by auto
qed (use assms in \<open>auto simp: room_ok_def\<close>)

lemma read_end_run:
  assumes "reader_ok st" "reader st = Callback s l"
  shows "\<exists>q' su. read_end st = Some (st\<lparr>que := q', reader := Reading, pSuicideEvent := su\<rparr>) \<and>
    reader_ok (st\<lparr>que := q', reader := Reading, pSuicideEvent := su\<rparr>) \<and> quota q' = quota (que st) \<and>
    users q' = users (que st) \<and> dom (flags q') = dom (flags (que st)) \<and> (\<forall>c. qinv (que st) c \<longrightarrow> qinv q' c)"
proof (cases "pSuicideEvent st = Some s")
  case True
  then have "reader_ok (st\<lparr>que := que st, reader := Reading, pSuicideEvent := None\<rparr>)"
    using assms by (auto simp: reader_ok_def busy_def)
  then show ?thesis using True assms(2) by (intro exI [of _ "que st"] exI [of _ None]) (simp add: read_end_def)
next
  case False
  then have "busy st s" using assms(2) by (auto simp: busy_def)
  then obtain p where p: "subs (que st) s = Some p" using assms(1) by (auto simp: reader_ok_def dom_flags)
  let ?q = "(que st)\<lparr>subs := (subs (que st))(s \<mapsto> p\<lparr>callBackInProgress := False\<rparr>)\<rparr>"
  have f: "flags ?q = (flags (que st))(s \<mapsto> (user_sub p, False))" by (auto simp: flags_def fun_eq_iff)
  have fs: "flags (que st) s = Some (user_sub p, callBackInProgress p)" using p by (simp add: flags_def)
  have nos: "pSuicideEvent st = None" using assms False by (cases "pSuicideEvent st") (auto simp: reader_ok_def)
  have "reader_ok (st\<lparr>que := ?q, reader := Reading, pSuicideEvent := pSuicideEvent st\<rparr>)"
    using assms f by (auto simp: reader_ok_def busy_def nos)
  moreover have "users ?q = users (que st)" "dom (flags ?q) = dom (flags (que st))"
    using f fs by (auto simp: users_def)
  moreover have "qinv (que st) c \<longrightarrow> qinv ?q c" for c
    using qinv_flag [of "que st" c s p "p\<lparr>callBackInProgress := False\<rparr>"] p by simp
  ultimately show ?thesis
    using False assms(2) p by (intro exI [of _ ?q] exI [of _ "pSuicideEvent st"]) (simp add: read_end_def)
qed

lemma inv_enter: "ev_inv clean tr st c \<Longrightarrow> reader st = Outside \<Longrightarrow> ev_inv clean (Internal # tr) (read_enter flow st) c"
  by (auto simp: ev_inv_def read_enter_def reader_ok_def busy_def)

lemma inv_end:
  assumes inv: "ev_inv clean tr st c" and run: "read_end st = Some st'"
  shows "ev_inv clean (Internal # tr) st' c"
proof -
  note i = ev_invD [OF inv]
  obtain s l where "reader st = Callback s l" using run by (auto simp: read_end_def split: ev_reader.splits)
  from read_end_run [OF i(5) this] obtain q' su where
    e: "st' = st\<lparr>que := q', reader := Reading, pSuicideEvent := su\<rparr>" "reader_ok st'" "quota q' = quota (que st)"
      "users q' = users (que st)" "dom (flags q') = dom (flags (que st))" "qinv q' c"
    using run i(1) by auto
  then show ?thesis using i by (simp add: ev_inv_def quota_ok_def room_ok_def)
qed

lemma inv_next:
  assumes inv: "ev_inv clean tr st c" and r: "reader st = Reading"
  shows "\<exists>st' c'. read_next st = Some st' \<and>
    (case reader st' of Callback s l \<Rightarrow> ev_inv clean (Deliver s l # tr) st' c' | _ \<Rightarrow> ev_inv clean (Internal # tr) st' c')"
proof -
  note i = ev_invD [OF inv]
  show ?thesis
  proof (cases c)
    case Nil
    then have "ev_inv clean (Internal # tr) (st\<lparr>reader := Outside\<rparr>) c"
      using inv r by (auto simp: ev_inv_def reader_ok_def busy_def)
    then show ?thesis using read_next_Nil [of st] i(1) Nil by (intro exI [of _ "st\<lparr>reader := Outside\<rparr>"] exI [of _ c]) simp
  next
    case (Cons x c')
    then have x: "cell_ok x" using ringD(7) [OF qinvD(1) [OF i(1)]] by simp
    show ?thesis
    proof (cases "fst x = canceledEvent")
      case True
      obtain q' where q': "read_next st = Some (st\<lparr>que := q'\<rparr>)" "qinv q' c'" "keeps (que st) q'"
        using read_next_holder [of st x c'] i(1) True Cons by auto
      have "lives c' = lives c" "\<And>t. pending t c' = pending t c" using True Cons by (cases x; simp)+
      then have "ev_inv clean (Internal # tr) (st\<lparr>que := q'\<rparr>) c'"
        using i q' keeps_simps [OF q'(3)] room_take [of clean "que st" x c' q'] x Cons
        by (auto simp: ev_inv_def reader_ok_def busy_def)
      then show ?thesis using q'(1) r by (intro exI [of _ "st\<lparr>que := q'\<rparr>"] exI [of _ c']) simp
    next
      case False
      then obtain s l where sl: "x = (Event s, Some l)" using x by (cases x rule: cell_ok.cases) auto
      then have s: "s \<in> users (que st)" using i(3) Cons by auto
      then obtain q' where q': "read_next st = Some (st\<lparr>que := q', reader := Callback s l\<rparr>)" "qinv q' c'"
        "flags q' = (flags (que st))(s \<mapsto> (True, True))" "quota q' = quota (que st)"
        using read_next_event [of st s l c'] i(1) Cons sl by auto
      have u: "users q' = users (que st)" and d: "dom (flags q') = dom (flags (que st))"
        using q'(3) s by (auto simp: users_def)
      have "pSuicideEvent st = None" using i(5) r by (cases "pSuicideEvent st") (auto simp: reader_ok_def)
      then have "reader_ok (st\<lparr>que := q', reader := Callback s l\<rparr>)"
        using i(5) q'(3) r by (auto simp: reader_ok_def busy_def)
      moreover have "delivered t (Deliver s l # tr) @ pending t c' = delivered t tr @ pending t c" for t
        using Cons sl by simp
      ultimately have "ev_inv clean (Deliver s l # tr) (st\<lparr>que := q', reader := Callback s l\<rparr>) c'"
        using i q'(2,4) u d room_take [of clean "que st" x c' q'] x Cons sl
        by (simp add: ev_inv_def quota_ok_def)
      then show ?thesis using q'(1) by (intro exI [of _ "st\<lparr>que := q', reader := Callback s l\<rparr>"] exI [of _ c']) simp
    qed
  qed
qed

text \<open>All together.\<close>

lemma inv_step:
  assumes inv: "ev_inv clean tr st c" and step: "ev_step st a st'" and clean: "clean \<and> (\<exists>s. a = Add s) \<Longrightarrow> nCanceled (que st) = 0"
  shows "\<exists>c'. ev_inv clean (a # tr) st' c'"
  using step
proof cases
  case (free s p)
  note i = ev_invD [OF inv]
  have "flags (que st) s = Some (user_sub p, callBackInProgress p)" using free(3) by (simp add: flags_def)
  then have "\<not> busy st s" using free(5) i(5) by (auto simp: reader_ok_def)
  then have "ev_inv clean tr (st\<lparr>que := cancel_free s (que st), pSuicideEvent := pSuicideEvent st\<rparr>) c"
    using inv_free [OF inv free(3,4)] by simp
  then show ?thesis using free(1,2) by (auto simp: ev_inv_def)
next
  case (suicide s pfl p q')
  have c: "ev_inv clean (Cancel s # tr) (st\<lparr>que := q'\<rparr>) (drop_sub s c)"
    using inv_cancel [OF inv suicide(5,6,7)] .
  have "flags q' s = Some (False, callBackInProgress p)"
    using cancel_Some(2) [OF ev_invD(1) [OF inv] suicide(5,7)] by simp
  then obtain p' where p': "subs q' s = Some p'" "\<not> user_sub p'" by (auto simp: flags_def)
  have "busy (st\<lparr>que := q'\<rparr>) s" using suicide(3,4) by (simp add: busy_def)
  then have "ev_inv clean (Cancel s # tr) (st\<lparr>que := cancel_free s q', pSuicideEvent := Some s\<rparr>) (drop_sub s c)"
    using inv_free [OF c, of s p' "Some s"] p' by simp
  then show ?thesis using suicide(1,2) by blast
next
  case (deliver s l)
  then show ?thesis using inv_next [OF inv deliver(2)] by auto
next
  case skip
  then show ?thesis using inv_next [OF inv skip(2)] by (auto split: ev_reader.splits)
next
  case (add s ch fld sel)
  then show ?thesis using inv_add [OF inv add(3,4)] clean by blast
next
  case (post s p flow l q' notify)
  then show ?thesis using inv_post [OF inv post(3,4,5)] by auto
next
  case (cancel s p q')
  then show ?thesis using inv_cancel [OF inv cancel(3,4,5)] by auto
next
  case (enter flow)
  then show ?thesis using inv_enter [OF inv enter(3)] by auto
next
  case "end"
  then show ?thesis using inv_end [OF inv] by auto
qed

lemma inv_run: "ev_run clean tr st \<Longrightarrow> \<exists>c. ev_inv clean tr st c"
proof (induction rule: ev_run.induct)
  case start
  then show ?case using inv_init by blast
next
  case (step tr st a st')
  then obtain c where "ev_inv clean tr st c" by blast
  then show ?case using inv_step [OF _ step.hyps(2,3)] by blast
qed

section \<open>The contents of the queue\<close>

definition contents :: "event_que \<Rightarrow> cell list" where
  "contents q = takeWhile (\<lambda>x. fst x \<noteq> EVENTQEMPTY) (cells q)"

lemma contents_eq:
  assumes "ring q c"
  shows "contents q = c"
proof -
  have "x \<in> set c \<Longrightarrow> fst x \<noteq> EVENTQEMPTY" for x
    using ringD(7) [OF assms] cell_ok_not_empty by (auto simp: list_all_iff)
  then have "takeWhile (\<lambda>x. fst x \<noteq> EVENTQEMPTY) (c @ replicate (128 - length c) free_cell) = c"
    by (cases "128 - length c") (simp_all add: takeWhile_append2)
  then show ?thesis using ringD(5) [OF assms] by (simp add: contents_def)
qed

text \<open>The events of a list, in order.\<close>

definition deliveries :: "cell list \<Rightarrow> (nat \<times> db_field_log) list" where
  "deliveries c = concat (map (\<lambda>(e, l). case e of Event s \<Rightarrow> [(s, the l)] | _ \<Rightarrow> []) c)"

lemma deliveries_simps [simp]:
  "deliveries [] = []" "deliveries ((Event s, l) # c) = (s, the l) # deliveries c"
  "fst x = canceledEvent \<Longrightarrow> deliveries (x # c) = deliveries c"
  by (auto simp: deliveries_def split: prod.splits)

lemma ev_run_inv:
  assumes "ev_run clean tr st"
  obtains "ev_inv clean tr st (contents (que st))"
  using inv_run [OF assms] contents_eq [OF qinvD(1) [OF ev_invD(1)]] by metis

lemma event_read_loop_run:
  assumes "ev_inv clean tr st c" "reader st = Reading" "length c < n"
  shows "\<exists>st'. event_read_loop n st out = Some (st', out @ deliveries c) \<and> reader st' = Outside \<and> qinv (que st') []"
  using assms
proof (induction n arbitrary: tr st c out)
  case (Suc n)
  note i = ev_invD [OF Suc.prems(1)]
  show ?case
  proof (cases c)
    case Nil
    then show ?thesis using read_next_Nil [of st] i(1) by simp
  next
    case (Cons x c')
    then have x: "cell_ok x" using ringD(7) [OF qinvD(1) [OF i(1)]] by simp
    obtain st1 c1 where n: "read_next st = Some st1"
      "case reader st1 of Callback s l \<Rightarrow> ev_inv clean (Deliver s l # tr) st1 c1 | _ \<Rightarrow> ev_inv clean (Internal # tr) st1 c1"
      using inv_next [OF Suc.prems(1,2)] by blast
    have c1: "c1 = contents (que st1)"
      using n(2) contents_eq [OF qinvD(1) [OF ev_invD(1)]] by (cases "reader st1") auto
    show ?thesis
    proof (cases "fst x = canceledEvent")
      case True
      then obtain q' where q': "st1 = st\<lparr>que := q'\<rparr>" "qinv q' c'"
        using read_next_holder [of st x c'] i(1) Cons n(1) by auto
      then have "c1 = c'" using c1 contents_eq [OF qinvD(1) [OF q'(2)]] by simp
      then have "ev_inv clean (Internal # tr) st1 c'" using n(2) q'(1) Suc.prems(2) by simp
      then show ?thesis
        using Suc.IH [of "Internal # tr" st1 c' out] n(1) q'(1) Suc.prems(2,3) Cons True by simp
    next
      case False
      then obtain s l where sl: "x = (Event s, Some l)" using x by (cases x rule: cell_ok.cases) auto
      then obtain q' where q': "st1 = st\<lparr>que := q', reader := Callback s l\<rparr>" "qinv q' c'"
        using read_next_event [of st s l c'] i(1,3) Cons n(1) by auto
      then have "c1 = c'" using c1 contents_eq [OF qinvD(1) [OF q'(2)]] by simp
      then have inv1: "ev_inv clean (Deliver s l # tr) st1 c'" using n(2) q'(1) by simp
      obtain st2 where st2: "read_end st1 = Some st2" "reader st2 = Reading"
        using read_end_run [OF ev_invD(5) [OF inv1], of s l] q'(1) by auto
      have "ev_inv clean (Internal # Deliver s l # tr) st2 c'" by (rule inv_end [OF inv1 st2(1)])
      then obtain st' where "event_read_loop n st2 (out @ [(s, l)]) = Some (st', (out @ [(s, l)]) @ deliveries c')"
        "reader st' = Outside" "qinv (que st') []"
        using Suc.IH [of "Internal # Deliver s l # tr" st2 c' "out @ [(s, l)]"] st2(2) Suc.prems(3) Cons by auto
      then show ?thesis using n(1) q'(1) st2(1) Cons sl by simp
    qed
  qed
qed simp

section \<open>Histories with the event task at rest\<close>

text \<open>A reachable queue with the given subscriptions and contents, outside \<open>event_read\<close>.\<close>

definition at_rest :: "nat set \<Rightarrow> cell list \<Rightarrow> bool" where
  "at_rest U c \<longleftrightarrow> (\<exists>tr st. ev_run False tr st \<and> reader st = Outside \<and> pSuicideEvent st = None \<and>
     qinv (que st) c \<and> users (que st) = U \<and> dom (flags (que st)) = U)"

lemma restI:
  assumes "ev_run False tr st" "reader st = Outside" "pSuicideEvent st = None" "qinv (que st) c" "users (que st) = U"
    "dom (flags (que st)) = U"
  shows "at_rest U c"
  unfolding at_rest_def using assms by (intro exI conjI)

lemma rest_init: "at_rest {} []"
proof -
  have "flags create_ev_que = Map.empty" by (simp add: flags_def create_ev_que_def fun_eq_iff)
  then show ?thesis
    by (intro restI [OF ev_run.start]) (simp_all add: ev_init_def qinv_init users_def)
qed

lemma rest_add:
  assumes "at_rest U c" "s \<notin> U" "4 * card U + holders c < 124"
  shows "at_rest (insert s U) c"
proof -
  obtain tr st where st: "ev_run False tr st" "reader st = Outside" "pSuicideEvent st = None"
    "qinv (que st) c" "users (que st) = U" "dom (flags (que st)) = U"
    using assms(1) by (auto simp: at_rest_def)
  have none: "subs (que st) s = None" using st(6) assms(2) by (auto simp: dom_flags)
  obtain c0 where "ev_inv False tr st c0" using inv_run [OF st(1)] by blast
  then have "has_quota (que st)"
    using ev_invD(2) [of False tr st c0] st(6) assms(3) qinvD(5) [OF st(4)] by (simp add: has_quota_def quota_ok_def)
  let ?st = "st\<lparr>que := add_sub s (new_sub undefined 0 1) (que st)\<rparr>"
  have run: "ev_run False (Add s # tr) ?st"
    by (rule ev_run.step [OF st(1) ev_step.add [OF \<open>has_quota (que st)\<close> none]]) simp
  have "flags (que ?st) = (flags (que st))(s \<mapsto> (True, False))" by (simp add: flags_add new_sub_def)
  then have "users (que ?st) = insert s U" "dom (flags (que ?st)) = insert s U"
    using st(5,6) by (auto simp: users_def)
  moreover have "qinv (que ?st) c" using qinv_add [OF st(4) none] by simp
  ultimately show ?thesis using st(2,3) by (intro restI [OF run]) simp_all
qed

lemma rest_post:
  assumes "at_rest U c" "s \<in> U" "post_list False s l c = Some c'"
  shows "at_rest U c'"
proof -
  obtain tr st where st: "ev_run False tr st" "reader st = Outside" "pSuicideEvent st = None"
    "qinv (que st) c" "users (que st) = U" "dom (flags (que st)) = U"
    using assms(1) by (auto simp: at_rest_def)
  obtain p where p: "subs (que st) s = Some p" "user_sub p" using st(5) assms(2) users_iff by blast
  obtain q' notify where q': "db_queue_event_log False s l (que st) = Some (q', notify)" "qinv q' c'" "keeps (que st) q'"
    using post_refines [OF st(4) p(1), of False l] assms(3) by auto
  have run: "ev_run False (Post s l # tr) (st\<lparr>que := q'\<rparr>)"
    by (rule ev_run.step [OF st(1) ev_step.post [OF p q'(1)]]) simp
  then show ?thesis
    using st q'(2) keeps_simps [OF q'(3)] by (intro restI [OF run]) simp_all
qed

lemma rest_cancel:
  assumes "at_rest U c" "s \<in> U"
  shows "at_rest (U - {s}) (drop_sub s c)"
proof -
  obtain tr st where st: "ev_run False tr st" "reader st = Outside" "pSuicideEvent st = None"
    "qinv (que st) c" "users (que st) = U" "dom (flags (que st)) = U"
    using assms(1) by (auto simp: at_rest_def)
  obtain p where p: "subs (que st) s = Some p" "user_sub p" using st(5) assms(2) users_iff by blast
  obtain q' where q': "cancel_purge s (que st) = Some q'" "qinv q' (drop_sub s c)"
    "flags q' = (flags (que st))(s \<mapsto> (False, callBackInProgress p))"
    using cancel_refines [OF st(4) p(1)] by blast
  have run: "ev_run False (Cancel s # tr) (st\<lparr>que := q'\<rparr>)"
    by (rule ev_run.step [OF st(1) ev_step.cancel [OF p q'(1)]]) simp
  obtain c0 where inv: "ev_inv False (Cancel s # tr) (st\<lparr>que := q'\<rparr>) c0" using inv_run [OF run] by blast
  have "flags q' s = Some (False, callBackInProgress p)" using q'(3) by simp
  then obtain p' where p': "subs q' s = Some p'" "\<not> user_sub p'" by (auto simp: flags_def)
  moreover have "flags q' s = Some (user_sub p', callBackInProgress p')" using p' by (simp add: flags_def)
  then have "\<not> callBackInProgress p'"
    using ev_invD(5) [OF inv] st(2) by (auto simp: reader_ok_def busy_def)
  ultimately have "ev_step (st\<lparr>que := q'\<rparr>) (Free s) (st\<lparr>que := cancel_free s q'\<rparr>)"
    using ev_step.free [of "st\<lparr>que := q'\<rparr>" s p'] by simp
  then have freed: "ev_run False (Free s # Cancel s # tr) (st\<lparr>que := cancel_free s q'\<rparr>)"
    by (rule ev_run.step [OF run]) simp
  have "flags (cancel_free s q') = (flags (que st))(s := None)"
    using q'(3) by (simp add: flags_free)
  then have "users (cancel_free s q') = U - {s}" "dom (flags (cancel_free s q')) = U - {s}"
    using st(5,6) by (auto simp: users_def)
  moreover have "s \<notin> set (lives (drop_sub s c))" by (simp add: lives_drop_sub)
  then have "qinv (cancel_free s q') (drop_sub s c)"
    using qinvD [OF q'(2)] by (auto simp: qinv_def cancel_free_def ring_def cells_def)
  ultimately show ?thesis using st(2,3) by (intro restI [OF freed]) simp_all
qed

text \<open>31 subscriptions; the first fills 96 cells; the others post once and are canceled, which leaves 30 place
  holders; of three new subscriptions, two find a free cell.\<close>

definition value_log :: db_field_log where
  "value_log = \<lparr>pfl_rec = False, pfl_type = DBF_DOUBLE, pfl_size = 8, pfl_elements = 1, pfl_field = Doubles [],
     pfl_stat = 0, pfl_sevr = 0, pfl_time = (0, 0)\<rparr>"

abbreviation "of_sub s \<equiv> (Event s, Some value_log)"

lemma value_log_simp [simp]: "\<not> pfl_rec value_log"
  by (simp add: value_log_def)

lemma holders_of_sub: "holders (replicate n (of_sub s)) = 0" "holders (map (\<lambda>k. of_sub (f k)) ks) = 0"
  by (auto simp: holders_def filter_empty_conv)

lemma adds_31: "n \<le> 31 \<Longrightarrow> at_rest {..<n} []"
proof (induction n)
  case (Suc n)
  then show ?case using rest_add [of "{..<n}" "[]" n] by (simp add: lessThan_Suc)
qed (simp add: rest_init)

lemma posts_96: "n \<le> 96 \<Longrightarrow> at_rest {..<31} (replicate n (of_sub 0))"
proof (induction n)
  case (Suc n)
  have "pending 0 (replicate k (of_sub 0)) = replicate k value_log" for k by (induction k) auto
  then have "post_list False 0 value_log (replicate n (of_sub 0)) = Some (replicate n (of_sub 0) @ [of_sub 0])"
    using Suc.prems by (cases n) (simp_all add: post_list_def last_replicate del: replicate.simps)
  then show ?case using rest_post [of "{..<31}" "replicate n (of_sub 0)" 0] Suc by (simp add: replicate_append_same)
qed (use adds_31 [of 31] in simp)

abbreviation "full_96 \<equiv> replicate 96 (of_sub 0)"

lemma lives_of_sub: "lives (replicate n (of_sub s)) = replicate n s" "lives (map (\<lambda>k. of_sub (f k)) ks) = map f ks"
  by (induction n, auto, induction ks, auto)

lemma posts_30: "n \<le> 30 \<Longrightarrow> at_rest {..<31} (full_96 @ map (\<lambda>k. of_sub (Suc k)) [0..<n])"
proof (induction n)
  case (Suc n)
  let ?c = "full_96 @ map (\<lambda>k. of_sub (Suc k)) [0..<n]"
  have "Suc n \<notin> set (lives ?c)" by (auto simp: lives_of_sub)
  then have "pending (Suc n) ?c = []" using pending_Nil by blast
  then have "post_list False (Suc n) value_log ?c = Some (?c @ [of_sub (Suc n)])"
    using Suc.prems by (simp add: post_list_def)
  then show ?case using rest_post [of "{..<31}" ?c "Suc n"] Suc by simp
qed (use posts_96 [of 96] in simp)

abbreviation "after_cancels n \<equiv> full_96 @ map (\<lambda>k. if k < n then (canceledEvent, None) else of_sub (Suc k)) [0..<30]"

lemma drop_sub_after: "drop_sub (Suc n) (after_cancels n) = after_cancels (Suc n)"
proof -
  have "drop_sub (Suc n) full_96 = full_96" by (auto simp: drop_sub_def map_replicate_const)
  then show ?thesis by (auto simp: drop_sub_def)
qed

lemma cancels_30: "n \<le> 30 \<Longrightarrow> at_rest ({..<31} - {1..n}) (after_cancels n)"
proof (induction n)
  case 0
  have "after_cancels 0 = full_96 @ map (\<lambda>k. of_sub (Suc k)) [0..<30]" by simp
  then show ?case using posts_30 [of 30] by simp
next
  case (Suc n)
  then have "at_rest (({..<31} - {1..n}) - {Suc n}) (drop_sub (Suc n) (after_cancels n))"
    by (intro rest_cancel) auto
  moreover have "({..<31} - {1..n}) - {Suc n} = {..<31} - {1..Suc n}" by auto
  ultimately show ?case unfolding drop_sub_after by simp
qed

lemma rest_overflow: "\<exists>c. at_rest {0, 1, 2, 3} c \<and> length c = 128 \<and> 3 \<notin> set (lives c)"
proof -
  define h where "h = after_cancels 30"
  have h: "h = full_96 @ map (\<lambda>k. (canceledEvent, None)) [0..<30]" by (simp add: h_def)
  have "lives (map (\<lambda>k. (canceledEvent, None)) ks) = []" "holders (map (\<lambda>k. (canceledEvent, None)) ks) = length ks" for ks :: "nat list"
    by (induction ks) auto
  then have lh: "lives h = replicate 96 0" "holders h = 30" "length h = 126"
    unfolding h by (simp_all add: lives_of_sub holders_of_sub del: upt_Suc)
  have "{..<31} - {1..30} = {0 :: nat}" by auto
  then have "at_rest {0} h" using cancels_30 [of 30] by (simp add: h_def)
  then have "at_rest {1, 0} h" using rest_add [of "{0}" h 1] lh by simp
  then have "at_rest {2, 1, 0} h" using rest_add [of "{1, 0}" h 2] lh by simp
  then have r3: "at_rest {3, 2, 1, 0} h" using rest_add [of "{2, 1, 0}" h 3] lh by simp
  have "pending 1 h = []" using lh(1) by simp
  then have "post_list False 1 value_log h = Some (h @ [of_sub 1])" using lh(3) by (simp add: post_list_def)
  then have r4: "at_rest {3, 2, 1, 0} (h @ [of_sub 1])" by (rule rest_post [OF r3, rotated]) simp
  have "pending 2 (h @ [of_sub 1]) = []" using lh(1) by simp
  then have "post_list False 2 value_log (h @ [of_sub 1]) = Some ((h @ [of_sub 1]) @ [of_sub 2])"
    using lh(3) by (simp add: post_list_def)
  then have "at_rest {3, 2, 1, 0} ((h @ [of_sub 1]) @ [of_sub 2])" by (rule rest_post [OF r4, rotated]) simp
  moreover have "{3, 2, 1, 0} = {0, 1, 2, 3 :: nat}" by auto
  moreover have "length ((h @ [of_sub 1]) @ [of_sub 2]) = 128" "3 \<notin> set (lives ((h @ [of_sub 1]) @ [of_sub 2]))"
    using lh(1,3) by simp_all
  ultimately show ?thesis by metis
qed

section \<open>A history for the witnesses\<close>

definition ev_channel :: db_addr where
  "ev_channel = \<lparr>field = ''VAL'', field_type = DBF_DOUBLE, special_type = 0, pfldDes = None, addr_elements = 1, addr_size = 8\<rparr>"

definition one_sub :: ev_state where
  "one_sub = ev_init\<lparr>que := add_sub 0 (new_sub ev_channel 0 1) create_ev_que\<rparr>"

definition one_event :: ev_state where
  "one_event = one_sub\<lparr>que := fst (the (db_queue_event_log False 0 value_log (que one_sub)))\<rparr>"

lemma one_sub_run: "ev_run True [Add 0] one_sub"
proof -
  have "ev_step ev_init (Add 0) one_sub"
    using ev_step.add [of ev_init 0 ev_channel 0 1] by (simp add: one_sub_def ev_init_def has_quota_def create_ev_que_def)
  then show ?thesis
    by (rule ev_run.step [OF ev_run.start]) (simp add: ev_init_def create_ev_que_def)
qed

lemma one_sub_simps: "qinv (que one_sub) []" "subs (que one_sub) 0 = Some (new_sub ev_channel 0 1)" "reader one_sub = Outside"
  using qinv_add [OF qinv_init, of 0 ev_channel 0 1]
  by (simp_all add: one_sub_def ev_init_def create_ev_que_def) (simp add: add_sub_def)

lemma one_event_queue:
  "db_queue_event_log False 0 value_log (que one_sub) = Some (que one_event, True)" "qinv (que one_event) [of_sub 0]"
  "keeps (que one_sub) (que one_event)" "reader one_event = Outside"
  using queue_appends [OF one_sub_simps(1,2), of False value_log] one_sub_simps(3) by (auto simp: one_event_def)

lemma one_event_run: "ev_run True [Post 0 value_log, Add 0] one_event"
proof -
  have "one_event = one_sub\<lparr>que := que one_event\<rparr>" by (simp add: one_event_def)
  then have "ev_step one_sub (Post 0 value_log) one_event"
    using ev_step.post [OF one_sub_simps(2) _ one_event_queue(1)] by (simp add: new_sub_def)
  then show ?thesis by (rule ev_run.step [OF one_sub_run]) simp
qed

lemma one_event_simps: "contents (que one_event) = [of_sub 0]" "\<exists>p. subs (que one_event) 0 = Some p \<and> user_sub p"
proof -
  show "contents (que one_event) = [of_sub 0]" by (rule contents_eq [OF qinvD(1) [OF one_event_queue(2)]])
  have "0 \<in> users (que one_sub)" using one_sub_simps(2) by (simp add: users_iff new_sub_def)
  then have "0 \<in> users (que one_event)" using keeps_simps(2) [OF one_event_queue(3)] by simp
  then show "\<exists>p. subs (que one_event) 0 = Some p \<and> user_sub p" by (simp add: users_iff)
qed

section \<open>Properties\<close>

text \<open>C29: in every history in which subscriptions are only added while no canceled entry is left in the queue, no
  assertion of the queue fails next, whatever is posted or canceled and wherever the event task is.\<close>

theorem event_queue_never_asserts:
  assumes "ev_run True tr st"
  shows "(\<forall>s p flow l. subs (que st) s = Some p \<longrightarrow> user_sub p \<longrightarrow> db_queue_event_log flow s l (que st) \<noteq> None \<and> cancel_purge s (que st) \<noteq> None) \<and>
    (reader st = Reading \<longrightarrow> read_next st \<noteq> None) \<and> (\<forall>s l. reader st = Callback s l \<longrightarrow> read_end st \<noteq> None)"
proof -
  obtain c where inv: "ev_inv True tr st c" using inv_run [OF assms] by blast
  note i = ev_invD [OF inv]
  have "db_queue_event_log flow s l (que st) \<noteq> None" if s: "subs (que st) s = Some p" "user_sub p" for s p flow l
  proof
    assume "db_queue_event_log flow s l (que st) = None"
    then have "post_list flow s l c = None"
      using post_refines [OF i(1) s(1), of flow l] by (auto split: option.splits)
    then have "s \<notin> set (lives c)" "length c \<ge> 128" by (auto simp: post_list_def split: if_splits)
    moreover have "s \<in> users (que st)" using s by (auto simp: users_iff)
    ultimately have "card (set (lives c)) < card (users (que st))"
      using i(3) psubset_card_mono [OF users_bound(1) [OF i(2)], of "set (lives c)"] by blast
    then show False using i(4) \<open>length c \<ge> 128\<close> by (simp add: room_ok_def)
  qed
  moreover have "cancel_purge s (que st) \<noteq> None" if "subs (que st) s = Some p" for s p
    using cancel_refines [OF i(1) that] by auto
  moreover have "reader st = Reading \<Longrightarrow> read_next st \<noteq> None" using inv_next [OF inv] by auto
  moreover have "reader st = Callback s l \<Longrightarrow> read_end st \<noteq> None" for s l using read_end_run [OF i(5)] by auto
  ultimately show ?thesis by blast
qed

text \<open>C30: what a subscription has delivered and has pending is a subsequence of the logs posted to it since it was
  made, in order, and ends with the newest one (or with a log that makes the client read the record, when the
  newest does so too): replacing and ignoring logs never loses the newest value.\<close>

theorem newest_log_never_lost:
  assumes "ev_run clean tr st" "subs (que st) s = Some p" "user_sub p"
  shows "up_to_date (delivered s tr @ pending s (contents (que st))) (posted s tr)"
proof -
  obtain "ev_inv clean tr st (contents (que st))" by (rule ev_run_inv [OF assms(1)])
  moreover have "s \<in> users (que st)" using assms(2,3) by (auto simp: users_iff)
  ultimately show ?thesis by (rule ev_invD(6))
qed

text \<open>C31: posting to the ring of a reachable queue is \<open>post_list\<close> on its contents, a failed assertion included.\<close>

theorem queue_implements_list:
  assumes "ev_run clean tr st" "subs (que st) s = Some p"
  shows "map_option (\<lambda>r. contents (fst r)) (db_queue_event_log flow s l (que st)) = post_list flow s l (contents (que st))"
proof -
  obtain "ev_inv clean tr st (contents (que st))" by (rule ev_run_inv [OF assms(1)])
  from post_refines [OF ev_invD(1) [OF this] assms(2), of flow l] show ?thesis
    by (auto split: option.splits dest: contents_eq [OF qinvD(1)])
qed

text \<open>C32: left alone, the event task delivers every event of a reachable queue, in order, and leaves the queue
  empty; the iterations allowed are enough.\<close>

theorem event_read_drains:
  assumes "ev_run clean tr st" "reader st = Outside"
  shows "\<exists>st'. event_read False st = Some (st', deliveries (contents (que st))) \<and> reader st' = Outside \<and> contents (que st') = []"
proof -
  let ?c = "contents (que st)"
  obtain inv: "ev_inv clean tr st ?c" by (rule ev_run_inv [OF assms(1)])
  have "ev_inv clean (Internal # tr) (read_enter False st) ?c" by (rule inv_enter [OF inv assms(2)])
  moreover have "length ?c < 128 + 1" using ringD(4) [OF qinvD(1) [OF ev_invD(1) [OF inv]]] by simp
  ultimately obtain st' where "event_read_loop (128 + 1) (read_enter False st) [] = Some (st', [] @ deliveries ?c)"
    "reader st' = Outside" "qinv (que st') []"
    using event_read_loop_run [of clean "Internal # tr" "read_enter False st" ?c "128 + 1" "[]"] by (auto simp: read_enter_def)
  then show ?thesis
    using contents_eq [OF qinvD(1)] by (auto simp: event_read_def read_enter_def Let_def)
qed

text \<open>C33: a place holder left by a cancel keeps its cell while the quota of the subscription is given back at once, and
  the quota test counts a place holder as one cell: subscriptions made while place holders are left can meet a
  full ring, and a record that posts to one of them fails the assertion that a cell is free.\<close>

theorem canceled_entries_overflow:
  "\<exists>tr st s p. ev_run False tr st \<and> subs (que st) s = Some p \<and> user_sub p \<and> pending s (contents (que st)) = [] \<and>
     db_queue_event_log False s value_log (que st) = None"
proof -
  obtain c where c: "at_rest {0, 1, 2, 3} c" "length c = 128" "3 \<notin> set (lives c)" using rest_overflow by blast
  then obtain tr st where st: "ev_run False tr st" "qinv (que st) c" "users (que st) = {0, 1, 2, 3}" by (auto simp: at_rest_def)
  then have "3 \<in> users (que st)" by simp
  then obtain p where p: "subs (que st) 3 = Some p" "user_sub p" using users_iff by blast
  have "pending 3 c = []" using c(3) pending_Nil by blast
  then show ?thesis
    using st(1) p queue_overflows [OF st(2) p(1) c(2)] contents_eq [OF qinvD(1) [OF st(2)]] by metis
qed

section \<open>Witnesses\<close>

theorem event_queue_never_asserts_witness:
  "ev_run True [Post 0 value_log, Add 0] one_event \<and> db_queue_event_log True 0 value_log (que one_event) \<noteq> None"
  using event_queue_never_asserts [OF one_event_run] one_event_simps(2) one_event_run by blast

theorem newest_log_never_lost_witness:
  "up_to_date (delivered 0 [Post 0 value_log, Add 0] @ pending 0 [of_sub 0]) (posted 0 [Post 0 value_log, Add 0])"
proof -
  obtain p where "subs (que one_event) 0 = Some p" "user_sub p" using one_event_simps(2) by blast
  from newest_log_never_lost [OF one_event_run this] show ?thesis by (simp only: one_event_simps(1))
qed

theorem queue_implements_list_witness:
  "map_option (\<lambda>r. contents (fst r)) (db_queue_event_log False 0 value_log (que one_event)) = Some [of_sub 0, of_sub 0]"
proof -
  obtain p where "subs (que one_event) 0 = Some p" using one_event_simps(2) by blast
  from queue_implements_list [OF one_event_run this, of False value_log] show ?thesis
    by (simp add: one_event_simps(1) post_list_def)
qed

theorem event_read_drains_witness: "map_option snd (event_read False one_event) = Some [(0, value_log)]"
  using event_read_drains [OF one_event_run one_event_queue(4)] by (auto simp: one_event_simps(1))

end
