(* ===== verification/DbScan.thy ===== *)
theory DbScan
  imports EllLib DbText
begin

text \<open>
  ioc/db/dbScan.c: the lists of records to process on events, on I/O interrupts and periodically. The lists are those
  of EllLib. The scan element of a record has the number of the record as its address, so that \<open>spvt\<close> is null
  when there is no node of that address. The array of the three lists of an event, one for each priority, is at
  consecutive addresses, and so are those of an I/O interrupt source. A null pointer, or a list that is not linked
  as it should be, is \<open>None\<close>.
\<close>

section \<open>Data\<close>

abbreviation NUM_CALLBACK_PRIORITIES :: nat where "NUM_CALLBACK_PRIORITIES \<equiv> 3"
abbreviation menuScanPassive :: nat where "menuScanPassive \<equiv> 0"
abbreviation menuScanEvent :: nat where "menuScanEvent \<equiv> 1"
abbreviation menuScanI_O_Intr :: nat where "menuScanI_O_Intr \<equiv> 2"
abbreviation SCAN_1ST_PERIODIC :: nat where "SCAN_1ST_PERIODIC \<equiv> 3"

text \<open>The fields of a record that say when it is scanned.\<close>

record scan_fields =
  scan_menu :: nat
  phas :: int
  evnt :: string
  scan_prio :: nat

record event_list =
  ev_name :: string
  event_scan_lists :: nat

text \<open>
  \<open>pscan_list\<close> and \<open>modified\<close> belong to the scan elements and the scan lists; \<open>pevent_list\<close> is the chain that
  starts at \<open>pevent_list[0]\<close>, \<open>numbered_event\<close> the rest of that array; \<open>free_lists\<close> is the next address
  \<open>calloc\<close> gives to lists.
\<close>

record scan_db =
  scan_mem :: ell_mem
  pscan_list :: "nat \<Rightarrow> nat option"
  modified :: "nat \<Rightarrow> bool"
  rec_fields :: "nat \<Rightarrow> scan_fields"
  pevent_list :: "event_list list"
  numbered_event :: "nat \<Rightarrow> event_list option"
  free_lists :: nat

text \<open>
  What initialisation has made of the menu of periods, and the device support of the records: \<open>get_ioint_info\<close> is
  \<open>None\<close> for a record without the routine; it is given the command (0 to add, 1 to remove) and returns a status
  and the interrupt source, by its lists.
\<close>

record scan_env =
  nPeriodic :: nat
  papPeriodic :: "nat \<Rightarrow> nat option"
  get_ioint_info :: "nat \<Rightarrow> (nat \<Rightarrow> int \<times> nat option) option"
  scan_text :: text_env

section \<open>One list\<close>

text \<open>The loop from the last element back to one that comes before the record.\<close>

partial_function (option) place_loop :: "(nat \<Rightarrow> int) \<Rightarrow> ell_mem \<Rightarrow> int \<Rightarrow> ptr \<Rightarrow> ptr option" where
  "place_loop ph m p ptemp = (case ptemp of
     None \<Rightarrow> Some None
   | Some t \<Rightarrow> if ph t \<le> p then Some ptemp else do { q \<leftarrow> get_prev m ptemp; place_loop ph m p q })"

definition phase_of :: "scan_db \<Rightarrow> nat \<Rightarrow> int" where
  "phase_of st r = phas (rec_fields st r)"

definition get_element :: "nat \<Rightarrow> ell_mem \<Rightarrow> ell_mem" where
  "get_element r m = (if nodes m r = None then m\<lparr>nodes := (nodes m)(r \<mapsto> \<lparr>nnext = None, previous = None\<rparr>)\<rparr> else m)"

definition addToList :: "nat \<Rightarrow> nat \<Rightarrow> scan_db \<Rightarrow> scan_db option" where
  "addToList precord psl st = do {
     let m = get_element precord (scan_mem st);
     ptemp \<leftarrow> place_loop (phase_of st) m (phase_of st precord) (lasts (lists m psl));
     m \<leftarrow> (if ptemp \<noteq> None then ellInsert psl ptemp (Some precord) m else ellAdd psl (Some precord) m);
     Some (st\<lparr>scan_mem := m, pscan_list := (pscan_list st)(precord := Some psl), modified := (modified st)(psl := True)\<rparr>) }"

definition deleteFromList :: "nat \<Rightarrow> nat \<Rightarrow> scan_db \<Rightarrow> scan_db option" where
  "deleteFromList precord psl st =
     (if nodes (scan_mem st) precord = None \<or> pscan_list st precord \<noteq> Some psl then Some st
      else do {
        m \<leftarrow> ellDelete psl (Some precord) (scan_mem st);
        Some (st\<lparr>scan_mem := m, pscan_list := (pscan_list st)(precord := None), modified := (modified st)(psl := True)\<rparr>) })"

section \<open>Processing a list\<close>

text \<open>The three pointers of \<open>scanList\<close>; a null \<open>pse\<close> is the end.\<close>

record scanner =
  pse :: ptr
  sc_prev :: ptr
  sc_next :: ptr

definition next_of :: "ell_mem \<Rightarrow> ptr \<Rightarrow> ptr \<Rightarrow> ptr option" where
  "next_of m p old = (if p \<noteq> None then get_next m p else Some old)"

definition in_list :: "scan_db \<Rightarrow> ptr \<Rightarrow> nat \<Rightarrow> bool" where
  "in_list st p psl = (case p of None \<Rightarrow> False | Some r \<Rightarrow> pscan_list st r = Some psl)"

definition scan_begin :: "nat \<Rightarrow> scan_db \<Rightarrow> (scan_db \<times> scanner) option" where
  "scan_begin psl st = do {
     let p = first (lists (scan_mem st) psl);
     n \<leftarrow> next_of (scan_mem st) p None;
     Some (st\<lparr>modified := (modified st)(psl := False)\<rparr>, \<lparr>pse = p, sc_prev = None, sc_next = n\<rparr>) }"

text \<open>What is done under the lock after a record was processed. When too much has changed, the scan ends.\<close>

definition scan_advance :: "nat \<Rightarrow> scanner \<Rightarrow> scan_db \<Rightarrow> (scan_db \<times> scanner) option" where
  "scan_advance psl sc st =
     (let m = scan_mem st; st' = st\<lparr>modified := (modified st)(psl := False)\<rparr>
      in if \<not> modified st psl \<or> in_list st (pse sc) psl then do {
           p \<leftarrow> get_next m (pse sc);
           n \<leftarrow> next_of m p (sc_next sc);
           Some (st', \<lparr>pse = p, sc_prev = pse sc, sc_next = n\<rparr>) }
         else if in_list st (sc_prev sc) psl then do {
           p \<leftarrow> get_next m (sc_prev sc);
           v \<leftarrow> (if p \<noteq> None then get_prev m p else Some (sc_prev sc));
           n \<leftarrow> next_of m p (sc_next sc);
           Some (st', \<lparr>pse = p, sc_prev = v, sc_next = n\<rparr>) }
         else if in_list st (sc_next sc) psl then do {
           v \<leftarrow> get_prev m (sc_next sc);
           n \<leftarrow> get_next m (sc_next sc);
           Some (st', \<lparr>pse = sc_next sc, sc_prev = v, sc_next = n\<rparr>) }
         else Some (st, sc\<lparr>pse := None\<rparr>))"

text \<open>\<open>proc\<close> is what processing a record does to the lists; the second result is the records in the order in which
  they were processed.\<close>

partial_function (option) scan_loop ::
  "(nat \<Rightarrow> scan_db \<Rightarrow> scan_db option) \<Rightarrow> nat \<Rightarrow> scanner \<Rightarrow> scan_db \<Rightarrow> nat list \<Rightarrow> (scan_db \<times> nat list) option" where
  "scan_loop proc psl sc st out = (case pse sc of
     None \<Rightarrow> Some (st, out)
   | Some precord \<Rightarrow> do {
       st \<leftarrow> proc precord st;
       (st, sc) \<leftarrow> scan_advance psl sc st;
       scan_loop proc psl sc st (out @ [precord]) })"

definition scanList :: "(nat \<Rightarrow> scan_db \<Rightarrow> scan_db option) \<Rightarrow> nat \<Rightarrow> scan_db \<Rightarrow> (scan_db \<times> nat list) option" where
  "scanList proc psl st = do { (st, sc) \<leftarrow> scan_begin psl st; scan_loop proc psl sc st [] }"

section \<open>Events\<close>

definition trim :: "string \<Rightarrow> string" where
  "trim s = rev (skip_space (rev s))"

text \<open>The three lists of a new event come from cleared memory.\<close>

definition new_event :: "string \<Rightarrow> nat \<Rightarrow> scan_db \<Rightarrow> event_list \<times> scan_db" where
  "new_event eventname eventnumber st =
     (let pel = \<lparr>ev_name = (if 0 < eventnumber then show_nat eventnumber else trim eventname), event_scan_lists = free_lists st\<rparr>;
          a = free_lists st
      in (pel, st\<lparr>pevent_list := pel # pevent_list st,
                 numbered_event := (if 0 < eventnumber then (numbered_event st)(eventnumber := Some pel) else numbered_event st),
                 scan_mem := ellInit (a + 2) (ellInit (a + 1) (ellInit a (scan_mem st))),
                 free_lists := a + NUM_CALLBACK_PRIORITIES\<rparr>))"

text \<open>A name that reads as a number from 0 up to 256 stands for its integer part; number 0 is no event.\<close>

definition eventNameToHandle :: "text_env \<Rightarrow> string \<Rightarrow> scan_db \<Rightarrow> event_list option \<times> scan_db" where
  "eventNameToHandle tenv eventname st =
     (let name = skip_space eventname
      in if name = [] then (None, st)
         else
      let number = (case epicsScanDouble tenv name of
            Some v \<Rightarrow> if dle (Fin 0) v \<and> dlt v (Fin 256) then Some (nat (the (dtoint 32 v))) else None
          | None \<Rightarrow> None)
      in if number = Some 0 then (None, st)
         else case Option.bind number (numbered_event st) of
           Some pel \<Rightarrow> (Some pel, st)
         | None \<Rightarrow>
             (case find (\<lambda>pel. ev_name pel = trim name) (pevent_list st) of
                Some pel \<Rightarrow> (Some pel, st)
              | None \<Rightarrow> (case new_event name (case number of Some n \<Rightarrow> n | None \<Rightarrow> 0) st of (pel, st) \<Rightarrow> (Some pel, st))))"

section \<open>The list of a record\<close>

definition set_passive :: "nat \<Rightarrow> scan_db \<Rightarrow> scan_db" where
  "set_passive precord st = st\<lparr>rec_fields := (rec_fields st)(precord := (rec_fields st precord)\<lparr>scan_menu := menuScanPassive\<rparr>)\<rparr>"

definition scanAdd :: "scan_env \<Rightarrow> nat \<Rightarrow> scan_db \<Rightarrow> scan_db option" where
  "scanAdd env precord st =
     (let f = rec_fields st precord; scan = scan_menu f; prio = scan_prio f
      in if scan = menuScanPassive then Some st
         else if nPeriodic env + SCAN_1ST_PERIODIC \<le> scan then Some st
         else if scan = menuScanEvent then
           if NUM_CALLBACK_PRIORITIES \<le> prio then Some st
           else (case eventNameToHandle (scan_text env) (evnt f) st of
                   (Some pel, st) \<Rightarrow> addToList precord (event_scan_lists pel + prio) st
                 | (None, st) \<Rightarrow> Some st)
         else if scan = menuScanI_O_Intr then
           (case get_ioint_info env precord of
              None \<Rightarrow> Some (set_passive precord st)
            | Some g \<Rightarrow> (case g 0 of (status, piosh) \<Rightarrow>
                if status \<noteq> 0 then Some (set_passive precord st)
                else case piosh of
                  None \<Rightarrow> Some (set_passive precord st)
                | Some a \<Rightarrow> if NUM_CALLBACK_PRIORITIES \<le> prio then Some (set_passive precord st)
                            else addToList precord (a + prio) st))
         else (case papPeriodic env (scan - SCAN_1ST_PERIODIC) of
                 Some psl \<Rightarrow> addToList precord psl st
               | None \<Rightarrow> Some st))"

definition scanDelete :: "scan_env \<Rightarrow> nat \<Rightarrow> scan_db \<Rightarrow> scan_db option" where
  "scanDelete env precord st =
     (let f = rec_fields st precord; scan = scan_menu f; prio = scan_prio f
      in if scan = menuScanPassive then Some st
         else if nPeriodic env + SCAN_1ST_PERIODIC \<le> scan then Some st
         else if scan = menuScanEvent then
           if NUM_CALLBACK_PRIORITIES \<le> prio then Some st
           else (case eventNameToHandle (scan_text env) (evnt f) st of
                   (Some pel, st) \<Rightarrow> deleteFromList precord (event_scan_lists pel + prio) st
                 | (None, st) \<Rightarrow> Some st)
         else if scan = menuScanI_O_Intr then
           (case get_ioint_info env precord of
              None \<Rightarrow> Some st
            | Some g \<Rightarrow> (case g 1 of (status, piosh) \<Rightarrow>
                if status \<noteq> 0 then Some st
                else case piosh of
                  None \<Rightarrow> Some st
                | Some a \<Rightarrow> if NUM_CALLBACK_PRIORITIES \<le> prio then Some st
                            else deleteFromList precord (a + prio) st))
         else (case papPeriodic env (scan - SCAN_1ST_PERIODIC) of
                 Some psl \<Rightarrow> deleteFromList precord psl st
               | None \<Rightarrow> Some st))"

text \<open>A write to SCAN, PHAS, EVNT or PRIO (special \<open>SPC_SCAN\<close> of \<open>dbPutSpecial\<close>): the record is taken from its
  list, the fields change, and it is added to its list.\<close>

definition put_scan_field :: "scan_env \<Rightarrow> nat \<Rightarrow> scan_fields \<Rightarrow> scan_db \<Rightarrow> scan_db option" where
  "put_scan_field env precord f st = do {
     st \<leftarrow> scanDelete env precord st;
     scanAdd env precord (st\<lparr>rec_fields := (rec_fields st)(precord := f)\<rparr>) }"

text \<open>\<open>buildScanLists\<close>: every record of the database, in order, that is not an alias.\<close>

fun buildScanLists :: "scan_env \<Rightarrow> nat list \<Rightarrow> scan_db \<Rightarrow> scan_db option" where
  "buildScanLists env [] st = Some st"
| "buildScanLists env (r # rs) st = Option.bind (scanAdd env r st) (buildScanLists env rs)"

text \<open>The priorities of an event or an interrupt source whose lists are not empty: a callback is requested for each.
  Nothing is requested while scanning is paused (\<open>scanCtl\<close> is not \<open>ctlRun\<close>). \<open>callbackRequest\<close> succeeds or not.\<close>

definition wanted :: "nat \<Rightarrow> scan_db \<Rightarrow> nat list" where
  "wanted a st = filter (\<lambda>prio. 0 < count (lists (scan_mem st) (a + prio))) [0..<NUM_CALLBACK_PRIORITIES]"

definition postEvent :: "bool \<Rightarrow> event_list option \<Rightarrow> scan_db \<Rightarrow> nat list" where
  "postEvent ctlRun pel st = (case pel of Some p \<Rightarrow> if ctlRun then wanted (event_scan_lists p) st else [] | None \<Rightarrow> [])"

definition post_event :: "bool \<Rightarrow> int \<Rightarrow> scan_db \<Rightarrow> nat list" where
  "post_event ctlRun event st =
     (if event \<le> 0 \<or> 255 < event then [] else postEvent ctlRun (numbered_event st (nat event)) st)"

definition scanIoRequest :: "bool \<Rightarrow> (nat \<Rightarrow> bool) \<Rightarrow> nat \<Rightarrow> scan_db \<Rightarrow> nat list \<times> nat" where
  "scanIoRequest ctlRun accepted piosh st =
     (if ctlRun then (wanted piosh st, sum_list (map (\<lambda>prio. 2 ^ prio) (filter accepted (wanted piosh st)))) else ([], 0))"

section \<open>Threads\<close>

text \<open>
  Threads that process lists (thread \<open>t\<close> the list \<open>target t\<close>), with their pointers, and any changes of the lists in
  between: a record is added when it is in no list, as it is after \<open>scanDelete\<close>, and fields of a record that is in
  no list may change. Each step is what one thread does while it holds the lock of the list.
\<close>

inductive scan_step :: "(nat \<Rightarrow> nat) \<Rightarrow> scan_db \<times> (nat \<Rightarrow> scanner option) \<Rightarrow> scan_db \<times> (nat \<Rightarrow> scanner option) \<Rightarrow> bool" for target where
  begins: "scs t = None \<Longrightarrow> scan_begin (target t) st = Some (st', sc) \<Longrightarrow> scan_step target (st, scs) (st', scs(t \<mapsto> sc))"
| advance: "scs t = Some sc \<Longrightarrow> pse sc \<noteq> None \<Longrightarrow> scan_advance (target t) sc st = Some (st', sc') \<Longrightarrow>
    scan_step target (st, scs) (st', scs(t \<mapsto> sc'))"
| ends: "scs t = Some sc \<Longrightarrow> pse sc = None \<Longrightarrow> scan_step target (st, scs) (st, scs(t := None))"
| added: "pscan_list st r = None \<Longrightarrow> addToList r l st = Some st' \<Longrightarrow> scan_step target (st, scs) (st', scs)"
| deleted: "deleteFromList r l st = Some st' \<Longrightarrow> scan_step target (st, scs) (st', scs)"
| changed: "pscan_list st r = None \<Longrightarrow>
    scan_step target (st, scs) (st\<lparr>rec_fields := (rec_fields st)(r := f)\<rparr>, scs)"

definition empty_scan_db :: scan_db where
  "empty_scan_db = \<lparr>scan_mem = \<lparr>nodes = Map.empty, lists = (\<lambda>_. \<lparr>first = None, lasts = None, count = 0\<rparr>)\<rparr>,
     pscan_list = Map.empty, modified = (\<lambda>_. False),
     rec_fields = (\<lambda>_. \<lparr>scan_menu = menuScanPassive, phas = 0, evnt = [], scan_prio = 0\<rparr>),
     pevent_list = [], numbered_event = Map.empty, free_lists = 0\<rparr>"

inductive scan_reach :: "(nat \<Rightarrow> nat) \<Rightarrow> scan_db \<times> (nat \<Rightarrow> scanner option) \<Rightarrow> bool" for target where
  start: "scan_reach target (empty_scan_db, Map.empty)"
| step: "scan_reach target s \<Longrightarrow> scan_step target s s' \<Longrightarrow> scan_reach target s'"

end
