(* ===== verification/DbScanLaws.thy ===== *)
theory DbScanLaws
  imports DbScan
begin

text \<open>
  The scan lists of DbScan on the sequences of EllLib: where a record is added, which records a scan processes
  while records leave the list, that a scan never leaves its list whatever other threads change, and that it
  does when two threads scan one list.
\<close>

section \<open>The lists as sequences\<close>

definition scan_wf :: "scan_db \<Rightarrow> (nat \<Rightarrow> nat list) \<Rightarrow> bool" where
  "scan_wf st R \<longleftrightarrow> sim UNIV (scan_mem st) R \<and> (\<forall>r l. pscan_list st r = Some l \<longleftrightarrow> r \<in> set (R l))"

lemma scan_wfD:
  assumes "scan_wf st R"
  shows "sim UNIV (scan_mem st) R" "ell_rep (scan_mem st) l (R l)" "pscan_list st r = Some l \<longleftrightarrow> r \<in> set (R l)"
  using assms sim_rep [of UNIV "scan_mem st" R l] by (auto simp: scan_wf_def)

lemma scan_wf_more [simp]:
  "scan_wf (st\<lparr>modified := a\<rparr>) R = scan_wf st R" "scan_wf (st\<lparr>rec_fields := b\<rparr>) R = scan_wf st R"
  by (simp_all add: scan_wf_def)

text \<open>The records of a list, from its header.\<close>

fun chain :: "nat \<Rightarrow> ell_mem \<Rightarrow> ptr \<Rightarrow> nat list" where
  "chain (Suc n) m (Some a) = a # chain n m (nnext (the (nodes m a)))"
| "chain _ m _ = []"

definition records :: "scan_db \<Rightarrow> nat \<Rightarrow> nat list" where
  "records st l = chain (nat (count (lists (scan_mem st) l))) (scan_mem st) (first (lists (scan_mem st) l))"

lemma chain_seg: "seg (nodes m) p xs None \<Longrightarrow> chain (length xs) m (hdp xs None) = xs"
  by (induction xs arbitrary: p) auto

lemma records_eq: "scan_wf st R \<Longrightarrow> records st l = R l"
  using scan_wfD(2) [of st R l] chain_seg [of "scan_mem st" None "R l"] by (simp add: records_def ell_rep_def)

section \<open>Adding and removing\<close>

text \<open>The part of a list up to the last record that comes before the new one; without such a record the new one
  goes to the end.\<close>

definition place :: "(nat \<Rightarrow> int) \<Rightarrow> int \<Rightarrow> nat list \<Rightarrow> nat list" where
  "place ph p xs = rev (dropWhile (\<lambda>y. p < ph y) (rev xs))"

definition insert_phase :: "(nat \<Rightarrow> int) \<Rightarrow> nat \<Rightarrow> nat list \<Rightarrow> nat list" where
  "insert_phase ph r xs =
     (let a = place ph (ph r) xs in if a = [] then xs @ [r] else a @ r # drop (length a) xs)"

lemma place_prefix: "place ph p xs @ drop (length (place ph p xs)) xs = xs"
proof -
  have "rev xs = takeWhile (\<lambda>y. p < ph y) (rev xs) @ dropWhile (\<lambda>y. p < ph y) (rev xs)" by simp
  then have "xs = place ph p xs @ rev (takeWhile (\<lambda>y. p < ph y) (rev xs))"
    unfolding place_def by (metis rev_append rev_rev_ident)
  then show ?thesis by (metis append_eq_conv_conj)
qed

lemma place_snoc: "place ph p (xs @ [x]) = (if ph x \<le> p then xs @ [x] else place ph p xs)"
  by (auto simp: place_def)

lemma place_Nil_iff: "place ph p xs = [] \<longleftrightarrow> (\<forall>x \<in> set xs. p < ph x)"
  by (simp add: place_def)

lemma place_last: "place ph p xs \<noteq> [] \<Longrightarrow> ph (last (place ph p xs)) \<le> p"
  using hd_dropWhile [of "\<lambda>y. p < ph y" "rev xs"] by (auto simp: place_def last_rev)

lemma set_insert_phase [simp]: "set (insert_phase ph r xs) = insert r (set xs)"
proof -
  have "set (place ph (ph r) xs) \<union> set (drop (length (place ph (ph r) xs)) xs) = set xs"
    by (metis place_prefix set_append)
  then show ?thesis by (simp add: insert_phase_def Let_def)
qed

lemma place_loop_run: "ell_rep m l (xs @ ys) \<Longrightarrow> place_loop ph m p (lastp None xs) = Some (lastp None (place ph p xs))"
proof (induction xs arbitrary: ys rule: rev_induct)
  case Nil
  then show ?case by (subst place_loop.simps) (simp add: place_def)
next
  case (snoc x xs)
  have "get_prev m (Some x) = Some (lastp None xs)"
    using step_nth(2) [OF snoc.prems, of "length xs"] by (auto simp: nth_append last_conv_nth lastp_def)
  then show ?case
    using snoc.IH [of "x # ys"] snoc.prems by (subst place_loop.simps) (simp add: place_snoc)
qed

lemma get_element_sim:
  assumes "sim UNIV m R" "\<And>l. r \<notin> set (R l)"
  shows "sim UNIV (get_element r m) R" "r \<in> dom (nodes (get_element r m))" "lists (get_element r m) = lists m"
  using assms by (auto simp: get_element_def sim_def ell_rep_def)

lemma add_spec:
  assumes wf: "scan_wf st R" and r: "pscan_list st r = None"
  shows "\<exists>st'. addToList r l st = Some st' \<and> scan_wf st' (R(l := insert_phase (phase_of st) r (R l))) \<and>
    pscan_list st' = (pscan_list st)(r \<mapsto> l) \<and> modified st' = (modified st)(l := True) \<and> rec_fields st' = rec_fields st"
proof -
  let ?m = "get_element r (scan_mem st)" and ?p = "phase_of st r"
  let ?a = "place (phase_of st) ?p (R l)" and ?b = "drop (length (place (phase_of st) ?p (R l))) (R l)"
  have out: "r \<notin> set (R k)" for k using scan_wfD(3) [OF wf] r by (metis option.distinct(1))
  note m = get_element_sim [OF scan_wfD(1) [OF wf] out]
  have rep: "ell_rep ?m l (R l)" using sim_rep [OF m(1)] by simp
  have ab: "?a @ ?b = R l" by (rule place_prefix)
  have found: "place_loop (phase_of st) ?m ?p (lasts (lists ?m l)) = Some (lastp None ?a)"
    using place_loop_run [of ?m l "R l" "[]"] rep ell_rep_header(3) [OF rep] by simp
  have "\<exists>m'. (if ?a \<noteq> [] then ellInsert l (lastp None ?a) (Some r) ?m else ellAdd l (Some r) ?m) = Some m' \<and>
    sim UNIV m' (R(l := insert_phase (phase_of st) r (R l)))"
  proof (cases "?a = []")
    case True
    have "r \<notin> members UNIV R" using out by (auto simp: members_def)
    then obtain m' where "ellAdd l (Some r) ?m = Some m'" "sim UNIV m' (R(l := R l @ [r]))"
      using sim_add [OF m(1) UNIV_I m(2)] by blast
    then show ?thesis using True by (simp add: insert_phase_def Let_def)
  next
    case False
    have "ell_rep ?m l (?a @ ?b)" "r \<notin> set (?a @ ?b)" using rep out unfolding ab by simp_all
    then obtain m' where m': "ellInsert l (lastp None ?a) (Some r) ?m = Some m'" "ell_rep m' l (?a @ r # ?b)"
      "frame (insert r (set ?a \<union> set ?b)) {l} ?m m'"
      using ellInsert_spec [OF _ m(2)] by blast
    have sub: "set ?a \<union> set ?b = set (R l)" using ab by (metis set_append)
    have "sim UNIV m' (R(l := ?a @ r # ?b))"
      by (rule sim_step1 [OF m(1) UNIV_I m'(3,2), of "{r}"]) (use sub out in \<open>auto simp: members_def\<close>)
    then show ?thesis using False m'(1) by (simp add: insert_phase_def Let_def)
  qed
  then obtain m' where m': "(if ?a \<noteq> [] then ellInsert l (lastp None ?a) (Some r) ?m else ellAdd l (Some r) ?m) = Some m'"
    "sim UNIV m' (R(l := insert_phase (phase_of st) r (R l)))" by blast
  have "lastp None ?a \<noteq> None \<longleftrightarrow> ?a \<noteq> []" by (simp add: lastp_def)
  then have run: "addToList r l st = Some (st\<lparr>scan_mem := m', pscan_list := (pscan_list st)(r \<mapsto> l), modified := (modified st)(l := True)\<rparr>)"
    using found m'(1) by (simp add: addToList_def Let_def)
  have "scan_wf (st\<lparr>scan_mem := m', pscan_list := (pscan_list st)(r \<mapsto> l), modified := (modified st)(l := True)\<rparr>)
      (R(l := insert_phase (phase_of st) r (R l)))"
    using m'(2) wf out by (auto simp: scan_wf_def set_insert_phase)
  then show ?thesis using run by simp
qed

lemma delete_spec:
  assumes wf: "scan_wf st R"
  shows "\<exists>st'. deleteFromList r l st = Some st' \<and> scan_wf st' (R(l := remove1 r (R l))) \<and> rec_fields st' = rec_fields st \<and>
    pscan_list st' = (if pscan_list st r = Some l then (pscan_list st)(r := None) else pscan_list st) \<and>
    modified st' = (if pscan_list st r = Some l then (modified st)(l := True) else modified st)"
proof (cases "pscan_list st r = Some l")
  case True
  then have r: "r \<in> set (R l)" using scan_wfD(3) [OF wf] by blast
  then have "nodes (scan_mem st) r \<noteq> None" using ell_rep_dom [OF scan_wfD(2) [OF wf]] by blast
  moreover obtain m' where m': "ellDelete l (Some r) (scan_mem st) = Some m'" "sim UNIV m' (R(l := remove1 r (R l)))"
    using sim_delete [OF scan_wfD(1) [OF wf] UNIV_I r] by blast
  moreover have "distinct (R l)" by (rule ell_rep_distinct [OF scan_wfD(2) [OF wf]])
  moreover have "r \<notin> set (R k)" if "k \<noteq> l" for k using scan_wfD(3) [OF wf, of r k] True that by simp
  ultimately show ?thesis
    using True wf by (auto simp: deleteFromList_def scan_wf_def)
next
  case False
  then have "r \<notin> set (R l)" using scan_wfD(3) [OF wf] by blast
  then show ?thesis using False wf by (simp add: deleteFromList_def remove1_idem)
qed

section \<open>Scanning\<close>

lemma next_of_list:
  assumes "ell_rep m l xs" "p = None \<or> the p \<in> set xs"
  shows "\<exists>n. next_of m p old = Some n"
proof (cases p)
  case (Some a)
  then obtain i where "i < length xs" "xs ! i = a" using assms(2) by (auto simp: in_set_conv_nth)
  then show ?thesis using step_nth(1) [OF assms(1)] Some by (auto simp: next_of_def)
qed (simp add: next_of_def)

lemma steps_list:
  assumes "ell_rep m l xs" "a \<in> set xs"
  shows "\<exists>p. get_next m (Some a) = Some p \<and> (p = None \<or> the p \<in> set xs)" "\<exists>p. get_prev m (Some a) = Some p \<and> (p = None \<or> the p \<in> set xs)"
proof -
  obtain i where i: "i < length xs" "xs ! i = a" using assms(2) by (auto simp: in_set_conv_nth)
  show "\<exists>p. get_next m (Some a) = Some p \<and> (p = None \<or> the p \<in> set xs)"
    using step_nth(1) [OF assms(1) i(1)] i by (auto simp: nth_mem)
  show "\<exists>p. get_prev m (Some a) = Some p \<and> (p = None \<or> the p \<in> set xs)"
    using step_nth(2) [OF assms(1) i(1)] i by (auto intro!: nth_mem)
qed

definition at_member :: "scanner \<Rightarrow> nat list \<Rightarrow> bool" where
  "at_member sc xs \<longleftrightarrow> pse sc = None \<or> the (pse sc) \<in> set xs"

lemma begin_run:
  assumes "scan_wf st R"
  shows "\<exists>sc. scan_begin l st = Some (st\<lparr>modified := (modified st)(l := False)\<rparr>, sc) \<and> at_member sc (R l) \<and>
    pse sc = hdp (R l) None"
proof -
  note r = scan_wfD(2) [OF assms, of l]
  have f: "first (lists (scan_mem st) l) = hdp (R l) None" by (rule ell_rep_header(2) [OF r])
  then have "hdp (R l) None = None \<or> the (hdp (R l) None) \<in> set (R l)" by (cases "R l") auto
  then show ?thesis
    using next_of_list [OF r, of "hdp (R l) None" None] f by (auto simp: scan_begin_def at_member_def Let_def)
qed

lemma advance_run:
  assumes wf: "scan_wf st R" and m: "modified st l \<or> at_member sc (R l)" and p: "pse sc = Some r"
  shows "\<exists>st' sc'. scan_advance l sc st = Some (st', sc') \<and> at_member sc' (R l) \<and>
    (st' = st \<and> modified st l \<or> st' = st\<lparr>modified := (modified st)(l := False)\<rparr>)"
proof -
  note rep = scan_wfD(2) [OF wf, of l]
  have mem: "in_list st q l \<longleftrightarrow> q \<noteq> None \<and> the q \<in> set (R l)" for q
    using scan_wfD(3) [OF wf] by (auto simp: in_list_def split: option.splits)
  consider "\<not> modified st l \<or> in_list st (pse sc) l"
    | "modified st l" "\<not> in_list st (pse sc) l" "in_list st (sc_prev sc) l"
    | "modified st l" "\<not> in_list st (pse sc) l" "\<not> in_list st (sc_prev sc) l" "in_list st (sc_next sc) l"
    | "modified st l" "\<not> in_list st (pse sc) l" "\<not> in_list st (sc_prev sc) l" "\<not> in_list st (sc_next sc) l"
    by blast
  then show ?thesis
  proof cases
    case 1
    then have "r \<in> set (R l)" using m p mem [of "Some r"] by (auto simp: at_member_def)
    then obtain q where q: "get_next (scan_mem st) (Some r) = Some q" "q = None \<or> the q \<in> set (R l)"
      using steps_list(1) [OF rep] by blast
    moreover obtain n where "next_of (scan_mem st) q (sc_next sc) = Some n" using next_of_list [OF rep q(2)] by blast
    ultimately show ?thesis using 1 p by (auto simp: scan_advance_def Let_def at_member_def)
  next
    case 2
    then obtain a where a: "sc_prev sc = Some a" "a \<in> set (R l)" using mem by auto
    then obtain q where q: "get_next (scan_mem st) (Some a) = Some q" "q = None \<or> the q \<in> set (R l)"
      using steps_list(1) [OF rep] by blast
    moreover obtain n where "next_of (scan_mem st) q (sc_next sc) = Some n" using next_of_list [OF rep q(2)] by blast
    moreover obtain v where "(if q \<noteq> None then get_prev (scan_mem st) q else Some (Some a)) = Some v"
      using steps_list(2) [OF rep] q(2) by (cases q) auto
    ultimately show ?thesis using 2 a by (cases q) (simp_all add: scan_advance_def Let_def at_member_def)
  next
    case 3
    then obtain a where a: "sc_next sc = Some a" "a \<in> set (R l)" using mem by auto
    then show ?thesis
      using steps_list [OF rep a(2)] 3 by (auto simp: scan_advance_def Let_def at_member_def)
  next
    case 4
    then show ?thesis by (simp add: scan_advance_def Let_def at_member_def)
  qed
qed

section \<open>Any changes in between\<close>

definition scan_inv :: "(nat \<Rightarrow> nat) \<Rightarrow> scan_db \<Rightarrow> (nat \<Rightarrow> scanner option) \<Rightarrow> (nat \<Rightarrow> nat list) \<Rightarrow> bool" where
  "scan_inv target st scs R \<longleftrightarrow> scan_wf st R \<and>
     (inj target \<longrightarrow> (\<forall>t sc. scs t = Some sc \<longrightarrow> modified st (target t) \<or> at_member sc (R (target t))))"

lemma empty_wf: "scan_wf empty_scan_db (\<lambda>_. [])"
  by (simp add: scan_wf_def empty_scan_db_def sim_def ell_rep_def)

lemma inv_begins:
  assumes "scan_inv target st scs R" "scan_begin (target t) st = Some (st', sc)"
  shows "scan_inv target st' (scs(t \<mapsto> sc)) R"
  using assms begin_run [of st R "target t"] by (auto simp: scan_inv_def dest: injD)

lemma inv_advance:
  assumes inv: "scan_inv target st scs R" and t: "scs t = Some sc" "pse sc = Some r" and "inj target"
    and run: "scan_advance (target t) sc st = Some (st', sc')"
  shows "scan_inv target st' (scs(t \<mapsto> sc')) R"
proof -
  have wf: "scan_wf st R" and m: "modified st (target t) \<or> at_member sc (R (target t))"
    using inv t(1) \<open>inj target\<close> by (auto simp: scan_inv_def)
  have a: "at_member sc' (R (target t))" "st' = st \<or> st' = st\<lparr>modified := (modified st)(target t := False)\<rparr>"
    using advance_run [OF wf m t(2)] run by auto
  have "modified st' (target u) \<or> at_member sd (R (target u))" if u: "(scs(t \<mapsto> sc')) u = Some sd" for u sd
  proof (cases "u = t")
    case False
    then have "target u \<noteq> target t" using \<open>inj target\<close> by (simp add: inj_eq)
    moreover have "modified st (target u) \<or> at_member sd (R (target u))"
      using inv u False \<open>inj target\<close> by (auto simp: scan_inv_def)
    ultimately show ?thesis using a(2) by auto
  qed (use a(1) u in simp)
  moreover have "scan_wf st' R" using a(2) wf by auto
  ultimately show ?thesis by (simp add: scan_inv_def)
qed

lemma advance_wf: "scan_advance l sc st = Some (st', sc') \<Longrightarrow> scan_wf st' R = scan_wf st R"
  by (auto simp: scan_advance_def Let_def split: if_splits Option.bind_splits)

lemma inv_reach: "scan_reach target s \<Longrightarrow> \<exists>R. scan_inv target (fst s) (snd s) R"
proof (induction rule: scan_reach.induct)
  case start
  then show ?case using empty_wf by (auto simp: scan_inv_def)
next
  case (step s s')
  obtain R where inv: "scan_inv target (fst s) (snd s) R" using step.IH by blast
  then have wf: "scan_wf (fst s) R" by (simp add: scan_inv_def)
  show ?case
    using step.hyps(2)
  proof cases
    case (begins scs t st st' sc)
    then show ?thesis using inv_begins [of target st scs R t st' sc] inv by (intro exI [of _ R]) (simp add: fun_upd_def)
  next
    case (advance scs t sc st st' sc')
    then have "scan_wf st' R" using advance_wf [of "target t" sc st st' sc' R] wf by simp
    have "scan_inv target st' (scs(t \<mapsto> sc')) R"
    proof (cases "inj target")
      case True
      obtain y where y: "pse sc = Some y" using advance(4) by blast
      have "scan_inv target st scs R" using inv advance(1) by simp
      from inv_advance [OF this advance(3) y True advance(5)] show ?thesis .
    qed (use \<open>scan_wf st' R\<close> in \<open>simp add: scan_inv_def\<close>)
    then show ?thesis using advance by (intro exI [of _ R]) (simp add: fun_upd_def)
  next
    case (ends scs t sc st)
    then show ?thesis using inv by (auto simp: scan_inv_def)
  next
    case (added st r l st' scs)
    define R1 where "R1 = R(l := insert_phase (phase_of st) r (R l))"
    then have "scan_wf st' R1" "modified st' = (modified st)(l := True)" "u \<noteq> l \<Longrightarrow> R1 u = R u" for u
      using add_spec [of st R r l] wf added by auto
    then have "scan_inv target st' scs R1" using inv added(1) by (auto simp: scan_inv_def)
    then show ?thesis using added(2) by (intro exI [of _ R1]) simp
  next
    case (deleted r l st st' scs)
    define R1 where "R1 = R(l := remove1 r (R l))"
    then have "scan_wf st' R1" "u \<noteq> l \<Longrightarrow> R1 u = R u"
      "modified st' = (if pscan_list st r = Some l then (modified st)(l := True) else modified st)" for u
      using delete_spec [of st R r l] wf deleted by auto
    moreover have "R1 = R" if "pscan_list st r \<noteq> Some l"
      using that scan_wfD(3) [of st R r l] wf deleted(1) by (simp add: R1_def remove1_idem)
    ultimately have "scan_inv target st' scs R1" using inv deleted(1)
      by (cases "pscan_list st r = Some l") (auto simp: scan_inv_def)
    then show ?thesis using deleted(2) by (intro exI [of _ R1]) simp
  next
    case (changed st r scs f)
    then show ?thesis using inv by (auto simp: scan_inv_def)
  qed
qed

lemma reach_wf:
  assumes "scan_reach target (st, scs)"
  shows "scan_wf st (records st)"
proof -
  obtain R where "scan_wf st R" using inv_reach [OF assms] by (auto simp: scan_inv_def)
  moreover from this have "R = records st" using records_eq by auto
  ultimately show ?thesis by simp
qed

section \<open>A scan during which records leave the list\<close>

lemma step_split:
  assumes "ell_rep m l (xs @ x # ys)"
  shows "get_next m (Some x) = Some (hdp ys None)" "get_prev m (Some x) = Some (lastp None xs)"
  using assms by (auto simp: ell_rep_def access)

lemma next_of_hdp: "ell_rep m l (xs @ ys) \<Longrightarrow> next_of m (hdp ys None) None = Some (hdp (tl ys) None)"
  using step_split(1) [of m l xs "hd ys" "tl ys"] by (cases ys) (auto simp: next_of_def)

definition one_shot :: "(nat \<Rightarrow> bool) \<Rightarrow> nat \<Rightarrow> nat \<Rightarrow> scan_db \<Rightarrow> scan_db option" where
  "one_shot S l r st = (if S r then deleteFromList r l st else Some st)"

lemma advance_kept:
  assumes wf: "scan_wf st R" and l: "R l = D @ x # ys" and "\<not> modified st l"
  shows "scan_advance l \<lparr>pse = Some x, sc_prev = p, sc_next = hdp ys None\<rparr> st =
    Some (st\<lparr>modified := (modified st)(l := False)\<rparr>, \<lparr>pse = hdp ys None, sc_prev = lastp None (D @ [x]), sc_next = hdp (tl ys) None\<rparr>)"
proof -
  have rep: "ell_rep (scan_mem st) l (D @ x # ys)" using scan_wfD(2) [OF wf, of l] l by simp
  then have "next_of (scan_mem st) (hdp ys None) (hdp ys None) = Some (hdp (tl ys) None)"
    using next_of_hdp [of "scan_mem st" l "D @ [x]" ys] by (cases ys) (auto simp: next_of_def)
  then show ?thesis using assms(3) step_split(1) [OF rep] by (simp add: scan_advance_def Let_def)
qed

lemma advance_left:
  assumes wf: "scan_wf st R" and l: "R l = D @ ys" and x: "pscan_list st x = None" and "modified st l"
  shows "\<exists>st' sc'. scan_advance l \<lparr>pse = Some x, sc_prev = lastp None D, sc_next = hdp ys None\<rparr> st = Some (st', sc') \<and>
    scan_wf st' R \<and> (ys \<noteq> [] \<longrightarrow> \<not> modified st' l) \<and> pse sc' = hdp ys None \<and>
    (ys \<noteq> [] \<longrightarrow> sc' = \<lparr>pse = hdp ys None, sc_prev = lastp None D, sc_next = hdp (tl ys) None\<rparr>)"
proof -
  have rep: "ell_rep (scan_mem st) l (D @ ys)" using scan_wfD(2) [OF wf, of l] l by simp
  have mem: "in_list st (Some r) l \<longleftrightarrow> r \<in> set (D @ ys)" for r
    using scan_wfD(3) [OF wf, of r l] l by (simp add: in_list_def)
  have out: "\<not> in_list st (Some x) l" using x by (simp add: in_list_def)
  show ?thesis
  proof (cases D rule: rev_cases)
    case (snoc D' d)
    then have n: "get_next (scan_mem st) (Some d) = Some (hdp ys None)" using step_split(1) [of _ l D' d ys] rep by simp
    show ?thesis
    proof (cases ys)
      case Nil
      then show ?thesis
        using n snoc out mem assms(4) wf by (simp add: scan_advance_def Let_def next_of_def in_list_def)
    next
      case (Cons y zs)
      then have "get_next (scan_mem st) (Some y) = Some (hdp zs None)" "get_prev (scan_mem st) (Some y) = Some (Some d)"
        using step_split [of "scan_mem st" l D y zs] rep snoc by simp_all
      then show ?thesis
        using n snoc Cons out mem assms(4) wf by (simp add: scan_advance_def Let_def next_of_def)
    qed
  next
    case Nil
    show ?thesis
    proof (cases ys)
      case Nil
      then show ?thesis using \<open>D = []\<close> out assms(4) wf by (simp add: scan_advance_def Let_def in_list_def)
    next
      case (Cons y zs)
      then have "get_next (scan_mem st) (Some y) = Some (hdp zs None)" "get_prev (scan_mem st) (Some y) = Some None"
        using step_split [of "scan_mem st" l "[]" y zs] rep Nil by simp_all
      moreover have "\<not> in_list st None l" by (simp add: in_list_def)
      ultimately show ?thesis
        using Nil Cons out mem [of y] assms(4) wf by (simp add: scan_advance_def Let_def)
    qed
  qed
qed

lemma one_shot_loop:
  assumes "scan_wf st R" "R l = D @ xs" "xs \<noteq> [] \<Longrightarrow> \<not> modified st l" "pse sc = hdp xs None"
    "xs \<noteq> [] \<Longrightarrow> sc = \<lparr>pse = hdp xs None, sc_prev = lastp None D, sc_next = hdp (tl xs) None\<rparr>"
  shows "\<exists>st' R'. scan_loop (one_shot S l) l sc st out = Some (st', out @ xs) \<and> scan_wf st' R' \<and> R' l = D @ filter (\<lambda>r. \<not> S r) xs"
  using assms
proof (induction xs arbitrary: st R D sc out)
  case Nil
  then show ?case by (subst scan_loop.simps) auto
next
  case (Cons x ys)
  have sc: "sc = \<lparr>pse = Some x, sc_prev = lastp None D, sc_next = hdp ys None\<rparr>" using Cons.prems(5) by simp
  have l: "R l = D @ x # ys" using Cons.prems(2) .
  show ?case
  proof (cases "S x")
    case False
    let ?sc = "\<lparr>pse = hdp ys None, sc_prev = lastp None (D @ [x]), sc_next = hdp (tl ys) None\<rparr>"
    let ?st = "st\<lparr>modified := (modified st)(l := False)\<rparr>"
    have "scan_advance l sc st = Some (?st, ?sc)"
      unfolding sc by (rule advance_kept [OF Cons.prems(1) l]) (use Cons.prems(3) in simp)
    moreover obtain st' R' where "scan_loop (one_shot S l) l ?sc ?st (out @ [x]) = Some (st', (out @ [x]) @ ys)"
      "scan_wf st' R'" "R' l = (D @ [x]) @ filter (\<lambda>r. \<not> S r) ys"
      using Cons.IH [of ?st R "D @ [x]" ?sc "out @ [x]"] Cons.prems(1) l by auto
    ultimately show ?thesis
      using False sc by (subst scan_loop.simps) (auto simp: one_shot_def)
  next
    case True
    have d: "distinct (D @ x # ys)" using ell_rep_distinct [OF scan_wfD(2) [OF Cons.prems(1)]] l by metis
    have x: "pscan_list st x = Some l" using scan_wfD(3) [OF Cons.prems(1), of x l] l by simp
    define R1 where "R1 = R(l := remove1 x (R l))"
    obtain st1 where st1: "deleteFromList x l st = Some st1" "scan_wf st1 R1"
      "pscan_list st1 = (pscan_list st)(x := None)" "modified st1 = (modified st)(l := True)"
      using delete_spec [OF Cons.prems(1), of x l] x unfolding R1_def by auto
    have l1: "R1 l = D @ ys" using l d by (simp add: R1_def remove1_append)
    obtain st2 sc2 where 2: "scan_advance l sc st1 = Some (st2, sc2)" "scan_wf st2 R1"
      "ys \<noteq> [] \<longrightarrow> \<not> modified st2 l" "pse sc2 = hdp ys None"
      "ys \<noteq> [] \<longrightarrow> sc2 = \<lparr>pse = hdp ys None, sc_prev = lastp None D, sc_next = hdp (tl ys) None\<rparr>"
      using advance_left [OF st1(2) l1, of x] st1(3,4) unfolding sc by (auto simp del: hdp_simps)
    obtain st' R' where "scan_loop (one_shot S l) l sc2 st2 (out @ [x]) = Some (st', (out @ [x]) @ ys)"
      "scan_wf st' R'" "R' l = D @ filter (\<lambda>r. \<not> S r) ys"
      using Cons.IH [OF 2(2) l1, of sc2 "out @ [x]"] 2(3-5) by blast
    then show ?thesis
      using True sc st1(1) 2(1) by (subst scan_loop.simps) (auto simp: one_shot_def)
  qed
qed

section \<open>Order of the phases\<close>

lemma place_rest: "y \<in> set (drop (length (place ph p xs)) xs) \<Longrightarrow> p < ph y"
proof -
  have "rev xs = takeWhile (\<lambda>y. p < ph y) (rev xs) @ dropWhile (\<lambda>y. p < ph y) (rev xs)" by simp
  then have "xs = place ph p xs @ rev (takeWhile (\<lambda>y. p < ph y) (rev xs))"
    unfolding place_def by (metis rev_append rev_rev_ident)
  then have "drop (length (place ph p xs)) xs = rev (takeWhile (\<lambda>y. p < ph y) (rev xs))"
    by (metis append_eq_conv_conj)
  then show "y \<in> set (drop (length (place ph p xs)) xs) \<Longrightarrow> p < ph y" by (auto dest: set_takeWhileD)
qed

lemma insert_phase_sorted:
  assumes "sorted (map ph xs)"
  shows "sorted (map ph (insert_phase ph r xs)) \<longleftrightarrow> xs = [] \<or> (\<exists>x \<in> set xs. ph x \<le> ph r)"
proof (cases "place ph (ph r) xs = []")
  case True
  then have "\<forall>x \<in> set xs. ph r < ph x" by (simp add: place_Nil_iff)
  then show ?thesis using True assms by (cases xs) (auto simp: insert_phase_def sorted_append)
next
  case False
  let ?a = "place ph (ph r) xs" and ?b = "drop (length (place ph (ph r) xs)) xs"
  have ab: "sorted (map ph ?a)" "sorted (map ph ?b)"
    using assms place_prefix [of ph "ph r" xs] sorted_append [of "map ph ?a" "map ph ?b"] by (metis map_append)+
  have "ph x \<le> ph r" if "x \<in> set ?a" for x
  proof -
    have "?a = butlast ?a @ [last ?a]" using False by simp
    then have "sorted (map ph (butlast ?a) @ [ph (last ?a)])" using ab(1) by (metis map_append list.map)
    then have "ph x \<le> ph (last ?a)" using that False by (auto simp: sorted_append in_set_butlastD elim: in_set_butlastD)
        (metis append_butlast_last_id in_set_conv_decomp order.refl rotate1.simps(2) set_ConsD set_rotate1)
    then show ?thesis using place_last [OF False] by linarith
  qed
  moreover have "\<forall>y \<in> set ?b. ph r \<le> ph y" using place_rest [of _ ph "ph r" xs] by force
  ultimately have "sorted (map ph (?a @ r # ?b))" using ab by (auto simp: sorted_append intro: order_trans)
  moreover have "\<exists>x \<in> set xs. ph x \<le> ph r" using False place_Nil_iff [of ph "ph r" xs] by force
  ultimately show ?thesis using False by (simp add: insert_phase_def Let_def)
qed

section \<open>A small database for the witnesses\<close>

definition one_record :: scan_db where
  "one_record = the (addToList 1 5 empty_scan_db)"

lemma one_record_add: "addToList 1 5 empty_scan_db = Some one_record" "records one_record 5 = [1]"
  "pscan_list one_record 2 = None" "phase_of one_record r = 0"
proof -
  have "pscan_list empty_scan_db 1 = None" by (simp add: empty_scan_db_def)
  from add_spec [OF empty_wf this, of 5] obtain st' where
    st': "addToList 1 5 empty_scan_db = Some st'" "scan_wf st' ((\<lambda>_. [])(5 := insert_phase (phase_of empty_scan_db) 1 []))"
    "pscan_list st' = (pscan_list empty_scan_db)(1 \<mapsto> 5)" "rec_fields st' = rec_fields empty_scan_db"
    by blast
  then have e: "one_record = st'" by (simp add: one_record_def)
  show "addToList 1 5 empty_scan_db = Some one_record" using st'(1) e by simp
  show "records one_record 5 = [1]" using records_eq [OF st'(2), of 5] e by (simp add: insert_phase_def place_def)
  show "pscan_list one_record 2 = None" "phase_of one_record r = 0"
    using st'(3,4) e by (simp_all add: phase_of_def empty_scan_db_def)
qed

lemma one_record_wf: "scan_wf one_record ((\<lambda>_. [])(5 := [1]))"
proof -
  have "pscan_list empty_scan_db 1 = None" by (simp add: empty_scan_db_def)
  then show ?thesis
    using add_spec [OF empty_wf, of 1 5] one_record_add(1) by (auto simp: insert_phase_def place_def)
qed

lemma one_record_reach: "scan_reach target (one_record, Map.empty)"
  by (rule scan_reach.step [OF scan_reach.start scan_step.added [OF _ one_record_add(1)]]) (simp add: empty_scan_db_def)

definition low_record :: scan_db where
  "low_record = one_record\<lparr>rec_fields := (rec_fields one_record)(2 := (rec_fields one_record 2)\<lparr>phas := - 1\<rparr>)\<rparr>"

lemma low_record_simps: "records low_record 5 = [1]" "pscan_list low_record 2 = None"
  "phase_of low_record 1 = 0" "phase_of low_record 2 = - 1"
  using one_record_add(2,3) one_record_add(4) [of 1] by (simp_all add: low_record_def phase_of_def records_def)

lemma low_record_reach: "scan_reach target (low_record, Map.empty)"
  unfolding low_record_def by (rule scan_reach.step [OF one_record_reach scan_step.changed [OF one_record_add(3)]])

section \<open>Properties\<close>

text \<open>C37: a record added to a list in the order of the phases keeps it in that order exactly when the list is empty
  or has a record of the same or a lower phase; a record with the lowest phase goes to the end, not to the front.\<close>

theorem phases_in_order:
  assumes "scan_reach target (st, scs)" "pscan_list st r = None" "sorted (map (phase_of st) (records st l))"
  shows "\<exists>st'. addToList r l st = Some st' \<and> (sorted (map (phase_of st') (records st' l)) \<longleftrightarrow>
    records st l = [] \<or> (\<exists>x \<in> set (records st l). phase_of st x \<le> phase_of st r))"
proof -
  obtain st' where st': "addToList r l st = Some st'" "scan_wf st' ((records st)(l := insert_phase (phase_of st) r (records st l)))"
    "rec_fields st' = rec_fields st"
    using add_spec [OF reach_wf [OF assms(1)] assms(2), of l] by blast
  have "records st' l = insert_phase (phase_of st) r (records st l)" using records_eq [OF st'(2), of l] by simp
  moreover have "phase_of st' = phase_of st" using st'(3) by (simp add: phase_of_def fun_eq_iff)
  ultimately show ?thesis using st'(1) insert_phase_sorted [OF assms(3), of r] by simp
qed

text \<open>C35: whatever other threads add to and remove from the lists while a record is processed, a scan that is alone
  on its list finds its way: it follows no null or stale pointer, and the record it processes next is on its list.\<close>

theorem scan_stays_on_list:
  assumes "inj target" "scan_reach target (st, scs)" "scs t = Some sc" "pse sc = Some r"
  shows "\<exists>st' sc'. scan_advance (target t) sc st = Some (st', sc') \<and>
    (\<forall>r'. pse sc' = Some r' \<longrightarrow> pscan_list st' r' = Some (target t))"
proof -
  obtain R where inv: "scan_inv target st scs R" using inv_reach [OF assms(2)] by auto
  then have wf: "scan_wf st R" and m: "modified st (target t) \<or> at_member sc (R (target t))"
    using assms(1,3) by (auto simp: scan_inv_def)
  obtain st' sc' where a: "scan_advance (target t) sc st = Some (st', sc')" "at_member sc' (R (target t))"
    using advance_run [OF wf m assms(4)] by blast
  have wf': "scan_wf st' R" using advance_wf [OF a(1)] wf by simp
  have "pscan_list st' r' = Some (target t)" if "pse sc' = Some r'" for r'
    using a(2) that scan_wfD(3) [OF wf', of r' "target t"] by (simp add: at_member_def)
  then show ?thesis using a(1) by blast
qed

text \<open>C38: two threads that scan one list, as two callback threads do with one event, clear each other's mark of a
  change: a scan then follows a record that was moved, and goes on with the records of another list.\<close>

theorem two_scans_leave_list:
  "\<exists>target st scs t sc st' sc' r l. scan_reach target (st, scs) \<and> scs t = Some sc \<and>
     scan_advance (target t) sc st = Some (st', sc') \<and> pse sc' = Some r \<and> pscan_list st' r = Some l \<and> l \<noteq> target t"
proof -
  let ?t = "\<lambda>t :: nat. 5 :: nat"
  have wf: "scan_wf one_record ((\<lambda>_. [])(5 := [1]))" by (rule one_record_wf)
  obtain sc where b: "scan_begin 5 one_record = Some (one_record\<lparr>modified := (modified one_record)(5 := False)\<rparr>, sc)"
    "pse sc = Some 1"
    using begin_run [OF wf, of 5] by auto
  let ?a = "one_record\<lparr>modified := (modified one_record)(5 := False)\<rparr>"
  have ra: "scan_reach ?t (?a, Map.empty(0 \<mapsto> sc))"
    by (rule scan_reach.step [OF one_record_reach scan_step.begins]) (use b in simp_all)
  have wa: "scan_wf ?a ((\<lambda>_. [])(5 := [1]))" using wf by simp
  have p1: "pscan_list ?a 1 = Some 5" using scan_wfD(3) [OF wa, of 1 5] by simp
  obtain st1 where d: "deleteFromList 1 5 ?a = Some st1" "scan_wf st1 (((\<lambda>_. [])(5 := [1]))(5 := []))"
    "pscan_list st1 = (pscan_list ?a)(1 := None)" "rec_fields st1 = rec_fields one_record"
    using delete_spec [OF wa, of 1 5] p1 by auto
  have w1: "scan_wf st1 (\<lambda>_. [])" using d(2) by (simp only: fun_upd_upd fun_upd_triv) (simp add: fun_upd_idem)
  have r1: "scan_reach ?t (st1, Map.empty(0 \<mapsto> sc))" by (rule scan_reach.step [OF ra scan_step.deleted [OF d(1)]])
  have n1: "pscan_list st1 1 = None" "pscan_list st1 2 = None" using d(3) one_record_add(3) by simp_all
  obtain st2 where 2: "addToList 1 6 st1 = Some st2" "scan_wf st2 ((\<lambda>_. [])(6 := [1]))" "pscan_list st2 = (pscan_list st1)(1 \<mapsto> 6)"
    "rec_fields st2 = rec_fields st1"
    using add_spec [OF w1 n1(1), of 6] by (auto simp: insert_phase_def place_def)
  have r2: "scan_reach ?t (st2, Map.empty(0 \<mapsto> sc))" by (rule scan_reach.step [OF r1 scan_step.added [OF n1(1) 2(1)]])
  have n2: "pscan_list st2 2 = None" using n1(2) 2(3) by simp
  have "phase_of st2 u = 0" for u using 2(4) d(4) one_record_add(4) [of u] by (simp add: phase_of_def)
  then have "insert_phase (phase_of st2) 2 [1] = [1, 2]" by (simp add: insert_phase_def place_def)
  then obtain st3 where 3: "addToList 2 6 st2 = Some st3" "scan_wf st3 (((\<lambda>_. [])(6 := [1]))(6 := [1, 2]))"
    using add_spec [OF 2(2) n2, of 6] by auto
  have r3: "scan_reach ?t (st3, Map.empty(0 \<mapsto> sc))" by (rule scan_reach.step [OF r2 scan_step.added [OF n2 3(1)]])
  obtain sd where b4: "scan_begin 5 st3 = Some (st3\<lparr>modified := (modified st3)(5 := False)\<rparr>, sd)"
    using begin_run [OF 3(2), of 5] by blast
  let ?d = "st3\<lparr>modified := (modified st3)(5 := False)\<rparr>"
  have r4: "scan_reach ?t (?d, (Map.empty(0 \<mapsto> sc))(1 \<mapsto> sd))"
    by (rule scan_reach.step [OF r3 scan_step.begins]) (use b4 in simp_all)
  have wd: "scan_wf ?d (((\<lambda>_. [])(6 := [1]))(6 := [1, 2]))" using 3(2) by simp
  then have rep: "ell_rep (scan_mem ?d) 6 ([] @ 1 # [2])" "ell_rep (scan_mem ?d) 6 ([1] @ 2 # [])"
    using scan_wfD(2) [OF wd, of 6] by simp_all
  obtain sc' where "scan_advance (?t 0) sc ?d = Some (?d\<lparr>modified := (modified ?d)(5 := False)\<rparr>, sc')" "pse sc' = Some 2"
    using step_split(1) [OF rep(1)] step_split(1) [OF rep(2)] b(2) by (simp add: scan_advance_def next_of_def Let_def)
  moreover have "pscan_list (?d\<lparr>modified := (modified ?d)(5 := False)\<rparr>) 2 = Some 6"
    using scan_wfD(3) [OF wd, of 2 6] by simp
  ultimately show ?thesis
    using r4 by (intro exI [of _ ?t] exI [of _ ?d] exI [of _ "(Map.empty(0 \<mapsto> sc))(1 \<mapsto> sd)"] exI [of _ 0] exI [of _ sc]
        exI [of _ "?d\<lparr>modified := (modified ?d)(5 := False)\<rparr>"] exI [of _ sc'] exI [of _ 2] exI [of _ 6]) simp
qed

text \<open>C36: a scan during which every record stays or takes itself off the list, as a record does that sets its SCAN to
  Passive, processes each record of the list exactly once, in order, and leaves those that stayed.\<close>

theorem scan_processes_all:
  assumes "scan_reach target (st, scs)"
  shows "\<exists>st'. scanList (one_shot S l) l st = Some (st', records st l) \<and> records st' l = filter (\<lambda>r. \<not> S r) (records st l)"
proof -
  let ?xs = "records st l" and ?st = "st\<lparr>modified := (modified st)(l := False)\<rparr>"
  have wf: "scan_wf st (records st)" by (rule reach_wf [OF assms])
  have rep: "ell_rep (scan_mem st) l ([] @ ?xs)" using scan_wfD(2) [OF wf, of l] by simp
  let ?sc = "\<lparr>pse = hdp ?xs None, sc_prev = None, sc_next = hdp (tl ?xs) None\<rparr>"
  have "first (lists (scan_mem st) l) = hdp ?xs None" using ell_rep_header(2) [OF rep] by simp
  then have "scan_begin l st = Some (?st, ?sc)" using next_of_hdp [OF rep] by (simp add: scan_begin_def Let_def)
  moreover obtain st' R' where "scan_loop (one_shot S l) l ?sc ?st [] = Some (st', [] @ ?xs)" "scan_wf st' R'"
    "R' l = [] @ filter (\<lambda>r. \<not> S r) ?xs"
    using one_shot_loop [of ?st "records st" l "[]" ?xs ?sc S "[]"] wf by auto
  ultimately show ?thesis using records_eq [of st' R' l] by (simp add: scanList_def)
qed

section \<open>Witnesses\<close>

theorem phases_in_order_witness:
  "\<exists>st'. addToList 2 5 low_record = Some st' \<and> \<not> sorted (map (phase_of st') (records st' 5))"
  using phases_in_order [OF low_record_reach [of id] low_record_simps(2), of 5]
  by (simp add: low_record_simps del: One_nat_def)

theorem scan_stays_on_list_witness:
  "\<exists>st sc st' sc'. scan_reach id (st, [5 \<mapsto> sc]) \<and> pse sc = Some 1 \<and> scan_advance 5 sc st = Some (st', sc')"
proof -
  obtain sc where b: "scan_begin (id 5) one_record = Some (one_record\<lparr>modified := (modified one_record)(5 := False)\<rparr>, sc)"
    "pse sc = Some 1"
    using begin_run [OF one_record_wf, of 5] by auto
  have "scan_step id (one_record, Map.empty) (one_record\<lparr>modified := (modified one_record)(5 := False)\<rparr>, Map.empty(5 \<mapsto> sc))"
    using scan_step.begins [of Map.empty 5 id one_record] b(1) by simp
  then have "scan_reach id (one_record\<lparr>modified := (modified one_record)(5 := False)\<rparr>, Map.empty(5 \<mapsto> sc))"
    by (rule scan_reach.step [OF one_record_reach])
  from scan_stays_on_list [OF inj_on_id this _ b(2)] this b(2) show ?thesis
    by (metis fun_upd_same id_apply)
qed

theorem scan_processes_all_witness:
  "\<exists>st'. scanList (one_shot (\<lambda>_. True) 5) 5 one_record = Some (st', [1]) \<and> records st' 5 = []"
  using scan_processes_all [OF one_record_reach [of id], of "\<lambda>_. True" 5] by (simp add: one_record_add(2))

end
