(* ===== verification/DbScanHome.thy ===== *)
theory DbScanHome
  imports DbScanLaws DbTextLaws
begin

text \<open>
  Every record on the list its fields select, over all histories of writes to the scan fields. The lists of an event
  are made when the event is first named; which event a name stands for is a key of its own, and the names of a key
  lead to the same lists for ever.
\<close>

section \<open>Names of events\<close>

text \<open>
  What the C standard says of \<open>strtod\<close>: the decimal text of a number is read as that number (here up to 255), and
  blanks that follow a text do not change what is read of it.
\<close>

definition event_texts :: "text_env \<Rightarrow> bool" where
  "event_texts tenv \<longleftrightarrow>
     (\<forall>k < 256. strtod tenv (show_nat k) = (length (show_nat k), Fin (of_nat k), False)) \<and>
     (\<forall>s ws. s \<noteq> [] \<longrightarrow> \<not> isspace (last s) \<longrightarrow> (\<forall>c \<in> set ws. isspace c) \<longrightarrow> strtod tenv (s @ ws) = strtod tenv s)"

definition event_number :: "text_env \<Rightarrow> string \<Rightarrow> nat option" where
  "event_number tenv name = (case epicsScanDouble tenv name of
       Some v \<Rightarrow> if dle (Fin 0) v \<and> dlt v (Fin 256) then Some (nat (the (dtoint 32 v))) else None
     | None \<Rightarrow> None)"

text \<open>The event a name stands for: no event, that of a number, or that of a text without the blanks around it.\<close>

definition event_key :: "text_env \<Rightarrow> string \<Rightarrow> (nat + string) option" where
  "event_key tenv s =
     (let name = skip_space s
      in if name = [] then None
         else case event_number tenv name of
           Some n \<Rightarrow> if n = 0 then None else Some (Inl n)
         | None \<Rightarrow> Some (Inr (trim name)))"

text \<open>The events made so far.\<close>

fun known :: "scan_db \<Rightarrow> nat + string \<Rightarrow> event_list option" where
  "known st (Inl n) = numbered_event st n"
| "known st (Inr t) = find (\<lambda>pel. ev_name pel = t) (pevent_list st)"

lemma skip_space_hd: "skip_space s \<noteq> [] \<Longrightarrow> \<not> isspace (hd (skip_space s))"
  by (simp add: skip_space_def hd_dropWhile)

lemma skip_space_keep: "s \<noteq> [] \<Longrightarrow> \<not> isspace (hd s) \<Longrightarrow> skip_space s = s"
  by (cases s) (simp_all add: skip_space_def)

lemma trim_split: "\<exists>ws. s = trim s @ ws \<and> (\<forall>c \<in> set ws. isspace c)"
proof -
  have "rev s = takeWhile isspace (rev s) @ skip_space (rev s)" by (simp add: skip_space_def)
  then have "s = trim s @ rev (takeWhile isspace (rev s))" unfolding trim_def by (metis rev_append rev_rev_ident)
  then show ?thesis by (metis set_rev set_takeWhileD)
qed

lemma trim_last: "trim s \<noteq> [] \<Longrightarrow> \<not> isspace (last (trim s))"
  using skip_space_hd [of "rev s"] by (simp add: trim_def last_rev)

lemma trim_hd:
  assumes "s \<noteq> []" "\<not> isspace (hd s)"
  shows "trim s \<noteq> []" "hd (trim s) = hd s"
proof -
  obtain ws where ws: "s = trim s @ ws" "\<forall>c \<in> set ws. isspace c" using trim_split by blast
  then show "trim s \<noteq> []" using assms by (metis append_Nil hd_in_set)
  then show "hd (trim s) = hd s" using ws(1) by (metis hd_append2)
qed

lemma skip_space_blank: "\<forall>c \<in> set ws. isspace c \<Longrightarrow> skip_space (xs @ ws) = [] \<longleftrightarrow> skip_space xs = []"
  by (auto simp: skip_space_def dropWhile_eq_Nil_conv)

lemma number_trim:
  assumes "event_texts tenv" "s \<noteq> []" "\<not> isspace (hd s)"
  shows "event_number tenv (trim s) = event_number tenv s"
proof -
  obtain ws where ws: "s = trim s @ ws" "\<forall>c \<in> set ws. isspace c" using trim_split by blast
  note t = trim_hd [OF assms(2,3)]
  have "strtod tenv (trim s @ ws) = strtod tenv (trim s)"
    using assms(1) t(1) trim_last [of s] ws(2) by (simp add: event_texts_def)
  then have r: "strtod tenv s = strtod tenv (trim s)" using ws(1) by metis
  have d: "skip_space (drop n s) = [] \<longleftrightarrow> skip_space (drop n (trim s)) = []" for n
  proof -
    have "drop n s = drop n (trim s) @ drop (n - length (trim s)) ws" using ws(1) by (metis drop_append)
    moreover have "\<forall>c \<in> set (drop (n - length (trim s)) ws). isspace c" using ws(2) by (meson in_set_dropD)
    ultimately show ?thesis using skip_space_blank by metis
  qed
  have "skip_space s = s" "skip_space (trim s) = trim s"
    using skip_space_keep assms(2,3) t by auto
  then have "epicsScanDouble tenv (trim s) = epicsScanDouble tenv s"
    by (simp add: epicsScanDouble_def Let_def r d)
  then show ?thesis by (simp add: event_number_def)
qed

lemma trunc_rat_of_nat: "trunc_rat (of_nat k) = int k"
  by (simp add: trunc_rat_def)

lemma number_show:
  assumes "event_texts tenv" "k < 256"
  shows "event_number tenv (show_nat k) = Some k"
proof -
  have "show_nat k \<noteq> []" "\<not> isspace (hd (show_nat k))"
    using show_nat_nonempty [of k] show_nat_digits [of k] digit_not_space by (auto intro: hd_in_set)
  then have "skip_space (show_nat k) = show_nat k" by (rule skip_space_keep)
  then have "epicsScanDouble tenv (show_nat k) = Some (Fin (of_nat k))"
    using assms show_nat_nonempty [of k] by (simp add: epicsScanDouble_def event_texts_def skip_space_def)
  moreover have "(of_nat k :: rat) < 256" using assms(2) by (metis of_nat_less_iff of_nat_numeral)
  ultimately show ?thesis
    using assms(2) by (simp add: event_number_def dle_finite dlt_finite dtoint_def Let_def trunc_rat_of_nat)
qed

lemma number_bound: "event_number tenv s = Some n \<Longrightarrow> n < 256"
proof -
  assume "event_number tenv s = Some n"
  then obtain v where v: "dle (Fin 0) v" "dlt v (Fin 256)" "n = nat (the (dtoint 32 v))"
    by (auto simp: event_number_def split: option.splits if_splits)
  then have f: "dfinite v" by (cases v) (auto simp: dle_def dlt_def)
  then have b: "0 \<le> dval v" "dval v < 256" using v(1,2) by (auto simp: dle_finite dlt_finite)
  then have "trunc_rat (dval v) = \<lfloor>dval v\<rfloor>" "0 \<le> \<lfloor>dval v\<rfloor>" "\<lfloor>dval v\<rfloor> < 256"
    by (auto simp: trunc_rat_def floor_less_iff)
  then show ?thesis using v(3) f b by (simp add: dtoint_def Let_def nat_less_iff floor_less_iff)
qed

lemma show_nat_inj: "show_nat m = show_nat n \<longleftrightarrow> m = n"
  by (metis read_show_nat)

section \<open>The events made so far\<close>

text \<open>
  A numbered event is in the chain under its number, the name of any other does not read as a number, no two have one
  name, and the lists of the events are apart, after the address \<open>a\<close>.
\<close>

definition events_ok :: "text_env \<Rightarrow> nat \<Rightarrow> scan_db \<Rightarrow> bool" where
  "events_ok tenv a st \<longleftrightarrow> a \<le> free_lists st \<and>
     (\<forall>n pel. numbered_event st n = Some pel \<longrightarrow> 0 < n \<and> n < 256 \<and> pel \<in> set (pevent_list st) \<and> ev_name pel = show_nat n) \<and>
     (\<forall>pel \<in> set (pevent_list st). (\<exists>n. numbered_event st n = Some pel) \<or> event_number tenv (ev_name pel) = None) \<and>
     distinct (map ev_name (pevent_list st)) \<and>
     sorted_wrt (\<lambda>x y. event_scan_lists y + 3 \<le> event_scan_lists x) (pevent_list st) \<and>
     (\<forall>pel \<in> set (pevent_list st). a \<le> event_scan_lists pel \<and> event_scan_lists pel + 3 \<le> free_lists st)"

lemma events_okD:
  assumes "events_ok tenv a st"
  shows "numbered_event st n = Some pel \<Longrightarrow> 0 < n \<and> n < 256 \<and> pel \<in> set (pevent_list st) \<and> ev_name pel = show_nat n"
    "pel \<in> set (pevent_list st) \<Longrightarrow> (\<exists>n. numbered_event st n = Some pel) \<or> event_number tenv (ev_name pel) = None"
    "pel \<in> set (pevent_list st) \<Longrightarrow> a \<le> event_scan_lists pel \<and> event_scan_lists pel + 3 \<le> free_lists st"
  using assms by (auto simp: events_ok_def)

lemma events_ok_more [simp]:
  "events_ok tenv a (st\<lparr>rec_fields := x\<rparr>) = events_ok tenv a st"
  by (simp add: events_ok_def)

lemma known_more [simp]: "known (st\<lparr>rec_fields := x\<rparr>) k = known st k"
  by (cases k) simp_all

text \<open>The name of an event that is not known belongs to none that is.\<close>

lemma number_free:
  assumes ok: "events_ok tenv a st" "event_texts tenv" and n: "event_number tenv t = Some n" "numbered_event st n = None"
  shows "t \<notin> ev_name ` set (pevent_list st)"
proof
  assume "t \<in> ev_name ` set (pevent_list st)"
  then obtain pel where pel: "pel \<in> set (pevent_list st)" "ev_name pel = t" by auto
  then obtain m where m: "numbered_event st m = Some pel" using events_okD(2) [OF ok(1) pel(1)] n(1) by auto
  then have "t = show_nat m" "m < 256" using events_okD(1) [OF ok(1) m] pel(2) by auto
  then have "m = n" using number_show [OF ok(2)] n(1) by simp
  then show False using m n(2) by simp
qed

lemma find_none: "find (\<lambda>pel. ev_name pel = t) xs = None \<longleftrightarrow> t \<notin> ev_name ` set xs"
  by (auto simp: find_None_iff)

definition plain_number :: "nat + string \<Rightarrow> nat" where
  "plain_number k = (case k of Inl n \<Rightarrow> n | Inr _ \<Rightarrow> 0)"

definition key_name :: "nat + string \<Rightarrow> string" where
  "key_name k = (case k of Inl n \<Rightarrow> show_nat n | Inr t \<Rightarrow> t)"

text \<open>A handle is found when its key is known, and made otherwise.\<close>

lemma handle_run:
  assumes ok: "events_ok tenv a st" "event_texts tenv"
  shows "eventNameToHandle tenv s st = (case event_key tenv s of None \<Rightarrow> (None, st)
     | Some k \<Rightarrow> (case known st k of Some pel \<Rightarrow> (Some pel, st)
         | None \<Rightarrow> (case new_event (skip_space s) (plain_number k) st of (pel, st') \<Rightarrow> (Some pel, st'))))"
proof -
  let ?s = "skip_space s"
  have e: "eventNameToHandle tenv s st = (if ?s = [] then (None, st)
      else if event_number tenv ?s = Some 0 then (None, st)
      else case Option.bind (event_number tenv ?s) (numbered_event st) of
           Some pel \<Rightarrow> (Some pel, st)
         | None \<Rightarrow>
             (case find (\<lambda>pel. ev_name pel = trim ?s) (pevent_list st) of
                Some pel \<Rightarrow> (Some pel, st)
              | None \<Rightarrow> (case new_event ?s (case event_number tenv ?s of Some n \<Rightarrow> n | None \<Rightarrow> 0) st of (pel, st) \<Rightarrow> (Some pel, st))))"
    unfolding eventNameToHandle_def Let_def event_number_def by (rule refl)
  show ?thesis
  proof (cases "?s = [] \<or> event_number tenv ?s = Some 0")
    case True
    then show ?thesis by (auto simp: e event_key_def)
  next
    case False
    then have t: "event_number tenv (trim ?s) = event_number tenv ?s"
      using number_trim [OF ok(2)] skip_space_hd by blast
    show ?thesis
    proof (cases "event_number tenv ?s")
      case None
      then show ?thesis using False by (simp add: e event_key_def plain_number_def split: option.split)
    next
      case (Some n)
      then have "find (\<lambda>pel. ev_name pel = trim ?s) (pevent_list st) = None" if "numbered_event st n = None"
        using number_free [OF ok _ that, of "trim ?s"] t by (simp add: find_none)
      then show ?thesis
        using Some False by (cases "numbered_event st n") (auto simp: e event_key_def plain_number_def)
    qed
  qed
qed

lemma event_key_cases:
  assumes "event_key tenv s = Some k"
  shows "plain_number k < 256" "k = Inl n \<Longrightarrow> 0 < n \<and> n < 256"
    "event_texts tenv \<Longrightarrow> k = Inr t \<Longrightarrow> t = trim (skip_space s) \<and> event_number tenv t = None"
proof -
  have "skip_space s \<noteq> []" using assms by (auto simp: event_key_def)
  then have t: "event_texts tenv \<Longrightarrow> event_number tenv (trim (skip_space s)) = event_number tenv (skip_space s)"
    using number_trim skip_space_hd by blast
  show "plain_number k < 256" "k = Inl n \<Longrightarrow> 0 < n \<and> n < 256"
    "event_texts tenv \<Longrightarrow> k = Inr t \<Longrightarrow> t = trim (skip_space s) \<and> event_number tenv t = None"
    using assms number_bound t
    by (auto simp: event_key_def plain_number_def Let_def split: if_splits option.splits)
qed

text \<open>What a new event changes: its key becomes known, no other is lost, and no record moves.\<close>

lemma sim_new_lists:
  assumes "sim UNIV m R" "R l = []"
  shows "sim UNIV (ellInit l m) R"
  using assms by (auto simp: sim_def ell_rep_def ellInit_def heap_simps)

lemma new_event_run:
  assumes ok: "events_ok tenv a st" "event_texts tenv" and wf: "scan_wf st R"
    and fresh: "\<And>r l. pscan_list st r = Some l \<Longrightarrow> l < free_lists st"
    and k: "event_key tenv s = Some k" "known st k = None"
  obtains pel st' where "new_event (skip_space s) (plain_number k) st = (pel, st')" "scan_wf st' R" "events_ok tenv a st'"
    "known st' k = Some pel" "\<And>k' p. known st k' = Some p \<Longrightarrow> known st' k' = Some p"
    "pscan_list st' = pscan_list st" "rec_fields st' = rec_fields st" "free_lists st < free_lists st'"
proof -
  let ?a = "free_lists st"
  define pel where "pel = \<lparr>ev_name = key_name k, event_scan_lists = ?a\<rparr>"
  define st' where "st' = st\<lparr>pevent_list := pel # pevent_list st,
      numbered_event := (case k of Inl n \<Rightarrow> (numbered_event st)(n := Some pel) | Inr _ \<Rightarrow> numbered_event st),
      scan_mem := ellInit (?a + 2) (ellInit (?a + 1) (ellInit ?a (scan_mem st))), free_lists := ?a + 3\<rparr>"
  have run: "new_event (skip_space s) (plain_number k) st = (pel, st')"
    using event_key_cases [OF k(1)] ok(2)
    by (cases k) (simp_all add: new_event_def Let_def plain_number_def key_name_def pel_def st'_def)
  have "R l = []" if "?a \<le> l" for l
    using fresh [of _ l] scan_wfD(3) [OF wf, of _ l] that by (cases "R l") fastforce+
  then have "sim UNIV (scan_mem st') R"
    using sim_new_lists scan_wfD(1) [OF wf] by (simp add: st'_def)
  then have wf': "scan_wf st' R" using wf by (simp add: scan_wf_def st'_def)
  have out: "key_name k \<notin> ev_name ` set (pevent_list st)"
  proof (cases k)
    case (Inl n)
    then show ?thesis
      using number_free [OF ok number_show [OF ok(2)]] event_key_cases(2) [OF k(1)] k(2) by (simp add: key_name_def)
  next
    case (Inr t)
    then show ?thesis using k(2) by (simp add: key_name_def find_none)
  qed
  have kn: "known st' k = Some pel"
    by (cases k) (simp_all add: st'_def pel_def key_name_def)
  have keep: "known st' k' = Some p" if "known st k' = Some p" for k' p
  proof (cases k')
    case (Inl n)
    then show ?thesis using that k(2) by (cases k) (auto simp: st'_def)
  next
    case (Inr t)
    then have "t \<in> ev_name ` set (pevent_list st)" using that by (metis find_none known.simps(2) option.distinct(1))
    then have "key_name k \<noteq> t" using out by blast
    then show ?thesis using that Inr by (simp add: st'_def pel_def)
  qed
  have "events_ok tenv a st'"
  proof -
    have n: "numbered_event st' n = Some p \<Longrightarrow> 0 < n \<and> n < 256 \<and> p \<in> set (pevent_list st') \<and> ev_name p = show_nat n" for n p
      using events_okD(1) [OF ok(1), of n p] event_key_cases(2) [OF k(1), of n]
      by (cases k) (auto simp: st'_def pel_def key_name_def split: if_splits)
    have p: "(\<exists>n. numbered_event st' n = Some p) \<or> event_number tenv (ev_name p) = None" if "p \<in> set (pevent_list st')" for p
    proof (cases "p = pel")
      case True
      then show ?thesis
        using kn event_key_cases(3) [OF k(1) ok(2)] by (cases k) (auto simp: pel_def key_name_def)
    next
      case False
      then have "p \<in> set (pevent_list st)" using that by (simp add: st'_def)
      from events_okD(2) [OF ok(1) this] show ?thesis using keep [of "Inl _"] by fastforce
    qed
    have "distinct (map ev_name (pevent_list st'))"
        "sorted_wrt (\<lambda>x y. event_scan_lists y + 3 \<le> event_scan_lists x) (pevent_list st')"
        "\<forall>p \<in> set (pevent_list st'). a \<le> event_scan_lists p \<and> event_scan_lists p + 3 \<le> free_lists st'" "a \<le> free_lists st'"
      using ok(1) out by (auto simp: events_ok_def st'_def pel_def)
    then show ?thesis unfolding events_ok_def using n p by (intro conjI allI ballI impI) simp_all
  qed
  then show ?thesis using that [OF run wf' _ kn keep] by (simp add: st'_def)
qed

section \<open>Every record on its list\<close>

text \<open>The event a record is scanned on, with its priority.\<close>

definition event_of :: "scan_env \<Rightarrow> scan_fields \<Rightarrow> ((nat + string) \<times> nat) option" where
  "event_of env f =
     (if scan_menu f = menuScanEvent \<and> scan_prio f < NUM_CALLBACK_PRIORITIES
      then map_option (\<lambda>k. (k, scan_prio f)) (event_key (scan_text env) (evnt f)) else None)"

text \<open>The list of a record that is not scanned on an event.\<close>

definition fixed_home :: "scan_env \<Rightarrow> nat \<Rightarrow> scan_fields \<Rightarrow> nat option" where
  "fixed_home env r f =
     (let scan = scan_menu f
      in if scan = menuScanPassive \<or> scan = menuScanEvent \<or> nPeriodic env + SCAN_1ST_PERIODIC \<le> scan then None
         else if scan = menuScanI_O_Intr
           then (case get_ioint_info env r of
                   Some g \<Rightarrow> if fst (g 0) = 0 \<and> scan_prio f < NUM_CALLBACK_PRIORITIES
                     then map_option (\<lambda>a. a + scan_prio f) (snd (g 0)) else None
                 | None \<Rightarrow> None)
         else papPeriodic env (scan - SCAN_1ST_PERIODIC))"

definition home :: "scan_env \<Rightarrow> scan_db \<Rightarrow> nat \<Rightarrow> scan_fields \<Rightarrow> nat option" where
  "home env st r f = (case event_of env f of
       Some (k, prio) \<Rightarrow> map_option (\<lambda>pel. event_scan_lists pel + prio) (known st k)
     | None \<Rightarrow> fixed_home env r f)"

text \<open>What device support promises: asked to remove a record, it names the source it named before.\<close>

definition ioint_stable :: "scan_env \<Rightarrow> bool" where
  "ioint_stable env \<longleftrightarrow> (\<forall>r g. get_ioint_info env r = Some g \<longrightarrow> g 1 = g 0)"

text \<open>The lists of the periods and of the interrupt sources are not where those of events will be: what \<open>calloc\<close>
  promises, the addresses from \<open>a\<close> on standing for the memory it gives to events.\<close>

definition lists_below :: "scan_env \<Rightarrow> nat \<Rightarrow> bool" where
  "lists_below env a \<longleftrightarrow> (\<forall>i l. papPeriodic env i = Some l \<longrightarrow> l < a) \<and>
     (\<forall>r g l. get_ioint_info env r = Some g \<longrightarrow> snd (g 0) = Some l \<longrightarrow> l + NUM_CALLBACK_PRIORITIES \<le> a)"

lemma fixed_home_below: "lists_below env a \<Longrightarrow> fixed_home env r f = Some l \<Longrightarrow> l < a"
  unfolding lists_below_def fixed_home_def Let_def
  by (fastforce split: if_splits option.splits)

definition at_home :: "scan_env \<Rightarrow> scan_db \<Rightarrow> nat \<Rightarrow> bool" where
  "at_home env st r \<longleftrightarrow> pscan_list st r = home env st r (rec_fields st r) \<and>
     (\<forall>k prio. event_of env (rec_fields st r) = Some (k, prio) \<longrightarrow> known st k \<noteq> None)"

text \<open>The state of the lists, with all but the record \<open>x\<close> at home.\<close>

definition homes_ok :: "scan_env \<Rightarrow> nat \<Rightarrow> nat set \<Rightarrow> scan_db \<Rightarrow> bool" where
  "homes_ok env a X st \<longleftrightarrow> scan_wf st (records st) \<and> events_ok (scan_text env) a st \<and>
     (\<forall>r. r \<notin> X \<longrightarrow> at_home env st r) \<and> (\<forall>r \<in> X. pscan_list st r = None)"

lemma home_below:
  assumes "lists_below env a" "events_ok (scan_text env) a st" "at_home env st r" "pscan_list st r = Some l"
  shows "l < free_lists st"
proof (cases "event_of env (rec_fields st r)")
  case None
  then have "l < a" using assms(1,3,4) fixed_home_below by (simp add: at_home_def home_def)
  then show ?thesis using assms(2) by (simp add: events_ok_def)
next
  case (Some kp)
  obtain k p where [simp]: "kp = (k, p)" by (cases kp)
  obtain pel where pel: "known st k = Some pel" "l = event_scan_lists pel + p"
    using Some assms(3,4) by (auto simp: at_home_def home_def)
  have "pel \<in> set (pevent_list st)"
    using pel(1) events_okD(1) [OF assms(2)] by (cases k) (auto simp: find_Some_iff)
  moreover have "p < 3" using Some by (auto simp: event_of_def split: if_splits)
  ultimately show ?thesis using events_okD(3) [OF assms(2)] pel(2) by fastforce
qed

lemma at_home_cong:
  assumes "at_home env st r" "pscan_list st' r = pscan_list st r" "rec_fields st' r = rec_fields st r"
    "\<And>k p. known st k = Some p \<Longrightarrow> known st' k = Some p"
  shows "at_home env st' r"
  using assms by (auto simp: at_home_def home_def split: option.splits prod.splits)

text \<open>Naming the event of a record.\<close>

lemma handle_ok:
  assumes env: "lists_below env a" "event_texts (scan_text env)" and ok: "homes_ok env a X st"
    and k: "event_key (scan_text env) s = Some k"
  obtains pel st' where "eventNameToHandle (scan_text env) s st = (Some pel, st')" "homes_ok env a X st'"
    "known st' k = Some pel" "\<And>k' p. known st k' = Some p \<Longrightarrow> known st' k' = Some p"
    "pscan_list st' = pscan_list st" "rec_fields st' = rec_fields st"
    "known st k \<noteq> None \<Longrightarrow> st' = st"
proof (cases "known st k")
  case (Some pel)
  then show ?thesis
    using that [of pel st] handle_run [of "scan_text env" a st s] ok env(2) k by (simp add: homes_ok_def)
next
  case None
  have wf: "scan_wf st (records st)" and ev: "events_ok (scan_text env) a st" using ok by (simp_all add: homes_ok_def)
  have fresh: "l < free_lists st" if "pscan_list st r = Some l" for r l
    using ok home_below [OF env(1) ev _ that] that by (cases "r \<in> X") (auto simp: homes_ok_def)
  obtain pel st' where n: "new_event (skip_space s) (plain_number k) st = (pel, st')" "scan_wf st' (records st)"
    "events_ok (scan_text env) a st'" "known st' k = Some pel" "\<And>k' p. known st k' = Some p \<Longrightarrow> known st' k' = Some p"
    "pscan_list st' = pscan_list st" "rec_fields st' = rec_fields st" "free_lists st < free_lists st'"
    using new_event_run [OF ev env(2) wf _ k None] fresh by blast
  have "records st' = records st" using records_eq [OF n(2)] by auto
  then have "homes_ok env a X st'"
    using ok n at_home_cong [of env st _ st'] by (auto simp: homes_ok_def)
  then show ?thesis
    using that [OF _ _ n(4,5,6,7)] handle_run [OF ev env(2), of s] k None n(1) by simp
qed

lemma home_add:
  assumes ok: "homes_ok env a {r} st" and l: "home env st r (rec_fields st r) = Some l"
  shows "\<exists>st'. addToList r l st = Some st' \<and> homes_ok env a {} st'"
proof -
  have wf: "scan_wf st (records st)" and r: "pscan_list st r = None" using ok by (simp_all add: homes_ok_def)
  obtain st' R' where a: "addToList r l st = Some st'" "scan_wf st' R'" "pscan_list st' = (pscan_list st)(r \<mapsto> l)"
    "rec_fields st' = rec_fields st"
    using add_spec [OF wf r, of l] by blast
  have e: "pevent_list st' = pevent_list st" "numbered_event st' = numbered_event st" "free_lists st' = free_lists st"
    using a(1) by (auto simp: addToList_def Let_def bind_eq_Some_conv)
  then have k: "known st' k = known st k" for k by (cases k) simp_all
  have "at_home env st' r"
    using l a(3,4) by (auto simp: at_home_def home_def k split: option.splits prod.splits)
  moreover have "at_home env st' u" if "u \<noteq> r" for u
  proof (rule at_home_cong [of env st u])
    show "at_home env st u" using ok that by (simp add: homes_ok_def)
  qed (simp_all add: a(3,4) k that)
  ultimately have "at_home env st' u" for u by (cases "u = r") simp_all
  moreover have "R' = records st'" using records_eq [OF a(2)] by auto
  moreover have "events_ok (scan_text env) a st'" using ok e by (simp add: homes_ok_def events_ok_def)
  ultimately have "homes_ok env a {} st'" using a(2) by (simp add: homes_ok_def)
  then show ?thesis using a(1) by blast
qed

lemma home_leave:
  assumes ok: "homes_ok env a {} st" and l: "home env st r (rec_fields st r) = Some l"
  shows "\<exists>st'. deleteFromList r l st = Some st' \<and> homes_ok env a {r} st'"
proof -
  have wf: "scan_wf st (records st)" and r: "pscan_list st r = Some l"
    using ok l by (simp_all add: homes_ok_def at_home_def)
  obtain st' R' where a: "deleteFromList r l st = Some st'" "scan_wf st' R'" "pscan_list st' = (pscan_list st)(r := None)"
    "rec_fields st' = rec_fields st"
    using delete_spec [OF wf, of r l] r by auto
  have e: "pevent_list st' = pevent_list st" "numbered_event st' = numbered_event st" "free_lists st' = free_lists st"
    using a(1) by (auto simp: deleteFromList_def bind_eq_Some_conv split: if_splits)
  then have k: "known st' k = known st k" for k by (cases k) simp_all
  have "at_home env st' u" if "u \<noteq> r" for u
  proof (rule at_home_cong [of env st u])
    show "at_home env st u" using ok that by (simp add: homes_ok_def)
  qed (simp_all add: a(3,4) k that)
  moreover have "R' = records st'" using records_eq [OF a(2)] by auto
  moreover have "events_ok (scan_text env) a st'" using ok e by (simp add: homes_ok_def events_ok_def)
  ultimately have "homes_ok env a {r} st'" using a(2,3) by (simp add: homes_ok_def)
  then show ?thesis using a(1) by blast
qed

lemma home_none:
  assumes "homes_ok env a {r} st" "home env st r (rec_fields st r) = None" "event_of env (rec_fields st r) = None"
  shows "homes_ok env a {} st"
proof -
  have "at_home env st r" using assms by (simp add: at_home_def homes_ok_def)
  then have "at_home env st u" for u using assms(1) by (cases "u = r") (simp_all add: homes_ok_def)
  then show ?thesis using assms(1) by (simp add: homes_ok_def)
qed

lemma home_stay: "homes_ok env a {} st \<Longrightarrow> pscan_list st r = None \<Longrightarrow> homes_ok env a {r} st"
  by (simp add: homes_ok_def)

lemma records_more [simp]: "records (st\<lparr>rec_fields := x\<rparr>) = records st"
  by (simp add: records_def fun_eq_iff)

lemma home_fields: "homes_ok env a {r} st \<Longrightarrow> homes_ok env a {r} (st\<lparr>rec_fields := (rec_fields st)(r := f)\<rparr>)"
  by (simp add: homes_ok_def at_home_def home_def cong: option.case_cong)

lemma scanDelete_home:
  assumes env: "ioint_stable env" "lists_below env a" "event_texts (scan_text env)" and ok: "homes_ok env a {} st"
  shows "\<exists>st'. scanDelete env r st = Some st' \<and> homes_ok env a {r} st'"
proof -
  let ?f = "rec_fields st r"
  have h: "at_home env st r" and ev: "events_ok (scan_text env) a st" using ok by (simp_all add: homes_ok_def)
  have "scanDelete env r st = (case home env st r ?f of Some l \<Rightarrow> deleteFromList r l st | None \<Rightarrow> Some st)"
  proof (cases "scan_menu ?f = menuScanEvent")
    case True
    then have s: "scanDelete env r st = (if NUM_CALLBACK_PRIORITIES \<le> scan_prio ?f then Some st
        else (case eventNameToHandle (scan_text env) (evnt ?f) st of
           (Some pel, st) \<Rightarrow> deleteFromList r (event_scan_lists pel + scan_prio ?f) st | (None, st) \<Rightarrow> Some st))"
      by (simp add: scanDelete_def Let_def del: One_nat_def)
    have fixed: "fixed_home env r ?f = None" using True by (simp add: fixed_home_def)
    show ?thesis
    proof (cases "event_of env ?f")
      case None
      then show ?thesis
        using s True fixed handle_run [OF ev env(3), of "evnt ?f"]
        by (simp add: home_def event_of_def split: if_splits)
    next
      case (Some kp)
      then obtain k where k: "event_key (scan_text env) (evnt ?f) = Some k" "kp = (k, scan_prio ?f)" "scan_prio ?f < 3"
        by (auto simp: event_of_def split: if_splits)
      then obtain pel where "known st k = Some pel" using h Some by (auto simp: at_home_def)
      then show ?thesis
        using s Some k handle_run [OF ev env(3), of "evnt ?f"] by (simp add: home_def)
    qed
  next
    case False
    then have e: "home env st r ?f = fixed_home env r ?f" by (simp add: home_def event_of_def)
    show ?thesis
    proof (cases "scan_menu ?f = menuScanI_O_Intr")
      case True
      show ?thesis
      proof (cases "get_ioint_info env r")
        case None
        then show ?thesis using True unfolding e by (simp add: scanDelete_def fixed_home_def Let_def)
      next
        case (Some g)
        then have "g 1 = g 0" using env(1) by (simp add: ioint_stable_def)
        then show ?thesis
          using True Some unfolding e
          by (cases "g 0"; cases "snd (g 0)") (simp_all add: scanDelete_def fixed_home_def Let_def not_le)
      qed
    next
      case F: False
      then show ?thesis using False unfolding e by (auto simp: scanDelete_def fixed_home_def Let_def split: option.splits)
    qed
  qed
  then show ?thesis
    using home_leave [OF ok] home_stay [OF ok, of r] ok h by (auto simp: at_home_def split: option.splits)
qed

lemma scanAdd_home:
  assumes env: "lists_below env a" "event_texts (scan_text env)" and ok: "homes_ok env a {r} st"
  shows "\<exists>st'. scanAdd env r st = Some st' \<and> homes_ok env a {} st'"
proof (cases "scan_menu (rec_fields st r) = menuScanEvent")
  let ?f = "rec_fields st r"
  have ev: "events_ok (scan_text env) a st" using ok by (simp add: homes_ok_def)
  case True
  then have s: "scanAdd env r st = (if NUM_CALLBACK_PRIORITIES \<le> scan_prio ?f then Some st
      else (case eventNameToHandle (scan_text env) (evnt ?f) st of
         (Some pel, st) \<Rightarrow> addToList r (event_scan_lists pel + scan_prio ?f) st | (None, st) \<Rightarrow> Some st))"
    by (simp add: scanAdd_def Let_def del: One_nat_def)
  show ?thesis
  proof (cases "event_of env ?f")
    case None
    then have "home env st r ?f = None" using True by (simp add: home_def fixed_home_def)
    then have "homes_ok env a {} st" using home_none [OF ok] None by simp
    moreover have "scanAdd env r st = Some st"
      using s None True handle_run [OF ev env(2), of "evnt ?f"] by (simp add: event_of_def split: if_splits)
    ultimately show ?thesis by simp
  next
    case (Some kp)
    then obtain k where k: "event_key (scan_text env) (evnt ?f) = Some k" "kp = (k, scan_prio ?f)" "scan_prio ?f < 3"
      by (auto simp: event_of_def split: if_splits)
    obtain pel st1 where h: "eventNameToHandle (scan_text env) (evnt ?f) st = (Some pel, st1)" "homes_ok env a {r} st1"
      "known st1 k = Some pel" "rec_fields st1 = rec_fields st"
      by (rule handle_ok [OF env ok k(1)])
    have "home env st1 r (rec_fields st1 r) = Some (event_scan_lists pel + scan_prio ?f)"
      using Some k h(3,4) by (simp add: home_def)
    from home_add [OF h(2) this] show ?thesis using s k(3) h(1) by simp
  qed
next
  let ?f = "rec_fields st r"
  case False
  then have e: "home env st r ?f = fixed_home env r ?f" "event_of env ?f = None" by (simp_all add: home_def event_of_def)
  have add: "\<exists>st'. addToList r l st = Some st' \<and> homes_ok env a {} st'" if "fixed_home env r ?f = Some l" for l
    using home_add [OF ok] e that by simp
  have same: "homes_ok env a {} st" if "fixed_home env r ?f = None"
    using home_none [OF ok] e that by simp
  have unset: "homes_ok env a {} (set_passive r st)"
  proof (rule home_none [of _ _ r])
    show "homes_ok env a {r} (set_passive r st)" using home_fields [OF ok] by (simp add: set_passive_def)
  qed (simp_all add: set_passive_def home_def event_of_def fixed_home_def)
  show ?thesis
  proof (cases "scan_menu ?f = menuScanI_O_Intr")
    case True
    show ?thesis
    proof (cases "get_ioint_info env r")
      case None
      then show ?thesis using True unset same by (auto simp: scanAdd_def fixed_home_def Let_def)
    next
      case (Some g)
      then show ?thesis
        using True unset same add
        by (cases "g 0"; cases "snd (g 0)") (auto simp: scanAdd_def fixed_home_def Let_def not_le)
    qed
  next
    case F: False
    then show ?thesis
      using False same add
      by (cases "papPeriodic env (scan_menu ?f - SCAN_1ST_PERIODIC)") (auto simp: scanAdd_def fixed_home_def Let_def)
  qed
qed

lemma put_home:
  assumes "ioint_stable env" "lists_below env a" "event_texts (scan_text env)" "homes_ok env a {} st"
  shows "\<exists>st'. put_scan_field env r f st = Some st' \<and> homes_ok env a {} st'"
proof -
  obtain st1 where 1: "scanDelete env r st = Some st1" "homes_ok env a {r} st1"
    using scanDelete_home [OF assms] by blast
  from scanAdd_home [OF assms(2,3) home_fields [OF 1(2), of f]] 1(1) show ?thesis by (simp add: put_scan_field_def)
qed

text \<open>All histories of writes to the scan fields, from a state without events.\<close>

inductive put_run :: "scan_env \<Rightarrow> nat \<Rightarrow> scan_db \<Rightarrow> bool" for env a where
  start: "put_run env a (empty_scan_db\<lparr>free_lists := a\<rparr>)"
| put: "put_run env a st \<Longrightarrow> put_scan_field env r f st = Some st' \<Longrightarrow> put_run env a st'"

lemma start_home: "homes_ok env a {} (empty_scan_db\<lparr>free_lists := a\<rparr>)"
proof -
  let ?st = "empty_scan_db\<lparr>free_lists := a\<rparr>"
  have "scan_wf ?st (\<lambda>_. [])" using empty_wf by (simp add: scan_wf_def)
  moreover from this have "records ?st = (\<lambda>_. [])" using records_eq by auto
  moreover have "events_ok (scan_text env) a ?st" by (simp add: events_ok_def empty_scan_db_def)
  moreover have "at_home env ?st r" for r
    by (simp add: at_home_def home_def event_of_def fixed_home_def empty_scan_db_def)
  ultimately show ?thesis by (simp add: homes_ok_def)
qed

lemma put_run_inv:
  assumes "put_run env a st" "ioint_stable env" "lists_below env a" "event_texts (scan_text env)"
  shows "homes_ok env a {} st"
  using assms(1)
proof induction
  case (put st r f st')
  then show ?case using put_home [OF assms(2-4), of st r f] by auto
qed (rule start_home)

text \<open>The lists of the events are apart from one another, and a key is found again in its event.\<close>

lemma known_member:
  assumes "events_ok tenv a st" "known st k = Some p"
  shows "p \<in> set (pevent_list st)" "ev_name p = key_name k"
  using assms events_okD(1) [OF assms(1)] by (cases k; auto simp: find_Some_iff key_name_def)+

lemma known_lists:
  assumes ok: "events_ok tenv a st" and k: "known st k = Some p" "known st k' = Some p'"
    and apart: "event_scan_lists p + i = event_scan_lists p' + j" "i < 3" "j < 3"
  shows "p = p'" "i = j"
proof -
  have s: "sorted_wrt (\<lambda>x y. event_scan_lists y + 3 \<le> event_scan_lists x) (pevent_list st)"
    using ok by (simp add: events_ok_def)
  obtain x y where xy: "x < length (pevent_list st)" "pevent_list st ! x = p" "y < length (pevent_list st)" "pevent_list st ! y = p'"
    using known_member(1) [OF ok] k by (meson in_set_conv_nth)
  have "\<not> x < y" "\<not> y < x"
    using sorted_wrt_nth_less [OF s, of x y] sorted_wrt_nth_less [OF s, of y x] xy apart by auto
  then show "p = p'" using xy by simp
  then show "i = j" using apart(1) by simp
qed

lemma key_name_inj:
  assumes "event_texts tenv" "event_key tenv s = Some k" "event_key tenv s' = Some k'" "key_name k = key_name k'"
  shows "k = k'"
proof (cases k; cases k')
  fix n t assume "k = Inl n" "k' = Inr t"
  then have "event_number tenv t = Some n" "event_number tenv t = None"
    using assms number_show [OF assms(1), of n] event_key_cases(2) [OF assms(2), of n] event_key_cases(3) [OF assms(3,1), of t]
    by (simp_all add: key_name_def)
  then show ?thesis by simp
next
  fix n t assume "k = Inr t" "k' = Inl n"
  then have "event_number tenv t = Some n" "event_number tenv t = None"
    using assms number_show [OF assms(1), of n] event_key_cases(2) [OF assms(3), of n] event_key_cases(3) [OF assms(2,1), of t]
    by (simp_all add: key_name_def)
  then show ?thesis by simp
qed (use assms(4) in \<open>simp_all add: key_name_def show_nat_inj\<close>)

text \<open>Which records share a list.\<close>

lemma event_home:
  assumes ok: "homes_ok env a {} st" and env: "event_texts (scan_text env)"
    and e: "event_of env (rec_fields st r) = Some (k, p)"
  obtains pel where "known st k = Some pel" "event_key (scan_text env) (evnt (rec_fields st r)) = Some k"
    "p = scan_prio (rec_fields st r)" "p < 3" "pscan_list st r = Some (event_scan_lists pel + p)"
    "eventNameToHandle (scan_text env) (evnt (rec_fields st r)) st = (Some pel, st)"
proof -
  have h: "at_home env st r" and ev: "events_ok (scan_text env) a st" using ok by (simp_all add: homes_ok_def)
  have k: "event_key (scan_text env) (evnt (rec_fields st r)) = Some k" "p = scan_prio (rec_fields st r)" "p < 3"
    using e by (auto simp: event_of_def split: if_splits)
  obtain pel where pel: "known st k = Some pel" using h e by (auto simp: at_home_def)
  then show ?thesis
    using that [OF pel k] h e k(1) handle_run [OF ev env, of "evnt (rec_fields st r)"] by (simp add: at_home_def home_def)
qed

lemma same_list:
  assumes ok: "homes_ok env a {} st" and env: "lists_below env a" "event_texts (scan_text env)"
    and l: "pscan_list st r = Some l" "pscan_list st u = Some l"
  shows "event_of env (rec_fields st r) = event_of env (rec_fields st u)"
proof -
  have ev: "events_ok (scan_text env) a st" using ok by (simp add: homes_ok_def)
  have low: "l < a" if "event_of env (rec_fields st v) = None" "pscan_list st v = Some l" for v
    using ok that fixed_home_below [OF env(1)] by (simp add: homes_ok_def at_home_def home_def)
  have high: "a \<le> l" if "event_of env (rec_fields st v) = Some (k, p)" "pscan_list st v = Some l" for v k p
    by (rule event_home [OF ok env(2) that(1)])
      (use that(2) known_member(1) [OF ev] events_okD(3) [OF ev] in fastforce)
  show ?thesis
  proof (cases "event_of env (rec_fields st r)"; cases "event_of env (rec_fields st u)")
    fix x y assume x: "event_of env (rec_fields st r) = Some x" and y: "event_of env (rec_fields st u) = Some y"
    obtain k p k' p' where [simp]: "x = (k, p)" "y = (k', p')" by (cases x; cases y)
    obtain pel where r: "known st k = Some pel" "event_key (scan_text env) (evnt (rec_fields st r)) = Some k" "p < 3"
      "l = event_scan_lists pel + p"
      using event_home [OF ok env(2), of r k p] x l(1) by auto
    obtain pel' where u: "known st k' = Some pel'" "event_key (scan_text env) (evnt (rec_fields st u)) = Some k'" "p' < 3"
      "l = event_scan_lists pel' + p'"
      using event_home [OF ok env(2), of u k' p'] y l(2) by auto
    have "pel = pel'" "p = p'" using known_lists [OF ev r(1) u(1), of p p'] r(3,4) u(3,4) by auto
    then have "key_name k = key_name k'" using known_member(2) [OF ev r(1)] known_member(2) [OF ev u(1)] by simp
    then show ?thesis using key_name_inj [OF env(2) r(2) u(2)] \<open>p = p'\<close> x y by simp
  qed (use low [of r] low [of u] high [of r] high [of u] l in \<open>fastforce simp: not_le [symmetric]\<close>)+
qed

text \<open>A write changes the fields of no other record; it leaves the fields it was given, or makes the record passive.\<close>

lemma put_fields:
  assumes "put_scan_field env r f st = Some st'"
  shows "u \<noteq> r \<Longrightarrow> rec_fields st' u = rec_fields st u"
    "scan_menu f = menuScanEvent \<Longrightarrow> rec_fields st' r = f"
proof -
  have new: "rec_fields t' = rec_fields t" if "eventNameToHandle e s t = (p, t')" for e s p t t'
    using that by (auto simp: eventNameToHandle_def new_event_def Let_def split: if_splits option.splits)
  have add: "rec_fields t' = rec_fields t" if "addToList r l t = Some t'" for l t t'
    using that by (auto simp: addToList_def Let_def bind_eq_Some_conv)
  have del: "rec_fields t' = rec_fields t" if "deleteFromList r l t = Some t'" for l t t'
    using that by (auto simp: deleteFromList_def bind_eq_Some_conv split: if_splits)
  obtain st1 where 1: "scanDelete env r st = Some st1"
    "scanAdd env r (st1\<lparr>rec_fields := (rec_fields st1)(r := f)\<rparr>) = Some st'"
    using assms by (auto simp: put_scan_field_def bind_eq_Some_conv)
  have "rec_fields st1 = rec_fields st"
    using 1(1) by (auto simp: scanDelete_def Let_def dest!: new del split: if_splits option.splits prod.splits)
  then show "u \<noteq> r \<Longrightarrow> rec_fields st' u = rec_fields st u" "scan_menu f = menuScanEvent \<Longrightarrow> rec_fields st' r = f"
    using 1(2) by (auto simp: scanAdd_def set_passive_def Let_def dest!: new add split: if_splits option.splits prod.splits)
qed

text \<open>C34: after every history of writes to the scan fields each record is on the list its fields select, on no other,
  and once, and the next write does not fail. The list of a record that is not scanned on an event is that of its
  period or of its interrupt source and priority; that of a record scanned on an event is the one that posting its
  EVNT finds, for its priority. Records share a list of events exactly when they have the same priority and EVNT
  stands for the same event (the same number, or the same text without the blanks around it), and no other record is
  on such a list. Device support must name the same interrupt source when a record is added and when it is removed.\<close>

theorem records_at_home:
  assumes "ioint_stable env" "lists_below env a" "event_texts (scan_text env)" "put_run env a st"
  shows "(\<forall>r l. event_of env (rec_fields st r) = None \<longrightarrow>
           (r \<in> set (records st l) \<longleftrightarrow> fixed_home env r (rec_fields st r) = Some l)) \<and>
    (\<forall>r. event_of env (rec_fields st r) \<noteq> None \<longrightarrow>
       (\<exists>pel. eventNameToHandle (scan_text env) (evnt (rec_fields st r)) st = (Some pel, st) \<and>
         (\<forall>l. r \<in> set (records st l) \<longleftrightarrow> l = event_scan_lists pel + scan_prio (rec_fields st r)))) \<and>
    (\<forall>r u. event_of env (rec_fields st r) \<noteq> None \<longrightarrow>
       (event_of env (rec_fields st u) = event_of env (rec_fields st r) \<longleftrightarrow>
        (\<exists>l. r \<in> set (records st l) \<and> u \<in> set (records st l)))) \<and>
    (\<forall>l. distinct (records st l)) \<and> (\<exists>st'. put_scan_field env r f st = Some st')"
proof -
  note ok = put_run_inv [OF assms(4,1-3)]
  then have wf: "scan_wf st (records st)" and h: "\<And>r. at_home env st r" by (simp_all add: homes_ok_def)
  have m: "r \<in> set (records st l) \<longleftrightarrow> pscan_list st r = Some l" for r l using scan_wfD(3) [OF wf] by simp
  have 1: "r \<in> set (records st l) \<longleftrightarrow> fixed_home env r (rec_fields st r) = Some l" if "event_of env (rec_fields st r) = None" for r l
    using h [of r] that by (simp add: m at_home_def home_def)
  have 2: "\<exists>pel. eventNameToHandle (scan_text env) (evnt (rec_fields st r)) st = (Some pel, st) \<and>
      (\<forall>l. r \<in> set (records st l) \<longleftrightarrow> l = event_scan_lists pel + scan_prio (rec_fields st r))"
    if e: "event_of env (rec_fields st r) \<noteq> None" for r
  proof -
    obtain k p where "event_of env (rec_fields st r) = Some (k, p)" using e by auto
    from event_home [OF ok assms(3) this] show ?thesis by (metis m option.inject)
  qed
  have 3: "event_of env (rec_fields st u) = event_of env (rec_fields st r) \<longleftrightarrow>
      (\<exists>l. r \<in> set (records st l) \<and> u \<in> set (records st l))" if e: "event_of env (rec_fields st r) \<noteq> None" for r u
  proof
    obtain k p where kp: "event_of env (rec_fields st r) = Some (k, p)" using e by auto
    assume "event_of env (rec_fields st u) = event_of env (rec_fields st r)"
    then show "\<exists>l. r \<in> set (records st l) \<and> u \<in> set (records st l)"
      using event_home [OF ok assms(3) kp] event_home [OF ok assms(3), of u k p] kp by (metis m option.inject)
  next
    assume "\<exists>l. r \<in> set (records st l) \<and> u \<in> set (records st l)"
    then show "event_of env (rec_fields st u) = event_of env (rec_fields st r)"
      using same_list [OF ok assms(2,3)] by (metis m)
  qed
  have "distinct (records st l)" for l by (rule ell_rep_distinct [OF scan_wfD(2) [OF wf]])
  with 1 2 3 show ?thesis using put_home [OF assms(1-3) ok, of r f] by blast
qed

text \<open>Two records on event 5, one of which was scanned periodically before, and is to be again.\<close>

lemma text_env0_events: "event_texts text_env0"
proof -
  have t: "takeWhile is_digit (show_nat n) = show_nat n" for n using show_nat_digits [of n] by simp
  have "takeWhile is_digit (s @ ws) = takeWhile is_digit s" if "\<forall>c \<in> set ws. isspace c" for s ws
  proof -
    have "takeWhile is_digit ws = []" using that digit_not_space by (cases ws) auto
    then show ?thesis
      by (cases "\<forall>c \<in> set s. is_digit c") (simp_all add: takeWhile_append takeWhile_eq_all_conv [THEN iffD2])
  qed
  then show ?thesis by (simp add: event_texts_def text_env0_def Let_def read_show_nat t)
qed

definition event_env :: scan_env where
  "event_env = \<lparr>nPeriodic = 1, papPeriodic = [0 \<mapsto> 7], get_ioint_info = Map.empty, scan_text = text_env0\<rparr>"

definition every_period :: scan_fields where
  "every_period = \<lparr>scan_menu = 3, phas = 0, evnt = [], scan_prio = 0\<rparr>"

definition on_event :: "string \<Rightarrow> scan_fields" where
  "on_event name = \<lparr>scan_menu = menuScanEvent, phas = 0, evnt = name, scan_prio = 2\<rparr>"

lemma event_env_ok: "ioint_stable event_env" "lists_below event_env 10" "event_texts (scan_text event_env)"
  using text_env0_events by (auto simp: event_env_def ioint_stable_def lists_below_def split: if_splits)

lemma event_5: "event_of event_env (on_event ''5'') = Some (Inl 5, 2)" "event_of event_env (on_event '' 5  '') = Some (Inl 5, 2)"
proof -
  have f: "show_nat 5 = ''5''" by code_simp
  have n: "event_number text_env0 ''5'' = Some 5" using number_show [OF text_env0_events, of 5] f by simp
  have t: "skip_space '' 5  '' = ''5  ''" "trim ''5  '' = ''5''" "skip_space ''5'' = ''5''"
    by (simp_all add: skip_space_def trim_def isspace_def)
  then have "event_number text_env0 ''5  '' = Some 5"
    using number_trim [OF text_env0_events, of "''5  ''"] n by (simp add: isspace_def)
  then show "event_of event_env (on_event ''5'') = Some (Inl 5, 2)" "event_of event_env (on_event '' 5  '') = Some (Inl 5, 2)"
    using n t by (simp_all add: event_of_def event_key_def event_env_def on_event_def)
qed

theorem records_at_home_witness:
  "\<exists>st pel st'. put_run event_env 10 st \<and> eventNameToHandle (scan_text event_env) ''5'' st = (Some pel, st) \<and>
     1 \<in> set (records st (event_scan_lists pel + 2)) \<and> 2 \<in> set (records st (event_scan_lists pel + 2)) \<and>
     put_scan_field event_env 1 every_period st = Some st'"
proof -
  note home = records_at_home [OF event_env_ok]
  let ?st = "empty_scan_db\<lparr>free_lists := 10\<rparr>"
  have 0: "put_run event_env 10 ?st" by (rule put_run.start)
  obtain st1 where 1: "put_scan_field event_env 1 every_period ?st = Some st1" using home [OF 0] by blast
  note run1 = put_run.put [OF 0 1]
  obtain st2 where 2: "put_scan_field event_env 1 (on_event ''5'') st1 = Some st2" using home [OF run1] by blast
  note run2 = put_run.put [OF run1 2]
  obtain st3 where 3: "put_scan_field event_env 2 (on_event '' 5  '') st2 = Some st3" using home [OF run2] by blast
  note run3 = put_run.put [OF run2 3]
  have f: "rec_fields st3 1 = on_event ''5''" "rec_fields st3 2 = on_event '' 5  ''"
    using put_fields [OF 3] put_fields(2) [OF 2] by (simp_all add: on_event_def)
  then have e: "event_of event_env (rec_fields st3 1) \<noteq> None"
    "event_of event_env (rec_fields st3 2) = event_of event_env (rec_fields st3 1)"
    using event_5 by simp_all
  obtain st4 where 4: "put_scan_field event_env 1 every_period st3 = Some st4" using home [OF run3] by blast
  obtain pel where pel: "eventNameToHandle (scan_text event_env) (evnt (rec_fields st3 1)) st3 = (Some pel, st3)"
    "\<forall>l. 1 \<in> set (records st3 l) \<longleftrightarrow> l = event_scan_lists pel + scan_prio (rec_fields st3 1)"
    using home [OF run3] e(1) by blast
  obtain l where "1 \<in> set (records st3 l)" "2 \<in> set (records st3 l)"
    using home [OF run3] e by blast
  then show ?thesis using run3 4 pel f(1) by (auto simp: on_event_def)
qed

end
