(* ===== verification/DbCallback.thy ===== *)
theory DbCallback
  imports RingBytes
begin

text \<open>
  ioc/db/callback.c: the queue of callbacks of one priority, on the locked pointer ring of RingBytes, with the threads
  that request callbacks and the one thread (\<open>callbackThreadsDefault\<close>) that runs them, in every interleaving. A
  callback is named by a number. Shown: accepted callbacks run once, in order, and are not forgotten by a sleeping
  thread; and a history after which every request is refused for ever.
\<close>

section \<open>The queue\<close>

abbreviation NUM_PRIORITIES :: nat where "NUM_PRIORITIES \<equiv> 3"

text \<open>\<open>semWakeUp\<close> is whether the event is full.\<close>

record cbQueueSet =
  cb_queue :: "nat ringPointer"
  queueOverflow :: bool
  semWakeUp :: bool

definition S_db_notInit :: int where "S_db_notInit = M_dbAccess + 67"
definition S_db_bufFull :: int where "S_db_bufFull = M_dbAccess + 68"

definition callback_init :: "nat \<Rightarrow> nat list \<Rightarrow> cbQueueSet" where
  "callback_init callbackQueueSize mem =
     \<lparr>cb_queue = epicsRingPointerCreate callbackQueueSize mem, queueOverflow = False, semWakeUp = False\<rparr>"

text \<open>\<open>callbackRequest\<close> when no other thread is in between: the priority and the callback, or a null pointer.\<close>

definition callbackRequest :: "(int \<times> nat) option \<Rightarrow> (nat \<Rightarrow> cbQueueSet) \<Rightarrow> int \<times> (nat \<Rightarrow> cbQueueSet)" where
  "callbackRequest pcallback qs = (case pcallback of
     None \<Rightarrow> (S_db_notInit, qs)
   | Some (prio, cb) \<Rightarrow>
       if prio < 0 \<or> int NUM_PRIORITIES \<le> prio then (S_db_badChoice, qs)
       else let mySet = qs (nat prio)
       in if queueOverflow mySet then (S_db_bufFull, qs)
          else (case epicsRingPointerPush (cb_queue mySet) cb of
             (False, q) \<Rightarrow> (S_db_bufFull, qs(nat prio := mySet\<lparr>cb_queue := q, queueOverflow := True\<rparr>))
           | (True, q) \<Rightarrow> (0, qs(nat prio := mySet\<lparr>cb_queue := q, semWakeUp := True\<rparr>))))"

section \<open>The threads\<close>

text \<open>Where a requesting thread and the thread that runs the callbacks are. \<open>RPush\<close>: the overflow flag was read and
  was clear; \<open>RFull\<close>: the ring was full, the flag is not yet set; \<open>RSignal\<close>: pushed, the event not yet signaled.\<close>

datatype req_pc = RIdle | RPush nat | RFull | RSignal
datatype task_pc = TCheck | TWait | TPop | TGot nat | TClear nat | TRun nat

record cb_state =
  cbset :: cbQueueSet
  reqs :: "nat \<Rightarrow> req_pc"
  task :: task_pc
  taken :: "nat list"
  executed :: "nat list"

text \<open>\<open>taken\<close> and \<open>executed\<close> are the callbacks accepted and run so far. A request that finds the flag set returns
  \<open>S_db_bufFull\<close> and changes nothing.\<close>

inductive cb_step :: "cb_state \<Rightarrow> cb_state \<Rightarrow> bool" where
  refused: "reqs s r = RIdle \<Longrightarrow> queueOverflow (cbset s) \<Longrightarrow> cb_step s s"
| admitted: "reqs s r = RIdle \<Longrightarrow> \<not> queueOverflow (cbset s) \<Longrightarrow> cb_step s (s\<lparr>reqs := (reqs s)(r := RPush cb)\<rparr>)"
| pushed: "reqs s r = RPush cb \<Longrightarrow> epicsRingPointerPush (cb_queue (cbset s)) cb = (True, q) \<Longrightarrow>
    cb_step s (s\<lparr>cbset := (cbset s)\<lparr>cb_queue := q\<rparr>, reqs := (reqs s)(r := RSignal), taken := taken s @ [cb]\<rparr>)"
| full: "reqs s r = RPush cb \<Longrightarrow> epicsRingPointerPush (cb_queue (cbset s)) cb = (False, q) \<Longrightarrow>
    cb_step s (s\<lparr>cbset := (cbset s)\<lparr>cb_queue := q\<rparr>, reqs := (reqs s)(r := RFull)\<rparr>)"
| flagged: "reqs s r = RFull \<Longrightarrow>
    cb_step s (s\<lparr>cbset := (cbset s)\<lparr>queueOverflow := True\<rparr>, reqs := (reqs s)(r := RIdle)\<rparr>)"
| signaled: "reqs s r = RSignal \<Longrightarrow>
    cb_step s (s\<lparr>cbset := (cbset s)\<lparr>semWakeUp := True\<rparr>, reqs := (reqs s)(r := RIdle)\<rparr>)"
| check: "task s = TCheck \<Longrightarrow> cb_step s (s\<lparr>task := (if epicsRingPointerIsEmpty (cb_queue (cbset s)) then TWait else TPop)\<rparr>)"
| woken: "task s = TWait \<Longrightarrow> semWakeUp (cbset s) \<Longrightarrow> cb_step s (s\<lparr>cbset := (cbset s)\<lparr>semWakeUp := False\<rparr>, task := TPop\<rparr>)"
| none: "task s = TPop \<Longrightarrow> epicsRingPointerPop (cb_queue (cbset s)) = (None, q) \<Longrightarrow>
    cb_step s (s\<lparr>cbset := (cbset s)\<lparr>cb_queue := q\<rparr>, task := TCheck\<rparr>)"
| popped: "task s = TPop \<Longrightarrow> epicsRingPointerPop (cb_queue (cbset s)) = (Some cb, q) \<Longrightarrow>
    cb_step s (s\<lparr>cbset := (cbset s)\<lparr>cb_queue := q\<rparr>, task := TGot cb\<rparr>)"
| trigger: "task s = TGot cb \<Longrightarrow>
    cb_step s (s\<lparr>cbset := (cbset s)\<lparr>semWakeUp := (semWakeUp (cbset s) \<or> \<not> epicsRingPointerIsEmpty (cb_queue (cbset s)))\<rparr>, task := TClear cb\<rparr>)"
| clear: "task s = TClear cb \<Longrightarrow> cb_step s (s\<lparr>cbset := (cbset s)\<lparr>queueOverflow := False\<rparr>, task := TRun cb\<rparr>)"
| ran: "task s = TRun cb \<Longrightarrow> cb_step s (s\<lparr>executed := executed s @ [cb], task := TPop\<rparr>)"

definition cb_start :: "nat \<Rightarrow> nat list \<Rightarrow> cb_state" where
  "cb_start n mem = \<lparr>cbset = callback_init n mem, reqs = (\<lambda>_. RIdle), task = TCheck, taken = [], executed = []\<rparr>"

section \<open>What the ring promises\<close>

abbreviation waiting :: "cb_state \<Rightarrow> nat list" where
  "waiting s \<equiv> rp_contents (cb_queue (cbset s))"

fun in_hand :: "task_pc \<Rightarrow> nat list" where
  "in_hand (TGot cb) = [cb]" | "in_hand (TClear cb) = [cb]" | "in_hand (TRun cb) = [cb]" | "in_hand _ = []"

definition signaling :: "(nat \<Rightarrow> req_pc) \<Rightarrow> bool" where
  "signaling f \<longleftrightarrow> (\<exists>r. f r = RSignal)"

lemma signaling_upd: "f r \<noteq> RSignal \<Longrightarrow> signaling f \<Longrightarrow> signaling (f(r := pc))" "signaling (f(r := RSignal))"
  unfolding signaling_def by (metis fun_upd_other, metis fun_upd_same)

definition cb_inv :: "nat \<Rightarrow> cb_state \<Rightarrow> bool" where
  "cb_inv n s \<longleftrightarrow> rp_inv (cb_queue (cbset s)) \<and> rp_size (cb_queue (cbset s)) - 1 = n \<and>
     taken s = executed s @ in_hand (task s) @ waiting s \<and>
     (task s = TWait \<and> waiting s \<noteq> [] \<longrightarrow> semWakeUp (cbset s) \<or> signaling (reqs s))"

lemma cb_inv_start: "length mem = Suc n \<Longrightarrow> cb_inv n (cb_start n mem)"
  by (simp add: cb_inv_def cb_start_def callback_init_def epicsRingPointerCreate_def rp_inv_def rp_contents_def)

lemmas cb_push = pointer_ring.push_spec
lemmas cb_pop = pointer_ring.pop_spec

lemma cb_empty_iff:
  assumes "rp_inv r"
  shows "epicsRingPointerIsEmpty r \<longleftrightarrow> rp_contents r = []"
  using pointer_ring_counts [OF assms, of undefined] by argo

lemma cb_push_ok:
  assumes "rp_inv r" "epicsRingPointerPush r x = (True, q)"
  shows "rp_inv q" "rp_size q - 1 = rp_size r - 1" "rp_contents q = rp_contents r @ [x]"
proof -
  have p: "rp_inv q \<and> rp_size q - 1 = rp_size r - 1 \<and>
      (if length (rp_contents r) < rp_size r - 1 then True \<and> rp_contents q = rp_contents r @ [x] else \<not> True \<and> q = r)"
    by (rule cb_push [OF assms])
  then have "length (rp_contents r) < rp_size r - 1" by argo
  then show "rp_inv q" "rp_size q - 1 = rp_size r - 1" "rp_contents q = rp_contents r @ [x]" using p by argo+
qed

lemma cb_push_refused: "rp_inv r \<Longrightarrow> epicsRingPointerPush r x = (False, q) \<Longrightarrow> q = r"
  using cb_push [of r x False q] by (simp split: if_splits)

lemma cb_pop_some:
  assumes "rp_inv r" "epicsRingPointerPop r = (Some x, q)"
  shows "rp_inv q" "rp_size q - 1 = rp_size r - 1" "rp_contents r = x # rp_contents q"
  using cb_pop [OF assms] by (simp_all split: list.splits)

lemma cb_pop_none:
  assumes "rp_inv r" "epicsRingPointerPop r = (None, q)"
  shows "rp_inv q" "rp_size q - 1 = rp_size r - 1" "rp_contents r = []" "rp_contents q = []"
  using cb_pop [OF assms] by (simp_all split: list.splits)

lemma cb_inv_step:
  assumes inv: "cb_inv n s" and step: "cb_step s s'"
  shows "cb_inv n s'"
proof -
  have r: "rp_inv (cb_queue (cbset s))" using inv by (simp add: cb_inv_def)
  show ?thesis
    using step
  proof cases
    case (pushed r cb q)
    then show ?thesis using inv cb_push_ok [OF r pushed(3)] signaling_upd(2) by (simp add: cb_inv_def)
  next
    case (full r cb q)
    then show ?thesis using inv cb_push_refused [OF r full(3)] signaling_upd(1) [of "reqs s" r RFull] by (auto simp: cb_inv_def)
  next
    case check
    then show ?thesis using inv cb_empty_iff [OF r] by (auto simp: cb_inv_def)
  next
    case (none q)
    then show ?thesis using inv cb_pop_none [OF r none(3)] by (simp add: cb_inv_def)
  next
    case (popped cb q)
    then show ?thesis using inv cb_pop_some [OF r popped(3)] by (simp add: cb_inv_def)
  next
    case (flagged r)
    then show ?thesis using inv signaling_upd(1) [of "reqs s" r RIdle] by (auto simp: cb_inv_def)
  next
    case (admitted r cb)
    then show ?thesis using inv signaling_upd(1) [of "reqs s" r "RPush cb"] by (auto simp: cb_inv_def)
  qed (use inv in \<open>auto simp: cb_inv_def\<close>)
qed

lemma cb_inv_run: "cb_step\<^sup>*\<^sup>* (cb_start n mem) s \<Longrightarrow> length mem = Suc n \<Longrightarrow> cb_inv n s"
proof (induction rule: rtranclp_induct)
  case base
  then show ?case by (rule cb_inv_start)
next
  case (step y z)
  then show ?case using cb_inv_step by blast
qed

text \<open>A request during which nobody else moves is \<open>callbackRequest\<close>.\<close>

lemma callbackRequest_steps:
  assumes idle: "reqs s r = RIdle" and prio: "0 \<le> prio" "prio < int NUM_PRIORITIES" and qs: "cbset s = qs (nat prio)"
    and req: "callbackRequest (Some (prio, cb)) qs = (status, qs')"
  shows "\<exists>s'. cb_step\<^sup>*\<^sup>* s s' \<and> cbset s' = qs' (nat prio) \<and> reqs s' = reqs s \<and> task s' = task s \<and>
    taken s' = (if status = 0 then taken s @ [cb] else taken s)"
proof (cases "queueOverflow (cbset s)")
  case True
  then show ?thesis using prio req qs by (auto simp: callbackRequest_def Let_def S_db_bufFull_def M_dbAccess_def)
next
  case False
  obtain ok q where p: "epicsRingPointerPush (cb_queue (cbset s)) cb = (ok, q)" by fastforce
  let ?a = "s\<lparr>reqs := (reqs s)(r := RPush cb)\<rparr>"
  have a: "cb_step s ?a" using cb_step.admitted [OF idle False] by simp
  show ?thesis
  proof (cases ok)
    case True
    let ?b = "?a\<lparr>cbset := (cbset s)\<lparr>cb_queue := q\<rparr>, reqs := (reqs ?a)(r := RSignal), taken := taken s @ [cb]\<rparr>"
    let ?c = "?b\<lparr>cbset := (cbset ?b)\<lparr>semWakeUp := True\<rparr>, reqs := (reqs ?b)(r := RIdle)\<rparr>"
    have "cb_step ?a ?b" using cb_step.pushed [of ?a r cb q] p True by simp
    moreover have "cb_step ?b ?c" using cb_step.signaled [of ?b r] by simp
    ultimately have "cb_step\<^sup>*\<^sup>* s ?c" using a by (meson rtranclp.rtrancl_into_rtrancl rtranclp.rtrancl_refl)
    moreover have "cbset ?c = qs' (nat prio)" "status = 0"
      using False True p prio req qs by (auto simp: callbackRequest_def Let_def)
    ultimately show ?thesis using idle by (intro exI [of _ ?c]) (auto simp: fun_upd_idem)
  next
    case bad: False
    let ?b = "?a\<lparr>cbset := (cbset s)\<lparr>cb_queue := q\<rparr>, reqs := (reqs ?a)(r := RFull)\<rparr>"
    let ?c = "?b\<lparr>cbset := (cbset ?b)\<lparr>queueOverflow := True\<rparr>, reqs := (reqs ?b)(r := RIdle)\<rparr>"
    have "cb_step ?a ?b" using cb_step.full [of ?a r cb q] p bad by simp
    moreover have "cb_step ?b ?c" using cb_step.flagged [of ?b r] by simp
    ultimately have "cb_step\<^sup>*\<^sup>* s ?c" using a by (meson rtranclp.rtrancl_into_rtrancl rtranclp.rtrancl_refl)
    moreover have "cbset ?c = qs' (nat prio)" "status \<noteq> 0"
      using False bad p prio req qs by (auto simp: callbackRequest_def Let_def S_db_bufFull_def M_dbAccess_def)
    ultimately show ?thesis using idle by (intro exI [of _ ?c]) (auto simp: fun_upd_idem)
  qed
qed

section \<open>The dead end\<close>

text \<open>The queue is empty, the thread sleeps and nobody is going to signal it, and the overflow flag is set.\<close>

definition dead :: "cb_state \<Rightarrow> bool" where
  "dead s \<longleftrightarrow> queueOverflow (cbset s) \<and> task s = TWait \<and> \<not> semWakeUp (cbset s) \<and> (\<forall>r. reqs s r = RIdle)"

lemma dead_step: "dead s \<Longrightarrow> cb_step s s' \<Longrightarrow> s' = s"
  by (erule cb_step.cases) (auto simp: dead_def)

lemma dead_for_ever: "cb_step\<^sup>*\<^sup>* s s' \<Longrightarrow> dead s \<Longrightarrow> s' = s"
  by (induction rule: rtranclp_induct) (use dead_step in blast)+

text \<open>A history to it: the queue fills up, one more request finds it full, and before that request sets the flag the
  thread runs every callback and goes to sleep.\<close>

definition only0 :: "req_pc \<Rightarrow> nat \<Rightarrow> req_pc" where
  "only0 pc = (\<lambda>_. RIdle)(0 := pc)"

lemma only0_simps [simp]: "only0 pc 0 = pc" "(only0 pc)(0 := pc') = only0 pc'" "only0 RIdle = (\<lambda>_. RIdle)"
  by (auto simp: only0_def)

lemma fill_one:
  assumes "reqs s = only0 RIdle" "\<not> queueOverflow (cbset s)" "rp_inv (cb_queue (cbset s))"
    "length (waiting s) < rp_size (cb_queue (cbset s)) - 1"
  shows "\<exists>q. cb_step\<^sup>*\<^sup>* s (s\<lparr>cbset := (cbset s)\<lparr>cb_queue := q, semWakeUp := True\<rparr>, taken := taken s @ [7]\<rparr>) \<and>
    rp_inv q \<and> rp_size q - 1 = rp_size (cb_queue (cbset s)) - 1 \<and> length (rp_contents q) = Suc (length (waiting s))"
proof -
  obtain ok q where p: "epicsRingPointerPush (cb_queue (cbset s)) 7 = (ok, q)" by fastforce
  have q: "ok" "rp_inv q" "rp_size q - 1 = rp_size (cb_queue (cbset s)) - 1" "rp_contents q = waiting s @ [7]"
    using cb_push [OF assms(3) p] assms(4) by simp_all
  let ?a = "s\<lparr>reqs := only0 (RPush 7)\<rparr>"
  let ?b = "?a\<lparr>cbset := (cbset s)\<lparr>cb_queue := q\<rparr>, reqs := only0 RSignal, taken := taken s @ [7]\<rparr>"
  let ?c = "?b\<lparr>cbset := (cbset ?b)\<lparr>semWakeUp := True\<rparr>, reqs := only0 RIdle\<rparr>"
  have "cb_step s ?a" using cb_step.admitted [of s 0 7] assms(1,2) by (simp add: only0_def)
  moreover have "cb_step ?a ?b" using cb_step.pushed [of ?a 0 7 q] p q(1) by simp
  moreover have "cb_step ?b ?c" using cb_step.signaled [of ?b 0] by simp
  ultimately have "cb_step\<^sup>*\<^sup>* s ?c" by (meson rtranclp.rtrancl_into_rtrancl rtranclp.rtrancl_refl)
  moreover have "?c = s\<lparr>cbset := (cbset s)\<lparr>cb_queue := q, semWakeUp := True\<rparr>, taken := taken s @ [7]\<rparr>"
    using assms(1) by simp
  ultimately show ?thesis using q by auto
qed

lemma drain_one:
  assumes "task s = TPop" "rp_inv (cb_queue (cbset s))" "waiting s = x # xs"
  shows "\<exists>q sem. cb_step\<^sup>*\<^sup>* s (s\<lparr>cbset := \<lparr>cb_queue = q, queueOverflow = False, semWakeUp = sem\<rparr>, executed := executed s @ [x]\<rparr>) \<and>
    rp_inv q \<and> rp_size q - 1 = rp_size (cb_queue (cbset s)) - 1 \<and> rp_contents q = xs"
proof -
  obtain y q where p: "epicsRingPointerPop (cb_queue (cbset s)) = (y, q)" by fastforce
  have q: "y = Some x" "rp_inv q" "rp_size q - 1 = rp_size (cb_queue (cbset s)) - 1" "rp_contents q = xs" using cb_pop [OF assms(2) p] assms(3) by simp_all
  let ?a = "s\<lparr>cbset := (cbset s)\<lparr>cb_queue := q\<rparr>, task := TGot x\<rparr>"
  let ?sem = "semWakeUp (cbset s) \<or> \<not> epicsRingPointerIsEmpty q"
  let ?b = "?a\<lparr>cbset := (cbset ?a)\<lparr>semWakeUp := ?sem\<rparr>, task := TClear x\<rparr>"
  let ?c = "?b\<lparr>cbset := (cbset ?b)\<lparr>queueOverflow := False\<rparr>, task := TRun x\<rparr>"
  let ?d = "?c\<lparr>executed := executed ?c @ [x], task := TPop\<rparr>"
  have "cb_step s ?a" using cb_step.popped [of s x q] assms(1) p q(1) by simp
  moreover have "cb_step ?a ?b" using cb_step.trigger [of ?a x] by simp
  moreover have "cb_step ?b ?c" using cb_step.clear [of ?b x] by simp
  moreover have "cb_step ?c ?d" using cb_step.ran [of ?c x] by simp
  ultimately have "cb_step\<^sup>*\<^sup>* s ?d" by (meson rtranclp.rtrancl_into_rtrancl rtranclp.rtrancl_refl)
  moreover have "?d = s\<lparr>cbset := \<lparr>cb_queue = q, queueOverflow = False, semWakeUp = ?sem\<rparr>, executed := executed s @ [x]\<rparr>"
    using assms(1) by (cases "cbset s") simp
  ultimately show ?thesis using q by metis
qed

text \<open>The states of the history: everything but the ring, the event and the lists of callbacks is fixed.\<close>

definition cb_at :: "nat \<Rightarrow> nat list \<Rightarrow> bool \<Rightarrow> req_pc \<Rightarrow> task_pc \<Rightarrow> nat \<Rightarrow> cb_state \<Rightarrow> bool" where
  "cb_at n mem ov pc tsk k s \<longleftrightarrow> cb_step\<^sup>*\<^sup>* (cb_start n mem) s \<and> rp_inv (cb_queue (cbset s)) \<and>
     rp_size (cb_queue (cbset s)) - 1 = n \<and> queueOverflow (cbset s) = ov \<and> reqs s = only0 pc \<and> task s = tsk \<and>
     length (waiting s) = k"

lemma cb_atD:
  assumes "cb_at n mem ov pc tsk k s"
  shows "cb_step\<^sup>*\<^sup>* (cb_start n mem) s" "rp_inv (cb_queue (cbset s))" "rp_size (cb_queue (cbset s)) - 1 = n"
    "queueOverflow (cbset s) = ov" "reqs s = only0 pc" "task s = tsk" "length (waiting s) = k"
  using assms unfolding cb_at_def by blast+

lemma cb_filled:
  assumes "length mem = Suc n" "k \<le> n"
  shows "\<exists>s. cb_at n mem False RIdle TCheck k s \<and> (0 < k \<longrightarrow> semWakeUp (cbset s))"
  using assms(2)
proof (induction k)
  case 0
  have "cb_at n mem False RIdle TCheck 0 (cb_start n mem)"
    using cb_inv_start [OF assms(1)] by (simp add: cb_at_def cb_inv_def cb_start_def callback_init_def)
  then show ?case by blast
next
  case (Suc k)
  then obtain s where s: "cb_at n mem False RIdle TCheck k s" by auto
  note a = cb_atD [OF s]
  obtain q where q: "cb_step\<^sup>*\<^sup>* s (s\<lparr>cbset := (cbset s)\<lparr>cb_queue := q, semWakeUp := True\<rparr>, taken := taken s @ [7]\<rparr>)"
    "rp_inv q" "rp_size q - 1 = rp_size (cb_queue (cbset s)) - 1" "length (rp_contents q) = Suc (length (waiting s))"
    using fill_one [of s] a Suc.prems by auto
  have "cb_at n mem False RIdle TCheck (Suc k) (s\<lparr>cbset := (cbset s)\<lparr>cb_queue := q, semWakeUp := True\<rparr>, taken := taken s @ [7]\<rparr>)"
    using rtranclp_trans [OF a(1) q(1)] q(2-4) a(3-7) by (simp add: cb_at_def)
  then show ?case by fastforce
qed

lemma cb_drained:
  assumes "cb_at n mem False pc TPop k s"
  shows "\<exists>s'. cb_at n mem False pc TPop 0 s'"
  using assms
proof (induction k arbitrary: s)
  case (Suc k)
  note a = cb_atD [OF Suc.prems]
  obtain x xs where x: "waiting s = x # xs" using a(7) by (cases "waiting s") auto
  obtain q sem where q: "cb_step\<^sup>*\<^sup>* s (s\<lparr>cbset := \<lparr>cb_queue = q, queueOverflow = False, semWakeUp = sem\<rparr>, executed := executed s @ [x]\<rparr>)"
    "rp_inv q" "rp_size q - 1 = rp_size (cb_queue (cbset s)) - 1" "rp_contents q = xs"
    using drain_one [OF a(6,2) x] by blast
  have "cb_at n mem False pc TPop k (s\<lparr>cbset := \<lparr>cb_queue = q, queueOverflow = False, semWakeUp = sem\<rparr>, executed := executed s @ [x]\<rparr>)"
    using rtranclp_trans [OF a(1) q(1)] q(2-4) a(3,5,6,7) x by (simp add: cb_at_def)
  then show ?case by (rule Suc.IH)
qed blast

lemma cb_at_step:
  assumes "cb_at n mem ov pc tsk k s" "cb_step s s'" "cb_queue (cbset s') = cb_queue (cbset s)" "queueOverflow (cbset s') = ov'"
    "reqs s' = only0 pc'" "task s' = tsk'"
  shows "cb_at n mem ov' pc' tsk' k s'"
  using assms rtranclp.rtrancl_into_rtrancl [OF cb_atD(1) [OF assms(1)] assms(2)] by (simp add: cb_at_def)

lemma cb_idle:
  assumes "cb_at n mem ov pc TPop 0 s"
  shows "\<exists>s'. cb_at n mem ov pc TWait 0 s' \<and> semWakeUp (cbset s') = semWakeUp (cbset s)"
proof -
  note a = cb_atD [OF assms]
  obtain y q where p: "epicsRingPointerPop (cb_queue (cbset s)) = (y, q)" by fastforce
  then have "y = None" using cb_pop [OF a(2) p] a(7) by simp
  then have "q = cb_queue (cbset s)" using p by (auto simp: epicsRingPointerPop_def Let_def split: if_splits)
  let ?a = "s\<lparr>cbset := (cbset s)\<lparr>cb_queue := q\<rparr>, task := TCheck\<rparr>"
  have "cb_at n mem ov pc TCheck 0 ?a"
    by (rule cb_at_step [OF assms cb_step.none]) (use p a \<open>y = None\<close> \<open>q = cb_queue (cbset s)\<close> in simp_all)
  moreover have "epicsRingPointerIsEmpty (cb_queue (cbset ?a))"
    using cb_empty_iff [OF a(2)] a(7) \<open>q = cb_queue (cbset s)\<close> by simp
  ultimately have "cb_at n mem ov pc TWait 0 (?a\<lparr>task := (if epicsRingPointerIsEmpty (cb_queue (cbset ?a)) then TWait else TPop)\<rparr>)"
    by (rule_tac cb_at_step [OF _ cb_step.check]) (use a in simp_all)
  then show ?thesis by (intro exI [of _ "?a\<lparr>task := (if epicsRingPointerIsEmpty (cb_queue (cbset ?a)) then TWait else TPop)\<rparr>"] conjI) simp_all
qed

lemma cb_asleep:
  assumes "cb_at n mem ov pc TPop 0 s"
  shows "\<exists>s'. cb_at n mem ov pc TWait 0 s' \<and> \<not> semWakeUp (cbset s')"
proof -
  obtain s1 where 1: "cb_at n mem ov pc TWait 0 s1" using cb_idle [OF assms] by blast
  show ?thesis
  proof (cases "semWakeUp (cbset s1)")
    case True
    let ?b = "s1\<lparr>cbset := (cbset s1)\<lparr>semWakeUp := False\<rparr>, task := TPop\<rparr>"
    have "cb_at n mem ov pc TPop 0 ?b"
      by (rule cb_at_step [OF 1 cb_step.woken]) (use cb_atD [OF 1] True in simp_all)
    from cb_idle [OF this] show ?thesis by auto
  qed (use 1 in blast)
qed

lemma reach_dead:
  assumes "length mem = Suc n" "0 < n"
  shows "\<exists>s. cb_step\<^sup>*\<^sup>* (cb_start n mem) s \<and> dead s \<and> waiting s = []"
proof -
  obtain s where s: "cb_at n mem False RIdle TCheck n s" using cb_filled [OF assms(1), of n] by blast
  note a = cb_atD [OF s]
  let ?b = "s\<lparr>reqs := only0 (RPush 9)\<rparr>"
  have "cb_step s ?b" using cb_step.admitted [of s 0 9] a(4,5) by (simp add: only0_def)
  then have b: "cb_at n mem False (RPush 9) TCheck n ?b" by (rule cb_at_step [OF s]) (use a in simp_all)
  obtain ok q where p: "epicsRingPointerPush (cb_queue (cbset ?b)) 9 = (ok, q)" by fastforce
  have q: "\<not> ok" "q = cb_queue (cbset s)" using cb_push [OF cb_atD(2) [OF b] p] a(3,7) by simp_all
  let ?c = "?b\<lparr>cbset := (cbset ?b)\<lparr>cb_queue := q\<rparr>, reqs := (reqs ?b)(0 := RFull)\<rparr>"
  have c: "cb_at n mem False RFull TCheck n ?c"
    by (rule cb_at_step [OF b cb_step.full]) (use p q a in simp_all)
  have "\<not> epicsRingPointerIsEmpty (cb_queue (cbset ?c))"
    using cb_empty_iff [OF cb_atD(2) [OF c]] cb_atD(7) [OF c] assms(2) by auto
  then have "cb_at n mem False RFull TPop n (?c\<lparr>task := (if epicsRingPointerIsEmpty (cb_queue (cbset ?c)) then TWait else TPop)\<rparr>)"
    by (rule_tac cb_at_step [OF c cb_step.check]) (use cb_atD [OF c] in simp_all)
  then obtain s1 where "cb_at n mem False RFull TPop 0 s1" using cb_drained by blast
  then obtain s2 where 2: "cb_at n mem False RFull TWait 0 s2" "\<not> semWakeUp (cbset s2)" using cb_asleep by blast
  let ?d = "s2\<lparr>cbset := (cbset s2)\<lparr>queueOverflow := True\<rparr>, reqs := (reqs s2)(0 := RIdle)\<rparr>"
  have d: "cb_at n mem True RIdle TWait 0 ?d"
    by (rule cb_at_step [OF 2(1) cb_step.flagged]) (use cb_atD [OF 2(1)] in simp_all)
  then have "dead ?d" using cb_atD [OF d] 2(2) by (simp add: dead_def)
  then show ?thesis using cb_atD(1,7) [OF d] by auto
qed

section \<open>Properties\<close>

text \<open>C39: every callback that a request has put in the queue is run once, in the order of the requests: those run, the
  one in hand and those waiting are all that were accepted; and while some wait and the thread sleeps, the
  event is full or about to be signaled.\<close>

theorem callbacks_run_in_order:
  assumes "cb_step\<^sup>*\<^sup>* (cb_start n mem) s" "length mem = Suc n"
  shows "taken s = executed s @ in_hand (task s) @ waiting s \<and>
    (task s = TWait \<and> waiting s \<noteq> [] \<longrightarrow> semWakeUp (cbset s) \<or> signaling (reqs s))"
  using cb_inv_run [OF assms] by (simp add: cb_inv_def)

text \<open>C40: a request sets the overflow flag some time after it has found the queue full. When the thread has run all
  callbacks by then, the flag stays set over an empty queue: every later request is refused, and no callback of
  this priority is run again.\<close>

theorem overflow_flag_stops_callbacks:
  assumes "length mem = Suc n" "0 < n"
  shows "\<exists>s. cb_step\<^sup>*\<^sup>* (cb_start n mem) s \<and> waiting s = [] \<and> queueOverflow (cbset s) \<and>
    (\<forall>s'. cb_step\<^sup>*\<^sup>* s s' \<longrightarrow> taken s' = taken s \<and> executed s' = executed s \<and> queueOverflow (cbset s'))"
proof -
  obtain s where s: "cb_step\<^sup>*\<^sup>* (cb_start n mem) s" "dead s" "waiting s = []" using reach_dead [OF assms] by blast
  moreover have "queueOverflow (cbset s)" using s(2) by (simp add: dead_def)
  ultimately show ?thesis using dead_for_ever [OF _ s(2)] by blast
qed

section \<open>Witnesses\<close>

theorem callbacks_run_in_order_witness:
  "\<exists>s. cb_step\<^sup>*\<^sup>* (cb_start 1 [0, 0]) s \<and> task s = TWait \<and> waiting s = [] \<and> taken s = executed s"
proof -
  obtain s where s: "cb_step\<^sup>*\<^sup>* (cb_start 1 [0, 0]) s" "dead s" "waiting s = []" using reach_dead [of "[0, 0]" 1] by auto
  moreover have "task s = TWait" using s(2) by (simp add: dead_def)
  ultimately show ?thesis using callbacks_run_in_order [OF s(1)] by auto
qed

theorem overflow_flag_stops_callbacks_witness:
  "\<exists>s. cb_step\<^sup>*\<^sup>* (cb_start 2000 (replicate 2001 0)) s \<and> waiting s = [] \<and> queueOverflow (cbset s)"
  using overflow_flag_stops_callbacks [of "replicate 2001 0" 2000] by auto

end
