(* ===== verification/Spec2Isabelle.thy ===== *)
theory Spec2Isabelle
  imports RackTemp RackProt RingBytes EllSort CalcParse DbReply DbEventLaws DbScanHome DbCallback
begin

text \<open>
  Verification of the rack monitor IOC (the EPICS application under src/RackmonIoc) and of the parts
  of EPICS base it rests on.

  The program. An EPICS IOC on a BeagleBone reads DS75 thermometers behind a switched I2C bus, a
  rack protection status bit, and drives a heartbeat line. Four C files are its own: dev_gpio.c
  (sysfs GPIO), dev_i2c.c (bus transactions under a mutex), devAiRackTemp.c (device support of the
  temperature records) and devBiRackProt.c (device support of the protection record). The database
  RackmonIoc.db instantiates ai, ao and bi records; record support (std/rec) processes them, calls
  device support through an entry table, converts, checks alarms, and posts events through the
  shared routines of ioc/db/recGbl.c, whose containers come from libCom.

  Theories, in dependency order.

  \<^item> Prelude: machine types, status codes, the collections \<open>io_simps\<close>, \<open>dbl_simps\<close>, \<open>rec_simps\<close>,
    \<open>heap_simps\<close>, and generic lemmas.
  \<^item> DoubleFP: IEEE binary64 (round to nearest even, NaN, infinities, signed zero) on rationals, with
    exactness lemmas for integers and dyadic fractions.
  \<^item> Posix: C strings, \<open>%d\<close>, and the operating system as a record of functions over an abstract kernel
    state; every call is logged in a trace, undefined behaviour as the event \<open>EvUB\<close>. RefBoard is one
    concrete board for witnesses.
  \<^item> Gpio (dev_gpio.c), I2cBus (dev_i2c.c): state monad programs over the operating system, in
    which every exit is its own jump to the label that unlocks the mutex. Shown: the mutex discipline on every path, what is decoded and encoded, when a transaction succeeds, round
    trips of limits and tachometer messages.
  \<^item> RecGbl (recGbl.c, link access of dbLink.c, dbProcess and alarm acknowledgement of dbAccess.c):
    records extend \<open>dbCommon\<close>; what is outside a record is the parameter \<open>rec_env\<close>. Shown: severity
    maximisation, latching of transient alarms, an invariant over all sequences of alarm operations
    and passes of \<open>dbProcess\<close>, which may disable the record (an inductive step relation), deadbands, and what happens to a record that stays active.
  \<^item> AiRecord, BiRecord, AoRecord (std/rec): one record type each, the device support table an
    argument. Shown: processing, hysteresis, simulation, conversions, drive and rate limits.
  \<^item> RackTemp, RackProt: the device support of the rack monitor. The locale \<open>ai_device\<close> is the contract
    record support relies on; \<open>devAiRackTemp\<close> is an interpretation of it, and the behaviour of
    processed records follows from it.
  \<^item> RingBytes (libCom/ring): the byte ring and the pointer ring of EPICS base. The locales \<open>fifo\<close> and
    \<open>fifo1\<close> are the contract of a bounded queue, interpreted on both rings; the unlocked use of the
    pointer ring by one writer and one reader is the step relation \<open>spsc_step\<close> on single memory
    accesses (with sequentially consistent memory).
  \<^item> EllLib, EllSort (libCom/ellLib): the doubly linked lists on an explicit store, where a null or freed
    pointer is an error value, and their merge sort. Shown: a forward simulation of every operation by
    operations on sequences, the assertions of \<open>ellVerify\<close> as an equivalence, lookup, and that the
    sort returns the stable sort. Loops along pointers are partial functions, shown to return.
  \<^item> CalcOps, CalcPostfix, CalcPerform (libCom/calc): the calculation engine, byte for byte, undefined
    behaviour being a result of its own. CalcLang gives expressions a meaning and shows that the
    evaluator computes it on their code.
  \<^item> CalcNotation, CalcParse: the infix notation as a printer of programs, and the proof that \<open>postfix\<close>
    translates what it prints into the code of CalcLang, so that translation and evaluation together
    compute the meaning of the notation.
  \<^item> DbTypes, DbGetConvert, DbPutConvert, DbFastConvert (ioc/db/dbConvert.c, dbFastLinkConv.c): the memory of
    a field as an array of its C type, and the routines between the nine numeric types, one definition per
    C function, with the tables that select them; the routines from and to strings are arguments of the
    tables, given by DbText. DbConvert describes all of them by one relation between types and windows of a circular
    array; DbRoundTrip says which pairs of conversions give the value back.
  \<^item> DbAccess (ioc/db/dbAccess.c): reading with all options, writing, special processing and monitors.
    The fields and the record support entry table of a record type are the parameter \<open>db_env\<close>. DbAccessLaws
    states the contract of a field's memory as the locale \<open>field_memory\<close>, interprets it on the value of ai
    records, and shows how the option blocks of a reply are laid out (the two alarm blocks overlap), the effect of
    writes and when a write processes the record.
  \<^item> CvtFast (libCom/cvtFast), DbText: numbers printed and scanned, and the routines from and to strings, menus and
    enumerations. DbTextLaws: integers are printed exactly and survive the way through text, doubles are printed
    to the nearest last place, and where a text overruns its field. DbReply: what \<open>dbGet\<close> writes fits the buffer
    that \<open>dbBufferSize\<close> computes, for every type, text included, and every set of options.
  \<^item> DbEvent (ioc/db/dbEvent.c): the queues between the records that post monitors and the event task of a client,
    with every interleaving of posts, subscriptions, cancels and deliveries as the step relation \<open>ev_step\<close>.
    DbEventRing shows that the ring implements operations on a list; DbEventLaws, by an invariant of all
    histories, that the newest value of a subscription is never lost, that the task drains the queue within the
    \<open>EVENTQUESIZE + 1\<close> iterations that bound its loop, and when the assertions of the code hold and fail.
  \<^item> DbScan (ioc/db/dbScan.c): the scan lists, on the linked lists of EllLib. DbScanLaws shows that a scan stays on its list whatever other threads change (all histories of
    the step relation \<open>scan_step\<close>), that it processes every record once when records only leave the list, where
    two scans of one list go wrong, and when phases are in order. DbScanHome: every record is on the list its fields select, those of
    events found by name, after every history of writes to the scan fields (\<open>put_run\<close>).
  \<^item> DbCallback (ioc/db/callback.c): the callback queue as a client of the contract \<open>fifo1\<close> of the pointer ring, with
    requesters and the callback thread as the step relation \<open>cb_step\<close>: callbacks run once and in order, and a
    history after which none runs.
  \<^item> This theory: properties that span components, from the bytes of the sensor to the alarm severity
    of the record.

  Conventions. Pointers to results become old value in, new value out; a null pointer is \<open>None\<close>. Loops
  are structural or have a termination proof, loops along pointers are partial functions into \<open>option\<close>
  that are shown to return; only the two loops around the ring of DbEvent are bounded, by numbers of
  iterations shown to be enough. Integers keep their width where they
  can wrap; a cast that C leaves undefined is a parameter of the environment with its defined part as
  a hypothesis. Plain \<open>char\<close> is signed or not by the parameters \<open>char_signed\<close> and \<open>plain_signed\<close>.

  Not modelled. Channel Access, the creation and the end of the event task, name lookup and the parsing of
  links, the database loader, the timing of periodic scans, delayed and parallel callbacks, breakpoint tables
  (a parameter), error printing, dbBkpt breakpoints and tracing, and the support modules asyn, calc (synApps)
  and StreamDevice, which the rack monitor's database does not use.
\<close>

section \<open>From the sensor to the alarm\<close>

text \<open>The alarm limits RackmonIoc.db gives the temperature records.\<close>

definition rack_limits :: "aiRecord \<Rightarrow> bool" where
  "rack_limits p \<longleftrightarrow>
     ai_hihi p = Fin 35 \<and> ai_high p = Fin 30 \<and> ai_low p = Fin 15 \<and> ai_lolo p = Fin 10 \<and>
     ai_hhsv p = 2 \<and> ai_hsv p = 1 \<and> ai_lsv p = 1 \<and> ai_llsv p = 2 \<and>
     ai_hyst p = Fin 0 \<and> ai_aftc p = Fin 0"

definition rack_severity :: "rat \<Rightarrow> enum16" where
  "rack_severity t = (if 35 \<le> t \<or> t \<le> 10 then 2 else if 30 \<le> t \<or> t \<le> 15 then 1 else 0)"

lemma rack_alarm_range:
  assumes "rack_limits p" "dfinite v"
  shows "fst (snd (ai_alarm_range (p\<lparr>ai_val := v\<rparr>))) = rack_severity (dval v)"
proof -
  have d: "dsub (Fin 35) (Fin 0) = Fin 35" "dsub (Fin 30) (Fin 0) = Fin 30"
      "dadd (Fin 10) (Fin 0) = Fin 10" "dadd (Fin 15) (Fin 0) = Fin 15"
    using dround_of_int [of 35] dround_of_int [of 30] dround_of_int [of 10] dround_of_int [of 15]
    by (simp_all add: dsub_def dadd_def)
  show ?thesis
    using assms by (simp add: rack_limits_def ai_alarm_range_def Let_def d dle_finite rack_severity_def)
qed

lemma read_temperature:
  assumes sel: "run_state (select_probe os (crem address 8)) s = (0, s1)"
    and bus: "os_ioctl os (global_fd_i2c s) (0x48 + (cdiv address 8 AND 7)) (kern s1) = (i, k1)" "0 \<le> i"
      "os_write os (global_fd_i2c s) [0] k1 = (Some 1, k2)"
      "os_read os (global_fd_i2c s) 2 k2 = (Some [hi, lo], k3)"
  shows "\<exists>s'. run_state (read_ai_value os address (CHR '' '') v) s = ((0, temp_of (char_signed os) hi lo), s')"
  using assms
  by (simp add: read_ai_value_def get_fd_def Let_def MAX_ISTUB_def read_temp_ds75_def goto_RETURN_def
      c_io_defs I2C_DS75_ADDR_BASE_def)

text \<open>What the driver makes of the two bytes: the temperature of the chip, except that with a signed plain
  \<open>char\<close> half of the fractions are a degree too low and with an unsigned one negative temperatures are 256
  degrees too high.\<close>

definition decoded_temp :: "bool \<Rightarrow> u8 \<Rightarrow> u8 \<Rightarrow> rat" where
  "decoded_temp c hi lo = ds_temp hi lo
     + (if c then if uint lo < 128 then 0 else - 1 else if 0 \<le> ds_temp hi lo then 0 else 256)"

lemma temp_of_decoded: "dfinite (temp_of c hi lo)" "dval (temp_of c hi lo) = decoded_temp c hi lo"
proof -
  have "0 \<le> uint lo" "uint lo < 256" "0 \<le> uint hi" "uint hi < 256"
    using uint_range_size [of lo] uint_range_size [of hi] by (simp_all add: word_size)
  then have "0 \<le> ds_temp hi lo \<longleftrightarrow> uint hi < 128"
    by (auto simp: ds_temp_def sint_uint_u8 [of hi] zero_le_divide_iff
        simp del: of_int_add of_int_mult of_int_diff)
  then show "dfinite (temp_of c hi lo)" "dval (temp_of c hi lo) = decoded_temp c hi lo"
    using temp_of_exact [of c hi lo] by (simp_all add: temp_of_ds_temp decoded_temp_def)
qed

text \<open>Below zero the error of the unsigned decoding does not show in the alarm: both temperatures are
  outside the limits, at opposite ends.\<close>

lemma unsigned_severity: "rack_severity (decoded_temp False hi lo) = rack_severity (ds_temp hi lo)"
proof (cases "0 \<le> ds_temp hi lo")
  case False
  have "- 128 \<le> sint hi" using sint_range_size [of hi] by (simp add: word_size)
  moreover have "0 \<le> uint lo" by simp
  ultimately have "- 32768 \<le> sint hi * 256 + uint lo" by linarith
  then have "(- 32768 :: rat) \<le> of_int (sint hi * 256 + uint lo)"
    by (metis of_int_le_iff of_int_minus of_int_numeral)
  then have "- 128 \<le> ds_temp hi lo" by (simp add: ds_temp_def del: of_int_add of_int_mult)
  with False show ?thesis by (simp add: decoded_temp_def rack_severity_def)
qed (simp add: decoded_temp_def)

text \<open>C1: From the sensor to the alarm, for a thermometer record as RackmonIoc.db sets it up (limits 35, 30, 15
  and 10 with severities MAJOR, MINOR, MINOR and MAJOR, no hysteresis and no alarm filter, no simulation, time
  stamps not taken from a link, INP without a letter) that is not active, when the stub is selected and
  the chip answers. Processing it makes VAL, exactly, the temperature the driver decodes from the two bytes: that
  of the chip, except that a signed plain \<open>char\<close> (linux-x86_64) makes the fractions from one half on a degree too
  low, and an unsigned one (linux-arm) a negative temperature 256 degrees too high. The severity is MAJOR when
  VAL is at least 35 or at most 10, otherwise MINOR at 30 and above or 15 and below, otherwise none, or what was
  pending when that is greater; on linux-arm it is the severity of the true temperature, negative ones included.\<close>

theorem temperature_to_alarm:
  assumes pr: "pact p = 0" "ai_siml p = CONSTANT c" "ai_simm p = 0" "tsel p = CONSTANT c'"
      "rack_limits p" "dpvt p = Some j" "private_data s ! j = (address, CHR '' '')"
    and sel: "run_state (select_probe os (crem address 8)) s = (0, s1)"
    and bus: "os_ioctl os (global_fd_i2c s) (0x48 + (cdiv address 8 AND 7)) (kern s1) = (i, k1)" "0 \<le> i"
      "os_write os (global_fd_i2c s) [0] k1 = (Some 1, k2)"
      "os_read os (global_fd_i2c s) 2 k2 = (Some [hi, lo], k3)"
  shows "(case ai_process env (Some (devAiRackTemp os)) p s of (st, p', s') \<Rightarrow>
     st = 0 \<and> pact p' = 0 \<and> udf p' = 0
     \<and> dfinite (ai_val p') \<and> dval (ai_val p') = decoded_temp (char_signed os) hi lo
     \<and> sevr p' = min 3 (max (nsev p) (rack_severity (dval (ai_val p'))))
     \<and> (\<not> char_signed os \<longrightarrow> sevr p' = min 3 (max (nsev p) (rack_severity (ds_temp hi lo)))))"
proof -
  have af: "\<not> dlt (Fin 0) (ai_aftc p)" using pr(5) by (simp add: rack_limits_def dlt_finite)
  obtain s2 where r: "run_state (read_ai_value os address (CHR '' '') (ai_val p)) s
      = ((0, temp_of (char_signed os) hi lo), s2)"
    using read_temperature [OF sel bus] by blast
  note t = temp_of_decoded [of "char_signed os" hi lo]
  from rack_temp_result [OF pr(1-4) af pr(6,7) r, of env]
  show ?thesis
    using rack_alarm_range [OF pr(5) t(1)] t unsigned_severity [of hi lo] by (auto split: prod.splits)
qed

definition probe0 :: aiRecord where
  "probe0 = ai0\<lparr>ai_hihi := Fin 35, ai_high := Fin 30, ai_low := Fin 15, ai_lolo := Fin 10,
     ai_hyst := Fin 0, nsev := 1, dpvt := Some 0\<rparr>"

text \<open>The chip is at 36.5 degrees below zero.\<close>

definition site0 :: "board rackmon" where
  "site0 = rack0\<lparr>kern := board0\<lparr>registers := (\<lambda>_ _. [219, 128])\<rparr>, private_data := [(9, CHR '' '')]\<rparr>"

theorem temperature_to_alarm_witness:
  "dval (ai_val (fst (snd (ai_process env_os (Some (devAiRackTemp (board_os False))) probe0 site0)))) = 439 / 2
   \<and> sevr (fst (snd (ai_process env_os (Some (devAiRackTemp (board_os False))) probe0 site0))) = 2"
proof -
  obtain s1 where s1: "run_state (select_probe (board_os False) 1) site0 = (0, s1)"
      "registers (kern s1) = (\<lambda>_ _. [219, 128])"
    by (simp add: select_probe_def gpio_write_eq c_io_defs board_os_def site0_def rack0_def board0_def)
  let ?k1 = "(kern s1)\<lparr>slave := 0x49\<rparr>" and ?k2 = "(kern s1)\<lparr>slave := 0x49, pointer := 0\<rparr>"
  have p: "pact probe0 = 0" "ai_siml probe0 = CONSTANT None" "ai_simm probe0 = 0"
      "tsel probe0 = CONSTANT None" "rack_limits probe0" "dpvt probe0 = Some 0" "nsev probe0 = 1"
    by (simp_all add: probe0_def ai0_simps rack_limits_def)
  have s: "private_data site0 ! 0 = (9, CHR '' '')" "global_fd_i2c site0 = 3"
    by (simp_all add: site0_def rack0_def)
  have b: "char_signed (board_os False) = False"
      "os_ioctl (board_os False) 3 0x49 (kern s1) = (0, ?k1)"
      "os_write (board_os False) 3 [0] ?k1 = (Some 1, ?k2)"
      "os_read (board_os False) 3 2 ?k2 = (Some [219, 128], ?k2)"
    using s1(2) by (simp_all add: board_os_def board_write_def)
  have t: "ds_temp 219 128 = - 73 / 2" by (simp add: ds_temp_def)
  show ?thesis
    using temperature_to_alarm [OF p(1-6) s(1), of "board_os False" s1 0 ?k1 ?k2 219 128 ?k2 env_os]
      s(2) s1(1) b t p(7)
    by (simp add: rack_severity_def decoded_temp_def case_prod_beta)
qed

end
